(* ===== verification/Prelude.thy ===== *)
theory Prelude
  imports Main "HOL-Library.Word"
begin

text \<open>
  Shared ground of the development: the Go standard-library string operations the sources use
  (over byte strings: a HOL \<^typ>\<open>char\<close> is one byte, as a Go string is a byte sequence), the
  decoded form of \<open>encoding/json\<close> values, 64-bit durations, the error values of the server and the
  theorem collections the component theories fill.
\<close>

named_theorems go_defs \<open>unfolding rules of one-line Go helpers\<close>
named_theorems gate_simps \<open>simplification rules for guard chains\<close>

section \<open>strings\<close>

subsection \<open>Split, SplitN, Join\<close>

text \<open>\<open>strings.Split\<close> with a one-byte separator; the result is never empty.\<close>

fun Split :: "char \<Rightarrow> string \<Rightarrow> string list" where
  "Split d [] = [[]]"
| "Split d (c # cs) =
     (if c = d then [] # Split d cs
      else (case Split d cs of [] \<Rightarrow> [[c]] | p # ps \<Rightarrow> (c # p) # ps))"

text \<open>\<open>strings.SplitN(s, sep, 2)\<close>: at most one cut, at the first separator.\<close>

fun SplitN2 :: "char \<Rightarrow> string \<Rightarrow> string list" where
  "SplitN2 d [] = [[]]"
| "SplitN2 d (c # cs) =
     (if c = d then [[], cs]
      else (case SplitN2 d cs of [] \<Rightarrow> [[c]] | p # ps \<Rightarrow> (c # p) # ps))"

fun Join :: "char \<Rightarrow> string list \<Rightarrow> string" where
  "Join d [] = []"
| "Join d [p] = p"
| "Join d (p # q # ps) = p @ d # Join d (q # ps)"

lemma Split_not_Nil [simp]: "Split d s \<noteq> []"
  by (induction s) (auto split: list.splits)

lemma Join_Cons: "ps \<noteq> [] \<Longrightarrow> Join d (p # ps) = p @ d # Join d ps"
  by (cases ps) auto

lemma Join_Cons_char: "Join d ((c # p) # ps) = c # Join d (p # ps)"
  by (cases ps) auto

lemma Join_Split [simp]: "Join d (Split d s) = s"
proof (induction s)
  case Nil
  then show ?case by simp
next
  case (Cons c cs)
  show ?case
  proof (cases "c = d")
    case True
    with Cons show ?thesis by (simp add: Join_Cons)
  next
    case False
    obtain p ps where ps: "Split d cs = p # ps" by (cases "Split d cs") auto
    with False Cons show ?thesis by (simp add: Join_Cons_char)
  qed
qed

lemma Split_no_sep: "p \<in> set (Split d s) \<Longrightarrow> d \<notin> set p"
proof (induction s arbitrary: p)
  case Nil
  then show ?case by simp
next
  case (Cons c cs)
  then show ?case
    by (cases "c = d"; cases "Split d cs") auto
qed

lemma Split_append_sep: "d \<notin> set p \<Longrightarrow> Split d (p @ d # s) = p # Split d s"
  by (induction p) auto

lemma Split_single: "d \<notin> set p \<Longrightarrow> Split d p = [p]"
  by (induction p) auto

lemma Split_Join:
  assumes "ps \<noteq> []" and "\<forall>p\<in>set ps. d \<notin> set p"
  shows "Split d (Join d ps) = ps"
  using assms
proof (induction ps)
  case Nil
  then show ?case by simp
next
  case (Cons p ps)
  show ?case
  proof (cases "ps = []")
    case True
    with Cons.prems show ?thesis by (simp add: Split_single)
  next
    case False
    with Cons show ?thesis by (simp add: Join_Cons Split_append_sep)
  qed
qed

lemma Join_inject:
  assumes "Join d ps = Join d qs" "ps \<noteq> []" "qs \<noteq> []"
    and "\<forall>p\<in>set ps. d \<notin> set p" "\<forall>q\<in>set qs. d \<notin> set q"
  shows "ps = qs"
  using assms Split_Join by metis

subsection \<open>HasPrefix, HasSuffix, Contains, TrimPrefix\<close>

definition HasPrefix :: "string \<Rightarrow> string \<Rightarrow> bool" where
  "HasPrefix s p \<longleftrightarrow> take (length p) s = p"

definition HasSuffix :: "string \<Rightarrow> string \<Rightarrow> bool" where
  "HasSuffix s p \<longleftrightarrow> HasPrefix (rev s) (rev p)"

fun Contains :: "string \<Rightarrow> string \<Rightarrow> bool" where
  "Contains [] p = (p = [])"
| "Contains (c # cs) p = (HasPrefix (c # cs) p \<or> Contains cs p)"

definition TrimPrefix :: "string \<Rightarrow> string \<Rightarrow> string" where
  "TrimPrefix s p = (if HasPrefix s p then drop (length p) s else s)"

lemma HasPrefix_append [simp]: "HasPrefix (p @ s) p"
  by (simp add: HasPrefix_def)

lemma HasPrefix_iff: "HasPrefix s p \<longleftrightarrow> (\<exists>r. s = p @ r)"
  by (metis HasPrefix_def append_eq_conv_conj)

lemma TrimPrefix_append [simp]: "TrimPrefix (p @ s) p = s"
  by (simp add: TrimPrefix_def)

subsection \<open>TrimSpace\<close>

text \<open>
  The UTF-8 encodings of the runes \<open>unicode.IsSpace\<close> accepts; \<open>strings.TrimSpace\<close> removes them
  at both ends. Encodings are self-synchronising, so cutting an encoded rune off either end of the
  byte string is what the library does.
\<close>

definition unicode_spaces :: "string list" where
  "unicode_spaces = map (map char_of)
     ([[9], [10], [11], [12], [13], [32], [0xC2, 0x85], [0xC2, 0xA0], [0xE1, 0x9A, 0x80]]
      @ map (\<lambda>b. [0xE2, 0x80, b]) [0x80..<0x8B]
      @ [[0xE2, 0x80, 0xA8], [0xE2, 0x80, 0xA9], [0xE2, 0x80, 0xAF], [0xE2, 0x81, 0x9F],
         [0xE3, 0x80, 0x80 :: nat]])"

function trim_front :: "string list \<Rightarrow> string \<Rightarrow> string" where
  "trim_front ws s =
     (case find (\<lambda>w. w \<noteq> [] \<and> HasPrefix s w) ws of
        None \<Rightarrow> s
      | Some w \<Rightarrow> trim_front ws (drop (length w) s))"
  by pat_completeness auto
termination
  by (relation "measure (\<lambda>(ws, s). length s)")
     (auto simp: find_Some_iff HasPrefix_iff)

declare trim_front.simps [simp del]

definition TrimSpace :: "string \<Rightarrow> string" where
  "TrimSpace s =
     rev (trim_front (map rev unicode_spaces) (rev (trim_front unicode_spaces s)))"

lemma trim_front_Nil [simp]: "trim_front ws [] = []"
  by (subst trim_front.simps) (auto simp: find_Some_iff HasPrefix_iff split: option.splits)

lemma TrimSpace_Nil [simp]: "TrimSpace [] = []"
  by (simp add: TrimSpace_def)

lemma TrimSpace_not_Nil: "TrimSpace s \<noteq> [] \<Longrightarrow> s \<noteq> []"
  by auto

text \<open>A string with no space rune at either end is left as it is.\<close>

definition unspaced :: "string \<Rightarrow> bool" where
  "unspaced s \<longleftrightarrow> (\<forall>w\<in>set unicode_spaces. \<not> HasPrefix s w \<and> \<not> HasSuffix s w)"

lemma trim_front_id: "(\<forall>w\<in>set ws. \<not> HasPrefix s w) \<Longrightarrow> trim_front ws s = s"
  by (subst trim_front.simps) (auto split: option.splits simp: find_Some_iff)

lemma TrimSpace_id: "unspaced s \<Longrightarrow> TrimSpace s = s"
  by (simp add: TrimSpace_def unspaced_def trim_front_id HasSuffix_def)

text \<open>Most strings of the program start and end with a printable ASCII character.\<close>

definition printable :: "char \<Rightarrow> bool" where
  "printable c \<longleftrightarrow> 33 \<le> (of_char c :: nat) \<and> (of_char c :: nat) \<le> 126"

lemma unicode_spaces_ends:
  "w \<in> set unicode_spaces \<Longrightarrow> w \<noteq> [] \<and> \<not> printable (hd w) \<and> \<not> printable (last w)"
  by (auto simp: unicode_spaces_def printable_def)

lemma printable_unspaced:
  assumes "s \<noteq> []" "printable (hd s)" "printable (last s)"
  shows "unspaced s"
  unfolding unspaced_def
proof (intro ballI conjI notI)
  fix w assume w: "w \<in> set unicode_spaces"
  { assume "HasPrefix s w"
    then obtain r where "s = w @ r" by (auto simp: HasPrefix_iff)
    with assms(2) unicode_spaces_ends[OF w] show False by simp }
  { assume "HasSuffix s w"
    then obtain r where "rev s = rev w @ r" by (auto simp: HasSuffix_def HasPrefix_iff)
    then have "s = rev r @ w" by (metis rev_append rev_rev_ident)
    with assms(3) unicode_spaces_ends[OF w] show False by simp }
qed

lemma TrimSpace_printable:
  "s \<noteq> [] \<Longrightarrow> printable (hd s) \<Longrightarrow> printable (last s) \<Longrightarrow> TrimSpace s = s"
  by (rule TrimSpace_id[OF printable_unspaced])

text \<open>Leading ASCII spaces go.\<close>

lemma TrimSpace_space: "TrimSpace (CHR '' '' # s) = TrimSpace s"
proof -
  have c: "CHR '' '' = char_of n \<longleftrightarrow> take_bit 8 n = 32" for n :: nat
    by (subst eq_commute) (simp add: char_of_eq_iff)
  have "find (\<lambda>w. w \<noteq> [] \<and> HasPrefix (CHR '' '' # s) w) unicode_spaces = Some [char_of (32 :: nat)]"
    by (simp add: unicode_spaces_def HasPrefix_def c)
  then have "trim_front unicode_spaces (CHR '' '' # s) = trim_front unicode_spaces s"
    by (subst trim_front.simps) simp
  then show ?thesis by (simp add: TrimSpace_def)
qed

section \<open>ASCII classes\<close>

definition is_lower :: "char \<Rightarrow> bool" where
  "is_lower c \<longleftrightarrow> 97 \<le> (of_char c :: nat) \<and> (of_char c :: nat) \<le> 122"

definition is_upper :: "char \<Rightarrow> bool" where
  "is_upper c \<longleftrightarrow> 65 \<le> (of_char c :: nat) \<and> (of_char c :: nat) \<le> 90"

definition is_digit :: "char \<Rightarrow> bool" where
  "is_digit c \<longleftrightarrow> 48 \<le> (of_char c :: nat) \<and> (of_char c :: nat) \<le> 57"

definition digit_val :: "char \<Rightarrow> nat" where
  "digit_val c = of_char c - 48"

text \<open>\<open>strconv.Itoa\<close> of a natural number.\<close>

fun Itoa :: "nat \<Rightarrow> string" where
  "Itoa n = (if n < 10 then [char_of (48 + n)] else Itoa (n div 10) @ [char_of (48 + n mod 10)])"

declare Itoa.simps [simp del]

definition to_lower :: "char \<Rightarrow> char" where
  "to_lower c = (if is_upper c then char_of (of_char c + 32 :: nat) else c)"

definition to_upper :: "char \<Rightarrow> char" where
  "to_upper c = (if is_lower c then char_of (of_char c - 32 :: nat) else c)"

section \<open>64-bit signed integers\<close>

text \<open>Go's \<open>int64\<close> arithmetic (and \<open>time.Duration\<close>): the exact result wrapped to two's complement.\<close>

definition max_int64 :: int where
  "max_int64 = 2 ^ 63 - 1"

definition wrap64 :: "int \<Rightarrow> int" where
  "wrap64 i = (i + 2 ^ 63) mod 2 ^ 64 - 2 ^ 63"

text \<open>Go's integer division truncates towards zero.\<close>

definition quot :: "int \<Rightarrow> int \<Rightarrow> int" where
  "quot a b = sgn a * sgn b * (\<bar>a\<bar> div \<bar>b\<bar>)"

lemma wrap64_id: "- (2 ^ 63) \<le> i \<Longrightarrow> i \<le> max_int64 \<Longrightarrow> wrap64 i = i"
  by (simp add: wrap64_def max_int64_def)

lemma wrap64_nonneg: "0 \<le> i \<Longrightarrow> i \<le> max_int64 \<Longrightarrow> wrap64 i = i"
  by (rule wrap64_id) auto

lemma quot_nonneg: "0 \<le> a \<Longrightarrow> 0 < b \<Longrightarrow> quot a b = a div b"
  by (cases "a = 0") (auto simp: quot_def)

end
