(* ===== verification/Json.thy ===== *)
theory Json
  imports Complex_Main Prelude
begin

text \<open>
  Decoded \<open>encoding/json\<close> values and the decoding rules the sources rely on: a \<open>json.RawMessage\<close>
  (empty, not JSON, or a JSON value), decoding into a Go string, into a \<open>map[string]interface{}\<close>
  and into a struct with string fields, with the library's case-insensitive field matching,
  last-occurrence-wins rule and type-mismatch errors. Object members keep their order and their
  duplicates, because the decoder sees them. A number is a \<open>JInt\<close> when its literal has neither fraction
  nor exponent (only those decode into a Go integer).
\<close>

datatype json =
    JNull
  | JBool bool
  | JInt int
  | JDec rat
  | JStr string
  | JArr "json list"
  | JObj "(string \<times> json) list"

text \<open>
  A raw message: no bytes, bytes that are not one JSON value, or one JSON value (with insignificant
  white space around it, which the decoder ignores).
\<close>

datatype raw_message =
    RawEmpty
  | RawMalformed string
  | RawJSON json

section \<open>field names\<close>

text \<open>
  \<open>encoding/json\<close> matches a member name to a struct field exactly or under Unicode simple folding.
  For an ASCII field name the only non-ASCII runes that fold into it are the Kelvin sign (k) and the
  long s.
\<close>

fun json_fold :: "string \<Rightarrow> string" where
  "json_fold [] = []"
| "json_fold [a] = [to_upper a]"
| "json_fold (a # b # cs) =
     (if (of_char a :: nat) = 0xC5 \<and> (of_char b :: nat) = 0xBF then CHR ''S'' # json_fold cs
      else (case cs of
              [] \<Rightarrow> to_upper a # json_fold [b]
            | c # ds \<Rightarrow>
                if (of_char a :: nat) = 0xE2 \<and> (of_char b :: nat) = 0x84 \<and> (of_char c :: nat) = 0xAA
                then CHR ''K'' # json_fold ds
                else to_upper a # json_fold (b # cs)))"

definition field_matches :: "string \<Rightarrow> string \<Rightarrow> bool" where
  "field_matches name key \<longleftrightarrow> key = name \<or> json_fold key = json_fold name"

lemma json_fold_ascii: "list_all (\<lambda>c. (of_char c :: nat) < 128) s \<Longrightarrow> json_fold s = map to_upper s"
proof (induction s rule: json_fold.induct)
  case (3 a b cs)
  then have "(of_char a :: nat) \<noteq> 0xC5" "(of_char a :: nat) \<noteq> 0xE2" by auto
  then have "json_fold (a # b # cs) = to_upper a # json_fold (b # cs)"
    by (cases cs) (simp_all del: json_fold.simps add: json_fold.simps(3)[of a b] json_fold.simps(2))
  moreover have "json_fold (b # cs) = map to_upper (b # cs)"
    using 3 by (cases cs) (simp_all del: json_fold.simps add: json_fold.simps(2))
  ultimately show ?case by simp
qed simp_all

text \<open>Among lower-case names the match is equality.\<close>

definition plain_name :: "string \<Rightarrow> bool" where
  "plain_name s \<longleftrightarrow> list_all (\<lambda>c. is_lower c \<or> c = CHR ''_'') s"

lemma to_upper_inj:
  assumes "is_lower a \<or> a = CHR ''_''" "is_lower b \<or> b = CHR ''_''" "to_upper a = to_upper b"
  shows "a = b"
proof -
  have lo: "is_lower c \<Longrightarrow> (of_char (to_upper c) :: nat) = of_char c - 32" for c
    by (auto simp: to_upper_def is_lower_def intro!: mod_less)
  have us: "(of_char (to_upper CHR ''_'') :: nat) = 95" by (simp add: to_upper_def is_lower_def)
  have bounds: "is_lower c \<Longrightarrow> 97 \<le> (of_char c :: nat) \<and> (of_char c :: nat) \<le> 122" for c
    by (simp add: is_lower_def)
  have eq: "(of_char (to_upper a) :: nat) = of_char (to_upper b)" using assms(3) by simp
  have "(of_char a :: nat) = of_char b"
  proof (cases "is_lower a")
    case True
    note la = lo[OF True] bounds[OF True]
    show ?thesis
    proof (cases "is_lower b")
      case True
      with la lo[OF True] bounds[OF True] eq show ?thesis by linarith
    next
      case False
      with assms(2) have "b = CHR ''_''" by blast
      then have "(of_char (to_upper b) :: nat) = 95" using us by simp
      with la eq show ?thesis by linarith
    qed
  next
    case False
    with assms(1) have a: "a = CHR ''_''" by blast
    show ?thesis
    proof (cases "is_lower b")
      case True
      moreover have "(of_char (to_upper a) :: nat) = 95" using us a by simp
      ultimately show ?thesis using lo[OF True] bounds[OF True] eq by linarith
    next
      case False
      with assms(2) a show ?thesis by simp
    qed
  qed
  then show ?thesis by simp
qed

lemma field_matches_plain: "plain_name a \<Longrightarrow> plain_name b \<Longrightarrow> field_matches a b \<longleftrightarrow> a = b"
proof -
  assume p: "plain_name a" "plain_name b"
  have "list_all (\<lambda>c. (of_char c :: nat) < 128) s" if "plain_name s" for s
    using that by (auto simp: plain_name_def list_all_iff is_lower_def)
  with p have f: "json_fold a = map to_upper a" "json_fold b = map to_upper b"
    by (simp_all add: json_fold_ascii)
  have "map to_upper a = map to_upper b \<Longrightarrow> a = b"
    using p unfolding plain_name_def
  proof (induction a arbitrary: b)
    case (Cons x xs)
    then show ?case by (cases b) (auto intro: to_upper_inj)
  qed simp
  with f show ?thesis by (auto simp: field_matches_def)
qed

lemma field_matches_refl [simp]: "field_matches n n"
  by (simp add: field_matches_def)

section \<open>decoding\<close>

text \<open>Into a Go string variable: \<open>null\<close> leaves the variable as it was.\<close>

fun decode_string :: "string \<Rightarrow> json \<Rightarrow> string option" where
  "decode_string old (JStr s) = Some s"
| "decode_string old JNull = Some old"
| "decode_string old _ = None"

text \<open>Into a Go bool, an int (64 bits) and a pointer to a string.\<close>

fun decode_bool :: "bool \<Rightarrow> json \<Rightarrow> bool option" where
  "decode_bool old (JBool b) = Some b"
| "decode_bool old JNull = Some old"
| "decode_bool old _ = None"

fun decode_int :: "int \<Rightarrow> json \<Rightarrow> int option" where
  "decode_int old (JInt i) = (if - (2 ^ 63) \<le> i \<and> i \<le> max_int64 then Some i else None)"
| "decode_int old JNull = Some old"
| "decode_int old _ = None"

fun decode_string_ptr :: "string option \<Rightarrow> json \<Rightarrow> string option option" where
  "decode_string_ptr old (JStr s) = Some (Some s)"
| "decode_string_ptr old JNull = Some None"
| "decode_string_ptr old _ = None"

text \<open>One string field of a struct, over the members of the object in their order.\<close>

fun decode_string_field :: "string \<Rightarrow> string \<Rightarrow> (string \<times> json) list \<Rightarrow> string option" where
  "decode_string_field name old [] = Some old"
| "decode_string_field name old ((k, v) # kvs) =
     (if field_matches name k
      then (case decode_string old v of
              None \<Rightarrow> None
            | Some s \<Rightarrow> decode_string_field name s kvs)
      else decode_string_field name old kvs)"

text \<open>A struct with one string field (the other members of the object are ignored).\<close>

fun decode_struct1 :: "string \<Rightarrow> raw_message \<Rightarrow> string option" where
  "decode_struct1 name (RawJSON (JObj kvs)) = decode_string_field name [] kvs"
| "decode_struct1 name (RawJSON JNull) = Some []"
| "decode_struct1 name _ = None"

text \<open>Into a nil \<open>map[string]interface{}\<close>: \<open>null\<close> leaves it nil.\<close>

fun decode_map :: "raw_message \<Rightarrow> (string \<rightharpoonup> json) option" where
  "decode_map (RawJSON (JObj kvs)) = Some (map_of (rev kvs))"
| "decode_map (RawJSON JNull) = Some Map.empty"
| "decode_map _ = None"

text \<open>A struct in general: the members in order, each by the struct's own member function.\<close>

fun decode_members :: "('r \<Rightarrow> string \<Rightarrow> json \<Rightarrow> 'r option) \<Rightarrow> 'r \<Rightarrow> (string \<times> json) list \<Rightarrow> 'r option" where
  "decode_members f r [] = Some r"
| "decode_members f r ((k, v) # kvs) =
     (case f r k v of None \<Rightarrow> None | Some r' \<Rightarrow> decode_members f r' kvs)"

lemma decode_string_field_none:
  "(\<forall>(k, v)\<in>set kvs. \<not> field_matches n k) \<Longrightarrow> decode_string_field n old kvs = Some old"
  by (induction kvs arbitrary: old) auto

lemma decode_struct1_SomeE:
  assumes "decode_struct1 n m = Some s"
  obtains kvs where "m = RawJSON (JObj kvs)" "decode_string_field n [] kvs = Some s"
    | "m = RawJSON JNull" "s = []"
  using assms by (induction n m rule: decode_struct1.induct) auto

end
