(* ===== verification/SdkToggle.thy ===== *)
theory SdkToggle
  imports Json
begin

text \<open>
  The Go client's domain types, \<open>totoggle_go/internal/toggle\<close>: the validated dotted path
  (\<open>path.go\<close>), the activation rule and its context key (\<open>rule.go\<close>), the toggle (\<open>toggle.go\<close>) and the
  fetched application indexed by path (\<open>application.go\<close>). The lemmas say which strings are paths,
  that the ancestors of a path are exactly its proper dotted prefixes, and what the index returns.
\<close>

abbreviation dot :: char where
  "dot \<equiv> CHR ''.''"

section \<open>path.go\<close>

datatype path_error = ErrEmptyPath | ErrEmptyPathSegment

datatype path = Path (path_value: string)

text \<open>The loop of \<open>NewPath\<close> over the segments.\<close>

fun has_empty_segment :: "string list \<Rightarrow> bool" where
  "has_empty_segment [] = False"
| "has_empty_segment (seg # segs) = (if seg = [] then True else has_empty_segment segs)"

definition NewPath :: "string \<Rightarrow> path_error + path" where
  "NewPath raw =
     (if raw = [] then Inl ErrEmptyPath
      else if has_empty_segment (Split dot raw) then Inl ErrEmptyPathSegment
      else Inr (Path raw))"

definition Segments :: "path \<Rightarrow> string list" where
  "Segments p = Split dot (path_value p)"

text \<open>The loop of \<open>AncestorPaths\<close>, from index i on.\<close>

function ancestors_from :: "string list \<Rightarrow> nat \<Rightarrow> path list" where
  "ancestors_from segments i =
     (if i < length segments
      then Path (Join dot (take i segments)) # ancestors_from segments (i + 1)
      else [])"
  by pat_completeness auto
termination
  by (relation "measure (\<lambda>(segments, i). length segments - i)") auto

declare ancestors_from.simps [simp del]

definition AncestorPaths :: "path \<Rightarrow> path list" where
  "AncestorPaths p = ancestors_from (Segments p) 1"

definition Path_MarshalJSON :: "path \<Rightarrow> json" where
  "Path_MarshalJSON p = JStr (path_value p)"

datatype unmarshal_error = ErrJSONType | ErrPath path_error

definition Path_UnmarshalJSON :: "json \<Rightarrow> unmarshal_error + path" where
  "Path_UnmarshalJSON data =
     (case decode_string [] data of
        None \<Rightarrow> Inl ErrJSONType
      | Some raw \<Rightarrow>
          (case NewPath raw of
             Inl e \<Rightarrow> Inl (ErrPath e)
           | Inr parsed \<Rightarrow> Inr parsed))"

section \<open>rule.go\<close>

text \<open>
  \<open>RuleType\<close> is a Go string type with seven named constants; a rule decoded from the wire may hold
  any string, so the model keeps the string.
\<close>

type_synonym rule_type = string

definition RuleTypePercentage :: rule_type where "RuleTypePercentage = ''percentage''"
definition RuleTypeParameter :: rule_type where "RuleTypeParameter = ''parameter''"
definition RuleTypeUserID :: rule_type where "RuleTypeUserID = ''user_id''"
definition RuleTypeIP :: rule_type where "RuleTypeIP = ''ip''"
definition RuleTypeCountry :: rule_type where "RuleTypeCountry = ''country''"
definition RuleTypeTime :: rule_type where "RuleTypeTime = ''time''"
definition RuleTypeCohort :: rule_type where "RuleTypeCohort = ''cohort''"

lemmas rule_type_defs =
  RuleTypePercentage_def RuleTypeParameter_def RuleTypeUserID_def RuleTypeIP_def
  RuleTypeCountry_def RuleTypeTime_def RuleTypeCohort_def

record sdk_rule =
  sr_Type :: rule_type
  sr_Value :: string
  sr_Config :: raw_message

definition validContextKey :: "rule_type \<Rightarrow> string \<Rightarrow> bool" where
  "validContextKey ruleType key =
     (if HasPrefix key ''attributes.''
      then length (TrimPrefix key ''attributes.'') > 0
           \<and> (ruleType = RuleTypePercentage \<or> ruleType = RuleTypeParameter)
      else (ruleType = RuleTypePercentage \<and> key = ''rollout_key'')
           \<or> (ruleType = RuleTypeUserID \<and> key = ''user_id'')
           \<or> (ruleType = RuleTypeIP \<and> key = ''ip'')
           \<or> (ruleType = RuleTypeCountry \<and> key = ''country'')
           \<or> (ruleType = RuleTypeCohort \<and> key = ''cohort''))"

text \<open>\<open>len(r.Config) == 0 || bytes.Equal(bytes.TrimSpace(r.Config), "null")\<close>\<close>

fun config_absent :: "raw_message \<Rightarrow> bool" where
  "config_absent RawEmpty = True"
| "config_absent (RawMalformed bs) = (TrimSpace bs = ''null'')"
| "config_absent (RawJSON j) = (case j of JNull \<Rightarrow> True | _ \<Rightarrow> False)"

definition ContextKey :: "sdk_rule \<Rightarrow> string \<times> bool" where
  "ContextKey r =
     (if sr_Type r = RuleTypeTime then ([], config_absent (sr_Config r))
      else (case decode_struct1 ''context_key'' (sr_Config r) of
              None \<Rightarrow> ([], False)
            | Some key \<Rightarrow>
                if \<not> validContextKey (sr_Type r) key then ([], False) else (key, True)))"

definition Rule_IsEmpty :: "sdk_rule \<Rightarrow> bool" where
  "Rule_IsEmpty r \<longleftrightarrow> sr_Type r = [] \<and> sr_Value r = []"

definition Rule_IsValid :: "sdk_rule \<Rightarrow> bool" where
  "Rule_IsValid r =
     (if sr_Type r = [] then False
      else if sr_Type r = RuleTypeCohort then True
      else sr_Value r \<noteq> [])"

section \<open>toggle.go\<close>

record sdk_toggle =
  st_ID :: string
  st_Path :: path
  st_Value :: string
  st_Enabled :: bool
  st_Level :: int
  st_ParentID :: "string option"
  st_AppID :: string
  st_HasActivationRule :: bool
  st_ActivationRule :: "sdk_rule option"

section \<open>application.go\<close>

record sdk_app =
  sa_Toggles :: "sdk_toggle list"
  sa_byPath :: "string \<rightharpoonup> sdk_toggle"

text \<open>The zero \<open>Application{}\<close>: no toggles and a nil map, which reads as empty.\<close>

definition empty_app :: sdk_app where
  "empty_app = \<lparr> sa_Toggles = [], sa_byPath = Map.empty \<rparr>"

fun index_toggles :: "(string \<rightharpoonup> sdk_toggle) \<Rightarrow> sdk_toggle list \<Rightarrow> (string \<rightharpoonup> sdk_toggle)" where
  "index_toggles m [] = m"
| "index_toggles m (tg # tgs) = index_toggles (m(path_value (st_Path tg) \<mapsto> tg)) tgs"

definition NewApplication :: "sdk_toggle list \<Rightarrow> sdk_app" where
  "NewApplication toggles =
     \<lparr> sa_Toggles = toggles, sa_byPath = index_toggles Map.empty toggles \<rparr>"

definition ByPath :: "sdk_app \<Rightarrow> path \<Rightarrow> sdk_toggle option" where
  "ByPath a p = sa_byPath a (path_value p)"

fun present_toggles :: "sdk_app \<Rightarrow> path list \<Rightarrow> sdk_toggle list" where
  "present_toggles a [] = []"
| "present_toggles a (ap # aps) =
     (case sa_byPath a (path_value ap) of
        None \<Rightarrow> present_toggles a aps
      | Some tg \<Rightarrow> tg # present_toggles a aps)"

definition AncestorsOf :: "sdk_app \<Rightarrow> path \<Rightarrow> sdk_toggle list" where
  "AncestorsOf a p = present_toggles a (AncestorPaths p)"

section \<open>lemmas: paths\<close>

text \<open>Well-formed segments, and a well-formed path: one that \<open>NewPath\<close> returns.\<close>

definition wf_segments :: "string list \<Rightarrow> bool" where
  "wf_segments segs \<longleftrightarrow> segs \<noteq> [] \<and> (\<forall>s\<in>set segs. s \<noteq> [] \<and> dot \<notin> set s)"

definition wf_path :: "path \<Rightarrow> bool" where
  "wf_path p \<longleftrightarrow> NewPath (path_value p) = Inr p"

lemma has_empty_segment_iff: "has_empty_segment segs \<longleftrightarrow> [] \<in> set segs"
  by (induction segs) auto

lemma Split_empty_string: "Split d s = [[]] \<longleftrightarrow> s = []"
  by (metis Join.simps(2) Join_Split Split.simps(1))

lemma NewPath_Inr: "NewPath raw = Inr p \<longleftrightarrow> p = Path raw \<and> wf_segments (Split dot raw)"
  by (auto simp: NewPath_def has_empty_segment_iff wf_segments_def dest: Split_no_sep)

lemma wf_path_iff: "wf_path p \<longleftrightarrow> wf_segments (Segments p)"
  by (cases p) (auto simp: wf_path_def NewPath_Inr Segments_def)

lemma wf_segments_Split_Join: "wf_segments segs \<Longrightarrow> Split dot (Join dot segs) = segs"
  by (rule Split_Join) (auto simp: wf_segments_def)

lemma wf_path_Join: "wf_segments segs \<Longrightarrow> wf_path (Path (Join dot segs))"
  by (simp add: wf_path_iff Segments_def wf_segments_Split_Join)

lemma wf_segments_take: "wf_segments segs \<Longrightarrow> 0 < i \<Longrightarrow> wf_segments (take i segs)"
  by (auto simp: wf_segments_def dest: in_set_takeD)

lemma ancestors_from_eq:
  "ancestors_from segs i = map (\<lambda>j. Path (Join dot (take j segs))) [i..<length segs]"
  by (induction segs i rule: ancestors_from.induct)
     (subst ancestors_from.simps, auto simp: upt_conv_Cons)

lemma AncestorPaths_eq:
  "AncestorPaths p = map (\<lambda>j. Path (Join dot (take j (Segments p)))) [1..<length (Segments p)]"
  by (simp add: AncestorPaths_def ancestors_from_eq)

lemma Join_append:
  "xs \<noteq> [] \<Longrightarrow> ys \<noteq> [] \<Longrightarrow> Join d (xs @ ys) = Join d xs @ d # Join d ys"
proof (induction xs)
  case (Cons x xs)
  then show ?case by (cases "xs = []") (auto simp: Join_Cons)
qed simp

lemma Segments_append_dot:
  assumes "wf_path q" "path_value p = path_value q @ dot # r"
  shows "Segments p = Segments q @ Split dot r"
proof -
  have nn: "Segments q \<noteq> []" by (simp add: Segments_def)
  have "Split dot (Join dot segs @ dot # r) = segs @ Split dot r" if "wf_segments segs" for segs
    using that
  proof (induction segs)
    case Nil
    then show ?case by (simp add: wf_segments_def)
  next
    case (Cons s segs)
    show ?case
    proof (cases "segs = []")
      case True
      with Cons.prems show ?thesis by (simp add: wf_segments_def Split_append_sep)
    next
      case False
      with Cons.prems have "wf_segments segs" "dot \<notin> set s" by (auto simp: wf_segments_def)
      with Cons.IH False show ?thesis by (simp add: Join_Cons Split_append_sep)
    qed
  qed
  from this[of "Segments q"] assms show ?thesis
    by (simp add: wf_path_iff Segments_def)
qed

lemma in_AncestorPaths_iff:
  assumes "wf_path p"
  shows "q \<in> set (AncestorPaths p) \<longleftrightarrow> wf_path q \<and> (\<exists>r. path_value p = path_value q @ dot # r)"
proof
  assume "q \<in> set (AncestorPaths p)"
  then obtain j where j: "1 \<le> j" "j < length (Segments p)" "q = Path (Join dot (take j (Segments p)))"
    by (auto simp: AncestorPaths_eq)
  from j assms have "wf_path q" using wf_path_Join wf_segments_take wf_path_iff by simp
  moreover have "path_value p = Join dot (take j (Segments p) @ drop j (Segments p))"
    by (simp add: Segments_def)
  with j have "path_value p = path_value q @ dot # Join dot (drop j (Segments p))"
    by (subst (asm) Join_append) auto
  ultimately show "wf_path q \<and> (\<exists>r. path_value p = path_value q @ dot # r)" by blast
next
  assume "wf_path q \<and> (\<exists>r. path_value p = path_value q @ dot # r)"
  then obtain r where q: "wf_path q" "path_value p = path_value q @ dot # r" by blast
  from Segments_append_dot[OF q] have s: "Segments p = Segments q @ Split dot r" .
  let ?j = "length (Segments q)"
  have "q = Path (Join dot (take ?j (Segments p)))" by (cases q) (simp add: s, simp add: Segments_def)
  moreover have "?j \<in> set [1..<length (Segments p)]"
    by (simp add: s Suc_le_eq) (simp add: Segments_def)
  ultimately show "q \<in> set (AncestorPaths p)" by (auto simp: AncestorPaths_eq)
qed

lemma sorted_wrt_less_distinct:
  "sorted_wrt (\<lambda>a b. (f a :: nat) < f b) xs \<Longrightarrow> distinct xs"
  by (induction xs) auto

section \<open>lemmas: the application index\<close>

lemma index_toggles_lookup:
  "index_toggles m tgs x =
     (case find (\<lambda>tg. path_value (st_Path tg) = x) (rev tgs) of None \<Rightarrow> m x | Some tg \<Rightarrow> Some tg)"
proof (induction tgs arbitrary: m)
  case Nil
  then show ?case by simp
next
  case (Cons t ts)
  have "find P (xs @ [y]) = (case find P xs of None \<Rightarrow> if P y then Some y else None | Some z \<Rightarrow> Some z)"
    for P and xs :: "sdk_toggle list" and y
    by (induction xs) auto
  with Cons show ?case by (simp split: option.splits)
qed

lemma ByPath_NewApplication:
  "ByPath (NewApplication tgs) p = find (\<lambda>tg. st_Path tg = p) (rev tgs)"
proof -
  have "find (\<lambda>tg. path_value (st_Path tg) = path_value p) xs = find (\<lambda>tg. st_Path tg = p) xs" for xs
    by (induction xs) (auto intro: path.expand)
  moreover have "(case x of None \<Rightarrow> None | Some y \<Rightarrow> Some y) = x" for x :: "sdk_toggle option"
    by (cases x) auto
  ultimately show ?thesis
    unfolding ByPath_def NewApplication_def by (simp add: index_toggles_lookup)
qed

lemma ByPath_empty [simp]: "ByPath empty_app p = None"
  by (simp add: ByPath_def empty_app_def)

lemma set_present_toggles:
  "set (present_toggles a ps) = {tg. \<exists>p\<in>set ps. ByPath a p = Some tg}"
  by (induction ps) (auto simp: ByPath_def split: option.splits)

lemma in_AncestorsOf_iff:
  assumes "wf_path p"
  shows "tg \<in> set (AncestorsOf a p) \<longleftrightarrow>
    (\<exists>q r. wf_path q \<and> path_value p = path_value q @ dot # r \<and> ByPath a q = Some tg)"
  unfolding AncestorsOf_def set_present_toggles mem_Collect_eq Bex_def in_AncestorPaths_iff[OF assms]
  by blast

section \<open>properties\<close>

text \<open>A raw string is accepted as a toggle path exactly when it is a non-empty list of
  non-empty, dot-free segments joined by dots, and the path then holds the string unchanged.\<close>

theorem NewPath_accepts:
  "NewPath raw = Inr p \<longleftrightarrow>
     p = Path raw \<and>
     (\<exists>segs. segs \<noteq> [] \<and> (\<forall>s\<in>set segs. s \<noteq> [] \<and> dot \<notin> set s) \<and> raw = Join dot segs)"
proof -
  have "wf_segments (Split dot raw) \<longleftrightarrow> (\<exists>segs. wf_segments segs \<and> raw = Join dot segs)"
    by (metis Join_Split wf_segments_Split_Join)
  then show ?thesis by (simp add: NewPath_Inr wf_segments_def)
qed

theorem NewPath_accepts_witness: "NewPath ''pay.card'' = Inr (Path ''pay.card'')"
  by (subst NewPath_accepts) (auto intro!: exI[of _ "[''pay'', ''card'']"])

text \<open>The ancestors of a valid path are exactly the valid paths that are followed by a dot
  in it, they are all distinct, and they come root first (each extends the one before it).\<close>

theorem AncestorPaths_correct:
  assumes "NewPath raw = Inr p"
  shows "set (AncestorPaths p) = {q. NewPath (path_value q) = Inr q \<and> (\<exists>r. raw = path_value q @ dot # r)}
       \<and> distinct (AncestorPaths p)
       \<and> sorted_wrt (\<lambda>a b. length (path_value a) < length (path_value b)) (AncestorPaths p)"
proof -
  have p: "p = Path raw" "wf_path p" using assms by (auto simp: NewPath_Inr wf_path_def)
  let ?J = "\<lambda>j. Join dot (take j (Segments p))"
  have less: "length (?J i) < length (?J j)" if "1 \<le> i" "i < j" "j \<le> length (Segments p)" for i j
  proof -
    have "take j (Segments p) = take i (Segments p) @ drop i (take j (Segments p))"
      using that by (metis append_take_drop_id less_imp_le min.absorb1 take_take)
    moreover have "take i (Segments p) \<noteq> []" "drop i (take j (Segments p)) \<noteq> []" using that by auto
    ultimately have "?J j = ?J i @ dot # Join dot (drop i (take j (Segments p)))"
      by (metis Join_append)
    then show ?thesis by simp
  qed
  have sorted: "sorted_wrt (\<lambda>a b. length (path_value a) < length (path_value b)) (AncestorPaths p)"
    unfolding AncestorPaths_eq sorted_wrt_map
    by (rule sorted_wrt_mono_rel[OF _ sorted_wrt_upt]) (auto intro: less)
  moreover from sorted have "distinct (AncestorPaths p)"
    by (rule sorted_wrt_less_distinct)
  ultimately show ?thesis using in_AncestorPaths_iff[OF p(2)] p(1) by (auto simp: wf_path_def)
qed

theorem AncestorPaths_correct_witness:
  "distinct (AncestorPaths (Path ''a.b.c''))"
  using AncestorPaths_correct[of "''a.b.c''" "Path ''a.b.c''"] by (simp add: NewPath_def)

end
