(* ===== verification/Net.thy ===== *)
theory Net
  imports Prelude
begin

unbundle bit_operations_syntax

text \<open>
  What the sources use of Go's package \<open>net\<close>: \<open>ParseIP\<close>, \<open>ParseCIDR\<close>, \<open>IP.Equal\<close>, \<open>IP.To4\<close> and
  \<open>IPNet.Contains\<close>. An address is the byte slice Go keeps (four or sixteen bytes); a parsed
  address always has sixteen, with an IPv4 address under the \<open>::ffff:0:0/96\<close> prefix. The lemmas show
  that membership in a network is agreement on its leading bits.
\<close>

type_synonym ip = "8 word list"

section \<open>IPv4 fields\<close>

text \<open>
  The digit loop of \<open>netip.parseIPv4Fields\<close> on one field: decimal, at most 255, no superfluous
  leading zero. The field separator is handled by \<open>Split\<close>; an empty field is what the loop rejects
  as a leading, trailing or doubled dot.
\<close>

fun octet_loop :: "nat \<Rightarrow> nat \<Rightarrow> string \<Rightarrow> nat option" where
  "octet_loop digLen val [] = (if digLen = 0 then None else Some val)"
| "octet_loop digLen val (c # cs) =
     (if \<not> is_digit c then None
      else if digLen = 1 \<and> val = 0 then None
      else if val * 10 + digit_val c > 255 then None
      else octet_loop (digLen + 1) (val * 10 + digit_val c) cs)"

fun octets :: "string list \<Rightarrow> ip option" where
  "octets [] = Some []"
| "octets (f # fs) =
     (case octet_loop 0 0 f of
        None \<Rightarrow> None
      | Some v \<Rightarrow> (case octets fs of None \<Rightarrow> None | Some bs \<Rightarrow> Some (word_of_nat v # bs)))"

definition parseIPv4Fields :: "string \<Rightarrow> ip option" where
  "parseIPv4Fields s =
     (let fs = Split CHR ''.'' s in if length fs = 4 then octets fs else None)"

section \<open>IPv6\<close>

definition hex_digit :: "char \<Rightarrow> nat option" where
  "hex_digit c =
     (let n = (of_char c :: nat) in
      if 48 \<le> n \<and> n \<le> 57 then Some (n - 48)
      else if 97 \<le> n \<and> n \<le> 102 then Some (n - 87)
      else if 65 \<le> n \<and> n \<le> 70 then Some (n - 55)
      else None)"

text \<open>The hexadecimal digits at the head of the string: their number, value and the rest.\<close>

fun hex_run :: "nat \<Rightarrow> nat \<Rightarrow> string \<Rightarrow> nat \<times> nat \<times> string" where
  "hex_run off acc [] = (off, acc, [])"
| "hex_run off acc (c # cs) =
     (case hex_digit c of
        None \<Rightarrow> (off, acc, c # cs)
      | Some d \<Rightarrow> hex_run (off + 1) (acc * 16 + d) cs)"

text \<open>
  The group loop of \<open>netip.parseIPv6\<close>; every round stores two bytes, so eight rounds are enough.
  It returns the bytes stored, the position of the ellipsis and the unread rest.
\<close>

fun groups :: "nat \<Rightarrow> ip \<Rightarrow> nat option \<Rightarrow> string \<Rightarrow> (ip \<times> nat option \<times> string) option" where
  "groups 0 acc ell s = Some (acc, ell, s)"
| "groups (Suc n) acc ell s =
     (case hex_run 0 0 s of (off, v, rest) \<Rightarrow>
        if off = 0 \<or> 4 < off then None
        else if rest \<noteq> [] \<and> hd rest = CHR ''.'' then
          (if ell = None \<and> length acc \<noteq> 12 then None
           else if length acc + 4 > 16 then None
           else (case parseIPv4Fields s of
                   None \<Rightarrow> None
                 | Some bs \<Rightarrow> Some (acc @ bs, ell, [])))
        else
          let acc' = acc @ [word_of_nat (v div 256), word_of_nat v] in
          (case rest of
             [] \<Rightarrow> Some (acc', ell, [])
           | c # more \<Rightarrow>
               if c \<noteq> CHR '':'' \<or> more = [] then None
               else if hd more = CHR '':'' then
                 (if ell \<noteq> None then None
                  else if tl more = [] then Some (acc', Some (length acc'), [])
                  else groups n acc' (Some (length acc')) (tl more))
               else groups n acc' ell more))"

definition parseIPv6 :: "string \<Rightarrow> ip option" where
  "parseIPv6 inp =
     (let lead = HasPrefix inp ''::'';
          s = (if lead then drop 2 inp else inp)
      in
      if lead \<and> s = [] then Some (replicate 16 0)
      else
        (case groups 8 [] (if lead then Some 0 else None) s of
           None \<Rightarrow> None
         | Some (bs, ell, rest) \<Rightarrow>
             if rest \<noteq> [] then None
             else if length bs < 16 then
               (case ell of
                  None \<Rightarrow> None
                | Some e \<Rightarrow> Some (take e bs @ replicate (16 - length bs) 0 @ drop e bs))
             else if ell \<noteq> None then None
             else Some bs))"

section \<open>ParseIP, ParseCIDR\<close>

definition v4InV6Prefix :: ip where
  "v4InV6Prefix = replicate 10 0 @ [0xff, 0xff]"

text \<open>
  \<open>netip.ParseAddr\<close> on addresses without a zone: the first of dot, colon and percent decides. The
  result is the sixteen-byte form and the bit length. A zone makes both users fail.
\<close>

definition parseAddr :: "string \<Rightarrow> (ip \<times> nat) option" where
  "parseAddr s =
     (if CHR ''%'' \<in> set s then None
      else (case find (\<lambda>c. c = CHR ''.'' \<or> c = CHR '':'') s of
              None \<Rightarrow> None
            | Some c \<Rightarrow>
                if c = CHR ''.'' then map_option (\<lambda>bs. (v4InV6Prefix @ bs, 32)) (parseIPv4Fields s)
                else map_option (\<lambda>bs. (bs, 128)) (parseIPv6 s)))"

definition ParseIP :: "string \<Rightarrow> ip option" where
  "ParseIP s = map_option fst (parseAddr s)"

definition To4 :: "ip \<Rightarrow> ip option" where
  "To4 a =
     (if length a = 4 then Some a
      else if length a = 16 \<and> take 12 a = v4InV6Prefix then Some (drop 12 a)
      else None)"

text \<open>\<open>IP.Equal\<close>: an IPv4 address and its IPv6-mapped form are equal.\<close>

definition IP_Equal :: "ip \<Rightarrow> ip \<Rightarrow> bool" where
  "IP_Equal a b =
     (if length a = length b then a = b
      else if length a = 4 \<and> length b = 16 then take 12 b = v4InV6Prefix \<and> a = drop 12 b
      else if length a = 16 \<and> length b = 4 then take 12 a = v4InV6Prefix \<and> drop 12 a = b
      else False)"

record ipnet =
  in_IP :: ip
  in_Mask :: ip

text \<open>The mask byte with the \<open>k\<close> leading bits set (all of them from 8 on).\<close>

definition mask_byte :: "nat \<Rightarrow> 8 word" where
  "mask_byte k = NOT (mask (8 - min k 8))"

definition CIDRMask :: "nat \<Rightarrow> nat \<Rightarrow> ip" where
  "CIDRMask ones bits = map (\<lambda>i. mask_byte (ones - 8 * i)) [0..<bits div 8]"

definition and_bytes :: "ip \<Rightarrow> ip \<Rightarrow> ip" where
  "and_bytes a m = map (\<lambda>(x, y). x AND y) (zip a m)"

text \<open>
  \<open>IP.Mask\<close> of a sixteen-byte address with a four- or sixteen-byte mask, the two cases \<open>ParseCIDR\<close>
  reaches.
\<close>

definition IP_Mask :: "ip \<Rightarrow> ip \<Rightarrow> ip" where
  "IP_Mask a m =
     (if length m = 4 \<and> length a = 16 \<and> take 12 a = v4InV6Prefix then and_bytes (drop 12 a) m
      else and_bytes a m)"

fun dtoi_loop :: "nat \<Rightarrow> string \<Rightarrow> nat option" where
  "dtoi_loop n [] = Some n"
| "dtoi_loop n (c # cs) =
     (if \<not> is_digit c then None
      else if n * 10 + digit_val c \<ge> 0xFFFFFF then None
      else dtoi_loop (n * 10 + digit_val c) cs)"

definition ParseCIDR :: "string \<Rightarrow> ipnet option" where
  "ParseCIDR s =
     (case SplitN2 CHR ''/'' s of
        [addr, m] \<Rightarrow>
          (case parseAddr addr of
             None \<Rightarrow> None
           | Some (a, bitlen) \<Rightarrow>
               if m = [] then None
               else (case dtoi_loop 0 m of
                       None \<Rightarrow> None
                     | Some n \<Rightarrow>
                         if n > bitlen then None
                         else Some \<lparr> in_IP = IP_Mask a (CIDRMask n bitlen), in_Mask = CIDRMask n bitlen \<rparr>))
      | _ \<Rightarrow> None)"

definition networkNumberAndMask :: "ipnet \<Rightarrow> (ip \<times> ip) option" where
  "networkNumberAndMask n =
     (let i = (case To4 (in_IP n) of None \<Rightarrow> in_IP n | Some x \<Rightarrow> x); m = in_Mask n in
      if length i \<noteq> 4 \<and> length i \<noteq> 16 then None
      else if length m = 4 then (if length i \<noteq> 4 then None else Some (i, m))
      else if length m = 16 then Some (i, if length i = 4 then drop 12 m else m)
      else None)"

definition Contains_IP :: "ipnet \<Rightarrow> ip \<Rightarrow> bool" where
  "Contains_IP n a =
     (case networkNumberAndMask n of
        None \<Rightarrow> False
      | Some (nn, m) \<Rightarrow>
          let x = (case To4 a of None \<Rightarrow> a | Some y \<Rightarrow> y) in
          if length x \<noteq> length nn then False
          else and_bytes nn m = and_bytes x m)"

section \<open>lemmas\<close>

lemma octets_length: "octets fs = Some bs \<Longrightarrow> length bs = length fs"
  by (induction fs arbitrary: bs) (auto split: option.splits)

lemma parseIPv4Fields_length: "parseIPv4Fields s = Some bs \<Longrightarrow> length bs = 4"
  by (auto simp: parseIPv4Fields_def Let_def octets_length split: if_splits)

lemma groups_length:
  "groups n acc ell s = Some (bs, ell', rest) \<Longrightarrow> length acc + 2 * n \<le> 16 \<Longrightarrow>
   (\<forall>e. ell = Some e \<longrightarrow> e \<le> length acc) \<Longrightarrow>
   length bs \<le> 16 \<and> (\<forall>e. ell' = Some e \<longrightarrow> e \<le> length bs)"
proof (induction n arbitrary: acc ell s)
  case 0
  then show ?case by auto
next
  case (Suc n)
  obtain off v r where h: "hex_run 0 0 s = (off, v, r)" by (metis prod_cases3)
  let ?acc = "acc @ [word_of_nat (v div 256), word_of_nat v]"
  have step: "groups n ?acc ell2 s2 = Some (bs, ell', rest) \<Longrightarrow> (\<forall>e. ell2 = Some e \<longrightarrow> e \<le> length ?acc) \<Longrightarrow> ?case"
    for ell2 s2
    by (rule Suc.IH) (use Suc.prems(2) in auto)
  have ok: "\<forall>e. ell = Some e \<longrightarrow> e \<le> length ?acc" using Suc.prems(3) by auto
  show ?case
  proof (cases "r \<noteq> [] \<and> hd r = CHR ''.''")
    case True
    with Suc.prems h show ?thesis
      by (auto split: if_splits option.splits dest: parseIPv4Fields_length)
  next
    case False
    note nodot = False
    show ?thesis
    proof (cases r)
      case Nil
      with Suc.prems h ok show ?thesis by (auto split: if_splits)
    next
      case (Cons c more)
      from Suc.prems(1) h nodot Cons consider
          "bs = ?acc" "ell' = Some (length ?acc)"
        | "groups n ?acc (Some (length ?acc)) (tl more) = Some (bs, ell', rest)"
        | "groups n ?acc ell more = Some (bs, ell', rest)"
        by (auto simp: Let_def split: if_splits)
      then show ?thesis
      proof cases
        case 1
        with Suc.prems(2) show ?thesis by simp
      next
        case 2
        then show ?thesis by (rule step) simp
      next
        case 3
        then show ?thesis by (rule step) (rule ok)
      qed
    qed
  qed
qed

lemma parseIPv6_length: "parseIPv6 s = Some bs \<Longrightarrow> length bs = 16"
proof -
  assume a: "parseIPv6 s = Some bs"
  show ?thesis
  proof (cases "HasPrefix s ''::'' \<and> drop 2 s = []")
    case True
    with a show ?thesis by (auto simp: parseIPv6_def Let_def)
  next
    case False
    let ?g = "groups 8 [] (if HasPrefix s ''::'' then Some 0 else None) (if HasPrefix s ''::'' then drop 2 s else s)"
    obtain cs ell r where g: "?g = Some (cs, ell, r)"
      using a False by (cases ?g) (auto simp: parseIPv6_def Let_def split: if_splits)
    have "length cs \<le> 16 \<and> (\<forall>e. ell = Some e \<longrightarrow> e \<le> length cs)"
      by (rule groups_length[OF g]) (auto split: if_splits)
    with a False g show ?thesis
      by (auto simp: parseIPv6_def Let_def split: if_splits option.splits)
  qed
qed

lemma parseAddr_length: "parseAddr s = Some (a, n) \<Longrightarrow> length a = 16 \<and> (n = 32 \<and> take 12 a = v4InV6Prefix \<or> n = 128)"
  by (auto simp: parseAddr_def v4InV6Prefix_def dest: parseIPv4Fields_length parseIPv6_length
      split: if_splits option.splits)

lemma ParseIP_length: "ParseIP s = Some a \<Longrightarrow> length a = 16"
  by (auto simp: ParseIP_def dest: parseAddr_length)

text \<open>Masking a byte keeps its leading bits.\<close>

lemma and_mask_byte_eq_iff:
  "x AND mask_byte k = y AND mask_byte k \<longleftrightarrow> drop_bit (8 - min k 8) x = drop_bit (8 - min k 8) y"
proof -
  have "x AND NOT (mask n) = y AND NOT (mask n) \<longleftrightarrow> drop_bit n x = drop_bit n y" for n and x y :: "8 word"
  proof -
    have "x AND NOT (mask n) = push_bit n (drop_bit n x)" for x :: "8 word"
      by (rule bit_eqI) (auto simp: bit_simps)
    moreover have "drop_bit n (push_bit n (drop_bit n x)) = drop_bit n x" for x :: "8 word"
      by (rule bit_eqI) (auto simp: bit_simps dest: bit_imp_le_length)
    ultimately show ?thesis by metis
  qed
  then show ?thesis by (simp add: mask_byte_def)
qed

text \<open>The bits of an address, most significant first.\<close>

definition byte_bits :: "8 word \<Rightarrow> bool list" where
  "byte_bits w = map (\<lambda>i. bit w (7 - i)) [0..<8]"

definition ip_bits :: "ip \<Rightarrow> bool list" where
  "ip_bits a = concat (map byte_bits a)"

lemma length_byte_bits [simp]: "length (byte_bits w) = 8"
  by (simp add: byte_bits_def)

lemma drop_bit_eq_iff:
  "drop_bit j x = drop_bit j y \<longleftrightarrow> (\<forall>n. j \<le> n \<and> n < 8 \<longrightarrow> bit x n = bit y n)" for x y :: "8 word"
proof
  assume "drop_bit j x = drop_bit j y"
  then have "bit (drop_bit j x) (n - j) = bit (drop_bit j y) (n - j)" for n by simp
  then have "bit x (j + (n - j)) = bit y (j + (n - j))" for n by (simp add: bit_drop_bit_eq)
  then show "\<forall>n. j \<le> n \<and> n < 8 \<longrightarrow> bit x n = bit y n" by (metis le_add_diff_inverse)
next
  assume a: "\<forall>n. j \<le> n \<and> n < 8 \<longrightarrow> bit x n = bit y n"
  show "drop_bit j x = drop_bit j y"
  proof (rule bit_eqI)
    fix n
    have "n + j < 8 \<or> (\<not> bit x (j + n) \<and> \<not> bit y (j + n))"
      using bit_imp_le_length[of x "j + n"] bit_imp_le_length[of y "j + n"] by (auto simp: add.commute)
    with a show "bit (drop_bit j x) n = bit (drop_bit j y) n"
      by (auto simp: bit_drop_bit_eq add.commute)
  qed
qed

lemma byte_prefix_iff:
  "take k (byte_bits x) = take k (byte_bits y) \<longleftrightarrow> x AND mask_byte k = y AND mask_byte k"
proof -
  have "take k (byte_bits x) = take k (byte_bits y) \<longleftrightarrow> (\<forall>i<min k 8. bit x (7 - i) = bit y (7 - i))"
    by (auto simp: byte_bits_def take_map list_eq_iff_nth_eq)
  also have "\<dots> \<longleftrightarrow> (\<forall>n. 8 - min k 8 \<le> n \<and> n < 8 \<longrightarrow> bit x n = bit y n)"
  proof (rule iffI; intro allI impI)
    fix n assume "\<forall>i<min k 8. bit x (7 - i) = bit y (7 - i)" "8 - min k 8 \<le> n \<and> n < 8"
    then show "bit x n = bit y n" by (auto dest: spec[of _ "7 - n"])
  next
    fix i assume a: "\<forall>n. 8 - min k 8 \<le> n \<and> n < 8 \<longrightarrow> bit x n = bit y n" and "i < min k 8"
    then have "8 - min k 8 \<le> 7 - i \<and> 7 - i < 8" by auto
    with a show "bit x (7 - i) = bit y (7 - i)" by blast
  qed
  finally show ?thesis by (simp add: and_mask_byte_eq_iff drop_bit_eq_iff)
qed

text \<open>Equality under a CIDR mask is equality of the leading bits.\<close>

lemma and_bytes_Cons: "and_bytes (x # xs) (m # ms) = (x AND m) # and_bytes xs ms"
  by (simp add: and_bytes_def)

lemma CIDRMask_Suc:
  "CIDRMask ones (8 * Suc n) = mask_byte ones # CIDRMask (ones - 8) (8 * n)"
proof -
  have "[0..<Suc n] = 0 # map Suc [0..<n]" by (simp add: upt_conv_Cons map_Suc_upt)
  then show ?thesis by (simp add: CIDRMask_def del: upt_Suc)
qed

lemma and_CIDRMask_eq_iff:
  "length a = n \<Longrightarrow> length b = n \<Longrightarrow>
   and_bytes a (CIDRMask ones (8 * n)) = and_bytes b (CIDRMask ones (8 * n)) \<longleftrightarrow>
   take ones (ip_bits a) = take ones (ip_bits b)"
proof (induction n arbitrary: a b ones)
  case 0
  then show ?case by simp
next
  case (Suc n)
  then obtain x xs y ys where c: "a = x # xs" "b = y # ys" by (metis length_Suc_conv)
  with Suc have "and_bytes a (CIDRMask ones (8 * Suc n)) = and_bytes b (CIDRMask ones (8 * Suc n)) \<longleftrightarrow>
      take ones (byte_bits x) = take ones (byte_bits y) \<and>
      take (ones - 8) (ip_bits xs) = take (ones - 8) (ip_bits ys)"
    unfolding c CIDRMask_Suc and_bytes_Cons by (simp add: byte_prefix_iff)
  also have "\<dots> \<longleftrightarrow> take ones (ip_bits a) = take ones (ip_bits b)"
    by (simp add: c ip_bits_def)
  finally show ?case .
qed

end
