(* ===== verification/GoFloat.thy ===== *)
theory GoFloat
  imports Complex_Main Prelude
begin

text \<open>
  The part of IEEE-754 double precision the sources use: the special values, comparisons, and the
  rounding of a non-negative rational result to the nearest double (ties to even). The rounding is
  exact for values in the normal range below \<open>2 ^ 53\<close>, where every value of the program lies.
\<close>

datatype float64 = NaN | PosInf | NegInf | Fin rat

fun float_less :: "float64 \<Rightarrow> float64 \<Rightarrow> bool" where
  "float_less NaN _ = False"
| "float_less _ NaN = False"
| "float_less PosInf _ = False"
| "float_less NegInf y = (y \<noteq> NegInf)"
| "float_less (Fin x) PosInf = True"
| "float_less (Fin x) NegInf = False"
| "float_less (Fin x) (Fin y) = (x < y)"

section \<open>rounding\<close>

text \<open>The number of doublings that bring \<open>x\<close> to at least \<open>2 ^ 52\<close>; 1074 is the least exponent.\<close>

fun scale_up :: "nat \<Rightarrow> rat \<Rightarrow> nat" where
  "scale_up 0 x = 0"
| "scale_up (Suc n) x = (if 2 ^ 52 \<le> x then 0 else Suc (scale_up n (2 * x)))"

definition round_half_even :: "rat \<Rightarrow> int" where
  "round_half_even q =
     (let f = \<lfloor>q\<rfloor>; r = q - of_int f in
      if r < 1 / 2 then f
      else if 1 / 2 < r then f + 1
      else if even f then f else f + 1)"

definition round64 :: "rat \<Rightarrow> rat" where
  "round64 x =
     (if x = 0 then 0
      else let k = scale_up 1074 x in of_int (round_half_even (x * 2 ^ k)) / 2 ^ k)"

lemma round_half_even_error: "\<bar>of_int (round_half_even q) - q\<bar> \<le> 1 / 2"
proof -
  have "of_int \<lfloor>q\<rfloor> \<le> q" "q < of_int \<lfloor>q\<rfloor> + 1" by linarith+
  moreover have "\<bar>f - q\<bar> \<le> 1 / 2" if "f \<le> q" "q - f \<le> 1 / 2" for f :: rat
    using that by linarith
  moreover have "\<bar>(f + 1) - q\<bar> \<le> 1 / 2" if "q < f + 1" "1 / 2 \<le> q - f" for f :: rat
    using that by linarith
  ultimately show ?thesis unfolding round_half_even_def Let_def by simp
qed

lemma scale_up_large: "2 ^ 52 \<le> x * 2 ^ n \<Longrightarrow> 2 ^ 52 \<le> x * 2 ^ scale_up n x"
proof (induction n arbitrary: x)
  case 0
  then show ?case by simp
next
  case (Suc n)
  show ?case
  proof (cases "2 ^ 52 \<le> x")
    case True
    then show ?thesis by simp
  next
    case False
    from Suc.prems have "2 ^ 52 \<le> (2 * x) * 2 ^ n" by (simp add: mult_ac)
    from Suc.IH[OF this] False show ?thesis by (simp add: mult_ac)
  qed
qed

text \<open>The relative error of the rounding is at most \<open>2 ^ -53\<close>.\<close>

lemma round64_error:
  assumes "1 / 10 ^ 4 \<le> x"
  shows "\<bar>round64 x - x\<bar> \<le> x / 2 ^ 53"
proof -
  let ?k = "scale_up 1074 x"
  have "2 ^ 52 \<le> (1 / 10 ^ 4 :: rat) * 2 ^ 1074" by simp
  also have "\<dots> \<le> x * 2 ^ 1074" using assms by (intro mult_right_mono) auto
  finally have big: "2 ^ 52 \<le> x * 2 ^ ?k" by (rule scale_up_large)
  have x0: "x \<noteq> 0" using assms by auto
  have "round64 x - x = (of_int (round_half_even (x * 2 ^ ?k)) - x * 2 ^ ?k) / 2 ^ ?k"
    using x0 by (simp add: round64_def Let_def diff_divide_distrib)
  then have "\<bar>round64 x - x\<bar> = \<bar>of_int (round_half_even (x * 2 ^ ?k)) - x * 2 ^ ?k\<bar> / 2 ^ ?k"
    by (simp only: abs_divide) simp
  also have "\<dots> \<le> (1 / 2) / 2 ^ ?k"
    by (intro divide_right_mono round_half_even_error) simp
  also have "\<dots> \<le> x / 2 ^ 53"
    using big by (simp add: field_simps)
  finally show ?thesis .
qed

lemma round64_zero [simp]: "round64 0 = 0"
  by (simp add: round64_def)

lemma round64_100: "round64 100 = 100"
  by code_simp

lemma round64_50: "round64 50 = 50"
  by code_simp

end
