(* ===== verification/SdkStrategy.thy ===== *)
theory SdkStrategy
  imports SdkToggle Net GoFloat
begin

text \<open>
  The activation-rule evaluators of the Go client, \<open>totoggle_go/internal/strategy\<close>, and the registry
  that dispatches on the rule type. What an evaluator reads from outside (the random source, the
  clock, \<open>strconv.ParseFloat\<close>) is in the environment record. The lemmas say which keys each
  evaluator accepts: the exact share of the percentage buckets, list membership, address prefixes,
  and the daily window including the overnight one.
\<close>

record strategy_env =
  se_ParseFloat :: "string \<Rightarrow> float64 option"
  se_random :: rat
  se_now :: "int \<times> int"

section \<open>presence.go, matchlist.go\<close>

definition PresenceEvaluator_Evaluate :: "sdk_rule \<Rightarrow> string \<Rightarrow> bool \<Rightarrow> bool" where
  "PresenceEvaluator_Evaluate rule key hasKey \<longleftrightarrow> hasKey \<and> TrimSpace key \<noteq> []"

fun some_entry_is :: "string \<Rightarrow> string list \<Rightarrow> bool" where
  "some_entry_is key [] = False"
| "some_entry_is key (entry # entries) =
     (if TrimSpace entry = key then True else some_entry_is key entries)"

definition MatchListEvaluator_Evaluate :: "sdk_rule \<Rightarrow> string \<Rightarrow> bool \<Rightarrow> bool" where
  "MatchListEvaluator_Evaluate rule key hasKey =
     (if \<not> hasKey then False
      else if TrimSpace (sr_Value rule) = [] then False
      else some_entry_is key (Split CHR '','' (sr_Value rule)))"

section \<open>percentage.go\<close>

text \<open>\<open>hash/fnv\<close>, 32-bit FNV-1a.\<close>

definition fnv_prime :: "32 word" where "fnv_prime = 16777619"
definition fnv_offset :: "32 word" where "fnv_offset = 2166136261"

fun fnv_write :: "32 word \<Rightarrow> string \<Rightarrow> 32 word" where
  "fnv_write h [] = h"
| "fnv_write h (c # cs) = fnv_write ((h XOR word_of_nat (of_char c)) * fnv_prime) cs"

definition bucket_index :: "string \<Rightarrow> string \<Rightarrow> nat" where
  "bucket_index ruleValue key = unat (fnv_write fnv_offset (ruleValue @ '':'' @ key) mod 10000)"

definition consistentBucket :: "string \<Rightarrow> string \<Rightarrow> float64" where
  "consistentBucket ruleValue key = Fin (round64 (of_nat (bucket_index ruleValue key) / 100))"

definition PercentageEvaluator_Evaluate :: "strategy_env \<Rightarrow> sdk_rule \<Rightarrow> string \<Rightarrow> bool \<Rightarrow> bool" where
  "PercentageEvaluator_Evaluate env rule key hasKey =
     (case se_ParseFloat env (sr_Value rule) of
        None \<Rightarrow> False
      | Some percentage \<Rightarrow>
          if float_less percentage (Fin 0) \<or> float_less (Fin 100) percentage then False
          else
            let bucket = (if hasKey then consistentBucket (sr_Value rule) key
                          else Fin (round64 (se_random env * 100)))
            in float_less bucket percentage)"

section \<open>ip.go\<close>

definition matchesIPEntry :: "string \<Rightarrow> ip \<Rightarrow> bool" where
  "matchesIPEntry entry candidate =
     (if CHR ''/'' \<in> set entry then
        (case ParseCIDR entry of
           None \<Rightarrow> False
         | Some network \<Rightarrow> Contains_IP network candidate)
      else
        (case ParseIP entry of
           None \<Rightarrow> False
         | Some exact \<Rightarrow> IP_Equal exact candidate))"

fun some_ip_entry :: "ip \<Rightarrow> string list \<Rightarrow> bool" where
  "some_ip_entry candidate [] = False"
| "some_ip_entry candidate (e # entries) =
     (let entry = TrimSpace e in
      if entry = [] then some_ip_entry candidate entries
      else if matchesIPEntry entry candidate then True
      else some_ip_entry candidate entries)"

definition IPEvaluator_Evaluate :: "sdk_rule \<Rightarrow> string \<Rightarrow> bool \<Rightarrow> bool" where
  "IPEvaluator_Evaluate rule key hasKey =
     (if \<not> hasKey then False
      else if TrimSpace (sr_Value rule) = [] then False
      else (case ParseIP key of
              None \<Rightarrow> False
            | Some candidate \<Rightarrow> some_ip_entry candidate (Split CHR '','' (sr_Value rule))))"

section \<open>timewindow.go\<close>

definition minutesOfDay :: "int \<times> int \<Rightarrow> int" where
  "minutesOfDay t = fst t * 60 + snd t"

text \<open>
  \<open>time.Parse("15:04", s)\<close>: one or two digits for the hour (below 24), a colon, two digits for the
  minute (below 60), nothing after.
\<close>

fun parse_minute :: "nat \<Rightarrow> string \<Rightarrow> (int \<times> int) option" where
  "parse_minute h [colon, m1, m2] =
     (if 24 \<le> h then None
      else if colon \<noteq> CHR '':'' then None
      else if \<not> is_digit m1 \<or> \<not> is_digit m2 then None
      else let m = digit_val m1 * 10 + digit_val m2 in
           if 60 \<le> m then None else Some (int h, int m))"
| "parse_minute h _ = None"

fun parse_hhmm :: "string \<Rightarrow> (int \<times> int) option" where
  "parse_hhmm [] = None"
| "parse_hhmm (c # cs) =
     (if \<not> is_digit c then None
      else (case cs of
              [] \<Rightarrow> None
            | d # ds \<Rightarrow>
                if is_digit d then parse_minute (digit_val c * 10 + digit_val d) ds
                else parse_minute (digit_val c) cs))"

definition minutesOfDayFromHHMM :: "string \<Rightarrow> int option" where
  "minutesOfDayFromHHMM s =
     (case parse_hhmm s of None \<Rightarrow> None | Some parsed \<Rightarrow> Some (minutesOfDay parsed))"

definition TimeWindowEvaluator_Evaluate :: "strategy_env \<Rightarrow> sdk_rule \<Rightarrow> string \<Rightarrow> bool \<Rightarrow> bool" where
  "TimeWindowEvaluator_Evaluate env rule key hasKey =
     (case SplitN2 CHR ''-'' (sr_Value rule) of
        [a, b] \<Rightarrow>
          (case minutesOfDayFromHHMM (TrimSpace a) of
             None \<Rightarrow> False
           | Some start \<Rightarrow>
               (case minutesOfDayFromHHMM (TrimSpace b) of
                  None \<Rightarrow> False
                | Some end' \<Rightarrow>
                    let now = minutesOfDay (se_now env) in
                    if start \<le> end' then start \<le> now \<and> now < end'
                    else start \<le> now \<or> now < end'))
      | _ \<Rightarrow> False)"

section \<open>strategy.go\<close>

datatype evaluator = MatchList | Presence | Percentage | IPAllowlist | TimeWindow

fun evaluator_Evaluate :: "strategy_env \<Rightarrow> evaluator \<Rightarrow> sdk_rule \<Rightarrow> string \<Rightarrow> bool \<Rightarrow> bool" where
  "evaluator_Evaluate env MatchList rule key hasKey = MatchListEvaluator_Evaluate rule key hasKey"
| "evaluator_Evaluate env Presence rule key hasKey = PresenceEvaluator_Evaluate rule key hasKey"
| "evaluator_Evaluate env Percentage rule key hasKey = PercentageEvaluator_Evaluate env rule key hasKey"
| "evaluator_Evaluate env IPAllowlist rule key hasKey = IPEvaluator_Evaluate rule key hasKey"
| "evaluator_Evaluate env TimeWindow rule key hasKey = TimeWindowEvaluator_Evaluate env rule key hasKey"

type_synonym registry = "rule_type \<rightharpoonup> evaluator"

definition NewRegistry :: registry where
  "NewRegistry = Map.empty"

definition Register :: "registry \<Rightarrow> rule_type \<Rightarrow> evaluator \<Rightarrow> registry" where
  "Register r t e = r(t \<mapsto> e)"

text \<open>The result and the error flag (an unregistered type is an error).\<close>

definition Registry_Evaluate ::
    "strategy_env \<Rightarrow> registry \<Rightarrow> sdk_rule \<Rightarrow> string \<Rightarrow> bool \<Rightarrow> bool \<times> bool" where
  "Registry_Evaluate env r rule key hasKey =
     (case r (sr_Type rule) of
        None \<Rightarrow> (False, True)
      | Some e \<Rightarrow> (evaluator_Evaluate env e rule key hasKey, False))"

text \<open>\<open>newStrategyRegistry\<close> of client.go.\<close>

definition newStrategyRegistry :: registry where
  "newStrategyRegistry =
     (let reg = NewRegistry;
          reg = Register reg RuleTypeParameter MatchList;
          reg = Register reg RuleTypeUserID MatchList;
          reg = Register reg RuleTypeCountry MatchList;
          reg = Register reg RuleTypeCohort Presence;
          reg = Register reg RuleTypePercentage Percentage;
          reg = Register reg RuleTypeIP IPAllowlist
      in Register reg RuleTypeTime TimeWindow)"

section \<open>lemmas\<close>

subsection \<open>lists of entries\<close>

lemma some_entry_is_iff: "some_entry_is key es \<longleftrightarrow> (\<exists>e\<in>set es. TrimSpace e = key)"
  by (induction es) auto

lemma some_ip_entry_iff:
  "some_ip_entry c es \<longleftrightarrow> (\<exists>e\<in>set es. TrimSpace e \<noteq> [] \<and> matchesIPEntry (TrimSpace e) c)"
  by (induction es) (auto simp: Let_def)

subsection \<open>the registry\<close>

lemma newStrategyRegistry_simps [simp]:
  "newStrategyRegistry RuleTypeParameter = Some MatchList"
  "newStrategyRegistry RuleTypeUserID = Some MatchList"
  "newStrategyRegistry RuleTypeCountry = Some MatchList"
  "newStrategyRegistry RuleTypeCohort = Some Presence"
  "newStrategyRegistry RuleTypePercentage = Some Percentage"
  "newStrategyRegistry RuleTypeIP = Some IPAllowlist"
  "newStrategyRegistry RuleTypeTime = Some TimeWindow"
  by (simp_all add: newStrategyRegistry_def Register_def Let_def rule_type_defs)

lemma newStrategyRegistry_dom:
  "dom newStrategyRegistry =
     {RuleTypeParameter, RuleTypeUserID, RuleTypeCountry, RuleTypeCohort, RuleTypePercentage,
      RuleTypeIP, RuleTypeTime}"
  by (auto simp: newStrategyRegistry_def Register_def NewRegistry_def Let_def split: if_splits)

subsection \<open>buckets\<close>

lemma bucket_index_less: "bucket_index v k < 10000"
proof -
  have "unat (w mod 10000) < 10000" for w :: "32 word"
    by (simp add: unat_mod_distrib)
  then show ?thesis unfolding bucket_index_def .
qed

text \<open>Rounding keeps the order of hundredths: the distance of two of them exceeds the error.\<close>

lemma round64_hundredths_less:
  fixes m n :: nat
  assumes "n < m" "m \<le> 10000"
  shows "round64 (of_nat n / 100) < round64 (of_nat m / 100)"
proof -
  have err: "\<bar>round64 (of_nat j / 100) - of_nat j / 100\<bar> \<le> 1 / 1000" if "j \<le> 10000" for j :: nat
  proof (cases "j = 0")
    case False
    then have "(1 :: rat) \<le> of_nat j" by simp
    then have "\<bar>round64 (of_nat j / 100) - of_nat j / 100\<bar> \<le> of_nat j / 100 / 2 ^ 53"
      by (intro round64_error) simp
    also have "\<dots> \<le> 10000 / 100 / 2 ^ 53"
      using that by (intro divide_right_mono) auto
    finally show ?thesis by simp
  qed simp
  have "(of_nat n :: rat) + 1 \<le> of_nat m" using assms by (metis Suc_leI of_nat_Suc of_nat_le_iff add.commute)
  moreover have "n \<le> 10000" using assms by simp
  ultimately show ?thesis using err[of n] err[of m] assms(2)
    unfolding abs_le_iff by linarith
qed

lemma round64_hundredths_less_iff:
  fixes m n :: nat
  assumes "n \<le> 10000" "m \<le> 10000"
  shows "round64 (of_nat n / 100) < round64 (of_nat m / 100) \<longleftrightarrow> n < m"
  using assms round64_hundredths_less[of n m] round64_hundredths_less[of m n]
  by (cases n m rule: linorder_cases) auto

subsection \<open>times of day\<close>

lemma parse_minute_bounds: "parse_minute h s = Some (x, y) \<Longrightarrow> x = int h \<and> h < 24 \<and> 0 \<le> y \<and> y < 60"
  by (induction h s rule: parse_minute.induct) (auto simp: Let_def split: if_splits)

lemma parse_hhmm_bounds: "parse_hhmm s = Some (h, m) \<Longrightarrow> 0 \<le> h \<and> h < 24 \<and> 0 \<le> m \<and> m < 60"
  by (cases s) (auto split: if_splits list.splits dest: parse_minute_bounds)

lemma minutesOfDayFromHHMM_bounds: "minutesOfDayFromHHMM s = Some m \<Longrightarrow> 0 \<le> m \<and> m < 1440"
  by (auto simp: minutesOfDayFromHHMM_def minutesOfDay_def split: option.splits dest!: parse_hhmm_bounds)

lemma SplitN2_sep: "d \<notin> set a \<Longrightarrow> SplitN2 d (a @ d # b) = [a, b]"
  by (induction a) auto

lemma TimeWindow_eq:
  assumes "CHR ''-'' \<notin> set a"
    "minutesOfDayFromHHMM (TrimSpace a) = Some start" "minutesOfDayFromHHMM (TrimSpace b) = Some stop"
    "sr_Value rule = a @ ''-'' @ b"
  shows "TimeWindowEvaluator_Evaluate env rule key hasKey \<longleftrightarrow>
    (let now = minutesOfDay (se_now env) in
     if start \<le> stop then start \<le> now \<and> now < stop else start \<le> now \<or> now < stop)"
  using assms by (simp add: TimeWindowEvaluator_Evaluate_def SplitN2_sep)

lemma cyclic_window:
  fixes now start stop :: int
  assumes "0 \<le> now" "now < 1440" "0 \<le> start" "start < 1440" "0 \<le> stop" "stop < 1440"
  shows "(if start \<le> stop then start \<le> now \<and> now < stop else start \<le> now \<or> now < stop)
    \<longleftrightarrow> (now - start) mod 1440 < (stop - start) mod 1440"
proof -
  have m: "(x - y) mod 1440 = (if y \<le> x then x - y else x - y + 1440)"
    if "0 \<le> x" "x < 1440" "0 \<le> y" "y < 1440" for x y :: int
  proof (cases "y \<le> x")
    case True
    with that show ?thesis by simp
  next
    case False
    have "(x - y) mod 1440 = (x - y + 1440) mod 1440" by simp
    also have "\<dots> = x - y + 1440" using that False by (intro mod_pos_pos_trivial) auto
    finally show ?thesis using False by simp
  qed
  show ?thesis using assms by (simp add: m)
qed

subsection \<open>networks\<close>

lemma To4_mapped: "length x = 4 \<Longrightarrow> To4 (v4InV6Prefix @ x) = Some x"
  by (simp add: To4_def v4InV6Prefix_def)

lemma To4_four: "length x = 4 \<Longrightarrow> To4 x = Some x"
  by (simp add: To4_def)

lemma length_and_bytes [simp]: "length (and_bytes a m) = min (length a) (length m)"
  by (simp add: and_bytes_def)

lemma length_CIDRMask [simp]: "length (CIDRMask n bits) = bits div 8"
  by (simp add: CIDRMask_def)

lemma and_bytes_idem: "and_bytes (and_bytes a m) m = and_bytes a m"
proof (induction a arbitrary: m)
  case Nil
  then show ?case by (simp add: and_bytes_def)
next
  case (Cons x xs)
  then show ?case by (cases m) (auto simp: and_bytes_Cons, simp add: and_bytes_def)
qed

lemma and_mask_eq_iff32:
  "length a = 4 \<Longrightarrow> length b = 4 \<Longrightarrow>
   and_bytes a (CIDRMask n 32) = and_bytes b (CIDRMask n 32) \<longleftrightarrow> take n (ip_bits a) = take n (ip_bits b)"
  using and_CIDRMask_eq_iff[of a 4 b n] by simp

lemma and_mask_eq_iff128:
  "length a = 16 \<Longrightarrow> length b = 16 \<Longrightarrow>
   and_bytes a (CIDRMask n 128) = and_bytes b (CIDRMask n 128) \<longleftrightarrow> take n (ip_bits a) = take n (ip_bits b)"
  using and_CIDRMask_eq_iff[of a 16 b n] by simp

lemma ParseCIDR_eq:
  assumes "CHR ''/'' \<notin> set addr" "parseAddr addr = Some (a, bitlen)" "m \<noteq> []"
    "dtoi_loop 0 m = Some n" "n \<le> bitlen"
  shows "ParseCIDR (addr @ ''/'' @ m) =
    Some \<lparr> in_IP = IP_Mask a (CIDRMask n bitlen), in_Mask = CIDRMask n bitlen \<rparr>"
  using assms by (simp add: ParseCIDR_def SplitN2_sep)

lemma matchesIPEntry_v4:
  assumes "CHR ''/'' \<notin> set addr" "parseAddr addr = Some (v4InV6Prefix @ a, 32)" "length a = 4"
    "m \<noteq> []" "dtoi_loop 0 m = Some n" "n \<le> 32"
  shows "matchesIPEntry (addr @ ''/'' @ m) c \<longleftrightarrow>
    (\<exists>x. To4 c = Some x \<and> take n (ip_bits x) = take n (ip_bits a))"
proof -
  have ip: "IP_Mask (v4InV6Prefix @ a) (CIDRMask n 32) = and_bytes a (CIDRMask n 32)"
    using assms(3) by (simp add: IP_Mask_def v4InV6Prefix_def)
  have net: "networkNumberAndMask \<lparr> in_IP = and_bytes a (CIDRMask n 32), in_Mask = CIDRMask n 32 \<rparr> =
      Some (and_bytes a (CIDRMask n 32), CIDRMask n 32)"
    using assms(3) by (simp add: networkNumberAndMask_def To4_four Let_def)
  have len: "length x = 4 \<longleftrightarrow> To4 c = Some x" if "x = (case To4 c of None \<Rightarrow> c | Some y \<Rightarrow> y)" for x
    using that by (auto simp: To4_def split: if_splits)
  have "matchesIPEntry (addr @ ''/'' @ m) c \<longleftrightarrow>
      Contains_IP \<lparr> in_IP = and_bytes a (CIDRMask n 32), in_Mask = CIDRMask n 32 \<rparr> c"
    using ParseCIDR_eq[OF assms(1,2,4-6)] by (simp add: matchesIPEntry_def ip)
  also have "\<dots> \<longleftrightarrow> (\<exists>x. To4 c = Some x \<and> take n (ip_bits x) = take n (ip_bits a))"
  proof (cases "To4 c")
    case None
    then have "length c \<noteq> 4" by (auto simp: To4_def)
    with None assms(3) show ?thesis
      by (simp add: Contains_IP_def net Let_def)
  next
    case (Some x)
    then have "length x = 4" by (auto simp: To4_def split: if_splits)
    with Some assms(3) show ?thesis
      by (auto simp: Contains_IP_def net Let_def and_bytes_idem and_mask_eq_iff32)
  qed
  finally show ?thesis .
qed

lemma parseAddr_IPv4:
  assumes "parseIPv4Fields s = Some a"
  shows "parseAddr s = Some (v4InV6Prefix @ a, 32)"
proof -
  have digits: "octet_loop n v f \<noteq> None \<Longrightarrow> \<forall>c\<in>set f. is_digit c" for n v f
    by (induction n v f rule: octet_loop.induct) (auto split: if_splits)
  have "octets fs \<noteq> None \<Longrightarrow> f \<in> set fs \<Longrightarrow> \<forall>c\<in>set f. is_digit c" for fs f
    by (induction fs) (use digits in \<open>fastforce split: option.splits\<close>)+
  with assms have dg: "\<forall>f\<in>set (Split dot s). \<forall>c\<in>set f. is_digit c"
    and len: "length (Split dot s) = 4"
    by (auto simp: parseIPv4Fields_def Let_def split: if_splits)
  have chars: "c \<in> set (Join d ps) \<Longrightarrow> c = d \<or> (\<exists>p\<in>set ps. c \<in> set p)" for c d and ps :: "string list"
    by (induction d ps rule: Join.induct) auto
  have all: "c \<in> set s \<Longrightarrow> c = dot \<or> is_digit c" for c
    using chars[of c dot "Split dot s"] dg by auto
  have nox: "CHR ''%'' \<notin> set s" "CHR '':'' \<notin> set s"
    using all[of "CHR ''%''"] all[of "CHR '':''"] by (auto simp: is_digit_def)
  have "dot \<in> set s"
  proof (rule ccontr)
    assume "dot \<notin> set s"
    then have "Split dot s = [s]" by (rule Split_single)
    with len show False by simp
  qed
  then have "find (\<lambda>c. c = CHR ''.'' \<or> c = CHR '':'') s = Some CHR ''.''"
    using nox(2) by (induction s) auto
  with nox(1) assms show ?thesis by (simp add: parseAddr_def)
qed

section \<open>properties\<close>

text \<open>C40. A percentage rule whose value parses to m hundredths of a percent accepts exactly the keys
  whose FNV-1a bucket (out of 10000) is below m, rounding included: 100 percent accepts every key,
  0 percent none.\<close>

theorem Percentage_bucket_share:
  fixes m :: nat
  assumes "m \<le> 10000" "se_ParseFloat env (sr_Value rule) = Some (Fin (round64 (of_nat m / 100)))"
  shows "(PercentageEvaluator_Evaluate env rule key True \<longleftrightarrow> bucket_index (sr_Value rule) key < m)
    \<and> (m = 10000 \<longrightarrow> PercentageEvaluator_Evaluate env rule key True)
    \<and> (m = 0 \<longrightarrow> \<not> PercentageEvaluator_Evaluate env rule key True)"
proof -
  have "\<not> round64 (of_nat m / 100) < 0"
    using round64_hundredths_less_iff[of m 0] assms(1) by simp
  moreover have "\<not> 100 < round64 (of_nat m / 100)"
    using round64_hundredths_less_iff[of 10000 m] assms(1) by (simp add: round64_100)
  ultimately have "PercentageEvaluator_Evaluate env rule key True \<longleftrightarrow> bucket_index (sr_Value rule) key < m"
    using assms bucket_index_less[of "sr_Value rule" key]
    by (simp add: PercentageEvaluator_Evaluate_def consistentBucket_def round64_hundredths_less_iff Let_def)
  with bucket_index_less[of "sr_Value rule" key] show ?thesis by auto
qed

definition example_env :: strategy_env where
  "example_env = \<lparr> se_ParseFloat = (\<lambda>s. if s = ''50'' then Some (Fin 50) else None),
                   se_random = 0, se_now = (23, 30) \<rparr>"

theorem Percentage_bucket_share_witness:
  "PercentageEvaluator_Evaluate example_env \<lparr> sr_Type = ''percentage'', sr_Value = ''50'', sr_Config = RawEmpty \<rparr>
     ''u'' True \<longleftrightarrow> bucket_index ''50'' ''u'' < 5000"
proof -
  have "(rat_of_nat 5000 / 100) = 50" by simp
  then have "se_ParseFloat example_env ''50'' = Some (Fin (round64 (of_nat 5000 / 100)))"
    by (simp only: round64_50) (simp add: example_env_def)
  then show ?thesis
    using Percentage_bucket_share[of 5000 example_env
      "\<lparr> sr_Type = ''percentage'', sr_Value = ''50'', sr_Config = RawEmpty \<rparr>" "''u''"]
    by (simp only: sdk_rule.simps)
qed

text \<open>C38. An IPv4 CIDR entry of an address rule accepts a candidate exactly when the candidate is an
  IPv4 address (plain or IPv6-mapped) that agrees with the entry on its leading n bits.\<close>

theorem IPEntry_cidr_prefix:
  assumes "CHR ''/'' \<notin> set addr" "parseIPv4Fields addr = Some a" "m \<noteq> []"
    "dtoi_loop 0 m = Some n" "n \<le> 32"
  shows "matchesIPEntry (addr @ ''/'' @ m) c \<longleftrightarrow>
    (\<exists>x. To4 c = Some x \<and> take n (ip_bits x) = take n (ip_bits a))"
  using assms by (intro matchesIPEntry_v4) (auto simp: parseAddr_IPv4 parseIPv4Fields_length)

theorem IPEntry_cidr_prefix_witness:
  "matchesIPEntry ''10.1.0.0/16'' (v4InV6Prefix @ [10, 1, 2, 3])
   \<and> \<not> matchesIPEntry ''10.1.0.0/16'' (v4InV6Prefix @ [10, 2, 2, 3])"
proof -
  have p: "parseIPv4Fields ''10.1.0.0'' = Some [10, 1, 0, 0]"
    by (simp add: parseIPv4Fields_def Let_def is_digit_def digit_val_def)
  have t: "To4 (v4InV6Prefix @ [10, b, 2, 3]) = Some [10, b, 2, 3]" for b
    by (simp add: To4_def v4InV6Prefix_def)
  have "dtoi_loop 0 ''16'' = Some 16" by (simp add: is_digit_def digit_val_def)
  from IPEntry_cidr_prefix[OF _ p _ this, of "v4InV6Prefix @ [10, 1, 2, 3]"]
    IPEntry_cidr_prefix[OF _ p _ this, of "v4InV6Prefix @ [10, 2, 2, 3]"]
  have "matchesIPEntry ''10.1.0.0/16'' (v4InV6Prefix @ [10, 1, 2, 3]) \<longleftrightarrow>
          take 16 (ip_bits [10, 1, 2, 3]) = take 16 (ip_bits [10, 1, 0, 0])"
    and "matchesIPEntry ''10.1.0.0/16'' (v4InV6Prefix @ [10, 2, 2, 3]) \<longleftrightarrow>
          take 16 (ip_bits [10, 2, 2, 3]) = take 16 (ip_bits [10, 1, 0, 0])"
    by (simp_all add: t)
  moreover have "take 16 (ip_bits (x # y # r)) = byte_bits x @ byte_bits y" for x y r
    by (simp add: ip_bits_def)
  moreover have "byte_bits 2 \<noteq> byte_bits 1" by (simp add: byte_bits_def upt_rec)
  ultimately show ?thesis by simp
qed

text \<open>C39. A time rule accepts the current minute exactly when it lies in the window on the 24-hour
  circle: its distance from the start, modulo a day, is below the length of the window. This covers
  windows over midnight; a window with equal ends accepts nothing.\<close>

theorem TimeWindow_cyclic:
  assumes "CHR ''-'' \<notin> set a" "sr_Value rule = a @ ''-'' @ b"
    "minutesOfDayFromHHMM (TrimSpace a) = Some start" "minutesOfDayFromHHMM (TrimSpace b) = Some stop"
    "se_now env = (h, m)" "0 \<le> h" "h < 24" "0 \<le> m" "m < 60"
  shows "TimeWindowEvaluator_Evaluate env rule key hasKey \<longleftrightarrow>
    (h * 60 + m - start) mod 1440 < (stop - start) mod 1440"
  using assms minutesOfDayFromHHMM_bounds[OF assms(3)] minutesOfDayFromHHMM_bounds[OF assms(4)]
    cyclic_window[of "h * 60 + m" start stop]
  by (subst TimeWindow_eq[OF assms(1,3,4,2)]) (auto simp: minutesOfDay_def Let_def)

theorem TimeWindow_cyclic_witness:
  "TimeWindowEvaluator_Evaluate example_env
     \<lparr> sr_Type = ''time'', sr_Value = ''22:00-6:00'', sr_Config = RawEmpty \<rparr> [] False"
proof -
  have "minutesOfDayFromHHMM (TrimSpace ''22:00'') = Some 1320"
    by (simp add: TrimSpace_printable printable_def minutesOfDayFromHHMM_def minutesOfDay_def
        is_digit_def digit_val_def Let_def)
  moreover have "minutesOfDayFromHHMM (TrimSpace ''6:00'') = Some 360"
    by (simp add: TrimSpace_printable printable_def minutesOfDayFromHHMM_def minutesOfDay_def
        is_digit_def digit_val_def Let_def)
  ultimately show ?thesis
    using TimeWindow_cyclic[of "''22:00''" "\<lparr> sr_Type = ''time'', sr_Value = ''22:00-6:00'', sr_Config = RawEmpty \<rparr>"
        "''6:00''" 1320 360 example_env 23 30 "[]" False]
    by (simp add: example_env_def)
qed

text \<open>A list rule (parameter, user id, country) written as comma-joined entries accepts exactly
  the keys that are entries, when no entry has a comma or outer white space.\<close>

theorem MatchList_Join:
  assumes "entries \<noteq> []" "\<forall>e\<in>set entries. CHR '','' \<notin> set e \<and> unspaced e"
    "sr_Value rule = Join CHR '','' entries" "TrimSpace (sr_Value rule) \<noteq> []"
  shows "MatchListEvaluator_Evaluate rule key True \<longleftrightarrow> key \<in> set entries"
proof -
  have "Split CHR '','' (sr_Value rule) = entries" using assms by (auto intro: Split_Join)
  then show ?thesis
    using assms(2,4) by (auto simp: MatchListEvaluator_Evaluate_def some_entry_is_iff TrimSpace_id)
qed

theorem MatchList_Join_witness:
  "MatchListEvaluator_Evaluate \<lparr> sr_Type = ''country'', sr_Value = ''BR,US'', sr_Config = RawEmpty \<rparr> ''US'' True"
proof -
  let ?r = "\<lparr> sr_Type = ''country'', sr_Value = ''BR,US'', sr_Config = RawEmpty \<rparr>"
  have u: "unspaced ''BR''" by (simp add: printable_unspaced printable_def)
  have v: "unspaced ''US''" by (simp add: printable_unspaced printable_def)
  have w: "TrimSpace ''BR,US'' \<noteq> []" by (simp add: TrimSpace_printable printable_def)
  have "MatchListEvaluator_Evaluate ?r ''US'' True \<longleftrightarrow> ''US'' \<in> set [''BR'', ''US'']"
    by (rule MatchList_Join) (use u v w in simp_all)
  then show ?thesis by simp
qed

end
