(* ===== verification/SdkClient.thy ===== *)
theory SdkClient
  imports SdkStrategy
begin

text \<open>
  The Go client, package \<open>totoggle_go\<close>: configuration (\<open>config.go\<close>), the catalogue snapshot
  (\<open>internal/cache/cache.go\<close>), the fetch (\<open>internal/serverapi/fetch.go\<close>), the listeners
  (\<open>metrics.go\<close>) and the client itself (\<open>client.go\<close>): refresh, back-off, evaluation, health. One
  call is modelled here as one step; the interleavings of Start, Refresh, the background loop and
  Shutdown are in SdkLifecycle. Durations are 64-bit nanosecond counts with Go's wrap-around.
\<close>

section \<open>config.go\<close>

text \<open>What a resolver may do for a request context: a value with its flag, or a panic.\<close>

datatype resolved = Resolved string bool | ResolverPanics

type_synonym 'c resolver = "'c \<Rightarrow> string \<Rightarrow> resolved"

record 'c config =
  cf_ApplicationName :: string
  cf_ServerURL :: string
  cf_SecretKey :: string
  cf_RefreshInterval :: int
  cf_RefreshBackoffMax :: int
  cf_HTTPTimeout :: int
  cf_EnableOfflineMode :: bool
  cf_ContextResolver :: "'c resolver option"

datatype config_error =
    ApplicationNameBlank | ServerURLBlank | SecretKeyBlank | SecretKeyPrefix
  | RefreshIntervalNotPositive | BackoffMaxBelowInterval | HTTPTimeoutNotPositive

definition defaultRefreshInterval :: int where "defaultRefreshInterval = 5 * 60 * 1000000000"
definition defaultBackoffMultiplier :: int where "defaultBackoffMultiplier = 16"
definition defaultHTTPTimeout :: int where "defaultHTTPTimeout = 10 * 1000000000"

definition WithRefreshInterval :: "int \<Rightarrow> 'c config \<Rightarrow> 'c config" where
  "WithRefreshInterval d c = c\<lparr> cf_RefreshInterval := d \<rparr>"

definition WithRefreshBackoffMax :: "int \<Rightarrow> 'c config \<Rightarrow> 'c config" where
  "WithRefreshBackoffMax d c = c\<lparr> cf_RefreshBackoffMax := d \<rparr>"

definition WithHTTPTimeout :: "int \<Rightarrow> 'c config \<Rightarrow> 'c config" where
  "WithHTTPTimeout d c = c\<lparr> cf_HTTPTimeout := d \<rparr>"

definition WithOfflineMode :: "bool \<Rightarrow> 'c config \<Rightarrow> 'c config" where
  "WithOfflineMode enabled c = c\<lparr> cf_EnableOfflineMode := enabled \<rparr>"

definition WithToggleContextResolver :: "'c resolver \<Rightarrow> 'c config \<Rightarrow> 'c config" where
  "WithToggleContextResolver r c = c\<lparr> cf_ContextResolver := Some r \<rparr>"

definition multipliedDuration :: "int \<Rightarrow> int \<Rightarrow> int" where
  "multipliedDuration d multiplier =
     (if d > quot max_int64 multiplier then max_int64 else wrap64 (d * multiplier))"

definition NewConfig ::
    "string \<Rightarrow> string \<Rightarrow> string \<Rightarrow> ('c config \<Rightarrow> 'c config) list \<Rightarrow> config_error + 'c config" where
  "NewConfig applicationName serverURL secretKey opts =
     (let cfg = fold (\<lambda>opt. opt) opts
            \<lparr> cf_ApplicationName = applicationName, cf_ServerURL = serverURL, cf_SecretKey = secretKey,
              cf_RefreshInterval = defaultRefreshInterval, cf_RefreshBackoffMax = 0,
              cf_HTTPTimeout = defaultHTTPTimeout, cf_EnableOfflineMode = True,
              cf_ContextResolver = None \<rparr>
      in
      if TrimSpace (cf_ApplicationName cfg) = [] then Inl ApplicationNameBlank
      else if TrimSpace (cf_ServerURL cfg) = [] then Inl ServerURLBlank
      else if TrimSpace (cf_SecretKey cfg) = [] then Inl SecretKeyBlank
      else if \<not> HasPrefix (cf_SecretKey cfg) ''sk_'' then Inl SecretKeyPrefix
      else if cf_RefreshInterval cfg \<le> 0 then Inl RefreshIntervalNotPositive
      else
        let cfg = (if cf_RefreshBackoffMax cfg = 0
                   then cfg\<lparr> cf_RefreshBackoffMax :=
                          multipliedDuration (cf_RefreshInterval cfg) defaultBackoffMultiplier \<rparr>
                   else cfg)
        in
        if cf_RefreshBackoffMax cfg < cf_RefreshInterval cfg then Inl BackoffMaxBelowInterval
        else if cf_HTTPTimeout cfg \<le> 0 then Inl HTTPTimeoutNotPositive
        else Inr cfg)"

text \<open>\<open>strings.TrimRight(s, "/")\<close>\<close>

definition TrimRight_slash :: "string \<Rightarrow> string" where
  "TrimRight_slash s = rev (dropWhile (\<lambda>c. c = CHR ''/'') (rev s))"

definition apiURL :: "'c config \<Rightarrow> string" where
  "apiURL c = TrimRight_slash (cf_ServerURL c) @ ''/api/toggles''"

section \<open>cache.go\<close>

datatype refresh_error =
    ErrAlreadyShutdown | ErrNotStarted | ErrAuthentication | ErrRequest
  | ErrStatus int | ErrDecoding | ErrNotModifiedWithoutCatalog

record stats =
  cs_ToggleCount :: nat
  cs_LastSuccessAt :: "int option"
  cs_LastErrorAt :: "int option"
  cs_LastError :: "refresh_error option"
  cs_ConsecutiveFailures :: int
  cs_ETag :: string
  cs_Revision :: string

definition empty_stats :: stats where
  "empty_stats = \<lparr> cs_ToggleCount = 0, cs_LastSuccessAt = None, cs_LastErrorAt = None,
     cs_LastError = None, cs_ConsecutiveFailures = 0, cs_ETag = [], cs_Revision = [] \<rparr>"

record cache =
  ca_app :: sdk_app
  ca_stats :: stats
  ca_hasCatalog :: bool

definition cache_New :: cache where
  "cache_New = \<lparr> ca_app = empty_app, ca_stats = empty_stats, ca_hasCatalog = False \<rparr>"

definition UpdateCatalog :: "int \<Rightarrow> sdk_app \<Rightarrow> string \<Rightarrow> string \<Rightarrow> cache \<Rightarrow> cache" where
  "UpdateCatalog now app etag revision c =
     c\<lparr> ca_app := app, ca_hasCatalog := True,
        ca_stats := (ca_stats c)\<lparr> cs_ToggleCount := length (sa_Toggles app), cs_LastSuccessAt := Some now,
           cs_ConsecutiveFailures := 0, cs_ETag := etag, cs_Revision := revision \<rparr> \<rparr>"

definition RecordFreshness :: "int \<Rightarrow> string \<Rightarrow> cache \<Rightarrow> cache \<times> bool" where
  "RecordFreshness now etag c =
     (if \<not> ca_hasCatalog c then (c, False)
      else
        let st = (ca_stats c)\<lparr> cs_LastSuccessAt := Some now, cs_ConsecutiveFailures := 0 \<rparr>;
            st = (if etag \<noteq> [] then st\<lparr> cs_ETag := etag \<rparr> else st)
        in (c\<lparr> ca_stats := st \<rparr>, True))"

definition RecordFailure :: "int \<Rightarrow> refresh_error \<Rightarrow> cache \<Rightarrow> cache" where
  "RecordFailure now err c =
     c\<lparr> ca_stats := (ca_stats c)\<lparr> cs_LastErrorAt := Some now, cs_LastError := Some err,
          cs_ConsecutiveFailures := wrap64 (cs_ConsecutiveFailures (ca_stats c) + 1) \<rparr> \<rparr>"

definition cache_Get :: "cache \<Rightarrow> path \<Rightarrow> (sdk_toggle \<times> sdk_toggle list) option" where
  "cache_Get c p =
     (case ByPath (ca_app c) p of
        None \<Rightarrow> None
      | Some target \<Rightarrow> Some (target, AncestorsOf (ca_app c) p))"

definition cache_Clear :: "cache \<Rightarrow> cache" where
  "cache_Clear c = c\<lparr> ca_app := empty_app, ca_stats := empty_stats, ca_hasCatalog := False \<rparr>"

section \<open>fetch.go\<close>

text \<open>
  The decoder for the response: the members of each object in order, unknown members skipped, any
  type mismatch or invalid path failing the whole decode.
\<close>

definition rule_member :: "sdk_rule \<Rightarrow> string \<Rightarrow> json \<Rightarrow> sdk_rule option" where
  "rule_member r k v =
     (if field_matches ''type'' k
      then map_option (\<lambda>s. r\<lparr> sr_Type := s \<rparr>) (decode_string (sr_Type r) v)
      else if field_matches ''value'' k
      then map_option (\<lambda>s. r\<lparr> sr_Value := s \<rparr>) (decode_string (sr_Value r) v)
      else if field_matches ''config'' k then Some (r\<lparr> sr_Config := RawJSON v \<rparr>)
      else Some r)"

definition zero_rule :: sdk_rule where
  "zero_rule = \<lparr> sr_Type = [], sr_Value = [], sr_Config = RawEmpty \<rparr>"

fun decode_rule_ptr :: "sdk_rule option \<Rightarrow> json \<Rightarrow> sdk_rule option option" where
  "decode_rule_ptr old JNull = Some None"
| "decode_rule_ptr old (JObj kvs) =
     map_option Some (decode_members rule_member (case old of None \<Rightarrow> zero_rule | Some r \<Rightarrow> r) kvs)"
| "decode_rule_ptr old _ = None"

definition toggle_member :: "sdk_toggle \<Rightarrow> string \<Rightarrow> json \<Rightarrow> sdk_toggle option" where
  "toggle_member t k v =
     (if field_matches ''id'' k
      then map_option (\<lambda>s. t\<lparr> st_ID := s \<rparr>) (decode_string (st_ID t) v)
      else if field_matches ''path'' k
      then (case Path_UnmarshalJSON v of Inl _ \<Rightarrow> None | Inr p \<Rightarrow> Some (t\<lparr> st_Path := p \<rparr>))
      else if field_matches ''value'' k
      then map_option (\<lambda>s. t\<lparr> st_Value := s \<rparr>) (decode_string (st_Value t) v)
      else if field_matches ''enabled'' k
      then map_option (\<lambda>b. t\<lparr> st_Enabled := b \<rparr>) (decode_bool (st_Enabled t) v)
      else if field_matches ''level'' k
      then map_option (\<lambda>i. t\<lparr> st_Level := i \<rparr>) (decode_int (st_Level t) v)
      else if field_matches ''parent_id'' k
      then map_option (\<lambda>p. t\<lparr> st_ParentID := p \<rparr>) (decode_string_ptr (st_ParentID t) v)
      else if field_matches ''app_id'' k
      then map_option (\<lambda>s. t\<lparr> st_AppID := s \<rparr>) (decode_string (st_AppID t) v)
      else if field_matches ''has_activation_rule'' k
      then map_option (\<lambda>b. t\<lparr> st_HasActivationRule := b \<rparr>) (decode_bool (st_HasActivationRule t) v)
      else if field_matches ''activation_rule'' k
      then map_option (\<lambda>r. t\<lparr> st_ActivationRule := r \<rparr>) (decode_rule_ptr (st_ActivationRule t) v)
      else Some t)"

definition zero_toggle :: sdk_toggle where
  "zero_toggle = \<lparr> st_ID = [], st_Path = Path [], st_Value = [], st_Enabled = False, st_Level = 0,
     st_ParentID = None, st_AppID = [], st_HasActivationRule = False, st_ActivationRule = None \<rparr>"

fun decode_toggle :: "json \<Rightarrow> sdk_toggle option" where
  "decode_toggle JNull = Some zero_toggle"
| "decode_toggle (JObj kvs) = decode_members toggle_member zero_toggle kvs"
| "decode_toggle _ = None"

fun decode_toggles :: "json list \<Rightarrow> sdk_toggle list option" where
  "decode_toggles [] = Some []"
| "decode_toggles (j # js) =
     (case decode_toggle j of
        None \<Rightarrow> None
      | Some t \<Rightarrow> (case decode_toggles js of None \<Rightarrow> None | Some ts \<Rightarrow> Some (t # ts)))"

record fetch_response =
  fr_Revision :: string
  fr_Toggles :: "sdk_toggle list"

definition application_member :: "fetch_response \<Rightarrow> string \<Rightarrow> json \<Rightarrow> fetch_response option" where
  "application_member r k v =
     (if field_matches ''revision'' k
      then map_option (\<lambda>s. r\<lparr> fr_Revision := s \<rparr>) (decode_string (fr_Revision r) v)
      else if field_matches ''toggles'' k
      then (case v of
              JNull \<Rightarrow> Some (r\<lparr> fr_Toggles := [] \<rparr>)
            | JArr js \<Rightarrow> map_option (\<lambda>ts. r\<lparr> fr_Toggles := ts \<rparr>) (decode_toggles js)
            | _ \<Rightarrow> None)
      else Some r)"

definition response_member :: "fetch_response \<Rightarrow> string \<Rightarrow> json \<Rightarrow> fetch_response option" where
  "response_member r k v =
     (if field_matches ''application'' k
      then (case v of
              JNull \<Rightarrow> Some r
            | JObj kvs \<Rightarrow> decode_members application_member r kvs
            | _ \<Rightarrow> None)
      else Some r)"

fun decode_response :: "json \<Rightarrow> fetch_response option" where
  "decode_response JNull = Some \<lparr> fr_Revision = [], fr_Toggles = [] \<rparr>"
| "decode_response (JObj kvs) = decode_members response_member \<lparr> fr_Revision = [], fr_Toggles = [] \<rparr> kvs"
| "decode_response _ = None"

text \<open>What the HTTP client answers: a transport error, or status, ETag header and body.\<close>

datatype http_response =
    RequestFailed
  | Response (rs_status: int) (rs_etag: string) (rs_body: "json option")

record fetch_result =
  ff_Application :: sdk_app
  ff_ETag :: string
  ff_Revision :: string
  ff_NotModified :: bool

definition safeETag :: "string \<Rightarrow> bool" where
  "safeETag value =
     (if length value < 2 \<or> length value > 1024 \<or> hd value \<noteq> CHR 34 \<or> last value \<noteq> CHR 34 then False
      else \<not> list_ex (\<lambda>c. (of_char c :: nat) \<le> 31 \<or> (of_char c :: nat) = 127) value)"

text \<open>The request \<open>Fetch\<close> sends: the key header and, when a validator is held, If-None-Match.\<close>

record fetch_request =
  rq_url :: string
  rq_XAPIKey :: string
  rq_IfNoneMatch :: "string option"

definition build_request :: "string \<Rightarrow> string \<Rightarrow> string \<Rightarrow> fetch_request" where
  "build_request url secretKey ifNoneMatch =
     \<lparr> rq_url = url, rq_XAPIKey = secretKey,
       rq_IfNoneMatch = (if ifNoneMatch \<noteq> [] then Some ifNoneMatch else None) \<rparr>"

fun handle_response :: "http_response \<Rightarrow> refresh_error + fetch_result" where
  "handle_response RequestFailed = Inl ErrRequest"
| "handle_response (Response status etag body) =
     (if status = 401 \<or> status = 404 then Inl ErrAuthentication
      else if status = 304 then
        Inr \<lparr> ff_Application = empty_app, ff_ETag = (if \<not> safeETag etag then [] else etag),
              ff_Revision = [], ff_NotModified = True \<rparr>
      else if status \<noteq> 200 then Inl (ErrStatus status)
      else (case Option.bind body decode_response of
              None \<Rightarrow> Inl ErrDecoding
            | Some parsed \<Rightarrow>
                Inr \<lparr> ff_Application = NewApplication (fr_Toggles parsed),
                      ff_ETag = (if \<not> safeETag etag then [] else etag),
                      ff_Revision = fr_Revision parsed, ff_NotModified = False \<rparr>))"

definition Fetch ::
    "(fetch_request \<Rightarrow> http_response) \<Rightarrow> string \<Rightarrow> string \<Rightarrow> string \<Rightarrow> refresh_error + fetch_result" where
  "Fetch send url secretKey ifNoneMatch = handle_response (send (build_request url secretKey ifNoneMatch))"

section \<open>metrics.go\<close>

text \<open>
  A registered listener is a name with the set of listener interfaces it implements. A notification
  is the list of calls made, in order; a panicking listener is recovered (\<open>safelyCall\<close>) and does not
  change what the others get.
\<close>

record listener =
  li_name :: nat
  li_success :: bool
  li_failure :: bool
  li_evaluate :: bool

record metrics =
  me_success :: "nat list"
  me_failure :: "nat list"
  me_evaluate :: "nat list"

datatype event =
    OnRefreshSuccess nat nat
  | OnRefreshFailure nat refresh_error int
  | OnEvaluation nat string bool

definition newMetricsRegistry :: metrics where
  "newMetricsRegistry = \<lparr> me_success = [], me_failure = [], me_evaluate = [] \<rparr>"

definition metrics_add :: "listener \<Rightarrow> metrics \<Rightarrow> metrics" where
  "metrics_add l m =
     (let m = (if li_success l then m\<lparr> me_success := me_success m @ [li_name l] \<rparr> else m);
          m = (if li_failure l then m\<lparr> me_failure := me_failure m @ [li_name l] \<rparr> else m)
      in if li_evaluate l then m\<lparr> me_evaluate := me_evaluate m @ [li_name l] \<rparr> else m)"

definition notifyRefreshSuccess :: "metrics \<Rightarrow> nat \<Rightarrow> event list" where
  "notifyRefreshSuccess m toggleCount = map (\<lambda>l. OnRefreshSuccess l toggleCount) (me_success m)"

definition notifyRefreshFailure :: "metrics \<Rightarrow> refresh_error \<Rightarrow> int \<Rightarrow> event list" where
  "notifyRefreshFailure m err failures = map (\<lambda>l. OnRefreshFailure l err failures) (me_failure m)"

definition notifyEvaluation :: "metrics \<Rightarrow> string \<Rightarrow> bool \<Rightarrow> event list" where
  "notifyEvaluation m path result = map (\<lambda>l. OnEvaluation l path result) (me_evaluate m)"

section \<open>client.go\<close>

record 'c client =
  cl_cfg :: "'c config"
  cl_cache :: cache
  cl_registry :: registry
  cl_metrics :: metrics
  cl_started :: bool
  cl_shutdown :: bool
  cl_events :: "event list"

definition New :: "'c config \<Rightarrow> 'c client" where
  "New cfg = \<lparr> cl_cfg = cfg, cl_cache = cache_New, cl_registry = newStrategyRegistry,
     cl_metrics = newMetricsRegistry, cl_started = False, cl_shutdown = False, cl_events = [] \<rparr>"

subsection \<open>refresh\<close>

text \<open>The loop of \<open>backoffDelay\<close> from a given attempt on.\<close>

function backoff_loop :: "int \<Rightarrow> int \<Rightarrow> int \<Rightarrow> int \<Rightarrow> int" where
  "backoff_loop backoffMax failures attempt delay =
     (if attempt < failures \<and> delay < backoffMax
      then backoff_loop backoffMax failures (attempt + 1)
             (if delay > quot backoffMax 2 then backoffMax else wrap64 (delay * 2))
      else delay)"
  by pat_completeness auto
termination
  by (relation "measure (\<lambda>(m, failures, attempt, d). nat (failures - attempt))") auto

declare backoff_loop.simps [simp del]

text \<open>\<open>jitter\<close> is the client's timing hook; it may return any duration.\<close>

definition backoffDelay :: "'c config \<Rightarrow> (int \<Rightarrow> int) \<Rightarrow> int \<Rightarrow> int" where
  "backoffDelay cfg jitter failures =
     (let backoffMax = cf_RefreshBackoffMax cfg;
          delay = backoff_loop backoffMax failures 1 (cf_RefreshInterval cfg);
          delay = (if delay > backoffMax then backoffMax else delay);
          spread = quot delay 5;
          offset = jitter spread;
          offset = (if offset > spread then spread else if offset < - spread then - spread else offset)
      in
      if offset > 0 \<and> delay > wrap64 (backoffMax - offset) then backoffMax
      else if wrap64 (delay + offset) > backoffMax then backoffMax
      else wrap64 (delay + offset))"

text \<open>
  The part of \<open>refreshOnce\<close> after the fetch and its second shutdown check: the new cache, the
  listener calls and the error.
\<close>

definition refresh_apply ::
    "int \<Rightarrow> metrics \<Rightarrow> stats \<Rightarrow> refresh_error + fetch_result \<Rightarrow> cache
     \<Rightarrow> cache \<times> event list \<times> refresh_error option" where
  "refresh_apply now m st result c =
     (case result of
        Inl err \<Rightarrow>
          let c' = RecordFailure now err c in
          (c', notifyRefreshFailure m err (cs_ConsecutiveFailures (ca_stats c')), Some err)
      | Inr r \<Rightarrow>
          if ff_NotModified r then
            (case RecordFreshness now (ff_ETag r) c of
               (c', True) \<Rightarrow> (c', notifyRefreshSuccess m (cs_ToggleCount st), None)
             | (c', False) \<Rightarrow>
                 let c'' = RecordFailure now ErrNotModifiedWithoutCatalog c' in
                 (c'', notifyRefreshFailure m ErrNotModifiedWithoutCatalog
                         (cs_ConsecutiveFailures (ca_stats c'')),
                  Some ErrNotModifiedWithoutCatalog))
          else
            (UpdateCatalog now (ff_Application r) (ff_ETag r) (ff_Revision r) c,
             notifyRefreshSuccess m (length (sa_Toggles (ff_Application r))), None))"

text \<open>\<open>refreshOnce\<close> with no concurrent call.\<close>

definition refreshOnce ::
    "int \<Rightarrow> (fetch_request \<Rightarrow> http_response) \<Rightarrow> 'c client \<Rightarrow> 'c client \<times> refresh_error option" where
  "refreshOnce now send c =
     (if cl_shutdown c then (c, Some ErrAlreadyShutdown)
      else
        let st = ca_stats (cl_cache c);
            result = Fetch send (apiURL (cl_cfg c)) (cf_SecretKey (cl_cfg c)) (cs_ETag st)
        in
        (case refresh_apply now (cl_metrics c) st result (cl_cache c) of
           (cache', evs, err) \<Rightarrow>
             (c\<lparr> cl_cache := cache', cl_events := cl_events c @ evs \<rparr>, err)))"

definition requireUsable :: "'c client \<Rightarrow> refresh_error option" where
  "requireUsable c =
     (if cl_shutdown c then Some ErrAlreadyShutdown
      else if \<not> cl_started c then Some ErrNotStarted
      else None)"

definition Refresh ::
    "int \<Rightarrow> (fetch_request \<Rightarrow> http_response) \<Rightarrow> 'c client \<Rightarrow> 'c client \<times> refresh_error option" where
  "Refresh now send c =
     (case requireUsable c of
        Some err \<Rightarrow> (c, Some err)
      | None \<Rightarrow> refreshOnce now send c)"

subsection \<open>evaluation\<close>

definition evaluateAncestors :: "sdk_toggle list \<Rightarrow> bool" where
  "evaluateAncestors ancestors \<longleftrightarrow> list_all st_Enabled ancestors"

text \<open>\<open>None\<close> is a panic of the resolver.\<close>

definition contextKey ::
    "'c config \<Rightarrow> string \<Rightarrow> bool \<Rightarrow> string \<Rightarrow> 'c \<Rightarrow> (string \<times> bool) option" where
  "contextKey cfg key percentage path ctx =
     (case cf_ContextResolver cfg of
        None \<Rightarrow> Some ([], False)
      | Some resolver \<Rightarrow>
          (case resolver ctx key of
             ResolverPanics \<Rightarrow> None
           | Resolved v ok \<Rightarrow>
               if \<not> ok \<or> v = [] then Some ([], False)
               else Some (if percentage \<and> v \<noteq> [] then path @ '':'' @ v else v, True)))"

definition evaluateRule :: "strategy_env \<Rightarrow> 'c client \<Rightarrow> sdk_toggle \<Rightarrow> 'c \<Rightarrow> bool option" where
  "evaluateRule env c tg ctx =
     (if \<not> st_HasActivationRule tg \<or> st_ActivationRule tg = None then Some True
      else
        let rule = the (st_ActivationRule tg) in
        (case ContextKey rule of
           (_, False) \<Rightarrow> Some False
         | (ck, True) \<Rightarrow>
             (case contextKey (cl_cfg c) ck (sr_Type rule = RuleTypePercentage)
                     (path_value (st_Path tg)) ctx of
                None \<Rightarrow> None
              | Some (key, hasKey) \<Rightarrow>
                  if sr_Type rule \<noteq> RuleTypeTime \<and> \<not> hasKey then Some False
                  else Some (fst (Registry_Evaluate env (cl_registry c) rule key hasKey)))))"

text \<open>The result and the listener calls; \<open>None\<close> is a panic. Go's \<open>&&\<close> evaluates the rule last.\<close>

definition evaluate :: "strategy_env \<Rightarrow> 'c client \<Rightarrow> string \<Rightarrow> 'c \<Rightarrow> (bool \<times> event list) option" where
  "evaluate env c path ctx =
     (if \<not> cl_started c \<or> cl_shutdown c then Some (False, [])
      else (case NewPath path of
              Inl _ \<Rightarrow> Some (False, [])
            | Inr p \<Rightarrow>
                (case cache_Get (cl_cache c) p of
                   None \<Rightarrow> Some (False, notifyEvaluation (cl_metrics c) path False)
                 | Some (target, ancestors) \<Rightarrow>
                     (case (if \<not> evaluateAncestors ancestors then Some False
                            else if \<not> st_Enabled target then Some False
                            else evaluateRule env c target ctx) of
                        None \<Rightarrow> None
                      | Some result \<Rightarrow> Some (result, notifyEvaluation (cl_metrics c) path result)))))"

definition IsActiveContext :: "strategy_env \<Rightarrow> 'c client \<Rightarrow> 'c \<Rightarrow> string \<Rightarrow> bool" where
  "IsActiveContext env c ctx path =
     (case evaluate env c path ctx of
        None \<Rightarrow> False
      | Some (result, _) \<Rightarrow> result)"

text \<open>\<open>IsActive\<close> passes the background context.\<close>

definition IsActive :: "strategy_env \<Rightarrow> 'c \<Rightarrow> 'c client \<Rightarrow> string \<Rightarrow> bool" where
  "IsActive env background c path = IsActiveContext env c background path"

subsection \<open>health\<close>

definition staleThresholdIntervals :: int where "staleThresholdIntervals = 2"

text \<open>\<open>time.Since\<close> saturates at the ends of the 64-bit range.\<close>

definition Since :: "int \<Rightarrow> int \<Rightarrow> int" where
  "Since now t = max (- (2 ^ 63)) (min max_int64 (now - t))"

definition isStale :: "int \<Rightarrow> 'c config \<Rightarrow> stats \<Rightarrow> bool" where
  "isStale now cfg st =
     (case cs_LastSuccessAt st of
        None \<Rightarrow> True
      | Some t \<Rightarrow> Since now t > wrap64 (cf_RefreshInterval cfg * staleThresholdIntervals))"

definition IsHealthy :: "int \<Rightarrow> 'c client \<Rightarrow> bool" where
  "IsHealthy now c \<longleftrightarrow>
     (let st = ca_stats (cl_cache c) in
      cl_started c \<and> \<not> cl_shutdown c \<and> cs_LastSuccessAt st \<noteq> None \<and> \<not> isStale now (cl_cfg c) st)"

definition IsStale :: "int \<Rightarrow> 'c client \<Rightarrow> bool" where
  "IsStale now c = isStale now (cl_cfg c) (ca_stats (cl_cache c))"

definition LastError :: "'c client \<Rightarrow> refresh_error option" where
  "LastError c = cs_LastError (ca_stats (cl_cache c))"

definition LastErrorTime :: "'c client \<Rightarrow> int option" where
  "LastErrorTime c = cs_LastErrorAt (ca_stats (cl_cache c))"

definition ConsecutiveFailureCount :: "'c client \<Rightarrow> int" where
  "ConsecutiveFailureCount c = cs_ConsecutiveFailures (ca_stats (cl_cache c))"

definition AddMetricsListener :: "listener \<Rightarrow> 'c client \<Rightarrow> 'c client" where
  "AddMetricsListener l c = c\<lparr> cl_metrics := metrics_add l (cl_metrics c) \<rparr>"

section \<open>lemmas\<close>

subsection \<open>durations\<close>

lemma multipliedDuration_min:
  assumes "0 < d" "d \<le> max_int64"
  shows "multipliedDuration d 16 = min max_int64 (d * 16)"
proof -
  have q: "quot max_int64 16 = 576460752303423487" by (simp add: quot_def max_int64_def)
  show ?thesis
  proof (cases "d > 576460752303423487")
    case True
    then have "max_int64 \<le> d * 16" by (simp add: max_int64_def)
    with True show ?thesis by (simp add: multipliedDuration_def q)
  next
    case False
    with assms have "wrap64 (d * 16) = d * 16" by (intro wrap64_id) (auto simp: max_int64_def)
    moreover have "d * 16 \<le> max_int64" using False by (simp add: max_int64_def)
    ultimately show ?thesis using False by (simp add: multipliedDuration_def q)
  qed
qed

lemma backoff_loop_min:
  assumes "0 < d" "d \<le> M" "M \<le> max_int64"
  shows "backoff_loop M f a d = min M (d * 2 ^ nat (f - a))"
  using assms
proof (induction M f a d rule: backoff_loop.induct)
  case (1 M f a d)
  have q: "quot M 2 = M div 2" using "1.prems" by (intro quot_nonneg) auto
  show ?case
  proof (cases "a < f \<and> d < M")
    case False
    then have l: "backoff_loop M f a d = d" by (subst backoff_loop.simps) auto
    have one: "(1 :: int) \<le> 2 ^ n" for n :: nat by simp
    have M: "M \<le> M * 2 ^ n" for n :: nat using "1.prems" mult_left_mono[OF one, of M n] by simp
    from False "1.prems"(2) consider "nat (f - a) = 0" | "d = M" by linarith
    then show ?thesis
    proof cases
      case 1
      then show ?thesis using "1.prems"(2) l by simp
    next
      case 2
      then show ?thesis using l M by (simp add: min_def)
    qed
  next
    case True
    let ?d = "if d > quot M 2 then M else wrap64 (d * 2)"
    have w: "d \<le> M div 2 \<Longrightarrow> wrap64 (d * 2) = d * 2"
      using "1.prems" by (intro wrap64_id) auto
    then have d: "?d = min M (d * 2)" unfolding q by auto
    have n: "nat (f - a) = Suc (nat (f - (a + 1)))" using True by auto
    have "backoff_loop M f a d = backoff_loop M f (a + 1) ?d"
      using True by (subst backoff_loop.simps) simp
    also have "\<dots> = min M (?d * 2 ^ nat (f - (a + 1)))"
      by (rule "1.IH"[OF True]) (use "1.prems" d in auto)
    also have "\<dots> = min M (d * 2 ^ nat (f - a))"
    proof (cases "M \<le> d * 2")
      case True
      have "M \<le> M * 2 ^ k" for k :: nat using "1.prems" mult_left_mono[of 1 "2 ^ k" M] by simp
      moreover have "M * 2 ^ k \<le> d * 2 * 2 ^ k" for k :: nat using True by (intro mult_right_mono) auto
      ultimately have "min M (M * 2 ^ k) = M" "min M (d * 2 * 2 ^ k) = M" for k :: nat
        by (meson min.absorb1 order_trans)+
      then show ?thesis using True unfolding n d by (simp add: mult.assoc)
    next
      case False
      then show ?thesis unfolding n d by (simp add: mult.assoc)
    qed
    finally show ?thesis .
  qed
qed

lemma jitter_cap:
  assumes "0 < b" "b \<le> M" "M \<le> max_int64" "- s \<le> j" "j \<le> s" "5 * s \<le> b"
  shows "(if j > 0 \<and> b > wrap64 (M - j) then M
          else if wrap64 (b + j) > M then M else wrap64 (b + j)) = min M (b + j)"
proof -
  have w1: "wrap64 (M - j) = M - j" if "j > 0"
    using that assms by (intro wrap64_nonneg) linarith+
  have w2: "wrap64 (b + j) = b + j" if "b + j \<le> M"
    using that assms by (intro wrap64_nonneg) linarith+
  show ?thesis
  proof (cases "b + j \<le> M")
    case True
    with w2 have "wrap64 (b + j) = b + j" by simp
    with True w1 show ?thesis by auto
  next
    case False
    with assms have "j > 0" "b > M - j" by linarith+
    with w1 False show ?thesis by simp
  qed
qed

lemma clamp_bounds:
  fixes s x :: int
  assumes "0 \<le> s"
  shows "(if x > s then s else if x < - s then - s else x) = max (- s) (min s x)"
    "- s \<le> max (- s) (min s x)" "max (- s) (min s x) \<le> s"
  using assms by (auto simp: max_def min_def)

lemma backoffDelay_min:
  fixes cfg :: "'c config"
  defines "M \<equiv> cf_RefreshBackoffMax cfg" and "I \<equiv> cf_RefreshInterval cfg"
  assumes "0 < I" "I \<le> M" "M \<le> max_int64"
  shows "backoffDelay cfg jitter n =
    (let base = min M (I * 2 ^ nat (n - 1)); s = base div 5 in
     min M (base + max (- s) (min s (jitter s))))"
proof -
  have pos: "0 < I * 2 ^ nat (n - 1)" using assms(3) by simp
  obtain b where b: "b = min M (I * 2 ^ nat (n - 1))" by simp
  have loop: "backoff_loop M n 1 I = b" unfolding b using assms(3-5) by (rule backoff_loop_min)
  have b0: "0 < b" "b \<le> M" using b assms(3,4) pos by auto
  have q: "quot b 5 = b div 5" using b0 by (intro quot_nonneg) auto
  have s0: "0 \<le> b div 5" "5 * (b div 5) \<le> b" using b0 by auto
  note clamp = clamp_bounds[OF s0(1), of "jitter (b div 5)"]
  have cap: "(if b > M then M else b) = b" using b0(2) by simp
  show ?thesis
    unfolding backoffDelay_def Let_def M_def[symmetric] I_def[symmetric] loop cap q clamp(1) b[symmetric]
    by (rule jitter_cap[OF b0 assms(5) clamp(2,3) s0(2)])
qed

subsection \<open>evaluation\<close>

lemma cache_Get_Some:
  "cache_Get c p = Some (t, as) \<longleftrightarrow> ByPath (ca_app c) p = Some t \<and> as = AncestorsOf (ca_app c) p"
  by (auto simp: cache_Get_def split: option.splits)

lemma evaluate_result_iff:
  "IsActiveContext env c ctx path \<longleftrightarrow>
     cl_started c \<and> \<not> cl_shutdown c \<and>
     (\<exists>p target. NewPath path = Inr p \<and> ByPath (ca_app (cl_cache c)) p = Some target \<and>
        (\<forall>tg\<in>set (AncestorsOf (ca_app (cl_cache c)) p). st_Enabled tg) \<and>
        st_Enabled target \<and> evaluateRule env c target ctx = Some True)"
  unfolding IsActiveContext_def evaluate_def cache_Get_def evaluateAncestors_def
  by (auto simp: list_all_iff split: sum.splits option.splits if_splits)

text \<open>The rule's verdict depends on the configuration, the registry and the toggle only.\<close>

lemma evaluateRule_cong:
  assumes "cl_cfg c = cl_cfg c'" "cl_registry c = cl_registry c'"
  shows "evaluateRule env c tg ctx = evaluateRule env c' tg ctx"
  unfolding evaluateRule_def assms by (rule refl)

lemma IsActiveContext_cong:
  assumes "cl_cfg c = cl_cfg c'" "cl_registry c = cl_registry c'" "cl_started c = cl_started c'"
    "cl_shutdown c = cl_shutdown c'" "ca_app (cl_cache c) = ca_app (cl_cache c')"
  shows "IsActiveContext env c ctx path = IsActiveContext env c' ctx path"
  unfolding evaluate_result_iff using assms evaluateRule_cong[OF assms(1,2)] by simp

subsection \<open>refresh\<close>

lemma cache_op_simps [simp]:
  "ca_app (RecordFailure now e c) = ca_app c"
  "ca_hasCatalog (RecordFailure now e c) = ca_hasCatalog c"
  "ca_app (UpdateCatalog now a et rv c) = a"
  "ca_hasCatalog (UpdateCatalog now a et rv c)"
  "cache_Clear c = cache_New"
  by (simp_all add: RecordFailure_def UpdateCatalog_def cache_Clear_def cache_New_def)

lemma RecordFreshness_cases:
  "RecordFreshness now et c = (c', ok) \<longleftrightarrow>
     ok = ca_hasCatalog c \<and>
     c' = (if ca_hasCatalog c
           then c\<lparr> ca_stats := (ca_stats c)\<lparr> cs_LastSuccessAt := Some now, cs_ConsecutiveFailures := 0,
                     cs_ETag := (if et \<noteq> [] then et else cs_ETag (ca_stats c)) \<rparr> \<rparr>
           else c)"
  by (auto simp: RecordFreshness_def Let_def)

lemma refresh_apply_error:
  assumes "refresh_apply now m st r c = (c', evs, Some e)"
  shows "c' = RecordFailure now e c"
  using assms
  by (auto simp: refresh_apply_def Let_def RecordFreshness_cases split: sum.splits if_splits prod.splits bool.splits)

lemma refresh_apply_success:
  assumes "refresh_apply now m st r c = (c', evs, None)"
  obtains res where "r = Inr res" "ff_NotModified res" "ca_hasCatalog c" "RecordFreshness now (ff_ETag res) c = (c', True)"
  | res where "r = Inr res" "\<not> ff_NotModified res"
      "c' = UpdateCatalog now (ff_Application res) (ff_ETag res) (ff_Revision res) c"
  using assms
  by (auto simp: refresh_apply_def Let_def RecordFreshness_cases split: sum.splits if_splits prod.splits bool.splits)

lemma handle_response_Inr:
  "handle_response resp = Inr res \<longleftrightarrow>
     (\<exists>et body. resp = Response 304 et body \<and>
        res = \<lparr> ff_Application = empty_app, ff_ETag = (if safeETag et then et else []),
                ff_Revision = [], ff_NotModified = True \<rparr>) \<or>
     (\<exists>et j d. resp = Response 200 et (Some j) \<and> decode_response j = Some d \<and>
        res = \<lparr> ff_Application = NewApplication (fr_Toggles d), ff_ETag = (if safeETag et then et else []),
                ff_Revision = fr_Revision d, ff_NotModified = False \<rparr>)"
  by (cases resp) (auto split: option.splits bind_splits)

lemma refreshOnce_eq:
  assumes "\<not> cl_shutdown c"
    and "refresh_apply now (cl_metrics c) (ca_stats (cl_cache c))
           (Fetch send (apiURL (cl_cfg c)) (cf_SecretKey (cl_cfg c)) (cs_ETag (ca_stats (cl_cache c))))
           (cl_cache c) = (k, evs, err)"
  shows "refreshOnce now send c = (c\<lparr> cl_cache := k, cl_events := cl_events c @ evs \<rparr>, err)"
  using assms by (simp add: refreshOnce_def Let_def)

lemma path_split: "(\<exists>q r. P q \<and> R q r \<and> S q) \<longleftrightarrow> (\<exists>q r. P (Path q) \<and> R (Path q) r \<and> S (Path q))"
  by (metis path.exhaust)

text \<open>
  Three consequences of the code as it is: the stale threshold overflows for intervals above half the
  largest duration, so that a client is never healthy; a time rule asks the resolver (with the empty
  key), and so fails with it; the offline-mode option changes neither health nor evaluation.
\<close>

lemma isStale_overflow:
  assumes "cf_RefreshInterval cfg = 2 ^ 62" "cs_LastSuccessAt st = Some now"
  shows "isStale now cfg st"
  using assms by (simp add: isStale_def Since_def staleThresholdIntervals_def wrap64_def max_int64_def)

lemma time_rule_needs_resolver:
  assumes "st_HasActivationRule tg" "st_ActivationRule tg = Some rule" "sr_Type rule = RuleTypeTime"
    "sr_Config rule = RawEmpty" "cf_ContextResolver (cl_cfg c) = Some r" "r ctx [] = ResolverPanics"
  shows "evaluateRule env c tg ctx = None"
  using assms by (simp add: evaluateRule_def ContextKey_def contextKey_def Let_def)

lemma offline_mode_inert:
  "IsHealthy now (c\<lparr> cl_cfg := WithOfflineMode b (cl_cfg c) \<rparr>) = IsHealthy now c"
  "IsActiveContext env (c\<lparr> cl_cfg := WithOfflineMode b (cl_cfg c) \<rparr>) ctx path = IsActiveContext env c ctx path"
proof -
  let ?c = "c\<lparr> cl_cfg := WithOfflineMode b (cl_cfg c) \<rparr>"
  show "IsHealthy now ?c = IsHealthy now c"
    by (simp add: IsHealthy_def isStale_def WithOfflineMode_def Let_def split: option.split)
  have "contextKey (cl_cfg ?c) = contextKey (cl_cfg c)"
    by (intro ext) (simp add: contextKey_def WithOfflineMode_def)
  moreover have "cl_registry ?c = cl_registry c" by simp
  ultimately have "evaluateRule env ?c tg ctx = evaluateRule env c tg ctx" for tg
    by (simp only: evaluateRule_def)
  then show "IsActiveContext env ?c ctx path = IsActiveContext env c ctx path"
    by (simp add: evaluate_result_iff)
qed

section \<open>properties\<close>

text \<open>A configuration that \<open>NewConfig\<close> accepts, whatever the options did, has a non-blank name and
  URL, an \<open>sk_\<close> key, a positive refresh interval not above the back-off maximum and a positive HTTP
  timeout; and when the options left the back-off maximum unset, it is sixteen intervals, capped at
  the largest duration instead of wrapping around.\<close>

theorem NewConfig_guarantees:
  assumes "NewConfig name url key opts = Inr cfg"
  shows "TrimSpace (cf_ApplicationName cfg) \<noteq> [] \<and> TrimSpace (cf_ServerURL cfg) \<noteq> []
    \<and> (\<exists>rest. cf_SecretKey cfg = ''sk_'' @ rest)
    \<and> 0 < cf_RefreshInterval cfg \<and> cf_RefreshInterval cfg \<le> cf_RefreshBackoffMax cfg
    \<and> 0 < cf_HTTPTimeout cfg
    \<and> (opts = [WithRefreshInterval d] \<and> d \<le> max_int64 \<longrightarrow>
         cf_RefreshBackoffMax cfg = min max_int64 (16 * d))"
proof -
  have d: "0 < d \<Longrightarrow> d \<le> max_int64 \<Longrightarrow> multipliedDuration d 16 = min max_int64 (16 * d)"
    using multipliedDuration_min[of d] by (simp add: mult.commute)
  from assms show ?thesis
    unfolding NewConfig_def Let_def HasPrefix_iff
    by (auto simp: WithRefreshInterval_def defaultBackoffMultiplier_def d split: if_splits)
qed

theorem NewConfig_guarantees_witness:
  "\<exists>cfg :: unit config. NewConfig ''app'' ''https://h'' ''sk_1'' [WithRefreshInterval 1000] = Inr cfg
     \<and> cf_RefreshBackoffMax cfg = 16000"
proof -
  have "TrimSpace ''app'' \<noteq> []" by (simp add: TrimSpace_printable printable_def)
  moreover have "TrimSpace ''https://h'' \<noteq> []" by (simp add: TrimSpace_printable printable_def)
  moreover have "TrimSpace ''sk_1'' \<noteq> []" by (simp add: TrimSpace_printable printable_def)
  moreover have "multipliedDuration 1000 16 = 16000"
    using multipliedDuration_min[of 1000] by (simp add: max_int64_def)
  ultimately have "\<exists>cfg :: unit config. NewConfig ''app'' ''https://h'' ''sk_1'' [WithRefreshInterval 1000] = Inr cfg"
    by (simp add: NewConfig_def WithRefreshInterval_def HasPrefix_def defaultBackoffMultiplier_def
        defaultHTTPTimeout_def Let_def)
  then obtain cfg :: "unit config" where
    "NewConfig ''app'' ''https://h'' ''sk_1'' [WithRefreshInterval 1000] = Inr cfg" by blast
  then show ?thesis using NewConfig_guarantees[of _ _ _ _ cfg 1000] by (auto simp: max_int64_def)
qed

text \<open>The retry delay after n consecutive failures is the refresh interval doubled n-1 times and
  capped at the back-off maximum, moved by the jitter clamped to a fifth of it, and capped again: no
  64-bit overflow happens on the way, whatever the jitter source returns.\<close>

theorem backoffDelay_exact:
  assumes "0 < cf_RefreshInterval cfg" "cf_RefreshInterval cfg \<le> cf_RefreshBackoffMax cfg"
    "cf_RefreshBackoffMax cfg \<le> max_int64"
  shows "let base = min (cf_RefreshBackoffMax cfg) (cf_RefreshInterval cfg * 2 ^ nat (n - 1));
             delay = backoffDelay cfg jitter n
         in delay = min (cf_RefreshBackoffMax cfg)
                      (base + max (- (base div 5)) (min (base div 5) (jitter (base div 5))))
          \<and> 0 < delay \<and> base - base div 5 \<le> delay \<and> delay \<le> cf_RefreshBackoffMax cfg"
proof -
  obtain b where b: "b = min (cf_RefreshBackoffMax cfg) (cf_RefreshInterval cfg * 2 ^ nat (n - 1))" by simp
  have "0 < cf_RefreshInterval cfg * 2 ^ nat (n - 1)" using assms(1) by simp
  then have b0: "0 < b" "b \<le> cf_RefreshBackoffMax cfg" using assms(1,2) by (auto simp: b)
  then have s0: "0 \<le> b div 5" "5 * (b div 5) \<le> b" by auto
  have eq: "backoffDelay cfg jitter n =
      min (cf_RefreshBackoffMax cfg) (b + max (- (b div 5)) (min (b div 5) (jitter (b div 5))))"
    using backoffDelay_min[OF assms] by (simp only: Let_def b)
  obtain d where d: "d = max (- (b div 5)) (min (b div 5) (jitter (b div 5)))" by simp
  have "- (b div 5) \<le> d" using clamp_bounds(2)[OF s0(1)] d by blast
  with b0 s0 have "0 < min (cf_RefreshBackoffMax cfg) (b + d)" "b - b div 5 \<le> min (cf_RefreshBackoffMax cfg) (b + d)"
    by linarith+
  then show ?thesis unfolding Let_def b[symmetric] eq d[symmetric] by simp
qed

theorem backoffDelay_exact_witness:
  "backoffDelay (\<lparr> cf_ApplicationName = [], cf_ServerURL = [], cf_SecretKey = [], cf_RefreshInterval = 100,
      cf_RefreshBackoffMax = 1600, cf_HTTPTimeout = 1, cf_EnableOfflineMode = True,
      cf_ContextResolver = None \<rparr> :: unit config) (\<lambda>s. 1000000) 4 = 960"
  using backoffDelay_exact[of "\<lparr> cf_ApplicationName = [], cf_ServerURL = [], cf_SecretKey = [],
      cf_RefreshInterval = 100, cf_RefreshBackoffMax = 1600, cf_HTTPTimeout = 1, cf_EnableOfflineMode = True,
      cf_ContextResolver = None \<rparr> :: unit config" 4 "\<lambda>s. 1000000"]
  by (simp add: max_int64_def Let_def)

text \<open>C19. A toggle is active exactly when the client is started and not shut down, the path is valid
  and present, the toggle and every present toggle on a proper dotted prefix of the path are enabled,
  and the target's own activation rule matches without a panic of the resolver.\<close>

theorem IsActiveContext_iff:
  "IsActiveContext env c ctx path \<longleftrightarrow>
     cl_started c \<and> \<not> cl_shutdown c \<and> wf_segments (Split dot path) \<and>
     (\<exists>target. ByPath (ca_app (cl_cache c)) (Path path) = Some target \<and> st_Enabled target \<and>
        evaluateRule env c target ctx = Some True) \<and>
     (\<forall>q r tg. path = q @ dot # r \<and> wf_segments (Split dot q) \<and>
        ByPath (ca_app (cl_cache c)) (Path q) = Some tg \<longrightarrow> st_Enabled tg)"
proof (cases "wf_segments (Split dot path)")
  case False
  then show ?thesis by (simp add: evaluate_result_iff NewPath_Inr)
next
  case True
  then have wf: "wf_path (Path path)" by (simp add: wf_path_iff Segments_def)
  have "(\<forall>tg\<in>set (AncestorsOf (ca_app (cl_cache c)) (Path path)). st_Enabled tg) \<longleftrightarrow>
    (\<forall>q r tg. path = q @ dot # r \<and> wf_segments (Split dot q) \<and>
        ByPath (ca_app (cl_cache c)) (Path q) = Some tg \<longrightarrow> st_Enabled tg)"
    unfolding Ball_def in_AncestorsOf_iff[OF wf] path_split
    by (simp only: path.sel wf_path_iff Segments_def) blast
  with True show ?thesis by (auto simp: evaluate_result_iff NewPath_Inr)
qed

definition example_config :: "unit config" where
  "example_config = \<lparr> cf_ApplicationName = ''a'', cf_ServerURL = ''u'', cf_SecretKey = ''sk_'',
     cf_RefreshInterval = 100, cf_RefreshBackoffMax = 1600, cf_HTTPTimeout = 1,
     cf_EnableOfflineMode = True, cf_ContextResolver = None \<rparr>"

definition example_client :: "unit client" where
  "example_client = (New example_config)\<lparr> cl_started := True,
     cl_cache := UpdateCatalog 0 (NewApplication
       [zero_toggle\<lparr> st_Path := Path ''a'', st_Enabled := False \<rparr>,
        zero_toggle\<lparr> st_Path := Path ''a.b'', st_Enabled := True \<rparr>]) [] [] cache_New \<rparr>"

theorem IsActiveContext_iff_witness: "\<not> IsActiveContext example_env example_client () ''a.b''"
proof -
  have "ByPath (ca_app (cl_cache example_client)) (Path ''a'') =
      Some (zero_toggle\<lparr> st_Path := Path ''a'', st_Enabled := False \<rparr>)"
    by (simp add: example_client_def ByPath_NewApplication)
  moreover have "''a.b'' = ''a'' @ dot # ''b''" "wf_segments (Split dot ''a'')"
    "\<not> st_Enabled (zero_toggle\<lparr> st_Path := Path ''a'', st_Enabled := False \<rparr>)"
    by (simp_all add: wf_segments_def)
  ultimately show ?thesis unfolding IsActiveContext_iff by blast
qed

text \<open>C26. A failed refresh (transport error, rejected key, other status, undecodable body, or a 304
  with nothing to revalidate) keeps the snapshot and its validator: every evaluation answers as
  before, the error is recorded and the failure count grows by one.\<close>

theorem refresh_failure_keeps_snapshot:
  assumes "refreshOnce now send c = (c', Some e)" "\<not> cl_shutdown c"
  shows "ca_app (cl_cache c') = ca_app (cl_cache c)
    \<and> cs_ETag (ca_stats (cl_cache c')) = cs_ETag (ca_stats (cl_cache c))
    \<and> IsActiveContext env c' ctx path = IsActiveContext env c ctx path
    \<and> LastError c' = Some e \<and> LastErrorTime c' = Some now
    \<and> ConsecutiveFailureCount c' = wrap64 (ConsecutiveFailureCount c + 1)"
proof -
  obtain k evs err where r: "refresh_apply now (cl_metrics c) (ca_stats (cl_cache c))
      (Fetch send (apiURL (cl_cfg c)) (cf_SecretKey (cl_cfg c)) (cs_ETag (ca_stats (cl_cache c))))
      (cl_cache c) = (k, evs, err)" by (metis prod_cases3)
  with refreshOnce_eq[OF assms(2) r] assms(1)
  have c': "c' = c\<lparr> cl_cache := k, cl_events := cl_events c @ evs \<rparr>" and "err = Some e" by auto
  with refresh_apply_error r have k: "k = RecordFailure now e (cl_cache c)" by metis
  have "IsActiveContext env c' ctx path = IsActiveContext env c ctx path"
    by (rule IsActiveContext_cong) (simp_all add: c' k)
  then show ?thesis
    by (simp add: c' k LastError_def LastErrorTime_def ConsecutiveFailureCount_def RecordFailure_def)
qed

theorem refresh_failure_keeps_snapshot_witness:
  "LastError (fst (refreshOnce 7 (\<lambda>_. RequestFailed) example_client)) = Some ErrRequest"
proof -
  have "refreshOnce 7 (\<lambda>_. RequestFailed) example_client =
      (fst (refreshOnce 7 (\<lambda>_. RequestFailed) example_client), Some ErrRequest)"
    and "\<not> cl_shutdown example_client"
    by (simp_all add: refreshOnce_def example_client_def New_def Fetch_def refresh_apply_def Let_def)
  from refresh_failure_keeps_snapshot[OF this] show ?thesis by blast
qed

text \<open>C25. A refresh that reports success got either a 304 while a catalogue was held, which it keeps,
  or a decodable 200, whose toggles replace the snapshot; the failure count is zero, and the validator
  that the next request replays is empty or a well-formed quoted tag, if it was so before.\<close>

theorem refresh_success:
  assumes "refreshOnce now send c = (c', None)"
  shows "cs_ConsecutiveFailures (ca_stats (cl_cache c')) = 0
    \<and> cs_LastSuccessAt (ca_stats (cl_cache c')) = Some now
    \<and> ((\<exists>et body. send (build_request (apiURL (cl_cfg c)) (cf_SecretKey (cl_cfg c)) (cs_ETag (ca_stats (cl_cache c))))
             = Response 304 et body \<and> ca_hasCatalog (cl_cache c) \<and> ca_app (cl_cache c') = ca_app (cl_cache c))
      \<or> (\<exists>et j d. send (build_request (apiURL (cl_cfg c)) (cf_SecretKey (cl_cfg c)) (cs_ETag (ca_stats (cl_cache c))))
             = Response 200 et (Some j) \<and> decode_response j = Some d
           \<and> ca_app (cl_cache c') = NewApplication (fr_Toggles d)))
    \<and> (cs_ETag (ca_stats (cl_cache c)) = [] \<or> safeETag (cs_ETag (ca_stats (cl_cache c))) \<longrightarrow>
       cs_ETag (ca_stats (cl_cache c')) = [] \<or> safeETag (cs_ETag (ca_stats (cl_cache c'))))"
proof -
  have nsd: "\<not> cl_shutdown c" using assms by (auto simp: refreshOnce_def)
  obtain k evs err where r: "refresh_apply now (cl_metrics c) (ca_stats (cl_cache c))
      (Fetch send (apiURL (cl_cfg c)) (cf_SecretKey (cl_cfg c)) (cs_ETag (ca_stats (cl_cache c))))
      (cl_cache c) = (k, evs, err)" by (metis prod_cases3)
  with refreshOnce_eq[OF nsd r] assms
  have c': "c' = c\<lparr> cl_cache := k, cl_events := cl_events c @ evs \<rparr>" and "err = None" by auto
  from r[unfolded \<open>err = None\<close>] show ?thesis
  proof (cases rule: refresh_apply_success)
    case (1 res)
    then show ?thesis by (auto simp: c' Fetch_def handle_response_Inr RecordFreshness_cases)
  next
    case (2 res)
    then show ?thesis by (auto simp: c' Fetch_def handle_response_Inr UpdateCatalog_def)
  qed
qed

theorem refresh_success_witness:
  "cs_LastSuccessAt (ca_stats (cl_cache (fst (refreshOnce 7 (\<lambda>_. Response 304 [] None) example_client)))) = Some 7"
proof -
  have "refreshOnce 7 (\<lambda>_. Response 304 [] None) example_client =
      (fst (refreshOnce 7 (\<lambda>_. Response 304 [] None) example_client), None)"
    by (simp add: refreshOnce_def example_client_def New_def Fetch_def refresh_apply_def Let_def
        RecordFreshness_def UpdateCatalog_def)
  from refresh_success[OF this] show ?thesis by blast
qed

end
