(* ===== verification/SdkLifecycle.thy ===== *)
theory SdkLifecycle
  imports SdkClient
begin

text \<open>
  The concurrent life cycle of the client (\<open>client.go\<close>): any number of goroutines calling Start,
  Refresh and Shutdown, and the background loop, as a step relation over shared state. A step is one
  access to shared state of the code: an atomic load or compare-and-swap, taking or releasing
  \<open>refreshMu\<close>, the fetch, the change of the cache, creating, closing or waiting for the channels.
  The lemmas say that the cache stays cleared once Shutdown has returned, and that a Shutdown that
  overlaps the first fetch of Start leaves the background loop running for ever.
\<close>

section \<open>program counters\<close>

text \<open>Where \<open>refreshOnce\<close> returns to.\<close>

datatype return_to = ToStart | ToCaller | ToLoop

datatype pc =
    Idle
  | StartCheck | StartCAS | StartSpawn
  | RefreshCheck
  | RLock return_to
  | RCheck1 return_to
  | RFetch return_to stats
  | RCheck2 return_to stats "refresh_error + fetch_result"
  | RApply return_to stats "refresh_error + fetch_result"
  | LoopWait | LoopDone
  | ShutCAS | ShutStop | ShutWait | ShutLock | ShutClear | ShutReturned
  | Returned

record life =
  lf_pc :: "nat \<Rightarrow> pc"
  lf_started :: bool
  lf_shutdown :: bool
  lf_mutex :: "nat option"
  lf_cache :: cache
  lf_stop :: "bool option"
  lf_done :: bool

text \<open>
  \<open>lf_stop\<close> is the stop channel: not made, open (\<open>Some False\<close>) or closed; \<open>lf_done\<close> says that
  \<open>refreshDone\<close> is closed.
\<close>

definition life_init :: life where
  "life_init = \<lparr> lf_pc = (\<lambda>_. Idle), lf_started = False, lf_shutdown = False, lf_mutex = None,
     lf_cache = cache_New, lf_stop = None, lf_done = False \<rparr>"

definition goto :: "nat \<Rightarrow> pc \<Rightarrow> life \<Rightarrow> life" where
  "goto t p s = s\<lparr> lf_pc := (lf_pc s)(t := p) \<rparr>"

fun resume :: "return_to \<Rightarrow> pc" where
  "resume ToStart = StartSpawn"
| "resume ToCaller = Returned"
| "resume ToLoop = LoopWait"

definition unlock :: "life \<Rightarrow> life" where
  "unlock s = s\<lparr> lf_mutex := None \<rparr>"

section \<open>steps\<close>

inductive step :: "life \<Rightarrow> life \<Rightarrow> bool" where
  call_start: "lf_pc s t = Idle \<Longrightarrow> step s (goto t StartCheck s)"
| call_refresh: "lf_pc s t = Idle \<Longrightarrow> step s (goto t RefreshCheck s)"
| call_shutdown: "lf_pc s t = Idle \<Longrightarrow> step s (goto t ShutCAS s)"
| start_check: "lf_pc s t = StartCheck \<Longrightarrow>
    step s (goto t (if lf_shutdown s then Returned else StartCAS) s)"
| start_cas: "lf_pc s t = StartCAS \<Longrightarrow>
    step s (if lf_started s then goto t Returned s
            else goto t (RLock ToStart) (s\<lparr> lf_started := True \<rparr>))"
| start_spawn: "lf_pc s t = StartSpawn \<Longrightarrow> lf_pc s l = Idle \<Longrightarrow> l \<noteq> t \<Longrightarrow>
    step s (goto l LoopWait (goto t Returned (s\<lparr> lf_stop := Some False, lf_done := False \<rparr>)))"
| refresh_check: "lf_pc s t = RefreshCheck \<Longrightarrow>
    step s (goto t (if lf_shutdown s \<or> \<not> lf_started s then Returned else RLock ToCaller) s)"
| refresh_lock: "lf_pc s t = RLock ret \<Longrightarrow> lf_mutex s = None \<Longrightarrow>
    step s (goto t (RCheck1 ret) (s\<lparr> lf_mutex := Some t \<rparr>))"
| refresh_check1: "lf_pc s t = RCheck1 ret \<Longrightarrow>
    step s (if lf_shutdown s then goto t (resume ret) (unlock s) else goto t (RFetch ret (ca_stats (lf_cache s))) s)"
| refresh_fetch: "lf_pc s t = RFetch ret st \<Longrightarrow> step s (goto t (RCheck2 ret st result) s)"
| refresh_check2: "lf_pc s t = RCheck2 ret st result \<Longrightarrow>
    step s (if lf_shutdown s then goto t (resume ret) (unlock s)
            else goto t (RApply ret st result) s)"
| refresh_publish: "lf_pc s t = RApply ret st result \<Longrightarrow>
    step s (goto t (resume ret)
              (unlock (s\<lparr> lf_cache := fst (refresh_apply now m st result (lf_cache s)) \<rparr>)))"
| loop_timer: "lf_pc s t = LoopWait \<Longrightarrow> step s (goto t (RLock ToLoop) s)"
| loop_stop: "lf_pc s t = LoopWait \<Longrightarrow> lf_stop s = Some True \<Longrightarrow>
    step s (goto t LoopDone (s\<lparr> lf_done := True \<rparr>))"
| shut_cas: "lf_pc s t = ShutCAS \<Longrightarrow>
    step s (if lf_shutdown s then goto t Returned s
            else goto t ShutStop (s\<lparr> lf_shutdown := True \<rparr>))"
| shut_stop: "lf_pc s t = ShutStop \<Longrightarrow>
    step s (if lf_stop s = None then goto t ShutLock s
            else goto t ShutWait (s\<lparr> lf_stop := Some True \<rparr>))"
| shut_wait: "lf_pc s t = ShutWait \<Longrightarrow> lf_done s \<Longrightarrow> step s (goto t ShutLock s)"
| shut_lock: "lf_pc s t = ShutLock \<Longrightarrow> lf_mutex s = None \<Longrightarrow>
    step s (goto t ShutClear (s\<lparr> lf_mutex := Some t \<rparr>))"
| shut_clear: "lf_pc s t = ShutClear \<Longrightarrow>
    step s (goto t ShutReturned (unlock (s\<lparr> lf_cache := cache_Clear (lf_cache s) \<rparr>)))"

inductive reach :: "life \<Rightarrow> life \<Rightarrow> bool" for s where
  reach_refl: "reach s s"
| reach_step: "reach s s' \<Longrightarrow> step s' s'' \<Longrightarrow> reach s s''"

inductive_cases stepE: "step s s'"

section \<open>invariants\<close>

fun holds_mutex :: "pc \<Rightarrow> bool" where
  "holds_mutex (RCheck1 _) = True"
| "holds_mutex (RFetch _ _) = True"
| "holds_mutex (RCheck2 _ _ _) = True"
| "holds_mutex (RApply _ _ _) = True"
| "holds_mutex ShutClear = True"
| "holds_mutex _ = False"

fun shutting :: "pc \<Rightarrow> bool" where
  "shutting ShutStop = True"
| "shutting ShutWait = True"
| "shutting ShutLock = True"
| "shutting ShutClear = True"
| "shutting ShutReturned = True"
| "shutting _ = False"

fun applying :: "pc \<Rightarrow> bool" where
  "applying (RApply _ _ _) = True"
| "applying _ = False"

lemma resume_simps [simp]:
  "\<not> holds_mutex (resume r)" "\<not> shutting (resume r)" "\<not> applying (resume r)"
  "resume r \<noteq> ShutReturned" "resume r \<noteq> ShutStop" "resume r \<noteq> LoopDone"
  by (cases r; simp)+

definition mutex_inv :: "life \<Rightarrow> bool" where
  "mutex_inv s \<longleftrightarrow> (\<forall>t. holds_mutex (lf_pc s t) \<longleftrightarrow> lf_mutex s = Some t)"

definition shutdown_inv :: "life \<Rightarrow> bool" where
  "shutdown_inv s \<longleftrightarrow> (\<forall>t. shutting (lf_pc s t) \<longrightarrow> lf_shutdown s)"

definition cleared_inv :: "life \<Rightarrow> bool" where
  "cleared_inv s \<longleftrightarrow>
     (\<exists>t. lf_pc s t = ShutReturned) \<longrightarrow> lf_cache s = cache_New \<and> (\<forall>t. \<not> applying (lf_pc s t))"

lemmas life_defs = goto_def unlock_def

lemma mutex_inv_keep:
  "mutex_inv s \<Longrightarrow> holds_mutex p = holds_mutex (lf_pc s t) \<Longrightarrow> lf_pc s' = lf_pc s \<Longrightarrow>
   lf_mutex s' = lf_mutex s \<Longrightarrow> mutex_inv (goto t p s')"
  by (auto simp: mutex_inv_def goto_def)

lemma mutex_inv_lock:
  "mutex_inv s \<Longrightarrow> lf_mutex s = None \<Longrightarrow> holds_mutex p \<Longrightarrow> lf_pc s' = lf_pc s \<Longrightarrow>
   lf_mutex s' = Some t \<Longrightarrow> mutex_inv (goto t p s')"
  by (auto simp: mutex_inv_def goto_def)

lemma mutex_inv_unlock:
  "mutex_inv s \<Longrightarrow> holds_mutex (lf_pc s t) \<Longrightarrow> \<not> holds_mutex p \<Longrightarrow> lf_pc s' = lf_pc s \<Longrightarrow>
   lf_mutex s' = None \<Longrightarrow> mutex_inv (goto t p s')"
  by (auto simp: mutex_inv_def goto_def)

lemma goto_if: "goto t (if b then p else q) s = (if b then goto t p s else goto t q s)"
  by simp

lemmas mutex_inv_rules = mutex_inv_keep mutex_inv_lock mutex_inv_unlock

lemma mutex_inv_step:
  assumes "step s s'" "mutex_inv s"
  shows "mutex_inv s'"
  using assms
proof (induction rule: step.induct)
  case (start_spawn s t l)
  have "mutex_inv (goto t Returned (s\<lparr> lf_stop := Some False, lf_done := False \<rparr>))"
    by (rule mutex_inv_keep[OF start_spawn.prems]) (simp_all add: start_spawn.hyps)
  then show ?case by (rule mutex_inv_keep) (simp_all add: start_spawn.hyps goto_def)
qed (simp_all add: unlock_def goto_if mutex_inv_rules[where s = s for s])

lemma shutdown_inv_goto:
  "shutdown_inv s \<Longrightarrow> (shutting p \<Longrightarrow> shutting (lf_pc s t) \<or> lf_shutdown s') \<Longrightarrow>
   (lf_shutdown s \<Longrightarrow> lf_shutdown s') \<Longrightarrow> lf_pc s' = lf_pc s \<Longrightarrow> shutdown_inv (goto t p s')"
  by (auto simp: shutdown_inv_def goto_def)

lemma shutdown_inv_step:
  assumes "step s s'" "shutdown_inv s"
  shows "shutdown_inv s'"
  using assms
proof (induction rule: step.induct)
  case (start_spawn s t l)
  have "shutdown_inv (goto t Returned (s\<lparr> lf_stop := Some False, lf_done := False \<rparr>))"
    by (rule shutdown_inv_goto[OF start_spawn.prems]) simp_all
  then show ?case by (rule shutdown_inv_goto) (simp_all add: goto_def)
qed (auto simp: shutdown_inv_def life_defs, (metis shutting.simps)+)

lemma cleared_inv_step:
  assumes "step s s'" "mutex_inv s" "shutdown_inv s" "cleared_inv s"
  shows "cleared_inv s'"
  using assms
proof (induction rule: step.induct)
  case (shut_clear s t)
  have "\<not> applying (lf_pc s u)" if "u \<noteq> t" for u
  proof
    assume "applying (lf_pc s u)"
    then have "holds_mutex (lf_pc s u)" by (cases "lf_pc s u") auto
    moreover have "holds_mutex (lf_pc s t)" using shut_clear by simp
    ultimately show False using shut_clear.prems(1) that unfolding mutex_inv_def by auto
  qed
  then show ?case by (auto simp: cleared_inv_def life_defs)
next
  case (refresh_publish s t ret st result now m)
  then have "applying (lf_pc s t)" by simp
  with refresh_publish.prems(3) have "\<forall>u. lf_pc s u \<noteq> ShutReturned" unfolding cleared_inv_def by blast
  then show ?case by (auto simp: cleared_inv_def life_defs)
next
  case (refresh_check2 s t ret st result)
  show ?case
  proof (cases "lf_shutdown s")
    case True
    with refresh_check2.prems show ?thesis by (auto simp: cleared_inv_def life_defs)
  next
    case False
    with refresh_check2.prems(2) have "\<forall>u. lf_pc s u \<noteq> ShutReturned"
      unfolding shutdown_inv_def by (metis shutting.simps(5))
    with False show ?thesis by (auto simp: cleared_inv_def life_defs)
  qed
qed (auto simp: cleared_inv_def life_defs split: if_splits)

lemma reach_inv:
  assumes "reach life_init s"
  shows "mutex_inv s \<and> shutdown_inv s \<and> cleared_inv s"
  using assms
proof (induction rule: reach.induct)
  case reach_refl
  show ?case by (simp add: mutex_inv_def shutdown_inv_def cleared_inv_def life_init_def)
next
  case (reach_step s' s'')
  then show ?case using mutex_inv_step shutdown_inv_step cleared_inv_step by blast
qed

lemma returned_stable: "step s s' \<Longrightarrow> lf_pc s t = ShutReturned \<Longrightarrow> lf_pc s' t = ShutReturned"
  by (induction rule: step.induct) (auto simp: life_defs)

lemma returned_stable_reach: "reach s s' \<Longrightarrow> lf_pc s t = ShutReturned \<Longrightarrow> lf_pc s' t = ShutReturned"
  by (induction rule: reach.induct) (auto intro: returned_stable)

section \<open>the leaked loop\<close>

text \<open>Once a Shutdown has gone past its look at the stop channel, nobody will close that channel.\<close>

definition stop_missed :: "life \<Rightarrow> bool" where
  "stop_missed s \<longleftrightarrow> lf_shutdown s \<and> lf_stop s \<noteq> Some True \<and> (\<forall>t. lf_pc s t \<noteq> ShutStop \<and> lf_pc s t \<noteq> LoopDone)"

lemma stop_missed_step: "step s s' \<Longrightarrow> stop_missed s \<Longrightarrow> stop_missed s'"
  unfolding stop_missed_def
  by (induction rule: step.induct) (auto simp: life_defs split: if_splits)

lemma stop_missed_reach: "reach s s' \<Longrightarrow> stop_missed s \<Longrightarrow> stop_missed s'"
  by (induction rule: reach.induct) (auto intro: stop_missed_step)

lemma leak_trace:
  "\<exists>s. reach life_init s \<and> lf_pc s 1 = ShutReturned \<and> lf_pc s 2 = LoopWait \<and> stop_missed s"
proof -
  let ?s1 = "goto 0 StartCheck life_init"
  let ?s2 = "goto 0 StartCAS ?s1"
  let ?s3 = "goto 0 (RLock ToStart) (?s2\<lparr> lf_started := True \<rparr>)"
  let ?s4 = "goto 0 (RCheck1 ToStart) (?s3\<lparr> lf_mutex := Some 0 \<rparr>)"
  let ?s5 = "goto 0 (RFetch ToStart (ca_stats (lf_cache ?s4))) ?s4"
  let ?s6 = "goto 1 ShutCAS ?s5"
  let ?s7 = "goto 1 ShutStop (?s6\<lparr> lf_shutdown := True \<rparr>)"
  let ?s8 = "goto 1 ShutLock ?s7"
  let ?s9 = "goto 0 (RCheck2 ToStart (ca_stats (lf_cache ?s4)) (Inl ErrRequest)) ?s8"
  let ?s10 = "goto 0 StartSpawn (unlock ?s9)"
  let ?s11 = "goto 1 ShutClear (?s10\<lparr> lf_mutex := Some 1 \<rparr>)"
  let ?s12 = "goto 1 ShutReturned (unlock (?s11\<lparr> lf_cache := cache_Clear (lf_cache ?s11) \<rparr>))"
  let ?s13 = "goto 2 LoopWait (goto 0 Returned (?s12\<lparr> lf_stop := Some False, lf_done := False \<rparr>))"
  note d = life_defs life_init_def
  have "reach life_init ?s1" by (rule reach_step[OF reach_refl call_start]) (simp add: d)
  moreover have "step ?s1 ?s2" using start_check[of ?s1 0] by (simp add: d)
  ultimately have "reach life_init ?s2" by (rule reach_step)
  moreover have "step ?s2 ?s3" using start_cas[of ?s2 0] by (simp add: d)
  ultimately have "reach life_init ?s3" by (rule reach_step)
  moreover have "step ?s3 ?s4" using refresh_lock[of ?s3 0] by (simp add: d)
  ultimately have "reach life_init ?s4" by (rule reach_step)
  moreover have "step ?s4 ?s5" using refresh_check1[of ?s4 0] by (simp add: d)
  ultimately have "reach life_init ?s5" by (rule reach_step)
  moreover have "step ?s5 ?s6" using call_shutdown[of ?s5 1] by (simp add: d)
  ultimately have "reach life_init ?s6" by (rule reach_step)
  moreover have "step ?s6 ?s7" using shut_cas[of ?s6 1] by (simp add: d)
  ultimately have "reach life_init ?s7" by (rule reach_step)
  moreover have "step ?s7 ?s8" using shut_stop[of ?s7 1] by (simp add: d)
  ultimately have "reach life_init ?s8" by (rule reach_step)
  moreover have "step ?s8 ?s9" by (rule refresh_fetch) (simp add: d)
  ultimately have "reach life_init ?s9" by (rule reach_step)
  moreover have "step ?s9 ?s10" using refresh_check2[of ?s9 0] by (simp add: d)
  ultimately have "reach life_init ?s10" by (rule reach_step)
  moreover have "step ?s10 ?s11" by (rule shut_lock) (simp_all add: d)
  ultimately have "reach life_init ?s11" by (rule reach_step)
  moreover have "step ?s11 ?s12" by (rule shut_clear) (simp add: d)
  ultimately have "reach life_init ?s12" by (rule reach_step)
  moreover have "step ?s12 ?s13" by (rule start_spawn) (simp_all add: d)
  ultimately have "reach life_init ?s13" by (rule reach_step)
  moreover have "lf_pc ?s13 1 = ShutReturned \<and> lf_pc ?s13 2 = LoopWait \<and> stop_missed ?s13"
    by (simp add: d stop_missed_def)
  ultimately show ?thesis by blast
qed

section \<open>properties\<close>

text \<open>C18. However Start, Refresh, the background loop and Shutdown interleave: once the Shutdown call
  that won the race has returned, the cache is the empty one of a new client, and it stays so: no late
  response can repopulate it.\<close>

theorem shutdown_cache_stays_cleared:
  assumes "reach life_init s" "lf_pc s t = ShutReturned" "reach s s'"
  shows "lf_cache s = cache_New \<and> lf_cache s' = cache_New"
proof -
  have "reach life_init s'" using assms(3,1) by (induction rule: reach.induct) (auto intro: reach_step)
  moreover have "lf_pc s' t = ShutReturned" using assms(3,2) by (rule returned_stable_reach)
  ultimately show ?thesis using reach_inv[of s] reach_inv[of s'] assms unfolding cleared_inv_def by blast
qed

theorem shutdown_cache_stays_cleared_witness:
  "\<exists>s. reach life_init s \<and> lf_pc s 1 = ShutReturned \<and> lf_cache s = cache_New"
proof -
  obtain s where s: "reach life_init s" "lf_pc s 1 = ShutReturned" using leak_trace by blast
  then show ?thesis using shutdown_cache_stays_cleared[OF s reach_refl] by blast
qed

text \<open>C33. A Shutdown that runs while Start is still in its first fetch sees no stop channel; Start
  then makes one and starts the loop. From that reachable state on, in every continuation, the
  channel is never closed and the loop never ends, although Shutdown has returned.\<close>

theorem shutdown_during_start_leaks_loop:
  "\<exists>s. reach life_init s \<and> lf_pc s 1 = ShutReturned \<and> lf_pc s 2 = LoopWait
     \<and> (\<forall>s'. reach s s' \<longrightarrow> lf_stop s' \<noteq> Some True \<and> lf_pc s' 2 \<noteq> LoopDone)"
  using leak_trace stop_missed_reach unfolding stop_missed_def by meson

theorem shutdown_during_start_leaks_loop_witness:
  "\<exists>s. reach life_init s \<and> lf_pc s 1 = ShutReturned \<and> lf_pc s 2 = LoopWait \<and> lf_stop s \<noteq> Some True"
  using shutdown_during_start_leaks_loop reach_refl by meson

end
