(* ===== verification/Entity.thy ===== *)
theory Entity
  imports SdkStrategy
begin

text \<open>
  The server's core entities, \<open>server/internal/app/domain/entity\<close>: application errors (\<open>error.go\<close>),
  input validation (\<open>validation.go\<close>), activation rules (\<open>activation_rule.go\<close>), toggles (\<open>toggle.go\<close>),
  users (\<open>user.go\<close>), teams (\<open>team.go\<close>) and applications (\<open>application.go\<close>). An error text in
  Portuguese is a constructor, an ASCII one the string. The lemmas say what each validation accepts.
\<close>

section \<open>error.go\<close>

datatype err_code =
    ErrCodeValidation | ErrCodeNotFound | ErrCodeAlreadyExists | ErrCodeDatabase
  | ErrCodeInternal | ErrCodeInvalidPath | ErrCodeInvalidToggle

fun code_string :: "err_code \<Rightarrow> string" where
  "code_string ErrCodeValidation = ''T0001''"
| "code_string ErrCodeNotFound = ''T0002''"
| "code_string ErrCodeAlreadyExists = ''T0003''"
| "code_string ErrCodeDatabase = ''T0004''"
| "code_string ErrCodeInternal = ''T0005''"
| "code_string ErrCodeInvalidPath = ''T0006''"
| "code_string ErrCodeInvalidToggle = ''T0007''"

text \<open>A validation error text: the segment messages carry the segment's number and text.\<close>

datatype message =
    Msg string
  | SegmentEmpty nat
  | SegmentInvalid nat string

record error_detail =
  ed_Field :: string
  ed_Message :: message

record app_error =
  ae_Code :: err_code
  ae_Message :: string
  ae_Details :: "error_detail list"

definition NewAppError :: "err_code \<Rightarrow> string \<Rightarrow> app_error" where
  "NewAppError code m = \<lparr> ae_Code = code, ae_Message = m, ae_Details = [] \<rparr>"

definition NewAppErrorWithDetails :: "err_code \<Rightarrow> string \<Rightarrow> error_detail list \<Rightarrow> app_error" where
  "NewAppErrorWithDetails code m details = \<lparr> ae_Code = code, ae_Message = m, ae_Details = details \<rparr>"

definition AddDetail :: "string \<Rightarrow> message \<Rightarrow> app_error \<Rightarrow> app_error" where
  "AddDetail field m e = e\<lparr> ae_Details := ae_Details e @ [\<lparr> ed_Field = field, ed_Message = m \<rparr>] \<rparr>"

section \<open>validation.go\<close>

record validation_result =
  vr_IsValid :: bool
  vr_Errors :: "error_detail list"

definition NewValidationResult :: validation_result where
  "NewValidationResult = \<lparr> vr_IsValid = True, vr_Errors = [] \<rparr>"

definition AddError :: "string \<Rightarrow> message \<Rightarrow> validation_result \<Rightarrow> validation_result" where
  "AddError field m r =
     r\<lparr> vr_IsValid := False, vr_Errors := vr_Errors r @ [\<lparr> ed_Field = field, ed_Message = m \<rparr>] \<rparr>"

text \<open>
  \<open>utf8.RuneCountInString\<close>: the bytes of the rune at the head of the string, one for an invalid byte.
\<close>

definition in_range :: "nat \<Rightarrow> nat \<Rightarrow> string \<Rightarrow> nat \<Rightarrow> bool" where
  "in_range lo hi s i \<longleftrightarrow> i < length s \<and> lo \<le> of_char (s ! i) \<and> of_char (s ! i) \<le> hi"

definition rune_size :: "string \<Rightarrow> nat" where
  "rune_size s =
     (if in_range 0xC2 0xDF s 0 \<and> in_range 0x80 0xBF s 1 then 2
      else if (in_range 0xE0 0xE0 s 0 \<and> in_range 0xA0 0xBF s 1
               \<or> in_range 0xED 0xED s 0 \<and> in_range 0x80 0x9F s 1
               \<or> (in_range 0xE1 0xEC s 0 \<or> in_range 0xEE 0xEF s 0) \<and> in_range 0x80 0xBF s 1)
              \<and> in_range 0x80 0xBF s 2 then 3
      else if (in_range 0xF0 0xF0 s 0 \<and> in_range 0x90 0xBF s 1
               \<or> in_range 0xF1 0xF3 s 0 \<and> in_range 0x80 0xBF s 1
               \<or> in_range 0xF4 0xF4 s 0 \<and> in_range 0x80 0x8F s 1)
              \<and> in_range 0x80 0xBF s 2 \<and> in_range 0x80 0xBF s 3 then 4
      else 1)"

function RuneCount :: "string \<Rightarrow> nat" where
  "RuneCount s = (if s = [] then 0 else Suc (RuneCount (drop (rune_size s) s)))"
  by pat_completeness auto
termination
  by (relation "measure length") (auto simp: rune_size_def)

declare RuneCount.simps [simp del]

text \<open>\<open>[a-zA-Z0-9\s\-_\.]\<close> and \<open>[a-zA-Z0-9\-_]\<close>\<close>

definition name_char :: "char \<Rightarrow> bool" where
  "name_char c \<longleftrightarrow> is_lower c \<or> is_upper c \<or> is_digit c
     \<or> of_char c \<in> {9 :: nat, 10, 12, 13, 32, 45, 95, 46}"

definition segment_char :: "char \<Rightarrow> bool" where
  "segment_char c \<longleftrightarrow> is_lower c \<or> is_upper c \<or> is_digit c \<or> c = CHR ''-'' \<or> c = CHR ''_''"

definition ValidateApplicationName :: "string \<Rightarrow> validation_result" where
  "ValidateApplicationName name =
     (if TrimSpace name = [] then AddError ''name'' (Msg ''Application name is required'') NewValidationResult
      else
        let r = NewValidationResult;
            r = (if RuneCount name > 255
                 then AddError ''name'' (Msg ''Application name must be less than 255 characters'') r else r);
            r = (if list_ex (\<lambda>c. of_char c \<in> {60 :: nat, 62, 34, 39, 38}) name
                 then AddError ''name'' (Msg ''Application name contains invalid characters'') r else r)
        in if \<not> (name \<noteq> [] \<and> list_all name_char name)
           then AddError ''name'' (Msg ''Application name contains invalid characters. Only letters, numbers, spaces, hyphens, underscores and dots are allowed'') r
           else r)"

text \<open>The loop over the segments, with their numbers from 1.\<close>

fun validate_segments :: "nat \<Rightarrow> string list \<Rightarrow> validation_result \<Rightarrow> validation_result" where
  "validate_segments i [] r = r"
| "validate_segments i (part # parts) r =
     (if TrimSpace part = []
      then validate_segments (i + 1) parts (AddError ''path'' (SegmentEmpty i) r)
      else if \<not> (part \<noteq> [] \<and> list_all segment_char part)
      then validate_segments (i + 1) parts (AddError ''path'' (SegmentInvalid i part) r)
      else validate_segments (i + 1) parts r)"

definition ValidateTogglePath :: "string \<Rightarrow> validation_result" where
  "ValidateTogglePath path =
     (if TrimSpace path = [] then AddError ''path'' (Msg ''Toggle path is required'') NewValidationResult
      else
        let r = NewValidationResult;
            r = (if RuneCount path > 1000
                 then AddError ''path'' (Msg ''Toggle path must be less than 1000 characters'') r else r);
            r = (if HasPrefix path ''.'' \<or> HasSuffix path ''.''
                 then AddError ''path'' (Msg ''Toggle path cannot start or end with a dot'') r else r);
            r = (if Contains path ''..''
                 then AddError ''path'' (Msg ''Toggle path cannot contain consecutive dots'') r else r)
        in validate_segments 1 (Split dot path) r)"

definition ulid_shape :: "string \<Rightarrow> bool" where
  "ulid_shape s \<longleftrightarrow> length s = 26 \<and> list_all (\<lambda>c. is_digit c \<or> is_upper c) s"

definition ValidateToggleID :: "string \<Rightarrow> validation_result" where
  "ValidateToggleID i =
     (if TrimSpace i = [] then AddError ''id'' (Msg ''Toggle ID is required'') NewValidationResult
      else if \<not> ulid_shape i then AddError ''id'' (Msg ''Invalid toggle ID format'') NewValidationResult
      else NewValidationResult)"

definition ValidateApplicationID :: "string \<Rightarrow> validation_result" where
  "ValidateApplicationID i =
     (if TrimSpace i = [] then AddError ''id'' (Msg ''Application ID is required'') NewValidationResult
      else if \<not> ulid_shape i then AddError ''id'' (Msg ''Invalid application ID format'') NewValidationResult
      else NewValidationResult)"

definition ToAppError :: "validation_result \<Rightarrow> app_error option" where
  "ToAppError r =
     (if vr_IsValid r then None
      else Some (NewAppErrorWithDetails ErrCodeValidation ''validation failed'' (vr_Errors r)))"

section \<open>activation_rule.go\<close>

record activation_rule =
  ar_Type :: rule_type
  ar_Value :: string
  ar_Config :: raw_message

datatype rule_error =
    PercentageRequired | PercentageRange | RuleValueRequired | TimeRequired | TimeFormat
  | InvalidRuleType rule_type | TimeTakesNoContextKey | ContextKeyRequired rule_type

text \<open>\<open>([01]\d|2[0-3]):[0-5]\d\<close>\<close>

definition hhmm_pattern :: "char \<Rightarrow> char \<Rightarrow> char \<Rightarrow> char \<Rightarrow> char \<Rightarrow> bool" where
  "hhmm_pattern a b c d e \<longleftrightarrow>
     ((a = CHR ''0'' \<or> a = CHR ''1'') \<and> is_digit b \<or> a = CHR ''2'' \<and> b \<in> set ''0123'')
     \<and> c = CHR '':'' \<and> d \<in> set ''012345'' \<and> is_digit e"

fun timeWindowPattern :: "string \<Rightarrow> bool" where
  "timeWindowPattern [a, b, c, d, e, m, f, g, h, i, j] =
     (hhmm_pattern a b c d e \<and> m = CHR ''-'' \<and> hhmm_pattern f g h i j)"
| "timeWindowPattern _ = False"

text \<open>\<open>validContextKey\<close> of the server, a copy of the client's over the server's rule types.\<close>

definition Server_validContextKey :: "rule_type \<Rightarrow> string \<Rightarrow> bool" where
  "Server_validContextKey ruleType key =
     (if HasPrefix key ''attributes.''
      then length (TrimPrefix key ''attributes.'') > 0
           \<and> (ruleType = ''percentage'' \<or> ruleType = ''parameter'')
      else (ruleType = ''percentage'' \<and> key = ''rollout_key'')
           \<or> (ruleType = ''user_id'' \<and> key = ''user_id'')
           \<or> (ruleType = ''ip'' \<and> key = ''ip'')
           \<or> (ruleType = ''country'' \<and> key = ''country'')
           \<or> (ruleType = ''cohort'' \<and> key = ''cohort''))"

text \<open>The type-specific checks of the switch.\<close>

definition rule_value_error :: "(string \<Rightarrow> float64 option) \<Rightarrow> activation_rule \<Rightarrow> rule_error option" where
  "rule_value_error ParseFloat r =
     (let t = ar_Type r; v = ar_Value r in
      if t = ''percentage'' then
        (if v = [] then Some PercentageRequired
         else (case ParseFloat (TrimSpace v) of
                 None \<Rightarrow> Some PercentageRange
               | Some p \<Rightarrow> if float_less p (Fin 0) \<or> float_less (Fin 100) p then Some PercentageRange else None))
      else if t \<in> {''parameter'', ''user_id'', ''ip'', ''country''} then
        (if v = [] then Some RuleValueRequired else None)
      else if t = ''cohort'' then None
      else if t = ''time'' then
        (if v = [] then Some TimeRequired
         else if \<not> timeWindowPattern v then Some TimeFormat
         else None)
      else Some (InvalidRuleType t))"

definition ValidateRule :: "(string \<Rightarrow> float64 option) \<Rightarrow> activation_rule \<Rightarrow> rule_error option" where
  "ValidateRule ParseFloat r =
     (case rule_value_error ParseFloat r of
        Some e \<Rightarrow> Some e
      | None \<Rightarrow>
          if ar_Type r = ''time'' then
            (if ar_Config r = RawEmpty \<or> ar_Config r = RawJSON JNull then None
             else Some TimeTakesNoContextKey)
          else
            (case decode_map (ar_Config r) of
               None \<Rightarrow> Some (ContextKeyRequired (ar_Type r))
             | Some m \<Rightarrow>
                 (case m ''context_key'' of
                    None \<Rightarrow> Some (ContextKeyRequired (ar_Type r))
                  | Some rawKey \<Rightarrow>
                      (case decode_string [] rawKey of
                         None \<Rightarrow> Some (ContextKeyRequired (ar_Type r))
                       | Some key \<Rightarrow>
                           if \<not> Server_validContextKey (ar_Type r) key
                           then Some (ContextKeyRequired (ar_Type r)) else None))))"

definition Server_ContextKey :: "activation_rule \<Rightarrow> string" where
  "Server_ContextKey r =
     (case decode_map (ar_Config r) of
        None \<Rightarrow> []
      | Some m \<Rightarrow>
          (case m ''context_key'' of
             None \<Rightarrow> []
           | Some rawKey \<Rightarrow> (case decode_string [] rawKey of None \<Rightarrow> [] | Some key \<Rightarrow> key)))"

definition ephemeralContextKeyTokens :: "string list" where
  "ephemeralContextKeyTokens = [''ip'', ''session'', ''request'', ''token'', ''nonce'']"

text \<open>
  \<open>tokens\<close> is \<open>strings.FieldsFunc\<close> at the runes that are neither letter nor digit, followed by
  \<open>strings.ToLower\<close> (Unicode tables of the standard library).
\<close>

definition HasEphemeralContextKeyRisk :: "(string \<Rightarrow> string list) \<Rightarrow> activation_rule \<Rightarrow> bool" where
  "HasEphemeralContextKeyRisk tokens r =
     (if ar_Type r \<noteq> ''percentage'' then False
      else
        let key = Server_ContextKey r in
        if \<not> HasPrefix key ''attributes.'' then False
        else list_ex (\<lambda>token. token \<in> set ephemeralContextKeyTokens)
               (tokens (TrimPrefix key ''attributes.'')))"

section \<open>toggle.go\<close>

record toggle =
  tg_ID :: string
  tg_Value :: string
  tg_Enabled :: bool
  tg_Path :: string
  tg_Level :: int
  tg_ParentID :: "string option"
  tg_AppID :: string
  tg_HasActivationRule :: bool
  tg_ActivationRule :: "activation_rule option"
  tg_DeletedAt :: "int option"
  tg_DeletedBy :: "string option"
  tg_ArchivedRoot :: bool
  tg_RuleContextWarning :: bool

definition NewToggle ::
    "string \<Rightarrow> string \<Rightarrow> bool \<Rightarrow> string \<Rightarrow> int \<Rightarrow> string option \<Rightarrow> string \<Rightarrow> toggle" where
  "NewToggle newID v enabled path level parentID appID =
     \<lparr> tg_ID = newID, tg_Value = v, tg_Enabled = enabled, tg_Path = path, tg_Level = level,
       tg_ParentID = parentID, tg_AppID = appID, tg_HasActivationRule = False,
       tg_ActivationRule = None, tg_DeletedAt = None, tg_DeletedBy = None, tg_ArchivedRoot = False,
       tg_RuleContextWarning = False \<rparr>"

definition SetActivationRule ::
    "(string \<Rightarrow> float64 option) \<Rightarrow> activation_rule option \<Rightarrow> toggle \<Rightarrow> rule_error + toggle" where
  "SetActivationRule ParseFloat rule t =
     (case rule of
        Some r \<Rightarrow>
          (case ValidateRule ParseFloat r of
             Some err \<Rightarrow> Inl err
           | None \<Rightarrow> Inr (t\<lparr> tg_ActivationRule := Some r, tg_HasActivationRule := True \<rparr>))
      | None \<Rightarrow> Inr (t\<lparr> tg_ActivationRule := None, tg_HasActivationRule := False \<rparr>))"

definition ClearActivationRule :: "toggle \<Rightarrow> toggle" where
  "ClearActivationRule t = t\<lparr> tg_ActivationRule := None, tg_HasActivationRule := False \<rparr>"

text \<open>A toggle with its \<open>Parent\<close> pointer followed.\<close>

datatype linked_toggle = Linked toggle "linked_toggle option"

fun IsEnabled :: "linked_toggle \<Rightarrow> bool" where
  "IsEnabled (Linked t p) =
     (if \<not> tg_Enabled t then False
      else (case p of Some q \<Rightarrow> IsEnabled q | None \<Rightarrow> True))"

fun GetFullPath :: "linked_toggle \<Rightarrow> string" where
  "GetFullPath (Linked t p) =
     (case p of Some q \<Rightarrow> GetFullPath q @ ''.'' @ tg_Value t | None \<Rightarrow> tg_Value t)"

definition ParseTogglePath :: "string \<Rightarrow> string list" where
  "ParseTogglePath path = Split dot path"

definition BuildTogglePath :: "string list \<Rightarrow> string" where
  "BuildTogglePath parts = Join dot parts"

section \<open>team.go, application.go, user.go\<close>

datatype user_role = UserRoleRoot | UserRoleAdmin | UserRoleUser | OtherRole string

datatype user_status = StatusDisabled | StatusPendingFirstLogin | StatusActive

record team =
  te_ID :: string
  te_Name :: string
  te_Description :: string

record application =
  ap_ID :: string
  ap_Name :: string

definition New_Application :: "string \<Rightarrow> string \<Rightarrow> application" where
  "New_Application newID name = \<lparr> ap_ID = newID, ap_Name = name \<rparr>"

record user =
  us_ID :: string
  us_Name :: string
  us_Username :: string
  us_Password :: string
  us_Role :: user_role
  us_MustChangePassword :: bool
  us_Active :: bool
  us_Status :: user_status
  us_Teams :: "team list"

definition RefreshStatus :: "user \<Rightarrow> user" where
  "RefreshStatus u =
     u\<lparr> us_Status := (if \<not> us_Active u then StatusDisabled
                       else if us_MustChangePassword u then StatusPendingFirstLogin
                       else StatusActive) \<rparr>"

text \<open>
  \<open>bcrypt\<close> is a parameter: \<open>hash\<close> may fail (a password above 72 bytes does), \<open>check\<close> compares.
\<close>

record bcrypt =
  bc_hash :: "string \<Rightarrow> string option"
  bc_check :: "string \<Rightarrow> string \<Rightarrow> bool"

datatype password_error = PasswordTooShort | PasswordHashFailed

definition SetPassword :: "bcrypt \<Rightarrow> string \<Rightarrow> user \<Rightarrow> password_error + user" where
  "SetPassword bc password u =
     (if length password < 4 then Inl PasswordTooShort
      else (case bc_hash bc password of
              None \<Rightarrow> Inl PasswordHashFailed
            | Some h \<Rightarrow> Inr (u\<lparr> us_Password := h \<rparr>)))"

definition CheckPassword :: "bcrypt \<Rightarrow> user \<Rightarrow> string \<Rightarrow> bool" where
  "CheckPassword bc u password = bc_check bc (us_Password u) password"

definition IsRoot :: "user \<Rightarrow> bool" where "IsRoot u \<longleftrightarrow> us_Role u = UserRoleRoot"
definition IsAdmin :: "user \<Rightarrow> bool" where "IsAdmin u \<longleftrightarrow> us_Role u = UserRoleAdmin"
definition IsUser :: "user \<Rightarrow> bool" where "IsUser u \<longleftrightarrow> us_Role u = UserRoleUser"
definition CanManageUsers :: "user \<Rightarrow> bool" where "CanManageUsers u = IsRoot u"

definition CanModifyData :: "user \<Rightarrow> bool" where
  "CanModifyData u \<longleftrightarrow> us_Role u = UserRoleAdmin \<or> us_Role u = UserRoleRoot"

definition IsMemberOfTeam :: "user \<Rightarrow> string \<Rightarrow> bool" where
  "IsMemberOfTeam u teamID = list_ex (\<lambda>t. te_ID t = teamID) (us_Teams u)"

definition GetTeamIDs :: "user \<Rightarrow> string list" where
  "GetTeamIDs u = map te_ID (us_Teams u)"

datatype user_error = UserNameRequired | UsernameRequired | UsernameTooShort | InvalidUserRole

definition User_Validate :: "user \<Rightarrow> user_error option" where
  "User_Validate u =
     (if us_Name u = [] then Some UserNameRequired
      else if us_Username u = [] then Some UsernameRequired
      else if length (us_Username u) < 3 then Some UsernameTooShort
      else if us_Role u \<noteq> UserRoleAdmin \<and> us_Role u \<noteq> UserRoleUser \<and> us_Role u \<noteq> UserRoleRoot
      then Some InvalidUserRole
      else None)"

datatype team_error = TeamNameRequired | TeamNameTooShort | TeamNameTooLong | TeamDescriptionTooLong

definition Team_Validate :: "team \<Rightarrow> team_error option" where
  "Team_Validate t =
     (if te_Name t = [] then Some TeamNameRequired
      else if length (te_Name t) < 2 then Some TeamNameTooShort
      else if length (te_Name t) > 100 then Some TeamNameTooLong
      else if length (te_Description t) > 500 then Some TeamDescriptionTooLong
      else None)"

datatype permission = PermissionRead | PermissionWrite | PermissionAdmin | OtherPermission string

definition ValidatePermission :: "permission \<Rightarrow> bool" where
  "ValidatePermission p \<longleftrightarrow> p = PermissionRead \<or> p = PermissionWrite \<or> p = PermissionAdmin"

section \<open>lemmas\<close>

subsection \<open>paths\<close>

lemma RuneCount_le: "RuneCount s \<le> length s"
proof (induction s rule: RuneCount.induct)
  case (1 s)
  have "0 < rune_size s" by (simp add: rune_size_def)
  with 1 show ?case by (subst RuneCount.simps) (cases s, auto)
qed

lemma AddError_invalid [simp]: "\<not> vr_IsValid (AddError f m r)"
  by (simp add: AddError_def)

lemma NewValidationResult_valid [simp]: "vr_IsValid NewValidationResult"
  by (simp add: NewValidationResult_def)

definition path_char :: "char \<Rightarrow> bool" where
  "path_char c \<longleftrightarrow> segment_char c \<or> c = dot"

lemma path_char_printable: "path_char c \<Longrightarrow> printable c"
  by (auto simp: path_char_def segment_char_def printable_def is_lower_def is_upper_def is_digit_def)

lemma path_chars_unspaced:
  assumes "list_all path_char s"
  shows "unspaced s"
proof (cases "s = []")
  case True
  then show ?thesis using unicode_spaces_ends by (auto simp: unspaced_def HasPrefix_def HasSuffix_def)
next
  case False
  with assms show ?thesis
    by (intro printable_unspaced) (auto simp: list_all_iff intro: path_char_printable)
qed

lemma TrimSpace_path_chars: "list_all path_char s \<Longrightarrow> TrimSpace s = s"
  by (rule TrimSpace_id[OF path_chars_unspaced])

lemma Contains_iff: "Contains s p \<longleftrightarrow> (\<exists>a b. s = a @ p @ b)"
proof (induction s)
  case Nil
  then show ?case by auto
next
  case (Cons c cs)
  note IH = Cons.IH
  show ?case
  proof
    assume "Contains (c # cs) p"
    then consider "HasPrefix (c # cs) p" | "Contains cs p" by auto
    then show "\<exists>a b. c # cs = a @ p @ b"
    proof cases
      case 1
      then obtain r where "c # cs = [] @ p @ r" by (auto simp: HasPrefix_iff)
      then show ?thesis by blast
    next
      case 2
      with Cons obtain a b where "c # cs = (c # a) @ p @ b" by auto
      then show ?thesis by blast
    qed
  next
    assume "\<exists>a b. c # cs = a @ p @ b"
    then obtain a b where ab: "c # cs = a @ p @ b" by blast
    show "Contains (c # cs) p"
    proof (cases a)
      case Nil
      with ab have "HasPrefix (c # cs) p" by (auto simp: HasPrefix_iff)
      then show ?thesis by simp
    next
      case (Cons x xs)
      with ab have "cs = xs @ p @ b" by simp
      with IH show ?thesis by auto
    qed
  qed
qed

lemma Split_append: "Split d (a @ d # s) = Split d a @ Split d s"
  by (induction a) (auto split: list.splits simp: append_eq_Cons_conv Cons_eq_append_conv)

lemma Split_sep_sep: "[] \<in> set (Split d (a @ d # d # b))"
  by (simp add: Split_append)

lemma Split_sep_end: "Split d (a @ [d]) = Split d a @ [[]]"
  by (induction a) (auto split: list.splits)

text \<open>A segment list without an empty segment meets the dot conditions.\<close>

lemma dots_ok:
  assumes "[] \<notin> set (Split dot path)"
  shows "\<not> HasPrefix path ''.''" "\<not> HasSuffix path ''.''" "\<not> Contains path ''..''"
proof -
  show "\<not> HasPrefix path ''.''"
    using assms by (auto simp: HasPrefix_iff)
  show "\<not> HasSuffix path ''.''"
  proof
    assume "HasSuffix path ''.''"
    then obtain r where "rev path = dot # r" by (auto simp: HasSuffix_def HasPrefix_iff)
    then have "path = rev r @ [dot]" by (metis rev.simps(2) rev_rev_ident)
    with assms show False by (simp add: Split_sep_end)
  qed
  show "\<not> Contains path ''..''"
    using assms Split_sep_sep[of dot] by (auto simp: Contains_iff)
qed

lemma validate_segments_valid:
  "vr_IsValid (validate_segments i parts r) \<longleftrightarrow>
     vr_IsValid r \<and> (\<forall>p\<in>set parts. p \<noteq> [] \<and> list_all segment_char p)"
proof (induction i parts r rule: validate_segments.induct)
  case (1 i r)
  then show ?case by simp
next
  case (2 i part parts r)
  have t: "part \<noteq> [] \<Longrightarrow> list_all segment_char part \<Longrightarrow> TrimSpace part \<noteq> []"
    using TrimSpace_path_chars[of part] by (auto simp: list_all_iff path_char_def)
  show ?case
  proof (cases "TrimSpace part = []")
    case True
    with 2 t show ?thesis by auto
  next
    case False
    with 2 show ?thesis by (cases "part \<noteq> [] \<and> list_all segment_char part") auto
  qed
qed

lemma Join_path_chars:
  "(\<forall>p\<in>set ps. list_all segment_char p) \<Longrightarrow> list_all path_char (Join dot ps)"
  by (induction dot ps rule: Join.induct) (auto simp: path_char_def list_all_iff)

lemma ValidateTogglePath_valid:
  "vr_IsValid (ValidateTogglePath path) \<longleftrightarrow>
     RuneCount path \<le> 1000 \<and> (\<forall>p\<in>set (Split dot path). p \<noteq> [] \<and> list_all segment_char p)"
proof (cases "\<forall>p\<in>set (Split dot path). p \<noteq> [] \<and> list_all segment_char p")
  case True
  then have "list_all path_char path"
    using Join_path_chars[of "Split dot path"] by simp
  then have "TrimSpace path = path" by (rule TrimSpace_path_chars)
  moreover have "path \<noteq> []" using True by auto
  moreover have "[] \<notin> set (Split dot path)" using True by auto
  ultimately show ?thesis
    using True dots_ok[of path] by (simp add: ValidateTogglePath_def Let_def validate_segments_valid)
next
  case False
  then show ?thesis by (auto simp: ValidateTogglePath_def Let_def validate_segments_valid)
qed

subsection \<open>rules\<close>

lemma Server_validContextKey_eq: "Server_validContextKey = SdkToggle.validContextKey"
  by (intro ext) (simp add: Server_validContextKey_def validContextKey_def rule_type_defs)

lemma ValidateRule_None_type:
  "ValidateRule pf r = None \<Longrightarrow>
   ar_Type r \<in> {''percentage'', ''parameter'', ''user_id'', ''ip'', ''country'', ''cohort'', ''time''}"
  by (auto simp: ValidateRule_def rule_value_error_def Let_def split: option.splits if_splits)

lemma ValidateRule_time:
  assumes "ValidateRule pf r = None" "ar_Type r = ''time''"
  shows "timeWindowPattern (ar_Value r)" "ar_Config r = RawEmpty \<or> ar_Config r = RawJSON JNull"
  using assms by (auto simp: ValidateRule_def rule_value_error_def Let_def split: option.splits if_splits)

lemma ValidateRule_context:
  assumes "ValidateRule pf r = None" "ar_Type r \<noteq> ''time''"
  shows "Server_validContextKey (ar_Type r) (Server_ContextKey r)"
    and "\<exists>kvs v. ar_Config r = RawJSON (JObj kvs) \<and> map_of (rev kvs) ''context_key'' = Some v
        \<and> decode_string [] v = Some (Server_ContextKey r)"
proof -
  from assms obtain m v key where m: "decode_map (ar_Config r) = Some m" "m ''context_key'' = Some v"
    "decode_string [] v = Some key" "Server_validContextKey (ar_Type r) key"
    by (auto simp: ValidateRule_def split: option.splits if_splits)
  then show "Server_validContextKey (ar_Type r) (Server_ContextKey r)"
    by (simp add: Server_ContextKey_def)
  from m show "\<exists>kvs v. ar_Config r = RawJSON (JObj kvs) \<and> map_of (rev kvs) ''context_key'' = Some v
        \<and> decode_string [] v = Some (Server_ContextKey r)"
    by (cases "ar_Config r" rule: decode_map.cases) (auto simp: Server_ContextKey_def)
qed

lemma is_digit_cases: "c \<in> set ''0123456789'' \<Longrightarrow> is_digit c"
  by (auto simp: is_digit_def)

lemma hhmm_pattern_parses:
  assumes "hhmm_pattern a b c d e"
  shows "\<exists>m. minutesOfDayFromHHMM [a, b, c, d, e] = Some m"
proof -
  from assms have dg: "is_digit a" "is_digit b" "c = CHR '':''" "is_digit d" "is_digit e"
    by (auto simp: hhmm_pattern_def is_digit_def)
  from assms have h: "digit_val a * 10 + digit_val b < 24"
    by (auto simp: hhmm_pattern_def is_digit_def digit_val_def)
  from assms have m: "digit_val d * 10 + digit_val e < 60"
    by (auto simp: hhmm_pattern_def is_digit_def digit_val_def)
  from dg h m show ?thesis by (simp add: minutesOfDayFromHHMM_def Let_def not_le[symmetric] del: not_le)
qed

text \<open>What the server's pattern accepts, the client's evaluator parses.\<close>

lemma hhmm_path_chars: "hhmm_pattern a b c d e \<Longrightarrow> unspaced [a, b, c, d, e]"
  by (rule printable_unspaced) (auto simp: hhmm_pattern_def is_digit_def printable_def)

lemma timeWindowPattern_parses:
  assumes "timeWindowPattern v"
  shows "\<exists>a b m n. v = a @ ''-'' @ b \<and> CHR ''-'' \<notin> set a \<and>
    minutesOfDayFromHHMM (TrimSpace a) = Some m \<and> minutesOfDayFromHHMM (TrimSpace b) = Some n"
proof -
  from assms obtain a b c d e f g h i j where v: "v = [a, b, c, d, e] @ ''-'' @ [f, g, h, i, j]"
    and p: "hhmm_pattern a b c d e" "hhmm_pattern f g h i j"
    by (cases v rule: timeWindowPattern.cases) auto
  have "CHR ''-'' \<notin> set [a, b, c, d, e]" using p(1) by (auto simp: hhmm_pattern_def is_digit_def)
  with v hhmm_pattern_parses[OF p(1)] hhmm_pattern_parses[OF p(2)] show ?thesis
    by (metis TrimSpace_id hhmm_path_chars p)
qed

section \<open>properties\<close>

text \<open>A toggle path passes the server's validation exactly when it has at most 1000 runes and
  every dot-separated segment is a non-empty run of letters, digits, hyphens and underscores; the
  separate checks for dots at the ends and for doubled dots add nothing.\<close>

theorem ValidateTogglePath_iff:
  "vr_IsValid (ValidateTogglePath path) \<longleftrightarrow>
     RuneCount path \<le> 1000 \<and> list_all (\<lambda>p. p \<noteq> [] \<and> list_all segment_char p) (ParseTogglePath path)"
  by (simp add: ValidateTogglePath_valid list_all_iff ParseTogglePath_def)

text \<open>C37. Every path the server accepts is a path for the client, unchanged.\<close>

theorem server_path_valid_for_sdk:
  assumes "vr_IsValid (ValidateTogglePath path)"
  shows "NewPath path = Inr (Path path) \<and> Segments (Path path) = ParseTogglePath path
    \<and> BuildTogglePath (ParseTogglePath path) = path"
proof -
  have "wf_segments (Split dot path)"
    using assms by (auto simp: ValidateTogglePath_valid wf_segments_def dest: Split_no_sep)
  then show ?thesis by (simp add: NewPath_Inr Segments_def ParseTogglePath_def BuildTogglePath_def)
qed

theorem server_path_valid_for_sdk_witness: "NewPath ''pay.card-2'' = Inr (Path ''pay.card-2'')"
proof -
  have "RuneCount ''pay.card-2'' \<le> 1000"
    using RuneCount_le[of "''pay.card-2''"] by simp
  then have "vr_IsValid (ValidateTogglePath ''pay.card-2'')"
    by (simp add: ValidateTogglePath_valid segment_char_def is_lower_def is_digit_def)
  from server_path_valid_for_sdk[OF this] show ?thesis by blast
qed

definition sdk_rule_of :: "activation_rule \<Rightarrow> sdk_rule" where
  "sdk_rule_of r = \<lparr> sr_Type = ar_Type r, sr_Value = ar_Value r, sr_Config = ar_Config r \<rparr>"

lemma decode_string_field_unique:
  assumes "\<forall>(k, w)\<in>set kvs. field_matches n k \<longrightarrow> k = n \<and> w = v" "\<exists>w. (n, w) \<in> set kvs"
    "decode_string [] v = Some s"
  shows "decode_string_field n [] kvs = Some s"
proof -
  have step: "decode_string old v = Some s" if "old = [] \<or> old = s" for old
    using assms(3) that by (cases v) auto
  have keep: "\<forall>(k, w)\<in>set kvs. field_matches n k \<longrightarrow> k = n \<and> w = v \<Longrightarrow>
      decode_string_field n s kvs = Some s" for kvs
    using step[of s] by (induction kvs) auto
  from assms(1,2) show ?thesis
  proof (induction kvs)
    case Nil
    then show ?case by simp
  next
    case (Cons kv kvs)
    obtain k w where kv: "kv = (k, w)" by (cases kv)
    show ?case
    proof (cases "field_matches n k")
      case True
      with Cons.prems(1) kv have "w = v" by auto
      with True kv Cons.prems(1) step[of "[]"] keep[of kvs] show ?thesis by simp
    next
      case False
      with Cons.prems(2) kv have "\<exists>w. (n, w) \<in> set kvs" by auto
      with False kv Cons show ?thesis by simp
    qed
  qed
qed

text \<open>C36. An activation rule that passes the server's validation, and whose configuration has no second
  member that folds to context_key, can be evaluated by the client: its type has an evaluator; a time
  rule needs no context and its window parses; and for any other type the client extracts the same,
  valid context key. The proviso is needed (lemma folded_context_key_rejected): the server looks the
  member up by its exact name, the client decodes every member that folds to it.\<close>

theorem server_rule_usable_by_sdk:
  assumes "ValidateRule ParseFloat r = None"
    "\<forall>kvs k v w. ar_Config r = RawJSON (JObj kvs) \<and> (k, v) \<in> set kvs \<and> (''context_key'', w) \<in> set kvs
       \<and> field_matches ''context_key'' k \<longrightarrow> k = ''context_key'' \<and> v = w"
  shows "newStrategyRegistry (ar_Type r) \<noteq> None
    \<and> snd (ContextKey (sdk_rule_of r))
    \<and> (ar_Type r \<noteq> ''time'' \<longrightarrow> fst (ContextKey (sdk_rule_of r)) = Server_ContextKey r)
    \<and> (ar_Type r = ''time'' \<longrightarrow>
        (\<exists>a b m n. ar_Value r = a @ ''-'' @ b \<and> minutesOfDayFromHHMM (TrimSpace a) = Some m
           \<and> minutesOfDayFromHHMM (TrimSpace b) = Some n))"
proof (cases "ar_Type r = ''time''")
  case True
  with ValidateRule_time[OF assms(1)] timeWindowPattern_parses show ?thesis
    by (fastforce simp: ContextKey_def sdk_rule_of_def rule_type_defs newStrategyRegistry_def
        Register_def Let_def)
next
  case False
  from ValidateRule_context[OF assms(1) False] obtain kvs v where
    kv: "ar_Config r = RawJSON (JObj kvs)" "map_of (rev kvs) ''context_key'' = Some v"
      "decode_string [] v = Some (Server_ContextKey r)"
    and ok: "Server_validContextKey (ar_Type r) (Server_ContextKey r)" by blast
  from kv(2) have mem: "(''context_key'', v) \<in> set kvs" by (auto dest: map_of_SomeD)
  have "decode_string_field ''context_key'' [] kvs = Some (Server_ContextKey r)"
    by (rule decode_string_field_unique[OF _ _ kv(3)]) (use assms(2) kv(1) mem in blast)+
  moreover have "sr_Type (sdk_rule_of r) \<noteq> RuleTypeTime" using False by (simp add: sdk_rule_of_def rule_type_defs)
  ultimately have "ContextKey (sdk_rule_of r) = (Server_ContextKey r, True)"
    using ok kv(1) by (simp add: ContextKey_def sdk_rule_of_def Server_validContextKey_eq)
  moreover have "newStrategyRegistry (ar_Type r) \<noteq> None"
    using ValidateRule_None_type[OF assms(1)]
    by (auto simp: newStrategyRegistry_def Register_def Let_def rule_type_defs)
  ultimately show ?thesis using False by simp
qed

theorem server_rule_usable_by_sdk_witness:
  "fst (ContextKey (sdk_rule_of \<lparr> ar_Type = ''country'', ar_Value = ''BR'',
     ar_Config = RawJSON (JObj [(''context_key'', JStr ''country'')]) \<rparr>)) = ''country''"
proof -
  let ?r = "\<lparr> ar_Type = ''country'', ar_Value = ''BR'',
     ar_Config = RawJSON (JObj [(''context_key'', JStr ''country'')]) \<rparr>"
  have "ValidateRule (\<lambda>_. None) ?r = None"
    by (simp add: ValidateRule_def rule_value_error_def Server_validContextKey_def HasPrefix_def)
  moreover have "Server_ContextKey ?r = ''country''" by (simp add: Server_ContextKey_def)
  ultimately show ?thesis using server_rule_usable_by_sdk[of "\<lambda>_. None" ?r] by fastforce
qed

text \<open>
  Three consequences of the code as it is: a configuration with a second member that folds to
  context_key passes the server, and unless it holds the same key the client fails the rule; the
  server trims a percentage before parsing it and the client does not, so a value with outer white space is accepted and then never matches; and a value
  that parses to NaN passes the range check.
\<close>

lemma field_matches_upper: "field_matches ''context_key'' ''CONTEXT_KEY''"
  by code_simp

lemma folded_context_key_rejected:
  fixes v :: json and x :: string
  defines "r \<equiv> \<lparr> ar_Type = ''country'', ar_Value = x,
    ar_Config = RawJSON (JObj [(''context_key'', JStr ''country''), (''CONTEXT_KEY'', v)]) \<rparr>"
  assumes "x \<noteq> []"
  shows "ValidateRule pf r = None"
    and "decode_string ''country'' v \<noteq> Some ''country'' \<Longrightarrow> \<not> snd (ContextKey (sdk_rule_of r))"
proof -
  show "ValidateRule pf r = None"
    using assms by (simp add: ValidateRule_def rule_value_error_def Server_validContextKey_def HasPrefix_def)
  assume "decode_string ''country'' v \<noteq> Some ''country''"
  moreover have "ContextKey (sdk_rule_of r) = (case decode_string ''country'' v of None \<Rightarrow> ([], False)
      | Some key \<Rightarrow> if SdkToggle.validContextKey ''country'' key then (key, True) else ([], False))"
    by (simp add: r_def ContextKey_def sdk_rule_of_def rule_type_defs field_matches_upper field_matches_plain
        split: option.splits)
  ultimately show "\<not> snd (ContextKey (sdk_rule_of r))"
    by (auto simp: validContextKey_def rule_type_defs split: option.splits)
qed

lemma padded_percentage_never_matches:
  assumes "pf '' 50'' = None" "pf ''50'' = Some (Fin 50)"
  shows "ValidateRule pf \<lparr> ar_Type = ''percentage'', ar_Value = '' 50'',
           ar_Config = RawJSON (JObj [(''context_key'', JStr ''rollout_key'')]) \<rparr> = None"
    and "se_ParseFloat env = pf \<Longrightarrow> \<not> PercentageEvaluator_Evaluate env
           \<lparr> sr_Type = ''percentage'', sr_Value = '' 50'', sr_Config = cfg \<rparr> key hasKey"
proof -
  have t: "TrimSpace '' 50'' = ''50''" by (simp add: TrimSpace_space TrimSpace_printable printable_def)
  show "ValidateRule pf \<lparr> ar_Type = ''percentage'', ar_Value = '' 50'',
           ar_Config = RawJSON (JObj [(''context_key'', JStr ''rollout_key'')]) \<rparr> = None"
    using assms(2) by (simp add: ValidateRule_def rule_value_error_def t Let_def Server_validContextKey_def HasPrefix_def)
  show "se_ParseFloat env = pf \<Longrightarrow> \<not> PercentageEvaluator_Evaluate env
           \<lparr> sr_Type = ''percentage'', sr_Value = '' 50'', sr_Config = cfg \<rparr> key hasKey"
    using assms(1) by (simp add: PercentageEvaluator_Evaluate_def)
qed

lemma nan_percentage_accepted:
  assumes "pf ''NaN'' = Some NaN"
  shows "ValidateRule pf \<lparr> ar_Type = ''percentage'', ar_Value = ''NaN'',
           ar_Config = RawJSON (JObj [(''context_key'', JStr ''rollout_key'')]) \<rparr> = None"
proof -
  have t: "TrimSpace ''NaN'' = ''NaN''" by (simp add: TrimSpace_printable printable_def)
  show ?thesis
    using assms by (simp add: ValidateRule_def rule_value_error_def t Let_def Server_validContextKey_def HasPrefix_def)
qed

end
