(* ===== verification/ApprovalEntity.thy ===== *)
theory ApprovalEntity
  imports Entity
begin

text \<open>
  The approval workflow's entities: requests and their status (\<open>entity/approval_request.go\<close>), the
  global settings (\<open>entity/approval_settings.go\<close>) and the access policy
  (\<open>domain/policy/approval_access.go\<close>). Times are nanoseconds; \<open>now\<close> is the clock. The lemmas show
  that a request leaves the pending state at most once, and that saved settings read back.
\<close>

section \<open>approval_request.go\<close>

datatype action_type =
    ToggleCreate | ToggleUpdate | ToggleDelete | ToggleEnable | ToggleDisable | ToggleRule
  | ApplicationCreate | ApplicationUpdate | ApplicationDelete
  | SecretKeyCreate | SecretKeyDelete
  | OtherAction string

datatype approval_status = Pending | Approved | Rejected | Expired

record approval_request =
  rq_ID :: string
  rq_ActionType :: action_type
  rq_Description :: string
  rq_RequestedBy :: string
  rq_TeamID :: string
  rq_ApplicationID :: "string option"
  rq_ToggleID :: "string option"
  rq_Status :: approval_status
  rq_ActionData :: raw_message
  rq_ActionedBy :: "string option"
  rq_ActionedAt :: "int option"
  rq_RejectionReason :: "string option"
  rq_ExpiresAt :: int
  rq_RequesterName :: "string option"
  rq_TeamName :: "string option"
  rq_ApplicationName :: "string option"
  rq_PlainSecretKey :: string

definition day :: int where
  "day = 24 * 60 * 60 * 1000000000"

definition NewApprovalRequest ::
    "int \<Rightarrow> string \<Rightarrow> action_type \<Rightarrow> string \<Rightarrow> string \<Rightarrow> string \<Rightarrow> string option \<Rightarrow> string option
     \<Rightarrow> json \<Rightarrow> approval_request" where
  "NewApprovalRequest now newID actionType description requestedBy teamID applicationID toggleID actionData =
     \<lparr> rq_ID = newID, rq_ActionType = actionType, rq_Description = description,
       rq_RequestedBy = requestedBy, rq_TeamID = teamID, rq_ApplicationID = applicationID,
       rq_ToggleID = toggleID, rq_Status = Pending, rq_ActionData = RawJSON actionData,
       rq_ActionedBy = None, rq_ActionedAt = None, rq_RejectionReason = None,
       rq_ExpiresAt = now + 7 * day, rq_RequesterName = None, rq_TeamName = None,
       rq_ApplicationName = None, rq_PlainSecretKey = [] \<rparr>"

definition Request_IsExpired :: "int \<Rightarrow> approval_request \<Rightarrow> bool" where
  "Request_IsExpired now r \<longleftrightarrow> now > rq_ExpiresAt r"

datatype request_error = RequestNotPending | RequestHasExpired

definition Approve :: "int \<Rightarrow> string \<Rightarrow> approval_request \<Rightarrow> request_error + approval_request" where
  "Approve now approverID r =
     (if rq_Status r \<noteq> Pending then Inl RequestNotPending
      else if Request_IsExpired now r then Inl RequestHasExpired
      else Inr (r\<lparr> rq_Status := Approved, rq_ActionedBy := Some approverID, rq_ActionedAt := Some now \<rparr>))"

definition Reject :: "int \<Rightarrow> string \<Rightarrow> string \<Rightarrow> approval_request \<Rightarrow> request_error + approval_request" where
  "Reject now rejectorID reason r =
     (if rq_Status r \<noteq> Pending then Inl RequestNotPending
      else if Request_IsExpired now r then Inl RequestHasExpired
      else
        let r = r\<lparr> rq_Status := Rejected, rq_ActionedBy := Some rejectorID, rq_ActionedAt := Some now \<rparr>
        in Inr (if reason \<noteq> [] then r\<lparr> rq_RejectionReason := Some reason \<rparr> else r))"

definition MarkAsExpired :: "int \<Rightarrow> approval_request \<Rightarrow> approval_request" where
  "MarkAsExpired now r =
     (if rq_Status r = Pending \<and> Request_IsExpired now r then r\<lparr> rq_Status := Expired \<rparr> else r)"

definition CanBeApprovedBy :: "int \<Rightarrow> approval_request \<Rightarrow> string \<Rightarrow> bool" where
  "CanBeApprovedBy now r userID =
     (if rq_RequestedBy r = userID then False
      else if rq_Status r \<noteq> Pending then False
      else if Request_IsExpired now r then False
      else True)"

datatype request_invalid =
    RequestedByRequired | TeamIDRequired | ActionTypeRequired | InvalidActionType
  | ApplicationIDRequired

definition valid_actions :: "action_type list" where
  "valid_actions =
     [ToggleCreate, ToggleUpdate, ToggleDelete, ToggleEnable, ToggleDisable, ToggleRule,
      ApplicationCreate, ApplicationUpdate, ApplicationDelete, SecretKeyCreate, SecretKeyDelete]"

definition toggle_actions :: "action_type list" where
  "toggle_actions = [ToggleCreate, ToggleUpdate, ToggleDelete, ToggleEnable, ToggleDisable, ToggleRule]"

definition Request_Validate :: "approval_request \<Rightarrow> request_invalid option" where
  "Request_Validate r =
     (if rq_RequestedBy r = [] then Some RequestedByRequired
      else if rq_TeamID r = [] then Some TeamIDRequired
      else if rq_ActionType r = OtherAction [] then Some ActionTypeRequired
      else if rq_ActionType r \<notin> set valid_actions then Some InvalidActionType
      else if list_ex (\<lambda>a. rq_ActionType r = a \<and> rq_ApplicationID r = None) toggle_actions
      then Some ApplicationIDRequired
      else None)"

section \<open>approval_settings.go\<close>

record approval_config =
  cg_ToggleCreate :: bool
  cg_ToggleUpdate :: bool
  cg_ToggleDelete :: bool
  cg_ToggleEnable :: bool
  cg_ToggleDisable :: bool
  cg_ToggleRule :: bool
  cg_ApplicationCreate :: bool
  cg_ApplicationUpdate :: bool
  cg_ApplicationDelete :: bool
  cg_SecretKeyCreate :: bool
  cg_SecretKeyDelete :: bool

definition zero_config :: approval_config where
  "zero_config = \<lparr> cg_ToggleCreate = False, cg_ToggleUpdate = False, cg_ToggleDelete = False,
     cg_ToggleEnable = False, cg_ToggleDisable = False, cg_ToggleRule = False,
     cg_ApplicationCreate = False, cg_ApplicationUpdate = False, cg_ApplicationDelete = False,
     cg_SecretKeyCreate = False, cg_SecretKeyDelete = False \<rparr>"

definition default_config :: approval_config where
  "default_config = zero_config\<lparr> cg_ToggleDelete := True, cg_ToggleRule := True,
     cg_ApplicationCreate := True, cg_ApplicationUpdate := True, cg_ApplicationDelete := True,
     cg_SecretKeyCreate := True, cg_SecretKeyDelete := True \<rparr>"

text \<open>\<open>RequiredActions\<close> is a text column that holds the JSON of the configuration.\<close>

record approval_settings =
  as_ID :: string
  as_ApprovalEnabled :: bool
  as_RequiredActions :: raw_message
  as_DefaultExpirationDays :: int

text \<open>\<open>json.Marshal\<close> and \<open>json.Unmarshal\<close> of the configuration struct.\<close>

definition config_to_json :: "approval_config \<Rightarrow> json" where
  "config_to_json c = JObj
     [(''toggle_create'', JBool (cg_ToggleCreate c)), (''toggle_update'', JBool (cg_ToggleUpdate c)),
      (''toggle_delete'', JBool (cg_ToggleDelete c)), (''toggle_enable'', JBool (cg_ToggleEnable c)),
      (''toggle_disable'', JBool (cg_ToggleDisable c)), (''toggle_rule'', JBool (cg_ToggleRule c)),
      (''application_create'', JBool (cg_ApplicationCreate c)),
      (''application_update'', JBool (cg_ApplicationUpdate c)),
      (''application_delete'', JBool (cg_ApplicationDelete c)),
      (''secret_key_create'', JBool (cg_SecretKeyCreate c)),
      (''secret_key_delete'', JBool (cg_SecretKeyDelete c))]"

definition config_member :: "approval_config \<Rightarrow> string \<Rightarrow> json \<Rightarrow> approval_config option" where
  "config_member c k v =
     (if field_matches ''toggle_create'' k
      then map_option (\<lambda>b. c\<lparr> cg_ToggleCreate := b \<rparr>) (decode_bool (cg_ToggleCreate c) v)
      else if field_matches ''toggle_update'' k
      then map_option (\<lambda>b. c\<lparr> cg_ToggleUpdate := b \<rparr>) (decode_bool (cg_ToggleUpdate c) v)
      else if field_matches ''toggle_delete'' k
      then map_option (\<lambda>b. c\<lparr> cg_ToggleDelete := b \<rparr>) (decode_bool (cg_ToggleDelete c) v)
      else if field_matches ''toggle_enable'' k
      then map_option (\<lambda>b. c\<lparr> cg_ToggleEnable := b \<rparr>) (decode_bool (cg_ToggleEnable c) v)
      else if field_matches ''toggle_disable'' k
      then map_option (\<lambda>b. c\<lparr> cg_ToggleDisable := b \<rparr>) (decode_bool (cg_ToggleDisable c) v)
      else if field_matches ''toggle_rule'' k
      then map_option (\<lambda>b. c\<lparr> cg_ToggleRule := b \<rparr>) (decode_bool (cg_ToggleRule c) v)
      else if field_matches ''application_create'' k
      then map_option (\<lambda>b. c\<lparr> cg_ApplicationCreate := b \<rparr>) (decode_bool (cg_ApplicationCreate c) v)
      else if field_matches ''application_update'' k
      then map_option (\<lambda>b. c\<lparr> cg_ApplicationUpdate := b \<rparr>) (decode_bool (cg_ApplicationUpdate c) v)
      else if field_matches ''application_delete'' k
      then map_option (\<lambda>b. c\<lparr> cg_ApplicationDelete := b \<rparr>) (decode_bool (cg_ApplicationDelete c) v)
      else if field_matches ''secret_key_create'' k
      then map_option (\<lambda>b. c\<lparr> cg_SecretKeyCreate := b \<rparr>) (decode_bool (cg_SecretKeyCreate c) v)
      else if field_matches ''secret_key_delete'' k
      then map_option (\<lambda>b. c\<lparr> cg_SecretKeyDelete := b \<rparr>) (decode_bool (cg_SecretKeyDelete c) v)
      else Some c)"

fun decode_config :: "raw_message \<Rightarrow> approval_config option" where
  "decode_config (RawJSON (JObj kvs)) = decode_members config_member zero_config kvs"
| "decode_config (RawJSON JNull) = Some zero_config"
| "decode_config _ = None"

definition NewApprovalSettings :: "string \<Rightarrow> approval_settings" where
  "NewApprovalSettings newID =
     \<lparr> as_ID = newID, as_ApprovalEnabled = False,
       as_RequiredActions = RawJSON (config_to_json default_config), as_DefaultExpirationDays = 7 \<rparr>"

definition GetRequiredActions :: "approval_settings \<Rightarrow> approval_config option" where
  "GetRequiredActions s = decode_config (as_RequiredActions s)"

definition SetRequiredActions :: "approval_config \<Rightarrow> approval_settings \<Rightarrow> approval_settings" where
  "SetRequiredActions c s = s\<lparr> as_RequiredActions := RawJSON (config_to_json c) \<rparr>"

fun config_requires :: "approval_config \<Rightarrow> action_type \<Rightarrow> bool" where
  "config_requires c ToggleCreate = cg_ToggleCreate c"
| "config_requires c ToggleUpdate = cg_ToggleUpdate c"
| "config_requires c ToggleDelete = cg_ToggleDelete c"
| "config_requires c ToggleEnable = cg_ToggleEnable c"
| "config_requires c ToggleDisable = cg_ToggleDisable c"
| "config_requires c ToggleRule = cg_ToggleRule c"
| "config_requires c ApplicationCreate = cg_ApplicationCreate c"
| "config_requires c ApplicationUpdate = cg_ApplicationUpdate c"
| "config_requires c ApplicationDelete = cg_ApplicationDelete c"
| "config_requires c SecretKeyCreate = cg_SecretKeyCreate c"
| "config_requires c SecretKeyDelete = cg_SecretKeyDelete c"
| "config_requires c (OtherAction _) = False"

definition RequiresApproval :: "approval_settings \<Rightarrow> action_type \<Rightarrow> bool" where
  "RequiresApproval s actionType =
     (if \<not> as_ApprovalEnabled s then False
      else (case GetRequiredActions s of
              None \<Rightarrow> False
            | Some c \<Rightarrow> config_requires c actionType))"

definition Settings_Enable :: "approval_settings \<Rightarrow> approval_settings" where
  "Settings_Enable s = s\<lparr> as_ApprovalEnabled := True \<rparr>"

definition Settings_Disable :: "approval_settings \<Rightarrow> approval_settings" where
  "Settings_Disable s = s\<lparr> as_ApprovalEnabled := False \<rparr>"

datatype settings_error = ExpirationDaysRange | InvalidRequiredActions

text \<open>Methods on the settings pointer return the changed settings with the error, if any.\<close>

definition SetExpirationDays :: "int \<Rightarrow> approval_settings \<Rightarrow> approval_settings \<times> settings_error option" where
  "SetExpirationDays days s =
     (if days < 1 \<or> days > 30 then (s, Some ExpirationDaysRange)
      else (s\<lparr> as_DefaultExpirationDays := days \<rparr>, None))"

definition Settings_Validate :: "approval_settings \<Rightarrow> settings_error option" where
  "Settings_Validate s =
     (if as_DefaultExpirationDays s < 1 \<or> as_DefaultExpirationDays s > 30 then Some ExpirationDaysRange
      else (case decode_config (as_RequiredActions s) of
              None \<Rightarrow> Some InvalidRequiredActions
            | Some _ \<Rightarrow> None))"

record settings_update =
  up_ApprovalEnabled :: "bool option"
  up_RequiredActions :: "approval_config option"
  up_DefaultExpirationDays :: "int option"

definition ApplyUpdate ::
    "settings_update \<Rightarrow> approval_settings \<Rightarrow> approval_settings \<times> settings_error option" where
  "ApplyUpdate req s =
     (let s = (case up_ApprovalEnabled req of None \<Rightarrow> s | Some b \<Rightarrow> s\<lparr> as_ApprovalEnabled := b \<rparr>);
          s = (case up_RequiredActions req of None \<Rightarrow> s | Some c \<Rightarrow> SetRequiredActions c s)
      in
      (case (case up_DefaultExpirationDays req of None \<Rightarrow> (s, None) | Some d \<Rightarrow> SetExpirationDays d s) of
         (s, Some e) \<Rightarrow> (s, Some e)
       | (s, None) \<Rightarrow> (s, Settings_Validate s)))"

section \<open>approval_access.go\<close>

datatype db_error = ErrRecordNotFound | ErrDB

text \<open>The two repository reads the policy needs.\<close>

record readers =
  rd_GetTeamsByUserID :: "string \<Rightarrow> db_error + team list"
  rd_IsUserApprover :: "string \<Rightarrow> string \<Rightarrow> db_error + bool"

definition CanAct :: "readers \<Rightarrow> user \<Rightarrow> string \<Rightarrow> db_error + bool" where
  "CanAct p u teamID =
     (if IsRoot u then Inr True else rd_IsUserApprover p teamID (us_ID u))"

definition CanRead :: "readers \<Rightarrow> user \<Rightarrow> string \<Rightarrow> db_error + bool" where
  "CanRead p u teamID =
     (if IsRoot u then Inr True
      else (case rd_GetTeamsByUserID p (us_ID u) of
              Inl e \<Rightarrow> Inl e
            | Inr teams \<Rightarrow> Inr (list_ex (\<lambda>t. te_ID t = teamID) teams)))"

text \<open>The visible teams and the unrestricted flag.\<close>

definition VisibleTeamIDs :: "readers \<Rightarrow> user \<Rightarrow> db_error + string list \<times> bool" where
  "VisibleTeamIDs p u =
     (if IsRoot u then Inr ([], True)
      else (case rd_GetTeamsByUserID p (us_ID u) of
              Inl e \<Rightarrow> Inl e
            | Inr teams \<Rightarrow> Inr (map te_ID teams, False)))"

section \<open>the life of a request\<close>

text \<open>One call of a request method at some time, by some user.\<close>

inductive request_step :: "approval_request \<Rightarrow> approval_request \<Rightarrow> bool" where
  step_approve: "Approve now u r = Inr r' \<Longrightarrow> request_step r r'"
| step_reject: "Reject now u reason r = Inr r' \<Longrightarrow> request_step r r'"
| step_expire: "request_step r (MarkAsExpired now r)"

inductive_cases request_stepE: "request_step r r'"

lemma request_step_decided:
  assumes "request_step r r'" "rq_Status r \<noteq> Pending"
  shows "r' = r"
  using assms
  by (cases rule: request_stepE) (auto simp: Approve_def Reject_def MarkAsExpired_def split: if_splits)

definition request_inv :: "approval_request \<Rightarrow> bool" where
  "request_inv r \<longleftrightarrow>
     (rq_Status r = Approved \<or> rq_Status r = Rejected \<longleftrightarrow> rq_ActionedBy r \<noteq> None)
     \<and> (rq_ActionedBy r = None \<longleftrightarrow> rq_ActionedAt r = None)
     \<and> (\<forall>x. rq_ActionedAt r = Some x \<longrightarrow> x \<le> rq_ExpiresAt r)
     \<and> (rq_RejectionReason r \<noteq> None \<longrightarrow> rq_Status r = Rejected)"

lemma request_inv_step: "request_step r r' \<Longrightarrow> request_inv r \<Longrightarrow> request_inv r'"
  by (cases rule: request_stepE)
     (auto simp: Approve_def Reject_def MarkAsExpired_def request_inv_def Request_IsExpired_def Let_def
        split: if_splits)

lemma request_inv_new: "request_inv (NewApprovalRequest now i a d u t app tg data)"
  by (simp add: request_inv_def NewApprovalRequest_def)

lemma config_names:
  "plain_name ''toggle_create''"
  "plain_name ''toggle_update''"
  "plain_name ''toggle_delete''"
  "plain_name ''toggle_enable''"
  "plain_name ''toggle_disable''"
  "plain_name ''toggle_rule''"
  "plain_name ''application_create''"
  "plain_name ''application_update''"
  "plain_name ''application_delete''"
  "plain_name ''secret_key_create''"
  "plain_name ''secret_key_delete''"
  by (simp_all add: plain_name_def is_lower_def)

lemma config_member_simps:
  "config_member c ''toggle_create'' (JBool b) = Some (c\<lparr> cg_ToggleCreate := b \<rparr>)"
  "config_member c ''toggle_update'' (JBool b) = Some (c\<lparr> cg_ToggleUpdate := b \<rparr>)"
  "config_member c ''toggle_delete'' (JBool b) = Some (c\<lparr> cg_ToggleDelete := b \<rparr>)"
  "config_member c ''toggle_enable'' (JBool b) = Some (c\<lparr> cg_ToggleEnable := b \<rparr>)"
  "config_member c ''toggle_disable'' (JBool b) = Some (c\<lparr> cg_ToggleDisable := b \<rparr>)"
  "config_member c ''toggle_rule'' (JBool b) = Some (c\<lparr> cg_ToggleRule := b \<rparr>)"
  "config_member c ''application_create'' (JBool b) = Some (c\<lparr> cg_ApplicationCreate := b \<rparr>)"
  "config_member c ''application_update'' (JBool b) = Some (c\<lparr> cg_ApplicationUpdate := b \<rparr>)"
  "config_member c ''application_delete'' (JBool b) = Some (c\<lparr> cg_ApplicationDelete := b \<rparr>)"
  "config_member c ''secret_key_create'' (JBool b) = Some (c\<lparr> cg_SecretKeyCreate := b \<rparr>)"
  "config_member c ''secret_key_delete'' (JBool b) = Some (c\<lparr> cg_SecretKeyDelete := b \<rparr>)"
  by (simp_all add: config_member_def field_matches_plain config_names)

lemma config_roundtrip: "decode_config (RawJSON (config_to_json c)) = Some c"
  by (cases c) (simp add: config_to_json_def config_member_simps zero_config_def)

lemma request_inv_steps: "request_step\<^sup>*\<^sup>* r r' \<Longrightarrow> request_inv r \<Longrightarrow> request_inv r'"
  by (induction rule: rtranclp_induct) (auto intro: request_inv_step)

lemma request_steps_decided: "request_step\<^sup>*\<^sup>* r r' \<Longrightarrow> rq_Status r \<noteq> Pending \<Longrightarrow> r' = r"
  by (induction rule: rtranclp_induct) (auto dest: request_step_decided)

lemma ApplyUpdate_None:
  "ApplyUpdate req s = (s', None) \<Longrightarrow> Settings_Validate s' = None"
  by (auto simp: ApplyUpdate_def Let_def split: option.splits prod.splits)

section \<open>properties\<close>

text \<open>C27. Whatever sequence of approve, reject and expiry calls a new request goes through: it is
  decided at most once (a request that is not pending never changes again), it names who decided and
  when exactly if it was approved or rejected, the decision lies before the expiry, and a rejection
  reason only occurs on a rejected request.\<close>

theorem request_lifecycle:
  assumes "request_step\<^sup>*\<^sup>* (NewApprovalRequest now newID a d u t app tg data) r"
    "request_step\<^sup>*\<^sup>* r r'"
  shows "(rq_Status r \<noteq> Pending \<longrightarrow> r' = r)
    \<and> (rq_Status r = Approved \<or> rq_Status r = Rejected \<longleftrightarrow> rq_ActionedBy r \<noteq> None)
    \<and> (\<forall>x. rq_ActionedAt r = Some x \<longrightarrow> x \<le> rq_ExpiresAt r)
    \<and> (rq_RejectionReason r \<noteq> None \<longrightarrow> rq_Status r = Rejected)"
  using request_inv_steps[OF assms(1) request_inv_new] request_steps_decided[OF assms(2)]
  unfolding request_inv_def by blast

theorem request_lifecycle_witness:
  "\<exists>r. Approve 5 ''boss'' (NewApprovalRequest 0 ''id'' ToggleDelete [] ''u'' ''t'' None None JNull) = Inr r
     \<and> rq_ActionedBy r \<noteq> None"
proof -
  let ?new = "NewApprovalRequest 0 ''id'' ToggleDelete [] ''u'' ''t'' None None JNull"
  let ?dec = "?new\<lparr> rq_Status := Approved, rq_ActionedBy := Some ''boss'', rq_ActionedAt := Some 5 \<rparr>"
  have a: "Approve 5 ''boss'' ?new = Inr ?dec"
    by (simp only: Approve_def NewApprovalRequest_def Request_IsExpired_def day_def) simp
  then have s: "request_step\<^sup>*\<^sup>* ?new ?dec" by (intro r_into_rtranclp step_approve)
  from request_lifecycle[OF s rtranclp.rtrancl_refl] a show ?thesis by auto
qed

text \<open>Updated settings that were accepted have an expiration between 1 and 30 days and readable
  required actions; and a configuration written to the settings reads back, so that the enabled
  system requires approval for exactly the actions it names.\<close>

theorem settings_update_and_roundtrip:
  assumes "ApplyUpdate req s = (s', None)"
  shows "1 \<le> as_DefaultExpirationDays s' \<and> as_DefaultExpirationDays s' \<le> 30
    \<and> GetRequiredActions s' \<noteq> None
    \<and> GetRequiredActions (SetRequiredActions c s') = Some c
    \<and> RequiresApproval (Settings_Enable (SetRequiredActions c s')) a = config_requires c a
    \<and> \<not> RequiresApproval (Settings_Disable s') a"
  using ApplyUpdate_None[OF assms]
  by (auto simp: Settings_Validate_def GetRequiredActions_def SetRequiredActions_def config_roundtrip
      RequiresApproval_def Settings_Enable_def Settings_Disable_def split: if_splits option.splits)

theorem settings_update_and_roundtrip_witness:
  "as_DefaultExpirationDays (fst (ApplyUpdate
     \<lparr> up_ApprovalEnabled = Some True, up_RequiredActions = None, up_DefaultExpirationDays = Some 30 \<rparr>
     (NewApprovalSettings ''s''))) \<le> 30"
proof -
  let ?u = "\<lparr> up_ApprovalEnabled = Some True, up_RequiredActions = None, up_DefaultExpirationDays = Some 30 \<rparr>"
  let ?s = "(NewApprovalSettings ''s'')\<lparr> as_ApprovalEnabled := True, as_DefaultExpirationDays := 30 \<rparr>"
  have e: "ApplyUpdate ?u (NewApprovalSettings ''s'') = (?s, None)"
    by (simp add: ApplyUpdate_def NewApprovalSettings_def SetExpirationDays_def Settings_Validate_def
        config_roundtrip)
  from settings_update_and_roundtrip[OF e] e show ?thesis by simp
qed

end
