(* ===== verification/Store.thy ===== *)
theory Store
  imports ApprovalEntity "HOL-Library.Multiset" "HOL-Library.List_Lexorder"
begin

text \<open>
  Calls that read and write the database, and the object-relational mapper they go through. A call is
  a function of the state that gives an error or a value, and the new state; \<^const>\<open>None\<close> is a call that
  never returns. GORM is not part of the repository: the repositories take a table of it as an
  argument, and the locale \<open>gorm_table\<close> states what its documentation promises of one (automatic
  soft-delete scoping, default-tag columns, primary-key inserts). The in-memory table
  \<open>mem_table\<close> keeps the promises, so they are consistent.
\<close>

section \<open>calls\<close>

type_synonym ('s, 'e, 'a) io = "'s \<Rightarrow> (('e + 'a) \<times> 's) option"

definition ok :: "'a \<Rightarrow> ('s, 'e, 'a) io" where
  "ok a s = Some (Inr a, s)"

definition fail :: "'e \<Rightarrow> ('s, 'e, 'a) io" where
  "fail e s = Some (Inl e, s)"

text \<open>\<open>x, err := m(); if err != nil { h } k\<close>\<close>

definition attempt ::
    "('s, 'e, 'a) io \<Rightarrow> ('e \<Rightarrow> ('s, 'f, 'b) io) \<Rightarrow> ('a \<Rightarrow> ('s, 'f, 'b) io) \<Rightarrow> ('s, 'f, 'b) io" where
  "attempt m h k s =
     (case m s of
        None \<Rightarrow> None
      | Some (r, s') \<Rightarrow> (case r of Inl e \<Rightarrow> h e s' | Inr a \<Rightarrow> k a s'))"

text \<open>\<open>for _, x := range xs { if err := f(x); err != nil { return err } }\<close>\<close>

fun for_each :: "('x \<Rightarrow> ('s, 'e, unit) io) \<Rightarrow> 'x list \<Rightarrow> ('s, 'e, unit) io" where
  "for_each f [] = ok ()"
| "for_each f (x # xs) = attempt (f x) fail (\<lambda>_. for_each f xs)"

lemma attempt_simps [simp]:
  "m s = None \<Longrightarrow> attempt m h k s = None"
  "m s = Some (Inl e, s') \<Longrightarrow> attempt m h k s = h e s'"
  "m s = Some (Inr a, s') \<Longrightarrow> attempt m h k s = k a s'"
  by (simp_all add: attempt_def)

text \<open>The same for results the simplifier would rewrite.\<close>

lemma attempt_bool [simp]:
  "m s = Some (Inr True, s') \<Longrightarrow> attempt m h k s = k True s'"
  "m s = Some (Inr False, s') \<Longrightarrow> attempt m h k s = k False s'"
  by (simp_all add: attempt_def)

lemma attempt_ok [simp]: "attempt (ok a) h k = k a"
  and attempt_fail [simp]: "attempt (fail e) h k = h e"
  by (simp_all add: fun_eq_iff ok_def fail_def)

lemma attempt_Some:
  assumes "attempt m h k s = Some r"
  obtains e s' where "m s = Some (Inl e, s')" "h e s' = Some r"
  | a s' where "m s = Some (Inr a, s')" "k a s' = Some r"
  using assms by (auto simp: attempt_def split: option.splits sum.splits)

lemma for_each_append:
  "for_each f (xs @ ys) = attempt (for_each f xs) fail (\<lambda>_. for_each f ys)"
proof (induction xs)
  case Nil
  then show ?case by simp
next
  case (Cons x xs)
  show ?case
    by (auto simp: fun_eq_iff attempt_def Cons fail_def split: option.splits sum.splits)
qed

text \<open>A loop whose body succeeds and keeps an invariant of the elements done so far.\<close>

lemma for_each_inv:
  assumes "P [] s"
    and "\<And>ys x zs s. xs = ys @ x # zs \<Longrightarrow> P ys s \<Longrightarrow> \<exists>s'. f x s = Some (Inr (), s') \<and> P (ys @ [x]) s'"
  shows "\<exists>s'. for_each f xs s = Some (Inr (), s') \<and> P xs s'"
  using assms
proof (induction xs arbitrary: P s)
  case Nil
  then show ?case by (simp add: ok_def)
next
  case (Cons x xs)
  from Cons.prems(2)[of "[]" x xs s] Cons.prems(1)
  obtain s1 where s1: "f x s = Some (Inr (), s1)" "P [x] s1" by auto
  have "\<exists>s'. for_each f xs s1 = Some (Inr (), s') \<and> P (x # xs) s'"
  proof (rule Cons.IH[of "\<lambda>ys. P (x # ys)"])
    show "P [x] s1" by (rule s1(2))
  next
    fix ys y zs s assume "xs = ys @ y # zs" "P (x # ys) s"
    then show "\<exists>s'. f y s = Some (Inr (), s') \<and> P (x # ys @ [y]) s'"
      using Cons.prems(2)[of "x # ys" y zs s] by simp
  qed
  with s1(1) show ?case by auto
qed

subsection \<open>recursion through calls\<close>

lemma mono_optionD:
  fixes F :: "('x \<Rightarrow> 'y option) \<Rightarrow> 'z option"
  assumes F: "mono_option F" and fg: "fun_ord option_ord f g"
  shows "F f = None \<or> F f = F g"
  using F[unfolded monotone_def, rule_format, OF fg] by (simp add: flat_ord_def)

lemma attempt_mono [partial_function_mono]:
  fixes m :: "('x \<Rightarrow> 'y option) \<Rightarrow> ('s, 'e, 'a) io"
    and h :: "('x \<Rightarrow> 'y option) \<Rightarrow> 'e \<Rightarrow> ('s, 'f, 'b) io"
  assumes m: "mono_option (\<lambda>F. m F s)"
    and h: "\<And>e s'. mono_option (\<lambda>F. h F e s')" and k: "\<And>a s'. mono_option (\<lambda>F. k F a s')"
  shows "mono_option (\<lambda>F. attempt (m F) (h F) (k F) s)"
proof (rule monotoneI)
  fix f g :: "'x \<Rightarrow> 'y option" assume fg: "fun_ord option_ord f g"
  show "option_ord (attempt (m f) (h f) (k f) s) (attempt (m g) (h g) (k g) s)"
    using mono_optionD[OF m fg] mono_optionD[OF h fg] mono_optionD[OF k fg]
    unfolding attempt_def flat_ord_def
    by (cases "m f s") (auto split: sum.splits prod.splits option.splits)
qed

lemma for_each_mono [partial_function_mono]:
  assumes "\<And>x s'. mono_option (\<lambda>F. f F x s')"
  shows "mono_option (\<lambda>F. for_each (f F) xs s)"
proof (induction xs arbitrary: s)
  case Nil
  then show ?case by (simp add: ok_def option.const_mono)
next
  case (Cons x xs)
  show ?case
    unfolding for_each.simps
    by (rule attempt_mono[OF assms]) (simp_all add: fail_def option.const_mono Cons)
qed

lemma ok_mono [partial_function_mono]: "mono_option (\<lambda>F. ok a s)"
  and fail_mono [partial_function_mono]: "mono_option (\<lambda>F. fail e s)"
  by (simp_all add: ok_def fail_def option.const_mono)


section \<open>GORM\<close>

text \<open>
  One table of the mapper. The first argument of a query is \<open>Unscoped()\<close>, the predicate its \<open>Where\<close>
  clauses, the key of \<open>g_Find\<close> its \<open>Order\<close> clause (columns as numbers, compared lexicographically;
  \<^term>\<open>\<lambda>_. []\<close> when there is none). \<open>g_Create\<close> returns the struct with its default columns filled
  in.
\<close>

record ('r, 'd) table =
  g_Create :: "'r \<Rightarrow> ('d, db_error, 'r) io"
  g_First :: "bool \<Rightarrow> ('r \<Rightarrow> bool) \<Rightarrow> ('d, db_error, 'r) io"
  g_Find :: "bool \<Rightarrow> ('r \<Rightarrow> bool) \<Rightarrow> ('r \<Rightarrow> int list) \<Rightarrow> ('d, db_error, 'r list) io"
  g_Count :: "bool \<Rightarrow> ('r \<Rightarrow> bool) \<Rightarrow> ('d, db_error, nat) io"
  g_Save :: "'r \<Rightarrow> ('d, db_error, unit) io"
  g_Updates :: "bool \<Rightarrow> ('r \<Rightarrow> bool) \<Rightarrow> ('r \<Rightarrow> 'r) \<Rightarrow> ('d, db_error, unit) io"
  g_Delete :: "bool \<Rightarrow> ('r \<Rightarrow> bool) \<Rightarrow> ('d, db_error, unit) io"

definition unordered :: "'r \<Rightarrow> int list" where
  "unordered r = []"

text \<open>A query for one row: some matching row, or \<open>ErrRecordNotFound\<close> when there is none.\<close>

definition found :: "('r \<Rightarrow> bool) \<Rightarrow> 'r list \<Rightarrow> db_error + 'r \<Rightarrow> bool" where
  "found P xs res =
     (case res of
        Inl e \<Rightarrow> e = ErrRecordNotFound \<and> (\<forall>x\<in>set xs. \<not> P x)
      | Inr x \<Rightarrow> x \<in> set xs \<and> P x)"

text \<open>
  The documented behaviour of a table whose database answers: \<open>live\<close> are the rows soft-delete scoping
  leaves visible, \<open>columns\<close> what is written of a struct (fields tagged \<open>-\<close> are not), \<open>defaults\<close>
  replaces zero values of columns with a default tag, \<open>key\<close> is the primary key, \<open>clash\<close> says which
  rows the unique indices keep apart, \<open>erase\<close> what a delete
  does to a row (\<^const>\<open>None\<close>: removed).
\<close>

locale gorm_table =
  fixes g :: "('r, 'd) table"
    and rows :: "'d \<Rightarrow> 'r list"
    and live :: "'r \<Rightarrow> bool"
    and columns :: "'r \<Rightarrow> 'r"
    and defaults :: "'r \<Rightarrow> 'r"
    and key :: "'r \<Rightarrow> 'k"
    and clash :: "'r \<Rightarrow> 'r \<Rightarrow> bool"
    and erase :: "'r \<Rightarrow> 'r option"
  assumes create: "\<forall>x\<in>set (rows d). \<not> clash x r \<Longrightarrow>
      \<exists>d'. g_Create g r d = Some (Inr (defaults r), d') \<and> rows d' = rows d @ [columns (defaults r)]"
    and first: "\<exists>res. g_First g u P d = Some (res, d) \<and> found (\<lambda>r. (u \<or> live r) \<and> P r) (rows d) res"
    and find: "\<exists>xs. g_Find g u P order d = Some (Inr xs, d)
      \<and> mset xs = mset (filter (\<lambda>r. (u \<or> live r) \<and> P r) (rows d)) \<and> sorted (map order xs)"
    and count: "g_Count g u P d = Some (Inr (length (filter (\<lambda>r. (u \<or> live r) \<and> P r) (rows d))), d)"
    and save: "\<exists>x\<in>set (rows d). live x \<and> key x = key r \<Longrightarrow>
      \<forall>x\<in>set (rows d). key x \<noteq> key r \<longrightarrow> \<not> clash x r \<Longrightarrow>
      \<exists>d'. g_Save g r d = Some (Inr (), d')
        \<and> rows d' = map (\<lambda>x. if live x \<and> key x = key r then columns r else x) (rows d)"
    and updates: "\<exists>d'. g_Updates g u P f d = Some (Inr (), d')
        \<and> rows d' = map (\<lambda>x. if (u \<or> live x) \<and> P x then f x else x) (rows d)"
    and delete: "\<exists>d'. g_Delete g u P d = Some (Inr (), d')
        \<and> rows d' = List.map_filter
            (\<lambda>x. if (u \<or> live x) \<and> P x then (if u then None else erase x) else Some x) (rows d)"
begin

lemma find_set:
  "\<exists>xs. g_Find g u P order d = Some (Inr xs, d) \<and> set xs = {r \<in> set (rows d). (u \<or> live r) \<and> P r}
     \<and> (distinct (map key (rows d)) \<longrightarrow> distinct (map key xs)) \<and> sorted (map order xs)"
proof -
  from find[of u P order d] obtain xs where xs: "g_Find g u P order d = Some (Inr xs, d)"
    "mset xs = mset (filter (\<lambda>r. (u \<or> live r) \<and> P r) (rows d))" "sorted (map order xs)" by blast
  have "distinct (map key (rows d)) \<Longrightarrow> distinct (map key xs)"
    using xs(2) by (metis distinct_map_filter mset_eq_imp_distinct_iff mset_map)
  moreover have "set xs = {r \<in> set (rows d). (u \<or> live r) \<and> P r}"
    using xs(2) by (metis mset_eq_setD set_filter)
  ultimately show ?thesis using xs(1,3) by blast
qed

end

section \<open>a table in memory\<close>

definition mem_table ::
    "('d \<Rightarrow> 'r list) \<Rightarrow> ('r list \<Rightarrow> 'd \<Rightarrow> 'd) \<Rightarrow> ('r \<Rightarrow> bool) \<Rightarrow> ('r \<Rightarrow> 'r) \<Rightarrow> ('r \<Rightarrow> 'r) \<Rightarrow> ('r \<Rightarrow> 'k)
     \<Rightarrow> ('r \<Rightarrow> 'r \<Rightarrow> bool) \<Rightarrow> ('r \<Rightarrow> 'r option) \<Rightarrow> ('r, 'd) table" where
  "mem_table get put live columns defaults key clash erase =
     \<lparr> g_Create = (\<lambda>r d. if \<exists>x\<in>set (get d). clash x r then fail ErrDB d
                        else ok (defaults r) (put (get d @ [columns (defaults r)]) d)),
       g_First = (\<lambda>u P d. case List.find (\<lambda>r. (u \<or> live r) \<and> P r) (get d) of
                            None \<Rightarrow> fail ErrRecordNotFound d | Some r \<Rightarrow> ok r d),
       g_Find = (\<lambda>u P order d. ok (sort_key order (filter (\<lambda>r. (u \<or> live r) \<and> P r) (get d))) d),
       g_Count = (\<lambda>u P d. ok (length (filter (\<lambda>r. (u \<or> live r) \<and> P r) (get d))) d),
       g_Save = (\<lambda>r d. ok () (put (map (\<lambda>x. if live x \<and> key x = key r then columns r else x) (get d)) d)),
       g_Updates = (\<lambda>u P f d. ok () (put (map (\<lambda>x. if (u \<or> live x) \<and> P x then f x else x) (get d)) d)),
       g_Delete = (\<lambda>u P d. ok () (put (List.map_filter
            (\<lambda>x. if (u \<or> live x) \<and> P x then (if u then None else erase x) else Some x) (get d)) d)) \<rparr>"

lemma mem_table_gorm:
  assumes "\<And>xs d. get (put xs d) = xs"
  shows "gorm_table (mem_table get put live columns defaults key clash erase) get live columns defaults key clash erase"
proof
  fix u P d
  show "\<exists>res. g_First (mem_table get put live columns defaults key clash erase) u P d = Some (res, d)
          \<and> found (\<lambda>r. (u \<or> live r) \<and> P r) (get d) res"
  proof (cases "List.find (\<lambda>r. (u \<or> live r) \<and> P r) (get d)")
    case None
    then show ?thesis by (simp add: mem_table_def found_def fail_def) (auto simp: find_None_iff)
  next
    case (Some r)
    then show ?thesis
      by (simp add: mem_table_def found_def ok_def) (auto dest!: find_Some_iff[THEN iffD1])
  qed
qed (auto simp: mem_table_def ok_def assms)

end
