(* ===== verification/ToggleTree.thy ===== *)
theory ToggleTree
  imports Store
begin

text \<open>
  The forest the toggle rows form through their parent identifiers, subtrees, and the shape shared by
  the three recursions over a subtree (cascade enable, delete and restore): the locale
  \<open>subtree_walk\<close> states one node's step, and its lemma says what the whole recursion does to the table
  and that it returns.
\<close>

section \<open>forests\<close>

text \<open>Unique identifiers, and every parent is a row one level up in the same application.\<close>

definition forest :: "toggle list \<Rightarrow> bool" where
  "forest R \<longleftrightarrow> distinct (map tg_ID R)
     \<and> (\<forall>t\<in>set R. case tg_ParentID t of
          None \<Rightarrow> True
        | Some p \<Rightarrow> \<exists>q\<in>set R. tg_ID q = p \<and> tg_Level t = tg_Level q + 1 \<and> tg_AppID t = tg_AppID q)"

lemma forest_distinct: "forest R \<Longrightarrow> distinct (map tg_ID R)"
  by (simp add: forest_def)

lemma forest_parent:
  assumes "forest R" "t \<in> set R" "tg_ParentID t = Some p"
  obtains q where "q \<in> set R" "tg_ID q = p" "tg_Level t = tg_Level q + 1" "tg_AppID t = tg_AppID q"
  using assms unfolding forest_def by force

lemma forest_unique: "forest R \<Longrightarrow> x \<in> set R \<Longrightarrow> y \<in> set R \<Longrightarrow> tg_ID x = tg_ID y \<Longrightarrow> x = y"
  by (metis forest_distinct distinct_map inj_onD)

lemma forest_parent_of:
  assumes "forest R" "t \<in> set R" "q \<in> set R" "tg_ParentID t = Some (tg_ID q)"
  shows "tg_Level t = tg_Level q + 1" "tg_AppID t = tg_AppID q"
  using assms by (metis forest_parent forest_unique)+

text \<open>The part of a row the tree depends on.\<close>

definition same_node :: "toggle \<Rightarrow> toggle \<Rightarrow> bool" where
  "same_node x y \<longleftrightarrow> tg_ID y = tg_ID x \<and> tg_ParentID y = tg_ParentID x
     \<and> tg_Level y = tg_Level x \<and> tg_AppID y = tg_AppID x"

lemma same_node_refl [simp]: "same_node x x"
  by (simp add: same_node_def)

lemma same_nodeD:
  assumes "same_node x y"
  shows "tg_ID y = tg_ID x" "tg_ParentID y = tg_ParentID x" "tg_Level y = tg_Level x"
    "tg_AppID y = tg_AppID x"
  using assms by (auto simp: same_node_def)

lemma same_node_comp: "same_node x y \<Longrightarrow> same_node y z \<Longrightarrow> same_node x z"
  by (simp add: same_node_def)

lemma map_ID_same_node:
  assumes "\<And>x. x \<in> set R \<Longrightarrow> same_node x (g x)"
  shows "map tg_ID (map g R) = map tg_ID R"
  using assms by (auto dest: same_nodeD)

lemma forest_map:
  assumes "forest R" "\<And>x. x \<in> set R \<Longrightarrow> same_node x (g x)"
  shows "forest (map g R)"
proof -
  have "case tg_ParentID (g t) of None \<Rightarrow> True
      | Some p \<Rightarrow> \<exists>q\<in>set (map g R). tg_ID q = p \<and> tg_Level (g t) = tg_Level q + 1 \<and> tg_AppID (g t) = tg_AppID q"
    if t: "t \<in> set R" for t
  proof (cases "tg_ParentID t")
    case None
    with same_nodeD[OF assms(2)[OF t]] show ?thesis by simp
  next
    case (Some p)
    with forest_parent[OF assms(1) t] obtain q where
      q: "q \<in> set R" "tg_ID q = p" "tg_Level t = tg_Level q + 1" "tg_AppID t = tg_AppID q" by blast
    with same_nodeD[OF assms(2)[OF t]] same_nodeD[OF assms(2)[OF q(1)]] Some show ?thesis by auto
  qed
  moreover from assms have "distinct (map tg_ID (map g R))"
    by (simp only: map_ID_same_node forest_distinct)
  ultimately show ?thesis unfolding forest_def by simp
qed

section \<open>subtrees\<close>

text \<open>The rows of \<open>V\<close> at or below the row with an identifier, along parents in \<open>V\<close>.\<close>

inductive under :: "toggle list \<Rightarrow> string \<Rightarrow> toggle \<Rightarrow> bool" for V i where
  under_root: "t \<in> set V \<Longrightarrow> tg_ID t = i \<Longrightarrow> under V i t"
| under_child: "under V i p \<Longrightarrow> t \<in> set V \<Longrightarrow> tg_ParentID t = Some (tg_ID p) \<Longrightarrow> under V i t"

inductive_cases underE: "under V i t"

lemma under_in: "under V i t \<Longrightarrow> t \<in> set V"
  by (cases rule: underE) auto

lemma under_level:
  assumes "under V r t" "forest R" "set V \<subseteq> set R" "x \<in> set R" "tg_ID x = r"
  shows "t = x \<or> tg_Level x < tg_Level t"
  using assms
proof (induction rule: under.induct)
  case (under_root t)
  then show ?case by (metis forest_unique subsetD)
next
  case (under_child p t)
  then have "tg_Level t = tg_Level p + 1"
    by (meson forest_parent_of(1) subsetD under_in)
  with under_child show ?case by auto
qed

lemma under_same_level:
  assumes "under V i t" "under V j t" "forest R" "set V \<subseteq> set R"
    and "x \<in> set R" "tg_ID x = i" "y \<in> set R" "tg_ID y = j" "tg_Level x = tg_Level y"
  shows "i = j"
  using assms(1,2)
proof (induction rule: under.induct)
  case (under_root t)
  with under_level[OF under_root(3) assms(3,4,7,8)] assms show ?case
    by (metis forest_unique less_irrefl subsetD)
next
  case (under_child p t)
  have lt: "tg_Level t = tg_Level p + 1"
    using under_child assms(3,4) by (meson forest_parent_of(1) subsetD under_in)
  have lx: "tg_Level x \<le> tg_Level p"
    using under_level[OF under_child.hyps(1) assms(3,4,5,6)] by auto
  have tR: "t \<in> set R" "p \<in> set R"
    using under_child.hyps(2) under_in[OF under_child.hyps(1)] assms(4) by auto
  from under_child.prems consider "tg_ID t = j" | q where "under V j q" "tg_ParentID t = Some (tg_ID q)"
    by (auto elim: underE)
  then show ?case
  proof cases
    case 1
    with tR(1) assms(7,8) have "t = y" using forest_unique[OF assms(3)] by simp
    with lt lx assms(9) show ?thesis by simp
  next
    case (2 q)
    then have "q = p"
      using under_child.hyps(3) under_in[OF 2(1)] assms(4) tR(2) forest_unique[OF assms(3)] by auto
    with 2 under_child.IH show ?thesis by simp
  qed
qed

text \<open>A subtree is its root and the subtrees of the root's children.\<close>

lemma under_children:
  assumes "forest R" "set V \<subseteq> set R" "t \<in> set V"
  shows "under V (tg_ID t) x \<longleftrightarrow>
    x = t \<or> (\<exists>c\<in>set V. tg_ParentID c = Some (tg_ID t) \<and> under V (tg_ID c) x)" (is "?L = ?R")
proof
  assume ?L
  then show ?R
  proof (induction rule: under.induct)
    case (under_root x)
    with assms show ?case by (metis forest_unique subsetD)
  next
    case (under_child p x)
    then show ?case by (metis under.intros)
  qed
next
  have "under V (tg_ID t) x" if "c \<in> set V" "tg_ParentID c = Some (tg_ID t)" "under V (tg_ID c) x" for c
    using that(3)
  proof (induction rule: under.induct)
    case (under_root x)
    moreover have "x = c" using under_root that(1) assms(1,2) by (metis forest_unique subsetD)
    ultimately show ?case using that(2) assms(3) by (metis under.intros)
  next
    case (under_child p x)
    then show ?case by (metis under.intros(2))
  qed
  then show "?R \<Longrightarrow> ?L" using assms(3) by (auto intro: under.intros(1))
qed

text \<open>
  Changing rows outside a subtree, without making any row visible, leaves the subtree as it is.
\<close>

lemma under_frame:
  assumes "forest R" and same: "\<And>x. x \<in> set R \<Longrightarrow> same_node x (g x)"
    and vis: "\<And>x. x \<in> set R \<Longrightarrow> vis (g x) \<Longrightarrow> vis x"
    and fixed: "\<And>x. under (filter vis R) i x \<Longrightarrow> g x = x"
    and root: "r \<in> set R" "tg_ID r = i" "vis r"
    and x: "x \<in> set R"
  shows "under (filter vis (map g R)) i (g x) \<longleftrightarrow> under (filter vis R) i x"
proof
  let ?V = "filter vis R" and ?V' = "filter vis (map g R)"
  have into: "under ?V i y" if "under ?V' i y" for y
    using that
  proof (induction rule: under.induct)
    case (under_root y)
    then obtain z where z: "z \<in> set R" "y = g z" by auto
    with under_root same_nodeD(1)[OF same] root(1,2) have "z = r"
      using forest_unique[OF assms(1)] by metis
    moreover have "under ?V i r" using root by (auto intro: under.intros)
    ultimately show ?case using fixed z by metis
  next
    case (under_child p y)
    then obtain z where z: "z \<in> set R" "y = g z" "vis z" using vis by auto
    with same_nodeD(2)[OF same[OF z(1)]] under_child
    have "under ?V i z" by (auto intro: under.intros(2))
    with fixed z show ?case by simp
  qed
  show "under ?V i x" if "under ?V' i (g x)"
  proof -
    have u: "under ?V i (g x)" by (rule into[OF that])
    then have "g x \<in> set R" by (auto dest: under_in)
    with x same_nodeD(1)[OF same[OF x]] have "g x = x" using forest_unique[OF assms(1)] by metis
    with u show ?thesis by simp
  qed
  have onto: "under ?V' i y \<and> g y = y" if "under ?V i y" for y
    using that
  proof (induction rule: under.induct)
    case (under_root y)
    then have "g y = y" using fixed by (metis under.intros(1))
    with under_root show ?case by (auto intro!: under.intros(1) simp: image_iff) (metis+)?
  next
    case (under_child p y)
    then have "g y = y" using fixed by (metis under.intros(2))
    moreover have "y \<in> set ?V'" using under_child \<open>g y = y\<close> by (auto simp: image_iff) (metis)?
    ultimately show ?case using under_child by (metis under.intros(2))
  qed
  show "under ?V' i (g x)" if "under ?V i x" using onto[OF that] by simp
qed


section \<open>walks\<close>

definition at_node :: "(toggle \<Rightarrow> bool) \<Rightarrow> string \<Rightarrow> (toggle \<Rightarrow> toggle) \<Rightarrow> toggle list \<Rightarrow> toggle list" where
  "at_node vis i g R = map (\<lambda>x. if vis x \<and> tg_ID x = i then g x else x) R"

definition on_subtree :: "(toggle \<Rightarrow> bool) \<Rightarrow> string \<Rightarrow> (toggle \<Rightarrow> toggle) \<Rightarrow> toggle list \<Rightarrow> toggle list" where
  "on_subtree vis i g R = map (\<lambda>x. if under (filter vis R) i x then g x else x) R"

text \<open>
  A recursion over the visible subtree of a row: it may change the row (\<open>pre\<close>), reads the children,
  recurses into them and may change the row again (\<open>post\<close>).
\<close>

locale subtree_walk =
  fixes rows :: "'s \<Rightarrow> toggle list"
    and vis good :: "toggle \<Rightarrow> bool"
    and pre post :: "toggle \<Rightarrow> toggle"
    and walk finish :: "string \<Rightarrow> ('s, 'e, unit) io"
  assumes pre_same: "same_node x (pre x)" and post_same: "same_node x (post x)"
    and pre_vis: "vis (pre x) = vis x" and post_vis: "vis (post x) \<Longrightarrow> vis x"
    and good_cong: "tg_AppID x = tg_AppID y \<Longrightarrow> good x = good y"
    and step: "forest (rows s) \<Longrightarrow> t \<in> set (rows s) \<Longrightarrow> vis t \<Longrightarrow> good t \<Longrightarrow>
      \<exists>cs s1. rows s1 = at_node vis (tg_ID t) pre (rows s)
        \<and> set cs = {c \<in> set (rows s1). vis c \<and> tg_ParentID c = Some (tg_ID t)}
        \<and> distinct (map tg_ID cs)
        \<and> walk (tg_ID t) s = attempt (for_each (\<lambda>c. walk (tg_ID c)) cs) fail (\<lambda>_. finish (tg_ID t)) s1"
    and finish: "\<exists>s'. finish i s = Some (Inr (), s') \<and> rows s' = at_node vis i post (rows s)"
begin

definition change :: "toggle \<Rightarrow> toggle" where
  "change x = post (pre x)"

lemma change_same: "same_node x (change x)"
  unfolding change_def by (rule same_node_comp[OF pre_same post_same])

lemma change_vis: "vis (change x) \<Longrightarrow> vis x"
  unfolding change_def using post_vis pre_vis by blast

text \<open>What the loop over the children has done after some of them.\<close>

definition done_below :: "toggle list \<Rightarrow> toggle list \<Rightarrow> toggle \<Rightarrow> bool" where
  "done_below R ys x \<longleftrightarrow> (\<exists>c\<in>set ys. under (filter vis R) (tg_ID c) x)"

definition after :: "toggle list \<Rightarrow> toggle list \<Rightarrow> toggle \<Rightarrow> toggle" where
  "after R ys x = (if done_below R ys x then change x else x)"

lemma after_same: "same_node x (after R ys x)"
  by (simp add: after_def change_same)

lemma after_vis: "vis (after R ys x) \<Longrightarrow> vis x"
  by (auto simp: after_def change_vis split: if_splits)

text \<open>Siblings have disjoint subtrees.\<close>

lemma siblings_apart:
  assumes "forest R" "set cs \<subseteq> {c \<in> set R. vis c \<and> tg_ParentID c = Some p}"
    and "distinct (map tg_ID cs)" "cs = ys @ c # zs" "under (filter vis R) (tg_ID c) x"
  shows "\<not> done_below R ys x"
proof
  assume "done_below R ys x"
  then obtain b where b: "b \<in> set ys" "under (filter vis R) (tg_ID b) x" by (auto simp: done_below_def)
  have cb: "c \<in> set R" "b \<in> set R" "tg_ParentID c = Some p" "tg_ParentID b = Some p"
    using assms(2,4) b(1) by auto
  then have "tg_Level c = tg_Level b" using assms(1) by (metis forest_parent forest_unique)
  then have "tg_ID c = tg_ID b"
    using under_same_level[OF assms(5) b(2) assms(1) _ cb(1) _ cb(2)] by auto
  with assms(3,4) b(1) show False by auto
qed

lemma loop_step:
  assumes R: "forest R" and cs: "set cs \<subseteq> {c \<in> set R. vis c \<and> tg_ParentID c = Some p}"
    and dist: "distinct (map tg_ID cs)" and split: "cs = ys @ c # zs"
  shows "c \<in> set (map (after R ys) R)"
    and "on_subtree vis (tg_ID c) change (map (after R ys) R) = map (after R (ys @ [c])) R"
proof -
  have c: "c \<in> set R" "vis c" using cs split by auto
  have apart: "\<not> done_below R ys x" if "under (filter vis R) (tg_ID c) x" for x
    by (rule siblings_apart[OF R cs dist split that])
  then have stay: "after R ys x = x" if "under (filter vis R) (tg_ID c) x" for x
    using that by (simp add: after_def)
  moreover have "under (filter vis R) (tg_ID c) c" using c by (auto intro: under.intros(1))
  ultimately have "after R ys c = c" by simp
  with c(1) show "c \<in> set (map (after R ys) R)" by (metis image_eqI set_map)
  have frame: "under (filter vis (map (after R ys) R)) (tg_ID c) (after R ys x)
      = under (filter vis R) (tg_ID c) x" if x: "x \<in> set R" for x
    by (rule under_frame[of R "after R ys" vis, OF R after_same after_vis stay c(1) refl c(2) x])
  have "(if under (filter vis (map (after R ys) R)) (tg_ID c) (after R ys x)
         then change (after R ys x) else after R ys x) = after R (ys @ [c]) x" if x: "x \<in> set R" for x
    unfolding frame[OF x] using apart[of x] by (auto simp: after_def done_below_def)
  then show "on_subtree vis (tg_ID c) change (map (after R ys) R) = map (after R (ys @ [c])) R"
    by (simp add: on_subtree_def)
qed

lemma loop:
  assumes R: "forest (rows s1)"
    and cs: "set cs \<subseteq> {c \<in> set (rows s1). vis c \<and> tg_ParentID c = Some p}"
    and dist: "distinct (map tg_ID cs)"
    and rec: "\<And>c s. c \<in> set cs \<Longrightarrow> forest (rows s) \<Longrightarrow> c \<in> set (rows s)
      \<Longrightarrow> map tg_Level (rows s) = map tg_Level (rows s1)
      \<Longrightarrow> \<exists>s'. walk (tg_ID c) s = Some (Inr (), s') \<and> rows s' = on_subtree vis (tg_ID c) change (rows s)"
  shows "\<exists>s'. for_each (\<lambda>c. walk (tg_ID c)) cs s1 = Some (Inr (), s')
           \<and> rows s' = map (after (rows s1) cs) (rows s1)"
proof (rule for_each_inv)
  have "after (rows s1) [] = (\<lambda>x. x)" by (simp add: fun_eq_iff after_def done_below_def)
  then show "rows s1 = map (after (rows s1) []) (rows s1)" by simp
next
  fix ys c zs s
  assume split: "cs = ys @ c # zs" and s: "rows s = map (after (rows s1) ys) (rows s1)"
  have "\<exists>s'. walk (tg_ID c) s = Some (Inr (), s') \<and> rows s' = on_subtree vis (tg_ID c) change (rows s)"
  proof (rule rec)
    show "c \<in> set cs" using split by simp
    show "forest (rows s)" unfolding s by (rule forest_map[OF R after_same])
    show "c \<in> set (rows s)" unfolding s by (rule loop_step(1)[OF R cs dist split])
    show "map tg_Level (rows s) = map tg_Level (rows s1)"
      unfolding s by (simp add: same_nodeD(3)[OF after_same])
  qed
  then show "\<exists>s'. walk (tg_ID c) s = Some (Inr (), s') \<and> rows s' = map (after (rows s1) (ys @ [c])) (rows s1)"
    unfolding s loop_step(2)[OF R cs dist split] .
qed

text \<open>The change of the root before the loop and after it, around the children's subtrees.\<close>

lemma whole:
  assumes R: "forest R" and t: "t \<in> set R" "vis t" and R1: "R1 = at_node vis (tg_ID t) pre R"
    and cs: "set cs = {c \<in> set R1. vis c \<and> tg_ParentID c = Some (tg_ID t)}"
  shows "set cs = {c \<in> set R. vis c \<and> tg_ParentID c = Some (tg_ID t)}"
    and "at_node vis (tg_ID t) post (map (after R1 cs) R1) = on_subtree vis (tg_ID t) change R"
proof -
  let ?g = "\<lambda>x. if vis x \<and> tg_ID x = tg_ID t then pre x else x"
  have R1': "R1 = map ?g R" by (simp add: R1 at_node_def)
  have g_same: "same_node x (?g x)" for x by (simp add: pre_same)
  have g_id: "?g x = (if x = t then pre t else x)" if "x \<in> set R" for x
    using forest_unique[OF R that t(1)] t(2) by auto
  have not_t: "x \<noteq> t" if "x \<in> set R" "tg_ParentID x = Some (tg_ID t)" for x
    using forest_parent_of(1)[OF R that(1) t(1) that(2)] by auto
  show kids: "set cs = {c \<in> set R. vis c \<and> tg_ParentID c = Some (tg_ID t)}"
  proof -
    have "c \<in> set R1 \<longleftrightarrow> c \<in> set R" if "tg_ParentID c = Some (tg_ID t)" for c
    proof
      assume "c \<in> set R1"
      then obtain x where x: "x \<in> set R" "c = ?g x" unfolding R1' by auto
      then have "tg_ParentID x = Some (tg_ID t)" using that same_nodeD(2)[OF g_same[of x]] by simp
      with x not_t g_id show "c \<in> set R" by simp
    next
      assume "c \<in> set R"
      then have "?g c = c" using not_t[OF _ that] g_id by simp
      moreover have "?g c \<in> set (map ?g R)" unfolding set_map by (rule imageI[OF \<open>c \<in> set R\<close>])
      ultimately show "c \<in> set R1" unfolding R1' by (simp only:)
    qed
    then show ?thesis unfolding cs by blast
  qed
  have below: "under (filter vis R1) (tg_ID c) (?g x) = under (filter vis R) (tg_ID c) x"
    and apart: "under (filter vis R) (tg_ID c) x \<Longrightarrow> x \<noteq> t"
    if c: "c \<in> set cs" and x: "x \<in> set R" for c x
  proof -
    have c': "c \<in> set R" "vis c" "tg_ParentID c = Some (tg_ID t)" using c kids by auto
    have ne: "y \<noteq> t" if "under (filter vis R) (tg_ID c) y" for y
      using under_level[OF that R _ c'(1) refl] forest_parent_of(1)[OF R c'(1) t(1) c'(3)] by auto
    show "under (filter vis R1) (tg_ID c) (?g x) = under (filter vis R) (tg_ID c) x"
      unfolding R1'
    proof (rule under_frame[of R ?g vis, OF R g_same _ _ c'(1) refl c'(2) x])
      show "vis (?g y) \<Longrightarrow> vis y" for y by (simp add: pre_vis split: if_splits)
      show "?g y = y" if "under (filter vis R) (tg_ID c) y" for y
        using ne[OF that] g_id[of y] under_in[OF that] by simp
    qed
    show "under (filter vis R) (tg_ID c) x \<Longrightarrow> x \<noteq> t" by (rule ne)
  qed
  have "(if vis (after R1 cs (?g x)) \<and> tg_ID (after R1 cs (?g x)) = tg_ID t
         then post (after R1 cs (?g x)) else after R1 cs (?g x))
      = (if under (filter vis R) (tg_ID t) x then change x else x)" if x: "x \<in> set R" for x
  proof -
    have d: "done_below R1 cs (?g x) \<longleftrightarrow> (\<exists>c\<in>set cs. under (filter vis R) (tg_ID c) x)"
      unfolding done_below_def using below x by blast
    have u: "under (filter vis R) (tg_ID t) x \<longleftrightarrow> x = t \<or> done_below R1 cs (?g x)"
      unfolding d using under_children[OF R, of "filter vis R" t x] t kids by auto
    show ?thesis
    proof (cases "x = t")
      case True
      with apart x have "\<not> done_below R1 cs (?g x)" unfolding d by blast
      with True t u same_nodeD(1)[OF pre_same] show ?thesis
        by (simp add: after_def pre_vis change_def)
    next
      case False
      then have "tg_ID (after R1 cs (?g x)) \<noteq> tg_ID t"
        using forest_unique[OF R x t(1)] same_nodeD(1)[OF after_same] same_nodeD(1)[OF g_same] by metis
      with False u g_id[OF x] show ?thesis by (simp add: after_def)
    qed
  qed
  moreover define F where "F = after R1 cs"
  ultimately have node: "(if vis (F (?g x)) \<and> tg_ID (F (?g x)) = tg_ID t then post (F (?g x)) else F (?g x))
      = (if under (filter vis R) (tg_ID t) x then change x else x)" if "x \<in> set R" for x
    using that by blast
  have "at_node vis (tg_ID t) post (map F R1) = on_subtree vis (tg_ID t) change R"
    unfolding at_node_def on_subtree_def R1' map_map o_def by (rule map_cong[OF refl node])
  then show "at_node vis (tg_ID t) post (map (after R1 cs) R1) = on_subtree vis (tg_ID t) change R"
    unfolding F_def .
qed

lemma walk_change:
  assumes "forest (rows s)" "t \<in> set (rows s)" "vis t" "good t"
  shows "\<exists>s'. walk (tg_ID t) s = Some (Inr (), s') \<and> rows s' = on_subtree vis (tg_ID t) change (rows s)"
proof -
  define M where "M = Max (set (map tg_Level (rows s)))"
  have "\<forall>x\<in>set (map tg_Level (rows s)). x \<le> M" by (simp add: M_def)
  with assms show ?thesis
  proof (induction "nat (M - tg_Level t)" arbitrary: s t rule: less_induct)
    case less
    from step[OF less.prems(1-4)] obtain cs s1 where
      s1: "rows s1 = at_node vis (tg_ID t) pre (rows s)"
      and cs: "set cs = {c \<in> set (rows s1). vis c \<and> tg_ParentID c = Some (tg_ID t)}"
      and dist: "distinct (map tg_ID cs)"
      and eq: "walk (tg_ID t) s = attempt (for_each (\<lambda>c. walk (tg_ID c)) cs) fail (\<lambda>_. finish (tg_ID t)) s1"
      by blast
    have f1: "forest (rows s1)" unfolding s1 at_node_def by (rule forest_map[OF less.prems(1)]) (simp add: pre_same)
    have lev1: "map tg_Level (rows s1) = map tg_Level (rows s)"
      unfolding s1 at_node_def using same_nodeD(3)[OF pre_same] by simp
    have "\<exists>s'. for_each (\<lambda>c. walk (tg_ID c)) cs s1 = Some (Inr (), s') \<and> rows s' = map (after (rows s1) cs) (rows s1)"
    proof (rule loop[OF f1 eq_refl[OF cs] dist])
      fix c s' assume c: "c \<in> set cs" and s': "forest (rows s')" "c \<in> set (rows s')"
        "map tg_Level (rows s') = map tg_Level (rows s1)"
      have cR: "c \<in> set (rows s)" "vis c" "tg_ParentID c = Some (tg_ID t)"
        using c whole(1)[OF less.prems(1-3) s1 cs] by auto
      note lc = forest_parent_of[OF less.prems(1) cR(1) less.prems(2) cR(3)]
      show "\<exists>s''. walk (tg_ID c) s' = Some (Inr (), s'') \<and> rows s'' = on_subtree vis (tg_ID c) change (rows s')"
      proof (rule less.hyps)
        from less.prems(5) cR(1) have "tg_Level c \<le> M" by auto
        with lc(1) show "nat (M - tg_Level c) < nat (M - tg_Level t)" by simp
        show "good c" using good_cong[OF lc(2)] less.prems(4) by simp
        show "\<forall>x\<in>set (map tg_Level (rows s')). x \<le> M" using less.prems(5) unfolding s'(3) lev1 .
      qed (use s' cR in auto)
    qed
    then obtain s2 where s2: "for_each (\<lambda>c. walk (tg_ID c)) cs s1 = Some (Inr (), s2)"
      "rows s2 = map (after (rows s1) cs) (rows s1)" by blast
    from finish[of "tg_ID t" s2] eq s2 whole(2)[OF less.prems(1-3) s1 cs] show ?case by auto
  qed
qed

lemma walk_subtree:
  assumes "forest (rows s)" "t \<in> set (rows s)" "vis t" "good t"
  shows "\<exists>s'. walk (tg_ID t) s = Some (Inr (), s')
    \<and> rows s' = on_subtree vis (tg_ID t) (\<lambda>x. post (pre x)) (rows s)"
  using walk_change[OF assms] unfolding change_def[abs_def] .

end

end
