(* ===== verification/ToggleRepo.thy ===== *)
theory ToggleRepo
  imports ToggleTree
begin

text \<open>
  \<open>domain/repository/toggle_repository.go\<close> (the interface, as a record of operations and the locale
  \<open>toggle_repository\<close> of what it promises) and \<open>infrastructure/database/toggle_repository.go\<close> (its
  implementation over GORM). The lemmas show that the implementation keeps the promises on any table
  that behaves as GORM documents, the recursive delete and restore included. Preloaded associations
  are not part of the rows.
\<close>

section \<open>the interface\<close>

record archived_toggle =
  arc_ID :: string
  arc_Path :: string
  arc_DeletedAt :: int
  arc_DeletedByName :: string

record 's toggle_repo =
  tr_Create :: "toggle \<Rightarrow> ('s, db_error, unit) io"
  tr_GetByID :: "string \<Rightarrow> ('s, db_error, toggle) io"
  tr_GetByPath :: "string \<Rightarrow> string \<Rightarrow> ('s, db_error, toggle) io"
  tr_GetByAppID :: "string \<Rightarrow> ('s, db_error, toggle list) io"
  tr_GetHierarchyByAppID :: "string \<Rightarrow> ('s, db_error, toggle list) io"
  tr_Update :: "toggle \<Rightarrow> ('s, db_error, unit) io"
  tr_Delete :: "string \<Rightarrow> ('s, db_error, unit) io"
  tr_Exists :: "string \<Rightarrow> string \<Rightarrow> ('s, db_error, bool) io"
  tr_GetChildren :: "string \<Rightarrow> ('s, db_error, toggle list) io"
  tr_MarkDeletionMeta :: "string \<Rightarrow> string \<Rightarrow> ('s, db_error, unit) io"
  tr_GetByIDUnscoped :: "string \<Rightarrow> ('s, db_error, toggle) io"
  tr_GetChildrenUnscoped :: "string \<Rightarrow> ('s, db_error, toggle list) io"
  tr_GetArchivedRootsByAppID :: "string \<Rightarrow> ('s, db_error, archived_toggle list) io"
  tr_Restore :: "string \<Rightarrow> ('s, db_error, unit) io"

text \<open>What the struct tags of a toggle tell GORM.\<close>

definition toggle_live :: "toggle \<Rightarrow> bool" where
  "toggle_live t \<longleftrightarrow> tg_DeletedAt t = None"

definition toggle_columns :: "toggle \<Rightarrow> toggle" where
  "toggle_columns t = t\<lparr> tg_RuleContextWarning := False \<rparr>"

definition toggle_defaults :: "toggle \<Rightarrow> toggle" where
  "toggle_defaults t = (if \<not> tg_Enabled t then t\<lparr> tg_Enabled := True \<rparr> else t)"

definition toggle_erased :: "int \<Rightarrow> toggle \<Rightarrow> toggle" where
  "toggle_erased now t = t\<lparr> tg_DeletedAt := Some now \<rparr>"

definition toggle_marked :: "string \<Rightarrow> toggle \<Rightarrow> toggle" where
  "toggle_marked deletedBy t = t\<lparr> tg_DeletedBy := Some deletedBy, tg_ArchivedRoot := True \<rparr>"

definition toggle_restored :: "toggle \<Rightarrow> toggle" where
  "toggle_restored t = t\<lparr> tg_DeletedAt := None, tg_DeletedBy := None, tg_ArchivedRoot := False \<rparr>"

locale toggle_repository =
  fixes repo :: "'s toggle_repo"
    and rows :: "'s \<Rightarrow> toggle list"
    and now :: int
  assumes Create: "tg_ID t \<notin> tg_ID ` set (rows s) \<Longrightarrow> \<exists>s'. tr_Create repo t s = Some (Inr (), s')
        \<and> rows s' = rows s @ [toggle_columns (toggle_defaults t)]"
    and GetByID: "\<exists>r. tr_GetByID repo i s = Some (r, s)
        \<and> found (\<lambda>t. toggle_live t \<and> tg_ID t = i) (rows s) r"
    and GetByPath: "\<exists>r. tr_GetByPath repo path app s = Some (r, s)
        \<and> found (\<lambda>t. toggle_live t \<and> tg_Path t = path \<and> tg_AppID t = app) (rows s) r"
    and GetHierarchyByAppID: "\<exists>xs. tr_GetHierarchyByAppID repo app s = Some (Inr xs, s)
        \<and> set xs = {t \<in> set (rows s). toggle_live t \<and> tg_AppID t = app}
        \<and> (distinct (map tg_ID (rows s)) \<longrightarrow> distinct (map tg_ID xs)) \<and> sorted (map tg_Level xs)"
    and Update: "\<exists>x\<in>set (rows s). toggle_live x \<and> tg_ID x = tg_ID t \<Longrightarrow>
        \<exists>s'. tr_Update repo t s = Some (Inr (), s')
          \<and> rows s' = at_node toggle_live (tg_ID t) (\<lambda>_. toggle_columns t) (rows s)"
    and Exists: "tr_Exists repo path app s =
        Some (Inr (\<exists>t\<in>set (rows s). toggle_live t \<and> tg_Path t = path \<and> tg_AppID t = app), s)"
    and GetChildren: "\<exists>xs. tr_GetChildren repo i s = Some (Inr xs, s)
        \<and> set xs = {t \<in> set (rows s). toggle_live t \<and> tg_ParentID t = Some i}
        \<and> (distinct (map tg_ID (rows s)) \<longrightarrow> distinct (map tg_ID xs))"
    and MarkDeletionMeta: "\<exists>s'. tr_MarkDeletionMeta repo i deletedBy s = Some (Inr (), s')
        \<and> rows s' = at_node toggle_live i (toggle_marked deletedBy) (rows s)"
    and GetByIDUnscoped: "\<exists>r. tr_GetByIDUnscoped repo i s = Some (r, s)
        \<and> found (\<lambda>t. tg_ID t = i) (rows s) r"
    and GetChildrenUnscoped: "\<exists>xs. tr_GetChildrenUnscoped repo i s = Some (Inr xs, s)
        \<and> set xs = {t \<in> set (rows s). tg_ParentID t = Some i}
        \<and> (distinct (map tg_ID (rows s)) \<longrightarrow> distinct (map tg_ID xs))"
    and GetArchivedRootsByAppID: "\<exists>xs. tr_GetArchivedRootsByAppID repo app s = Some (Inr xs, s)
        \<and> arc_ID ` set xs = tg_ID ` {t \<in> set (rows s).
              tg_AppID t = app \<and> tg_ArchivedRoot t \<and> \<not> toggle_live t}"
    and Delete: "forest (rows s) \<Longrightarrow> t \<in> set (rows s) \<Longrightarrow> toggle_live t \<Longrightarrow>
        \<exists>s'. tr_Delete repo (tg_ID t) s = Some (Inr (), s')
          \<and> rows s' = on_subtree toggle_live (tg_ID t) (toggle_erased now) (rows s)"
    and Restore: "forest (rows s) \<Longrightarrow> t \<in> set (rows s) \<Longrightarrow>
        \<exists>s'. tr_Restore repo (tg_ID t) s = Some (Inr (), s')
          \<and> rows s' = on_subtree (\<lambda>_. True) (tg_ID t) toggle_restored (rows s)"

section \<open>the implementation\<close>

definition Toggle_Create :: "(toggle, 'd) table \<Rightarrow> toggle \<Rightarrow> ('d, db_error, unit) io" where
  "Toggle_Create g t = attempt (g_Create g t) fail (\<lambda>_. ok ())"

definition Toggle_GetByID :: "(toggle, 'd) table \<Rightarrow> string \<Rightarrow> ('d, db_error, toggle) io" where
  "Toggle_GetByID g i = g_First g False (\<lambda>t. tg_ID t = i)"

definition Toggle_GetByPath :: "(toggle, 'd) table \<Rightarrow> string \<Rightarrow> string \<Rightarrow> ('d, db_error, toggle) io" where
  "Toggle_GetByPath g path app = g_First g False (\<lambda>t. tg_Path t = path \<and> tg_AppID t = app)"

definition Toggle_GetByAppID :: "(toggle, 'd) table \<Rightarrow> string \<Rightarrow> ('d, db_error, toggle list) io" where
  "Toggle_GetByAppID g app = g_Find g False (\<lambda>t. tg_AppID t = app) unordered"

text \<open>\<open>Order("level, value")\<close>, values compared bytewise.\<close>

definition by_level_value :: "toggle \<Rightarrow> int list" where
  "by_level_value t = tg_Level t # map of_char (tg_Value t)"

definition Toggle_GetHierarchyByAppID :: "(toggle, 'd) table \<Rightarrow> string \<Rightarrow> ('d, db_error, toggle list) io" where
  "Toggle_GetHierarchyByAppID g app = g_Find g False (\<lambda>t. tg_AppID t = app) by_level_value"

definition Toggle_Update :: "(toggle, 'd) table \<Rightarrow> toggle \<Rightarrow> ('d, db_error, unit) io" where
  "Toggle_Update g t = g_Save g t"

definition Toggle_GetChildren :: "(toggle, 'd) table \<Rightarrow> string \<Rightarrow> ('d, db_error, toggle list) io" where
  "Toggle_GetChildren g parentID = g_Find g False (\<lambda>t. tg_ParentID t = Some parentID) unordered"

partial_function (option) Toggle_Delete ::
    "(toggle, 'd) table \<Rightarrow> string \<Rightarrow> 'd \<Rightarrow> ((db_error + unit) \<times> 'd) option" where
  "Toggle_Delete g i s =
     attempt (Toggle_GetChildren g i) fail (\<lambda>children.
     attempt (for_each (\<lambda>child. Toggle_Delete g (tg_ID child)) children) fail (\<lambda>_.
     g_Delete g False (\<lambda>t. tg_ID t = i))) s"

definition Toggle_Exists :: "(toggle, 'd) table \<Rightarrow> string \<Rightarrow> string \<Rightarrow> ('d, db_error, bool) io" where
  "Toggle_Exists g path app =
     attempt (g_Count g False (\<lambda>t. tg_Path t = path \<and> tg_AppID t = app)) fail (\<lambda>n. ok (n > 0))"

definition Toggle_MarkDeletionMeta :: "(toggle, 'd) table \<Rightarrow> string \<Rightarrow> string \<Rightarrow> ('d, db_error, unit) io" where
  "Toggle_MarkDeletionMeta g i deletedBy = g_Updates g False (\<lambda>t. tg_ID t = i) (toggle_marked deletedBy)"

definition Toggle_GetByIDUnscoped :: "(toggle, 'd) table \<Rightarrow> string \<Rightarrow> ('d, db_error, toggle) io" where
  "Toggle_GetByIDUnscoped g i = g_First g True (\<lambda>t. tg_ID t = i)"

definition Toggle_GetChildrenUnscoped :: "(toggle, 'd) table \<Rightarrow> string \<Rightarrow> ('d, db_error, toggle list) io" where
  "Toggle_GetChildrenUnscoped g parentID = g_Find g True (\<lambda>t. tg_ParentID t = Some parentID) unordered"

text \<open>The query joins the users table for the name of who deleted.\<close>

definition deleted_by_name :: "user list \<Rightarrow> toggle \<Rightarrow> string" where
  "deleted_by_name users t =
     (case tg_DeletedBy t of
        None \<Rightarrow> []
      | Some u \<Rightarrow> (case List.find (\<lambda>x. us_ID x = u) users of None \<Rightarrow> [] | Some x \<Rightarrow> us_Username x))"

definition archived_view :: "user list \<Rightarrow> toggle \<Rightarrow> archived_toggle" where
  "archived_view users t =
     \<lparr> arc_ID = tg_ID t, arc_Path = tg_Path t,
       arc_DeletedAt = (case tg_DeletedAt t of Some x \<Rightarrow> x | None \<Rightarrow> 0),
       arc_DeletedByName = deleted_by_name users t \<rparr>"

definition Toggle_GetArchivedRootsByAppID ::
    "(toggle, 'd) table \<Rightarrow> (user, 'd) table \<Rightarrow> string \<Rightarrow> ('d, db_error, archived_toggle list) io" where
  "Toggle_GetArchivedRootsByAppID g users app =
     attempt (g_Find g True (\<lambda>t. tg_AppID t = app \<and> tg_ArchivedRoot t = True \<and> tg_DeletedAt t \<noteq> None)
                (\<lambda>t. case tg_DeletedAt t of Some x \<Rightarrow> [- x] | None \<Rightarrow> []))
       fail (\<lambda>ts.
     attempt (g_Find users False (\<lambda>_. True) unordered) fail (\<lambda>us.
     ok (map (archived_view us) ts)))"

partial_function (option) Toggle_Restore ::
    "(toggle, 'd) table \<Rightarrow> string \<Rightarrow> 'd \<Rightarrow> ((db_error + unit) \<times> 'd) option" where
  "Toggle_Restore g i s =
     attempt (Toggle_GetChildrenUnscoped g i) fail (\<lambda>children.
     attempt (for_each (\<lambda>child. Toggle_Restore g (tg_ID child)) children) fail (\<lambda>_.
     g_Updates g True (\<lambda>t. tg_ID t = i) toggle_restored)) s"

definition toggle_repo_impl :: "(toggle, 'd) table \<Rightarrow> (user, 'd) table \<Rightarrow> 'd toggle_repo" where
  "toggle_repo_impl g users =
     \<lparr> tr_Create = Toggle_Create g, tr_GetByID = Toggle_GetByID g, tr_GetByPath = Toggle_GetByPath g,
       tr_GetByAppID = Toggle_GetByAppID g, tr_GetHierarchyByAppID = Toggle_GetHierarchyByAppID g,
       tr_Update = Toggle_Update g, tr_Delete = Toggle_Delete g, tr_Exists = Toggle_Exists g,
       tr_GetChildren = Toggle_GetChildren g, tr_MarkDeletionMeta = Toggle_MarkDeletionMeta g,
       tr_GetByIDUnscoped = Toggle_GetByIDUnscoped g,
       tr_GetChildrenUnscoped = Toggle_GetChildrenUnscoped g,
       tr_GetArchivedRootsByAppID = Toggle_GetArchivedRootsByAppID g users,
       tr_Restore = Toggle_Restore g \<rparr>"

section \<open>the implementation keeps the contract\<close>

text \<open>A toggles table and a users table of one database that answer.\<close>

locale toggle_table =
  gorm_table g rows toggle_live toggle_columns toggle_defaults tg_ID "\<lambda>x t. tg_ID x = tg_ID t" "\<lambda>t. Some (toggle_erased now t)"
  for g :: "(toggle, 'd) table" and rows and now :: int +
  fixes users :: "(user, 'd) table"
  assumes users_find: "\<exists>us. g_Find users False (\<lambda>_. True) unordered d = Some (Inr us, d)"
begin

lemma children:
  "\<exists>xs. Toggle_GetChildren g i d = Some (Inr xs, d)
     \<and> set xs = {t \<in> set (rows d). toggle_live t \<and> tg_ParentID t = Some i}
     \<and> (distinct (map tg_ID (rows d)) \<longrightarrow> distinct (map tg_ID xs))"
  using find_set[of False "\<lambda>t. tg_ParentID t = Some i" unordered d]
  unfolding Toggle_GetChildren_def by auto

lemma children_unscoped:
  "\<exists>xs. Toggle_GetChildrenUnscoped g i d = Some (Inr xs, d)
     \<and> set xs = {t \<in> set (rows d). tg_ParentID t = Some i}
     \<and> (distinct (map tg_ID (rows d)) \<longrightarrow> distinct (map tg_ID xs))"
  using find_set[of True "\<lambda>t. tg_ParentID t = Some i" unordered d]
  unfolding Toggle_GetChildrenUnscoped_def by auto

lemma at_node_id: "at_node vis i (\<lambda>x. x) R = R"
  by (simp add: at_node_def)

lemma map_filter_Some: "List.map_filter (\<lambda>x. if P x then Some (f x) else Some x) xs = map (\<lambda>x. if P x then f x else x) xs"
  by (induction xs) (auto simp: List.map_filter_def)

lemma delete_walk:
  "subtree_walk rows toggle_live (\<lambda>_. True) (\<lambda>x. x) (toggle_erased now)
     (Toggle_Delete g) (\<lambda>i. g_Delete g False (\<lambda>t. tg_ID t = i))"
proof
  fix s t assume f: "forest (rows s)"
  from children[of "tg_ID t" s] obtain xs where
    xs: "Toggle_GetChildren g (tg_ID t) s = Some (Inr xs, s)"
    "set xs = {c \<in> set (rows s). toggle_live c \<and> tg_ParentID c = Some (tg_ID t)}"
    "distinct (map tg_ID xs)" using forest_distinct[OF f] by blast
  have "Toggle_Delete g (tg_ID t) s =
      attempt (for_each (\<lambda>c. Toggle_Delete g (tg_ID c)) xs) fail (\<lambda>_. g_Delete g False (\<lambda>x. tg_ID x = tg_ID t)) s"
    by (subst Toggle_Delete.simps) (simp add: xs(1))
  with xs show "\<exists>cs s1. rows s1 = at_node toggle_live (tg_ID t) (\<lambda>x. x) (rows s)
      \<and> set cs = {c \<in> set (rows s1). toggle_live c \<and> tg_ParentID c = Some (tg_ID t)}
      \<and> distinct (map tg_ID cs)
      \<and> Toggle_Delete g (tg_ID t) s = attempt (for_each (\<lambda>c. Toggle_Delete g (tg_ID c)) cs) fail
           (\<lambda>_. g_Delete g False (\<lambda>x. tg_ID x = tg_ID t)) s1"
    unfolding at_node_id by blast
next
  fix i s
  from delete[of False "\<lambda>t. tg_ID t = i" s]
  show "\<exists>s'. g_Delete g False (\<lambda>t. tg_ID t = i) s = Some (Inr (), s')
      \<and> rows s' = at_node toggle_live i (toggle_erased now) (rows s)"
    by (simp add: map_filter_Some at_node_def cong del: if_weak_cong)
qed (auto simp: same_node_def toggle_erased_def toggle_live_def)

lemma restore_walk:
  "subtree_walk rows (\<lambda>_. True) (\<lambda>_. True) (\<lambda>x. x) toggle_restored
     (Toggle_Restore g) (\<lambda>i. g_Updates g True (\<lambda>t. tg_ID t = i) toggle_restored)"
proof
  fix s t assume f: "forest (rows s)"
  from children_unscoped[of "tg_ID t" s] obtain xs where
    xs: "Toggle_GetChildrenUnscoped g (tg_ID t) s = Some (Inr xs, s)"
    "set xs = {c \<in> set (rows s). tg_ParentID c = Some (tg_ID t)}"
    "distinct (map tg_ID xs)" using forest_distinct[OF f] by blast
  have "Toggle_Restore g (tg_ID t) s =
      attempt (for_each (\<lambda>c. Toggle_Restore g (tg_ID c)) xs) fail
        (\<lambda>_. g_Updates g True (\<lambda>x. tg_ID x = tg_ID t) toggle_restored) s"
    by (subst Toggle_Restore.simps) (simp add: xs(1))
  with xs show "\<exists>cs s1. rows s1 = at_node (\<lambda>_. True) (tg_ID t) (\<lambda>x. x) (rows s)
      \<and> set cs = {c \<in> set (rows s1). True \<and> tg_ParentID c = Some (tg_ID t)}
      \<and> distinct (map tg_ID cs)
      \<and> Toggle_Restore g (tg_ID t) s = attempt (for_each (\<lambda>c. Toggle_Restore g (tg_ID c)) cs) fail
           (\<lambda>_. g_Updates g True (\<lambda>x. tg_ID x = tg_ID t) toggle_restored) s1"
    unfolding at_node_id by (simp only: simp_thms) blast
next
  fix i s
  from updates[of True "\<lambda>t. tg_ID t = i" toggle_restored s]
  show "\<exists>s'. g_Updates g True (\<lambda>t. tg_ID t = i) toggle_restored s = Some (Inr (), s')
      \<and> rows s' = at_node (\<lambda>_. True) i toggle_restored (rows s)"
    by (simp add: at_node_def)
qed (auto simp: same_node_def toggle_restored_def)

end

sublocale toggle_table \<subseteq> toggle_repository "toggle_repo_impl g users" rows now
proof
  fix t :: toggle and s :: 'd assume "tg_ID t \<notin> tg_ID ` set (rows s)"
  then have "\<forall>x\<in>set (rows s). tg_ID x \<noteq> tg_ID t" by (metis imageI)
  from create[OF this] show "\<exists>s'. tr_Create (toggle_repo_impl g users) t s = Some (Inr (), s')
      \<and> rows s' = rows s @ [toggle_columns (toggle_defaults t)]"
    by (auto simp: toggle_repo_impl_def Toggle_Create_def ok_def)
next
  fix i :: string and s :: 'd
  show "\<exists>r. tr_GetByID (toggle_repo_impl g users) i s = Some (r, s)
      \<and> found (\<lambda>t. toggle_live t \<and> tg_ID t = i) (rows s) r"
    using first[of False "\<lambda>t. tg_ID t = i" s] by (simp add: toggle_repo_impl_def Toggle_GetByID_def)
  show "\<exists>r. tr_GetByIDUnscoped (toggle_repo_impl g users) i s = Some (r, s)
      \<and> found (\<lambda>t. tg_ID t = i) (rows s) r"
    using first[of True "\<lambda>t. tg_ID t = i" s] by (simp add: toggle_repo_impl_def Toggle_GetByIDUnscoped_def)
  show "\<exists>xs. tr_GetChildren (toggle_repo_impl g users) i s = Some (Inr xs, s)
      \<and> set xs = {t \<in> set (rows s). toggle_live t \<and> tg_ParentID t = Some i}
      \<and> (distinct (map tg_ID (rows s)) \<longrightarrow> distinct (map tg_ID xs))"
    using children by (simp add: toggle_repo_impl_def)
  show "\<exists>xs. tr_GetChildrenUnscoped (toggle_repo_impl g users) i s = Some (Inr xs, s)
      \<and> set xs = {t \<in> set (rows s). tg_ParentID t = Some i}
      \<and> (distinct (map tg_ID (rows s)) \<longrightarrow> distinct (map tg_ID xs))"
    using children_unscoped by (simp add: toggle_repo_impl_def)
next
  fix path app :: string and s :: 'd
  show "\<exists>r. tr_GetByPath (toggle_repo_impl g users) path app s = Some (r, s)
      \<and> found (\<lambda>t. toggle_live t \<and> tg_Path t = path \<and> tg_AppID t = app) (rows s) r"
    using first[of False "\<lambda>t. tg_Path t = path \<and> tg_AppID t = app" s]
    by (simp add: toggle_repo_impl_def Toggle_GetByPath_def)
  show "tr_Exists (toggle_repo_impl g users) path app s =
      Some (Inr (\<exists>t\<in>set (rows s). toggle_live t \<and> tg_Path t = path \<and> tg_AppID t = app), s)"
    using count[of False "\<lambda>t. tg_Path t = path \<and> tg_AppID t = app" s]
    by (simp add: toggle_repo_impl_def Toggle_Exists_def ok_def filter_empty_conv) blast
next
  fix app :: string and s :: 'd
  have level_first: "sorted (map by_level_value xs) \<Longrightarrow> sorted (map tg_Level xs)" for xs
    by (induction xs) (fastforce simp: by_level_value_def)+
  show "\<exists>xs. tr_GetHierarchyByAppID (toggle_repo_impl g users) app s = Some (Inr xs, s)
      \<and> set xs = {t \<in> set (rows s). toggle_live t \<and> tg_AppID t = app}
      \<and> (distinct (map tg_ID (rows s)) \<longrightarrow> distinct (map tg_ID xs)) \<and> sorted (map tg_Level xs)"
    using find_set[of False "\<lambda>t. tg_AppID t = app" by_level_value s] level_first
    by (auto simp: toggle_repo_impl_def Toggle_GetHierarchyByAppID_def)
  let ?P = "\<lambda>t. tg_AppID t = app \<and> tg_ArchivedRoot t = True \<and> tg_DeletedAt t \<noteq> None"
  let ?o = "\<lambda>t. case tg_DeletedAt t of Some x \<Rightarrow> [- x] | None \<Rightarrow> []"
  from find_set[of True ?P ?o s] users_find[of s] obtain ts us where
    "g_Find g True ?P ?o s = Some (Inr ts, s)" "set ts = {t \<in> set (rows s). ?P t}"
    "g_Find users False (\<lambda>_. True) unordered s = Some (Inr us, s)" by auto
  note q = this
  have "tr_GetArchivedRootsByAppID (toggle_repo_impl g users) app s = Some (Inr (map (archived_view us) ts), s)"
    using q(1,3) by (simp add: toggle_repo_impl_def Toggle_GetArchivedRootsByAppID_def ok_def)
  moreover have "arc_ID ` set (map (archived_view us) ts) = tg_ID ` set ts"
    by (simp add: image_image archived_view_def)
  moreover have "set ts = {t \<in> set (rows s). tg_AppID t = app \<and> tg_ArchivedRoot t \<and> \<not> toggle_live t}"
    unfolding q(2) toggle_live_def by blast
  ultimately show "\<exists>xs. tr_GetArchivedRootsByAppID (toggle_repo_impl g users) app s = Some (Inr xs, s)
      \<and> arc_ID ` set xs = tg_ID ` {t \<in> set (rows s). tg_AppID t = app \<and> tg_ArchivedRoot t \<and> \<not> toggle_live t}"
    by auto
next
  fix s :: 'd and t :: toggle assume "\<exists>x\<in>set (rows s). toggle_live x \<and> tg_ID x = tg_ID t"
  from save[OF this] show "\<exists>s'. tr_Update (toggle_repo_impl g users) t s = Some (Inr (), s')
      \<and> rows s' = at_node toggle_live (tg_ID t) (\<lambda>_. toggle_columns t) (rows s)"
    by (simp add: toggle_repo_impl_def Toggle_Update_def at_node_def)
next
  fix i deletedBy :: string and s :: 'd
  show "\<exists>s'. tr_MarkDeletionMeta (toggle_repo_impl g users) i deletedBy s = Some (Inr (), s')
      \<and> rows s' = at_node toggle_live i (toggle_marked deletedBy) (rows s)"
    using updates[of False "\<lambda>t. tg_ID t = i" "toggle_marked deletedBy" s]
    by (simp add: toggle_repo_impl_def Toggle_MarkDeletionMeta_def at_node_def)
next
  fix s :: 'd and t :: toggle assume "forest (rows s)" "t \<in> set (rows s)" "toggle_live t"
  from subtree_walk.walk_subtree[OF delete_walk this TrueI]
  show "\<exists>s'. tr_Delete (toggle_repo_impl g users) (tg_ID t) s = Some (Inr (), s')
      \<and> rows s' = on_subtree toggle_live (tg_ID t) (toggle_erased now) (rows s)"
    by (simp add: toggle_repo_impl_def)
next
  fix s :: 'd and t :: toggle assume "forest (rows s)" "t \<in> set (rows s)"
  from subtree_walk.walk_subtree[OF restore_walk this TrueI TrueI]
  show "\<exists>s'. tr_Restore (toggle_repo_impl g users) (tg_ID t) s = Some (Inr (), s')
      \<and> rows s' = on_subtree (\<lambda>_. True) (tg_ID t) toggle_restored (rows s)"
    by (simp add: toggle_repo_impl_def)
qed


context toggle_table
begin

lemma contract: "toggle_repository (toggle_repo_impl g users) rows now"
  by (rule toggle_repository_axioms)

end

section \<open>the tables in memory\<close>

record db =
  db_toggles :: "toggle list"
  db_users :: "user list"
  db_apps :: "application list"

definition mem_toggles :: "int \<Rightarrow> (toggle, db) table" where
  "mem_toggles now = mem_table db_toggles (\<lambda>xs d. d\<lparr> db_toggles := xs \<rparr>) toggle_live toggle_columns
     toggle_defaults tg_ID (\<lambda>x t. tg_ID x = tg_ID t) (\<lambda>t. Some (toggle_erased now t))"

definition mem_users :: "(user, db) table" where
  "mem_users = mem_table db_users (\<lambda>xs d. d\<lparr> db_users := xs \<rparr>) (\<lambda>_. True) (\<lambda>u. u) (\<lambda>u. u) us_ID
     (\<lambda>x u. us_ID x = us_ID u) (\<lambda>_. None)"

interpretation mem_users: gorm_table mem_users db_users "\<lambda>_. True" "\<lambda>u. u" "\<lambda>u. u" us_ID
  "\<lambda>x u. us_ID x = us_ID u" "\<lambda>_. None"
  unfolding mem_users_def by (rule mem_table_gorm) simp

lemma mem_toggle_table: "toggle_table (mem_toggles now) db_toggles now mem_users"
proof (rule toggle_table.intro)
  show "gorm_table (mem_toggles now) db_toggles toggle_live toggle_columns toggle_defaults tg_ID
          (\<lambda>x t. tg_ID x = tg_ID t) (\<lambda>t. Some (toggle_erased now t))"
    unfolding mem_toggles_def by (rule mem_table_gorm) simp
  show "toggle_table_axioms mem_users"
    using mem_users.find by unfold_locales blast
qed

interpretation mem_toggles: toggle_table "mem_toggles now" db_toggles now mem_users for now
  by (rule mem_toggle_table)

text \<open>The recursions of the repository walk subtrees of the table in memory.\<close>

interpretation mem_delete: subtree_walk db_toggles toggle_live "\<lambda>_. True" "\<lambda>x. x" "toggle_erased now"
  "Toggle_Delete (mem_toggles now)" "\<lambda>i. g_Delete (mem_toggles now) False (\<lambda>t. tg_ID t = i)" for now
  by (rule mem_toggles.delete_walk)

interpretation mem_restore: subtree_walk db_toggles "\<lambda>_. True" "\<lambda>_. True" "\<lambda>x. x" toggle_restored
  "Toggle_Restore (mem_toggles now)" "\<lambda>i. g_Updates (mem_toggles now) True (\<lambda>t. tg_ID t = i) toggle_restored" for now
  by (rule mem_toggles.restore_walk)

end
