(* ===== verification/ToggleUseCase.thy ===== *)
theory ToggleUseCase
  imports ToggleRepo
begin

text \<open>
  \<open>usecase/toggle_usecase.go\<close>: creating a toggle with its missing ancestors, reading its effective
  status, enabling a subtree, archiving and restoring, and the hierarchy listing; with the interface
  \<open>domain/repository/application_repository.go\<close> it calls. The operations are over any repository
  record. Identifiers of new toggles come from \<open>ulid\<close>.
\<close>

section \<open>application_repository.go\<close>

record app_counts =
  ac_ID :: string
  ac_Name :: string
  ac_TotalToggles :: nat
  ac_EnabledToggles :: nat
  ac_DisabledToggles :: nat
  ac_HasSecretKey :: bool

record 's app_repo =
  pr_Create :: "application \<Rightarrow> ('s, db_error, unit) io"
  pr_GetByID :: "string \<Rightarrow> ('s, db_error, application) io"
  pr_GetByName :: "string \<Rightarrow> ('s, db_error, application) io"
  pr_GetAll :: "('s, db_error, application list) io"
  pr_GetAllWithToggleCounts :: "('s, db_error, app_counts list) io"
  pr_Update :: "application \<Rightarrow> ('s, db_error, unit) io"
  pr_Delete :: "string \<Rightarrow> ('s, db_error, unit) io"
  pr_Exists :: "string \<Rightarrow> ('s, db_error, bool) io"

section \<open>toggle_usecase.go\<close>

record 's toggle_usecase =
  tu_toggleRepo :: "'s toggle_repo"
  tu_appRepo :: "'s app_repo"

definition app_fail :: "err_code \<Rightarrow> string \<Rightarrow> ('s, app_error, 'a) io" where
  "app_fail code m = fail (NewAppError code m)"

subsection \<open>creation\<close>

function createToggleHierarchy ::
    "'s toggle_usecase \<Rightarrow> (nat \<Rightarrow> string) \<Rightarrow> string list \<Rightarrow> bool \<Rightarrow> bool \<Rightarrow> string \<Rightarrow> string option \<Rightarrow> nat
     \<Rightarrow> ('s, app_error, unit) io" where
  "createToggleHierarchy uc ulid parts enabled editable appID parentID level =
     (if level \<ge> length parts then ok ()
      else
        let currentPart = parts ! level;
            currentPath = Join dot (take (level + 1) parts)
        in attempt (tr_GetByPath (tu_toggleRepo uc) currentPath appID)
          (\<lambda>_.
            let isFinalToggle = (level = length parts - 1);
                toggleEnabled = (if \<not> isFinalToggle then True else enabled);
                toggle = NewToggle (ulid level) currentPart toggleEnabled currentPath (int level) parentID appID
            in attempt (tr_Create (tu_toggleRepo uc) toggle)
                 (\<lambda>_. app_fail ErrCodeDatabase ''error creating toggle'')
                 (\<lambda>_. if level + 1 < length parts
                      then createToggleHierarchy uc ulid parts enabled editable appID
                             (Some (tg_ID toggle)) (level + 1)
                      else ok ()))
          (\<lambda>existingToggle.
            if level + 1 < length parts
            then createToggleHierarchy uc ulid parts enabled editable appID
                   (Some (tg_ID existingToggle)) (level + 1)
            else ok ()))"
  by pat_completeness auto
termination
  by (relation "measure (\<lambda>(uc, ulid, parts, enabled, editable, appID, parentID, level). length parts - level)")
     auto

declare createToggleHierarchy.simps [simp del]

definition CreateToggle ::
    "'s toggle_usecase \<Rightarrow> (nat \<Rightarrow> string) \<Rightarrow> string \<Rightarrow> bool \<Rightarrow> bool \<Rightarrow> string \<Rightarrow> ('s, app_error, unit) io" where
  "CreateToggle uc ulid path enabled editable appID =
     (if path = [] then app_fail ErrCodeValidation ''toggle path is required''
      else if appID = [] then app_fail ErrCodeValidation ''application ID is required''
      else
        attempt (pr_GetByID (tu_appRepo uc) appID)
          (\<lambda>_. app_fail ErrCodeNotFound ''application not found'') (\<lambda>_.
        attempt (tr_Exists (tu_toggleRepo uc) path appID)
          (\<lambda>_. app_fail ErrCodeDatabase ''error checking toggle existence'') (\<lambda>exists.
        if exists then app_fail ErrCodeAlreadyExists ''toggle already exists''
        else createToggleHierarchy uc ulid (ParseTogglePath path) enabled editable appID None 0)))"

subsection \<open>status\<close>

partial_function (option) isToggleEnabled ::
    "'s toggle_usecase \<Rightarrow> toggle \<Rightarrow> 's \<Rightarrow> ((app_error + bool) \<times> 's) option" where
  "isToggleEnabled uc toggle s =
     (if \<not> tg_Enabled toggle then ok False s
      else (case tg_ParentID toggle of
              Some parentID \<Rightarrow>
                attempt (tr_GetByID (tu_toggleRepo uc) parentID)
                  (\<lambda>_. ok False) (\<lambda>parent. isToggleEnabled uc parent) s
            | None \<Rightarrow> ok True s))"

definition GetToggleStatus :: "'s toggle_usecase \<Rightarrow> string \<Rightarrow> string \<Rightarrow> ('s, app_error, bool) io" where
  "GetToggleStatus uc path appID =
     (if path = [] then app_fail ErrCodeValidation ''toggle path is required''
      else if appID = [] then app_fail ErrCodeValidation ''application ID is required''
      else attempt (tr_GetByPath (tu_toggleRepo uc) path appID)
             (\<lambda>_. app_fail ErrCodeNotFound ''toggle not found'')
             (\<lambda>toggle. isToggleEnabled uc toggle))"

text \<open>The loop that collects the ancestors, nearest first; an error ends it.\<close>

partial_function (option) ancestor_chain ::
    "'s toggle_usecase \<Rightarrow> toggle \<Rightarrow> toggle list \<Rightarrow> 's \<Rightarrow> ((app_error + toggle list) \<times> 's) option" where
  "ancestor_chain uc current chain s =
     (case tg_ParentID current of
        None \<Rightarrow> ok chain s
      | Some parentID \<Rightarrow>
          attempt (tr_GetByID (tu_toggleRepo uc) parentID)
            (\<lambda>_. ok chain) (\<lambda>parent. ancestor_chain uc parent (chain @ [parent])) s)"

definition AncestorBlocker :: "'s toggle_usecase \<Rightarrow> toggle \<Rightarrow> ('s, app_error, bool \<times> string) io" where
  "AncestorBlocker uc toggle =
     attempt (ancestor_chain uc toggle []) fail (\<lambda>chain.
       ok (case List.find (\<lambda>ancestor. \<not> tg_Enabled ancestor) (rev chain) of
             Some ancestor \<Rightarrow> (False, tg_Value ancestor)
           | None \<Rightarrow> (True, [])))"

subsection \<open>updates\<close>

definition UpdateToggle :: "'s toggle_usecase \<Rightarrow> string \<Rightarrow> bool \<Rightarrow> string \<Rightarrow> ('s, app_error, unit) io" where
  "UpdateToggle uc path enabled appID =
     (if path = [] then app_fail ErrCodeValidation ''toggle path is required''
      else if appID = [] then app_fail ErrCodeValidation ''application ID is required''
      else attempt (tr_GetByPath (tu_toggleRepo uc) path appID)
             (\<lambda>_. app_fail ErrCodeNotFound ''toggle not found'') (\<lambda>toggle.
           attempt (tr_Update (tu_toggleRepo uc) (toggle\<lparr> tg_Enabled := enabled \<rparr>))
             (\<lambda>_. app_fail ErrCodeDatabase ''error updating toggle'') ok))"

definition GetAllTogglesByApp :: "'s toggle_usecase \<Rightarrow> string \<Rightarrow> ('s, app_error, toggle list) io" where
  "GetAllTogglesByApp uc appID =
     (if appID = [] then app_fail ErrCodeValidation ''application ID is required''
      else attempt (pr_GetByID (tu_appRepo uc) appID)
             (\<lambda>_. app_fail ErrCodeNotFound ''application not found'') (\<lambda>_.
           attempt (tr_GetHierarchyByAppID (tu_toggleRepo uc) appID)
             (\<lambda>_. app_fail ErrCodeDatabase ''error fetching toggles'') ok))"

partial_function (option) UpdateEnabledRecursively ::
    "'s toggle_usecase \<Rightarrow> string \<Rightarrow> bool \<Rightarrow> string \<Rightarrow> 's \<Rightarrow> ((app_error + unit) \<times> 's) option" where
  "UpdateEnabledRecursively uc toggleID enabled appID s =
     attempt (tr_GetByID (tu_toggleRepo uc) toggleID)
       (\<lambda>_. fail (NewAppError ErrCodeNotFound ''toggle not found'')) (\<lambda>toggle s.
     if tg_AppID toggle \<noteq> appID
     then fail (NewAppError ErrCodeValidation ''toggle does not belong to this application'') s
     else
     attempt (tr_Update (tu_toggleRepo uc) (toggle\<lparr> tg_Enabled := enabled \<rparr>))
       (\<lambda>_. fail (NewAppError ErrCodeDatabase ''error updating toggle'')) (\<lambda>_.
     attempt (tr_GetChildren (tu_toggleRepo uc) toggleID)
       (\<lambda>_. fail (NewAppError ErrCodeDatabase ''error fetching children'')) (\<lambda>children.
     for_each (\<lambda>child. UpdateEnabledRecursively uc (tg_ID child) enabled appID) children)) s) s"

definition GetToggleByID :: "'s toggle_usecase \<Rightarrow> string \<Rightarrow> string \<Rightarrow> ('s, app_error, toggle) io" where
  "GetToggleByID uc toggleID appID =
     (if toggleID = [] \<or> appID = []
      then app_fail ErrCodeValidation ''toggle ID and application ID are required''
      else attempt (tr_GetByID (tu_toggleRepo uc) toggleID)
             (\<lambda>_. app_fail ErrCodeNotFound ''toggle not found'') (\<lambda>toggle.
           if tg_AppID toggle \<noteq> appID
           then app_fail ErrCodeValidation ''toggle does not belong to this application''
           else ok toggle))"

definition UpdateToggleByID :: "'s toggle_usecase \<Rightarrow> string \<Rightarrow> bool \<Rightarrow> string \<Rightarrow> ('s, app_error, unit) io" where
  "UpdateToggleByID uc toggleID enabled appID =
     (if toggleID = [] \<or> appID = []
      then app_fail ErrCodeValidation ''toggle ID and application ID are required''
      else attempt (tr_GetByID (tu_toggleRepo uc) toggleID)
             (\<lambda>_. app_fail ErrCodeNotFound ''toggle not found'') (\<lambda>toggle.
           if tg_AppID toggle \<noteq> appID
           then app_fail ErrCodeValidation ''toggle does not belong to this application''
           else attempt (tr_Update (tu_toggleRepo uc) (toggle\<lparr> tg_Enabled := enabled \<rparr>))
                  (\<lambda>_. app_fail ErrCodeDatabase ''error updating toggle'') ok))"

definition BulkUpdateEnabled :: "'s toggle_usecase \<Rightarrow> string list \<Rightarrow> bool \<Rightarrow> string \<Rightarrow> ('s, app_error, unit) io" where
  "BulkUpdateEnabled uc toggleIDs enabled appID =
     (if length toggleIDs = 0 then app_fail ErrCodeValidation ''at least one toggle ID is required''
      else for_each (\<lambda>i. UpdateToggleByID uc i enabled appID) toggleIDs)"

subsection \<open>archiving\<close>

definition DeleteToggleByID :: "'s toggle_usecase \<Rightarrow> string \<Rightarrow> string \<Rightarrow> string \<Rightarrow> ('s, app_error, unit) io" where
  "DeleteToggleByID uc toggleID appID deletedBy =
     (if toggleID = [] \<or> appID = []
      then app_fail ErrCodeValidation ''toggle ID and application ID are required''
      else attempt (tr_GetByID (tu_toggleRepo uc) toggleID)
             (\<lambda>_. app_fail ErrCodeNotFound ''toggle not found'') (\<lambda>toggle.
           if tg_AppID toggle \<noteq> appID
           then app_fail ErrCodeValidation ''toggle does not belong to this application''
           else attempt (tr_MarkDeletionMeta (tu_toggleRepo uc) toggleID deletedBy)
                  (\<lambda>_. app_fail ErrCodeDatabase ''error marking toggle as deleted'') (\<lambda>_.
                attempt (tr_Delete (tu_toggleRepo uc) toggleID)
                  (\<lambda>_. app_fail ErrCodeDatabase ''error deleting toggle'') ok)))"

text \<open>The message of a collision ends in a dash that is not ASCII, left out of the text here.\<close>

partial_function (option) checkRestoreCollision ::
    "'s toggle_usecase \<Rightarrow> toggle \<Rightarrow> 's \<Rightarrow> ((app_error + unit) \<times> 's) option" where
  "checkRestoreCollision uc toggle s =
     attempt (tr_Exists (tu_toggleRepo uc) (tg_Path toggle) (tg_AppID toggle))
       (\<lambda>_. fail (NewAppError ErrCodeDatabase ''error checking path collision'')) (\<lambda>exists s.
     if exists
     then fail (NewAppError ErrCodeAlreadyExists (''a toggle already exists at path '' @ tg_Path toggle)) s
     else
     attempt (tr_GetChildrenUnscoped (tu_toggleRepo uc) (tg_ID toggle))
       (\<lambda>_. fail (NewAppError ErrCodeDatabase ''error checking children'')) (\<lambda>children.
     for_each (\<lambda>child. checkRestoreCollision uc child) children) s) s"

definition RestoreToggle :: "'s toggle_usecase \<Rightarrow> string \<Rightarrow> string \<Rightarrow> ('s, app_error, unit) io" where
  "RestoreToggle uc toggleID appID =
     (if toggleID = [] \<or> appID = []
      then app_fail ErrCodeValidation ''toggle ID and application ID are required''
      else attempt (tr_GetByIDUnscoped (tu_toggleRepo uc) toggleID)
             (\<lambda>_. app_fail ErrCodeNotFound ''archived toggle not found'') (\<lambda>toggle.
           if tg_AppID toggle \<noteq> appID
           then app_fail ErrCodeValidation ''toggle does not belong to this application''
           else if \<not> tg_ArchivedRoot toggle
           then app_fail ErrCodeValidation ''only the root of an archived deletion can be restored directly''
           else attempt (checkRestoreCollision uc toggle) fail (\<lambda>_.
                attempt (tr_Restore (tu_toggleRepo uc) toggleID)
                  (\<lambda>_. app_fail ErrCodeDatabase ''error restoring toggle'') ok)))"

definition GetArchivedToggles :: "'s toggle_usecase \<Rightarrow> string \<Rightarrow> ('s, app_error, archived_toggle list) io" where
  "GetArchivedToggles uc appID =
     (if appID = [] then app_fail ErrCodeValidation ''application ID is required''
      else attempt (tr_GetArchivedRootsByAppID (tu_toggleRepo uc) appID)
             (\<lambda>_. app_fail ErrCodeDatabase ''error fetching archived toggles'') ok)"

text \<open>
  The warning of a risky percentage key is the flag of the toggle; \<open>texts\<close> are the error texts of
  \<open>ValidateRule\<close>.
\<close>

definition UpdateToggleWithRule ::
    "(string \<Rightarrow> float64 option) \<Rightarrow> (string \<Rightarrow> string list) \<Rightarrow> (rule_error \<Rightarrow> string) \<Rightarrow> 's toggle_usecase
     \<Rightarrow> string \<Rightarrow> bool \<Rightarrow> bool \<Rightarrow> activation_rule option \<Rightarrow> string \<Rightarrow> ('s, app_error, toggle) io" where
  "UpdateToggleWithRule ParseFloat tokens texts uc toggleID enabled hasActivationRule activationRule appID =
     (if toggleID = [] \<or> appID = []
      then app_fail ErrCodeValidation ''toggle ID and application ID are required''
      else attempt (tr_GetByID (tu_toggleRepo uc) toggleID)
             (\<lambda>_. app_fail ErrCodeNotFound ''toggle not found'') (\<lambda>toggle.
           if tg_AppID toggle \<noteq> appID
           then app_fail ErrCodeValidation ''toggle does not belong to this application''
           else
             let toggle = toggle\<lparr> tg_Enabled := enabled, tg_HasActivationRule := hasActivationRule \<rparr> in
             (case (if hasActivationRule then activationRule else None) of
                Some rule \<Rightarrow>
                  (case SetActivationRule ParseFloat (Some rule) toggle of
                     Inl err \<Rightarrow> app_fail ErrCodeValidation (texts err)
                   | Inr toggle \<Rightarrow>
                       let toggle = (if HasEphemeralContextKeyRisk tokens rule
                                     then toggle\<lparr> tg_RuleContextWarning := True \<rparr> else toggle)
                       in attempt (tr_Update (tu_toggleRepo uc) toggle)
                            (\<lambda>_. app_fail ErrCodeDatabase ''error updating toggle'') (\<lambda>_. ok toggle))
              | None \<Rightarrow>
                  let toggle = ClearActivationRule toggle
                  in attempt (tr_Update (tu_toggleRepo uc) toggle)
                       (\<lambda>_. app_fail ErrCodeDatabase ''error updating toggle'') (\<lambda>_. ok toggle))))"

subsection \<open>the hierarchy\<close>

text \<open>A node of the listing; a node without children has no \<open>toggles\<close> member, here the empty list.\<close>

datatype toggle_node =
  ToggleNode (nd_id: string) (nd_value: string) (nd_enabled: bool) (nd_toggles: "toggle_node list")

definition byLevel :: "toggle list \<Rightarrow> int \<Rightarrow> toggle list" where
  "byLevel toggles level = filter (\<lambda>t. tg_Level t = level) toggles"

definition child_rows :: "toggle list \<Rightarrow> toggle \<Rightarrow> toggle list" where
  "child_rows toggles toggle =
     filter (\<lambda>child. tg_ParentID child = Some (tg_ID toggle)) (byLevel toggles (tg_Level toggle + 1))"

lemma child_rows_deeper:
  "c \<in> set (child_rows toggles t) \<Longrightarrow>
     length (filter (\<lambda>x. tg_Level x > tg_Level c) toggles) < length (filter (\<lambda>x. tg_Level x > tg_Level t) toggles)"
proof -
  assume "c \<in> set (child_rows toggles t)"
  then have c: "c \<in> set toggles" "tg_Level c = tg_Level t + 1" by (auto simp: child_rows_def byLevel_def)
  let ?f = "\<lambda>x. tg_Level x > tg_Level t"
  have "filter (\<lambda>x. tg_Level x > tg_Level c) toggles
      = filter (\<lambda>x. tg_Level x > tg_Level c) (filter ?f toggles)"
    using c(2) by (auto intro: filter_cong)
  also have "length \<dots> < length (filter ?f toggles)"
    by (rule length_filter_less[of c]) (use c in auto)
  finally show ?thesis .
qed

function buildToggleNodeRecursiveArray :: "toggle list \<Rightarrow> toggle \<Rightarrow> bool \<Rightarrow> toggle_node" where
  "buildToggleNodeRecursiveArray toggles toggle parentEnabled =
     (let enabled = tg_Enabled toggle \<and> parentEnabled
      in ToggleNode (tg_ID toggle) (tg_Value toggle) enabled
           (map (\<lambda>child. buildToggleNodeRecursiveArray toggles child enabled) (child_rows toggles toggle)))"
  by pat_completeness auto
termination
  by (relation "measure (\<lambda>(toggles, t, _). length (filter (\<lambda>x. tg_Level x > tg_Level t) toggles))")
     (auto intro: child_rows_deeper)

declare buildToggleNodeRecursiveArray.simps [simp del]

definition buildToggleNodeArray :: "toggle list \<Rightarrow> toggle \<Rightarrow> toggle_node" where
  "buildToggleNodeArray toggles toggle = buildToggleNodeRecursiveArray toggles toggle (tg_Enabled toggle)"

definition buildHierarchyArray :: "toggle list \<Rightarrow> toggle_node list" where
  "buildHierarchyArray toggles = map (buildToggleNodeArray toggles) (byLevel toggles 0)"

definition GetToggleHierarchy :: "'s toggle_usecase \<Rightarrow> string \<Rightarrow> ('s, app_error, toggle_node list) io" where
  "GetToggleHierarchy uc appID =
     (if appID = [] then app_fail ErrCodeValidation ''application ID is required''
      else attempt (tr_GetHierarchyByAppID (tu_toggleRepo uc) appID)
             (\<lambda>_. app_fail ErrCodeDatabase ''error fetching toggle hierarchy'')
             (\<lambda>toggles. ok (buildHierarchyArray toggles)))"

end
