(* ===== verification/ToggleProps.thy ===== *)
theory ToggleProps
  imports ToggleUseCase
begin

text \<open>
  What the toggle use cases do to a well-formed table of toggles: the invariant (a forest whose live
  rows sit at the path their parents spell, one live row per path), the status as the conjunction
  along the path, the creation of the missing prefixes, and the subtree operations.
\<close>

section \<open>the invariant\<close>

text \<open>The paths of a toggle's ancestors and itself, from the root.\<close>

definition prefix_path :: "string \<Rightarrow> nat \<Rightarrow> string" where
  "prefix_path path k = Join dot (take (k + 1) (Split dot path))"

definition path_prefixes :: "string \<Rightarrow> string list" where
  "path_prefixes path = map (prefix_path path) [0..<length (Split dot path)]"

definition live_at :: "toggle list \<Rightarrow> string \<Rightarrow> string \<Rightarrow> toggle \<Rightarrow> bool" where
  "live_at R app path t \<longleftrightarrow> t \<in> set R \<and> toggle_live t \<and> tg_AppID t = app \<and> tg_Path t = path"

definition well_placed :: "toggle list \<Rightarrow> toggle \<Rightarrow> bool" where
  "well_placed R t \<longleftrightarrow>
     (let ps = Split dot (tg_Path t)
      in tg_Value t = last ps \<and> tg_Level t = int (length ps) - 1
         \<and> (if length ps = 1 then tg_ParentID t = None
            else \<exists>p\<in>set R. live_at R (tg_AppID t) (Join dot (butlast ps)) p \<and> tg_ParentID t = Some (tg_ID p)))"

definition toggle_inv :: "toggle list \<Rightarrow> bool" where
  "toggle_inv R \<longleftrightarrow> forest R \<and> (\<forall>t\<in>set R. toggle_live t \<longrightarrow> well_placed R t)
     \<and> distinct (map (\<lambda>t. (tg_AppID t, tg_Path t)) (filter toggle_live R))"

lemma toggle_inv_forest: "toggle_inv R \<Longrightarrow> forest R"
  by (simp add: toggle_inv_def)

lemma live_at_unique:
  assumes "toggle_inv R" "live_at R app path x" "live_at R app path y"
  shows "x = y"
  using assms unfolding toggle_inv_def live_at_def by (auto simp: distinct_map inj_on_def)

lemma length_Split_pos: "0 < length (Split d s)"
  by (cases "Split d s") auto

lemma Split_prefix_path: "Split dot (prefix_path path k) = take (k + 1) (Split dot path)"
  unfolding prefix_path_def using Split_no_sep[of _ dot path]
  by (intro Split_Join) (auto dest: in_set_takeD)

lemma prefix_path_last: "prefix_path path (length (Split dot path) - 1) = path"
  by (simp add: prefix_path_def)

lemma prefix_path_inj:
  assumes "prefix_path path i = prefix_path path j" "i < length (Split dot path)" "j < length (Split dot path)"
  shows "i = j"
  using arg_cong[OF assms(1), of "\<lambda>p. length (Split dot p)"] assms(2,3) by (simp add: Split_prefix_path)

lemma prefix_path_prefix:
  "j \<le> k \<Longrightarrow> prefix_path (prefix_path path k) j = prefix_path path j"
  by (simp add: prefix_path_def[of "prefix_path path k"] Split_prefix_path min_def) (simp add: prefix_path_def)

lemma butlast_prefix:
  assumes "0 < k" "k < length (Split dot path)"
  shows "Join dot (butlast (Split dot (prefix_path path k))) = prefix_path path (k - 1)"
  unfolding Split_prefix_path using assms by (simp add: butlast_take prefix_path_def)

text \<open>The rows along a path exist, level by level.\<close>

lemma live_parent:
  assumes "toggle_inv R" "live_at R app path t" "length (Split dot path) > 1"
  obtains p where "live_at R app (Join dot (butlast (Split dot path))) p" "tg_ParentID t = Some (tg_ID p)"
  using assms unfolding toggle_inv_def live_at_def[of R app path] well_placed_def Let_def by fastforce

lemma live_root:
  assumes "toggle_inv R" "live_at R app path t" "length (Split dot path) = 1"
  shows "tg_ParentID t = None"
  using assms unfolding toggle_inv_def live_at_def well_placed_def Let_def by fastforce

lemma live_value:
  assumes "toggle_inv R" "live_at R app path t"
  shows "tg_Value t = last (Split dot path)" "tg_Level t = int (length (Split dot path)) - 1"
  using assms unfolding toggle_inv_def live_at_def well_placed_def Let_def by fastforce+

lemma live_prefixes:
  assumes inv: "toggle_inv R" and "live_at R app path t" "k < length (Split dot path)"
  shows "\<exists>p. live_at R app (prefix_path path k) p"
proof -
  have "k < length (Split dot path) \<Longrightarrow> \<exists>p. live_at R app (prefix_path path (length (Split dot path) - 1 - d)) p"
    if "d < length (Split dot path)" for d
    using that
  proof (induction d)
    case 0
    from assms(2) show ?case by (metis diff_zero prefix_path_last)
  next
    case (Suc d)
    let ?k = "length (Split dot path) - 1 - d"
    from Suc obtain p where p: "live_at R app (prefix_path path ?k) p" by auto
    from Suc.prems have "length (Split dot (prefix_path path ?k)) > 1"
      by (simp add: Split_prefix_path)
    from live_parent[OF inv p this] obtain q where
      "live_at R app (Join dot (butlast (Split dot (prefix_path path ?k)))) q" by blast
    moreover have "0 < ?k" "?k < length (Split dot path)" using Suc.prems by auto
    ultimately show ?case by (auto simp: butlast_prefix)
  qed
  from this[of "length (Split dot path) - 1 - k"] assms(3) show ?thesis by auto
qed

section \<open>creation\<close>

text \<open>The row a new toggle becomes.\<close>

definition new_row :: "string \<Rightarrow> string \<Rightarrow> string \<Rightarrow> nat \<Rightarrow> string option \<Rightarrow> toggle" where
  "new_row i app path k parentID =
     NewToggle i (Split dot path ! k) True (prefix_path path k) (int k) parentID app"

lemma NewToggle_ID [simp]: "tg_ID (NewToggle i v b path k par app) = i"
  by (simp add: NewToggle_def)

lemma new_row_written:
  "toggle_columns (toggle_defaults (NewToggle i (Split dot path ! k) b (prefix_path path k) (int k) par app))
     = new_row i app path k par"
  by (simp add: new_row_def NewToggle_def toggle_columns_def toggle_defaults_def)

lemma new_row_sel [simp]:
  "tg_ID (new_row i app path k par) = i" "tg_AppID (new_row i app path k par) = app"
  "tg_Path (new_row i app path k par) = prefix_path path k" "tg_Enabled (new_row i app path k par)"
  "tg_ParentID (new_row i app path k par) = par" "tg_Level (new_row i app path k par) = int k"
  "toggle_live (new_row i app path k par)" "tg_Value (new_row i app path k par) = Split dot path ! k"
  by (simp_all add: new_row_def NewToggle_def toggle_live_def)

text \<open>The parent a row at a level of a path needs.\<close>

definition parent_at :: "toggle list \<Rightarrow> string \<Rightarrow> string \<Rightarrow> nat \<Rightarrow> string option \<Rightarrow> bool" where
  "parent_at R app path k par \<longleftrightarrow>
     (if k = 0 then par = None
      else \<exists>p. live_at R app (prefix_path path (k - 1)) p \<and> par = Some (tg_ID p))"

lemma live_at_append:
  "live_at (R @ [x]) app path t \<longleftrightarrow> live_at R app path t \<or> t = x \<and> toggle_live x \<and> tg_AppID x = app \<and> tg_Path x = path"
  by (auto simp: live_at_def)

lemma toggle_inv_add:
  assumes inv: "toggle_inv R" and k: "k < length (Split dot path)"
    and par: "parent_at R app path k par" and i: "i \<notin> tg_ID ` set R"
    and free: "\<not> (\<exists>t. live_at R app (prefix_path path k) t)"
  shows "toggle_inv (R @ [new_row i app path k par])" (is "toggle_inv (R @ [?t])")
proof -
  have par_row: "k \<noteq> 0 \<Longrightarrow> \<exists>p. live_at R app (prefix_path path (k - 1)) p \<and> par = Some (tg_ID p)"
    using par by (simp add: parent_at_def)
  have "case par of None \<Rightarrow> True | Some j \<Rightarrow> \<exists>q\<in>set R. tg_ID q = j \<and> int k = tg_Level q + 1 \<and> app = tg_AppID q"
  proof (cases "k = 0")
    case True
    with par show ?thesis by (simp add: parent_at_def)
  next
    case False
    with par_row obtain p where p: "live_at R app (prefix_path path (k - 1)) p" "par = Some (tg_ID p)" by blast
    from live_value(2)[OF inv p(1)] False k have "tg_Level p = int k - 1"
      by (simp add: Split_prefix_path min_def)
    with p show ?thesis by (auto simp: live_at_def)
  qed
  moreover have "forest R" by (rule toggle_inv_forest[OF inv])
  ultimately have "forest (R @ [?t])"
    using i unfolding forest_def by (auto split: option.splits) (metis UnI1)?
  moreover have "well_placed (R @ [?t]) t" if t: "t \<in> set (R @ [?t])" "toggle_live t" for t
  proof (cases "t = ?t")
    case False
    then have "well_placed R t" using t inv by (auto simp: toggle_inv_def)
    then show ?thesis by (auto simp: well_placed_def Let_def live_at_append)
  next
    case True
    have len: "length (Split dot (prefix_path path k)) = k + 1" using k by (simp add: Split_prefix_path)
    have "last (Split dot (prefix_path path k)) = Split dot path ! k"
      using k by (simp add: Split_prefix_path take_Suc_conv_app_nth)
    moreover have "k \<noteq> 0 \<Longrightarrow> \<exists>p\<in>set R. live_at R app (Join dot (butlast (Split dot (prefix_path path k)))) p \<and> par = Some (tg_ID p)"
      using par_row k by (simp add: butlast_prefix) (auto simp: live_at_def)
    moreover have "k = 0 \<Longrightarrow> par = None" using par by (simp add: parent_at_def)
    ultimately show ?thesis unfolding True well_placed_def Let_def
      by (auto simp: len live_at_append)
  qed
  moreover have "distinct (map (\<lambda>t. (tg_AppID t, tg_Path t)) (filter toggle_live (R @ [?t])))"
    using inv free by (auto simp: toggle_inv_def live_at_def)
  ultimately show ?thesis unfolding toggle_inv_def by blast
qed


text \<open>One level of the creation: an existing row is used, a missing one added.\<close>

definition missing :: "toggle list \<Rightarrow> string \<Rightarrow> string \<Rightarrow> bool" where
  "missing R app p \<longleftrightarrow> \<not> (\<exists>t. live_at R app p t)"

lemma missing_append:
  assumes "tg_Path x \<noteq> p"
  shows "missing (R @ [x]) app p = missing R app p"
  using assms by (auto simp: missing_def live_at_append)

context toggle_repository
begin

lemma GetByPath_cases:
  assumes "toggle_inv (rows s)"
  obtains (absent) "missing (rows s) app path" "tr_GetByPath repo path app s = Some (Inl ErrRecordNotFound, s)"
  | (present) t where "live_at (rows s) app path t" "tr_GetByPath repo path app s = Some (Inr t, s)"
  using GetByPath[of path app s] by (fastforce simp: found_def live_at_def missing_def split: sum.splits)

lemma create_levels:
  assumes uc: "tu_toggleRepo uc = repo" and inj: "inj ulid"
    and inv: "toggle_inv (rows s)" and k: "k < length (Split dot path)"
    and par: "parent_at (rows s) app path k par"
    and fresh: "\<forall>j\<ge>k. ulid j \<notin> tg_ID ` set (rows s)"
  shows "\<exists>s' new. createToggleHierarchy uc ulid (Split dot path) enabled editable app par k s = Some (Inr (), s')
    \<and> rows s' = rows s @ new \<and> toggle_inv (rows s')
    \<and> (\<forall>t\<in>set new. toggle_live t \<and> tg_AppID t = app \<and> tg_Enabled t)
    \<and> map tg_Path new = filter (missing (rows s) app) (map (prefix_path path) [k..<length (Split dot path)])"
  using inv k par fresh
proof (induction "length (Split dot path) - k" arbitrary: k par s)
  case 0
  then show ?case by simp
next
  case (Suc d)
  let ?ps = "Split dot path"
  have upt: "[k..<length ?ps] = k # [Suc k..<length ?ps]" using Suc.prems(2) by (simp add: upt_conv_Cons)
  have len: "length ?ps - Suc k = d" using Suc.hyps(2) by simp
  have tail: "\<exists>s' new. (if k + 1 < length ?ps
        then createToggleHierarchy uc ulid ?ps enabled editable app (Some i) (k + 1) else ok ()) s1 = Some (Inr (), s')
      \<and> rows s' = rows s1 @ new \<and> toggle_inv (rows s')
      \<and> (\<forall>t\<in>set new. toggle_live t \<and> tg_AppID t = app \<and> tg_Enabled t)
      \<and> map tg_Path new = filter (missing (rows s1) app) (map (prefix_path path) [Suc k..<length ?ps])"
    if "toggle_inv (rows s1)" "\<exists>p. live_at (rows s1) app (prefix_path path k) p \<and> i = tg_ID p"
      "\<forall>j\<ge>Suc k. ulid j \<notin> tg_ID ` set (rows s1)" for s1 i
  proof (cases "k + 1 < length ?ps")
    case True
    have "parent_at (rows s1) app path (Suc k) (Some i)" using that(2) by (auto simp: parent_at_def)
    from Suc.hyps(1)[OF len[symmetric] that(1) _ this that(3)] True show ?thesis by simp
  next
    case False
    with that(1) show ?thesis by (intro exI[of _ s1] exI[of _ "[]"]) (simp add: ok_def)
  qed
  from Suc.prems(1) show ?case
  proof (cases rule: GetByPath_cases[where app = app and path = "prefix_path path k"])
    case (present t)
    have "createToggleHierarchy uc ulid ?ps enabled editable app par k s
        = (if k + 1 < length ?ps
           then createToggleHierarchy uc ulid ?ps enabled editable app (Some (tg_ID t)) (k + 1) else ok ()) s"
      using present(2) Suc.prems(2) unfolding prefix_path_def
      by (subst createToggleHierarchy.simps) (simp add: uc Let_def)
    moreover have "\<not> missing (rows s) app (prefix_path path k)" using present(1) by (auto simp: missing_def)
    moreover have "\<exists>p. live_at (rows s) app (prefix_path path k) p \<and> tg_ID t = tg_ID p"
      using present(1) by blast
    moreover have "\<forall>j\<ge>Suc k. ulid j \<notin> tg_ID ` set (rows s)" using Suc.prems(4) by simp
    ultimately show ?thesis using tail[OF Suc.prems(1), of "tg_ID t"] by (simp add: upt)
  next
    case absent
    let ?b = "if k \<noteq> length ?ps - 1 then True else enabled"
    let ?t = "NewToggle (ulid k) (?ps ! k) ?b (prefix_path path k) (int k) par app"
    let ?row = "new_row (ulid k) app path k par"
    from Create[of ?t s] Suc.prems(4) obtain s1 where
      s1: "tr_Create repo ?t s = Some (Inr (), s1)" "rows s1 = rows s @ [?row]"
      unfolding new_row_written NewToggle_ID by auto
    have "createToggleHierarchy uc ulid ?ps enabled editable app par k s
        = (if k + 1 < length ?ps
           then createToggleHierarchy uc ulid ?ps enabled editable app (Some (ulid k)) (k + 1) else ok ()) s1"
      using absent(2) Suc.prems(2) s1(1) unfolding prefix_path_def
      by (subst createToggleHierarchy.simps) (simp add: uc Let_def)
    moreover have inv1: "toggle_inv (rows s1)"
      unfolding s1(2) using Suc.prems absent(1) by (intro toggle_inv_add) (auto simp: missing_def)
    moreover have "\<exists>p. live_at (rows s1) app (prefix_path path k) p \<and> ulid k = tg_ID p"
      unfolding s1(2) by (intro exI[of _ ?row]) (simp add: live_at_append)
    moreover have "\<forall>j\<ge>Suc k. ulid j \<notin> tg_ID ` set (rows s1)"
      unfolding s1(2) using Suc.prems(4) inj by (auto dest: injD)
    moreover have "filter (missing (rows s1) app) (map (prefix_path path) [Suc k..<length ?ps])
        = filter (missing (rows s) app) (map (prefix_path path) [Suc k..<length ?ps])"
    proof (rule filter_cong[OF refl])
      fix p assume "p \<in> set (map (prefix_path path) [Suc k..<length ?ps])"
      then obtain j where j: "Suc k \<le> j" "j < length ?ps" "p = prefix_path path j" by auto
      then have "tg_Path ?row \<noteq> p" using prefix_path_inj[of path k j] by auto
      then show "missing (rows s1) app p = missing (rows s) app p" unfolding s1(2) by (rule missing_append)
    qed
    ultimately obtain s' new where
      "createToggleHierarchy uc ulid ?ps enabled editable app par k s = Some (Inr (), s')"
      "rows s' = rows s1 @ new" "toggle_inv (rows s')"
      "\<forall>t\<in>set new. toggle_live t \<and> tg_AppID t = app \<and> tg_Enabled t"
      "map tg_Path new = filter (missing (rows s) app) (map (prefix_path path) [Suc k..<length ?ps])"
      using tail[of s1 "ulid k"] by auto
    then show ?thesis using absent(1) s1(2)
      by (intro exI[of _ s'] exI[of _ "?row # new"]) (simp add: upt)
  qed
qed

end


section \<open>status\<close>

definition enabled_at :: "toggle list \<Rightarrow> string \<Rightarrow> string \<Rightarrow> bool" where
  "enabled_at R app p \<longleftrightarrow> (\<exists>t\<in>set R. live_at R app p t \<and> tg_Enabled t)"

text \<open>The specification of the status: every prefix of the path is a live enabled row.\<close>

definition effective :: "toggle list \<Rightarrow> string \<Rightarrow> string \<Rightarrow> bool" where
  "effective R app path \<longleftrightarrow> (\<forall>p\<in>set (path_prefixes path). enabled_at R app p)"

lemma enabled_at_live:
  "toggle_inv R \<Longrightarrow> live_at R app p t \<Longrightarrow> enabled_at R app p = tg_Enabled t"
  unfolding enabled_at_def using live_at_unique by (auto simp: live_at_def)

abbreviation parent_path :: "string \<Rightarrow> string" where
  "parent_path path \<equiv> Join dot (butlast (Split dot path))"

lemma Split_parent_path:
  assumes "length (Split dot path) > 1"
  shows "Split dot (parent_path path) = butlast (Split dot path)"
proof (rule Split_Join)
  show "butlast (Split dot path) \<noteq> []" using assms by (cases "Split dot path" rule: rev_cases) auto
  show "\<forall>p\<in>set (butlast (Split dot path)). dot \<notin> set p"
    by (auto dest!: in_set_butlastD Split_no_sep)
qed

lemma prefixes_parent:
  assumes "length (Split dot path) > 1"
  shows "path_prefixes path = path_prefixes (parent_path path) @ [path]"
proof -
  let ?n = "length (Split dot path)"
  have "[0..<?n] = [0..<?n - 1] @ [?n - 1]" using assms by (metis One_nat_def Suc_pred length_Split_pos upt_Suc_append zero_le)
  moreover have "prefix_path (parent_path path) k = prefix_path path k" if "k < ?n - 1" for k
    using that by (simp add: prefix_path_def Split_parent_path[OF assms] take_butlast)
  ultimately show ?thesis
    by (simp add: path_prefixes_def Split_parent_path[OF assms] prefix_path_last[simplified])
qed

lemma prefixes_root: "length (Split dot path) = 1 \<Longrightarrow> path_prefixes path = [path]"
  using prefix_path_last[of path] by (simp add: path_prefixes_def)

lemma effective_parent:
  "length (Split dot path) > 1 \<Longrightarrow>
     effective R app path \<longleftrightarrow> effective R app (parent_path path) \<and> enabled_at R app path"
  by (auto simp: effective_def prefixes_parent)

context toggle_repository
begin

text \<open>The parent a live row names is the live row at the parent path.\<close>

lemma GetByID_parent:
  assumes "toggle_inv (rows s)" "live_at (rows s) app path t" "length (Split dot path) > 1"
  obtains p where "live_at (rows s) app (parent_path path) p" "tg_ParentID t = Some (tg_ID p)"
    "tr_GetByID repo (tg_ID p) s = Some (Inr p, s)"
proof -
  from live_parent[OF assms] obtain p where
    p: "live_at (rows s) app (parent_path path) p" "tg_ParentID t = Some (tg_ID p)" by blast
  have "p \<in> set (rows s)" "toggle_live p" using p(1) by (auto simp: live_at_def)
  with GetByID[of "tg_ID p" s] have "tr_GetByID repo (tg_ID p) s = Some (Inr p, s)"
    using forest_unique[OF toggle_inv_forest[OF assms(1)]]
    by (fastforce simp: found_def split: sum.splits)
  with p that show ?thesis by blast
qed

lemma status_effective:
  assumes uc: "tu_toggleRepo uc = repo" and inv: "toggle_inv (rows s)" and "live_at (rows s) app path t"
  shows "isToggleEnabled uc t s = Some (Inr (effective (rows s) app path), s)"
  using assms(3)
proof (induction "length (Split dot path)" arbitrary: path t rule: less_induct)
  case less
  have en: "enabled_at (rows s) app path = tg_Enabled t" by (rule enabled_at_live[OF inv less.prems])
  show ?case
  proof (cases "length (Split dot path) > 1")
    case True
    from GetByID_parent[OF inv less.prems True] obtain p where
      p: "live_at (rows s) app (parent_path path) p" "tg_ParentID t = Some (tg_ID p)"
      "tr_GetByID repo (tg_ID p) s = Some (Inr p, s)" .
    have "isToggleEnabled uc p s = Some (Inr (effective (rows s) app (parent_path path)), s)"
      by (rule less.hyps[OF _ p(1)]) (use True in \<open>simp add: Split_parent_path\<close>)
    then show ?thesis
      by (subst isToggleEnabled.simps) (simp add: p uc ok_def effective_parent[OF True] en)
  next
    case False
    then have one: "length (Split dot path) = 1" using length_Split_pos[of dot path] by linarith
    from live_root[OF inv less.prems one] show ?thesis
      by (subst isToggleEnabled.simps) (simp add: ok_def effective_def prefixes_root[OF one] en)
  qed
qed

lemma ancestor_chain_rows:
  assumes uc: "tu_toggleRepo uc = repo" and inv: "toggle_inv (rows s)" and "live_at (rows s) app path t"
  shows "\<exists>cs. ancestor_chain uc t chain s = Some (Inr (chain @ cs), s)
    \<and> list_all2 (live_at (rows s) app) (butlast (path_prefixes path)) (rev cs)"
  using assms(3)
proof (induction "length (Split dot path)" arbitrary: path t chain rule: less_induct)
  case less
  show ?case
  proof (cases "length (Split dot path) > 1")
    case True
    from GetByID_parent[OF inv less.prems True] obtain p where
      p: "live_at (rows s) app (parent_path path) p" "tg_ParentID t = Some (tg_ID p)"
      "tr_GetByID repo (tg_ID p) s = Some (Inr p, s)" .
    have "\<exists>cs. ancestor_chain uc p (chain @ [p]) s = Some (Inr ((chain @ [p]) @ cs), s)
      \<and> list_all2 (live_at (rows s) app) (butlast (path_prefixes (parent_path path))) (rev cs)"
      by (rule less.hyps[OF _ p(1)]) (use True in \<open>simp add: Split_parent_path\<close>)
    then obtain cs where cs: "ancestor_chain uc p (chain @ [p]) s = Some (Inr ((chain @ [p]) @ cs), s)"
      "list_all2 (live_at (rows s) app) (butlast (path_prefixes (parent_path path))) (rev cs)" by blast
    have ne: "path_prefixes (parent_path path) \<noteq> []" and last: "last (path_prefixes (parent_path path)) = parent_path path"
      using length_Split_pos[of dot "parent_path path"] prefix_path_last[of "parent_path path"]
      by (auto simp: path_prefixes_def last_map)
    have "butlast (path_prefixes path) = butlast (path_prefixes (parent_path path)) @ [parent_path path]"
      using append_butlast_last_id[OF ne] last by (simp add: prefixes_parent[OF True])
    with cs(2) p(1) have "list_all2 (live_at (rows s) app) (butlast (path_prefixes path)) (rev (p # cs))"
      by (simp add: list_all2_appendI)
    moreover have "ancestor_chain uc t chain s = Some (Inr (chain @ p # cs), s)"
      by (subst ancestor_chain.simps) (use cs(1) p uc in simp)
    ultimately show ?thesis by blast
  next
    case False
    then have one: "length (Split dot path) = 1" using length_Split_pos[of dot path] by linarith
    from live_root[OF inv less.prems one] show ?thesis
      by (subst ancestor_chain.simps) (simp add: ok_def prefixes_root[OF one])
  qed
qed

end

text \<open>The specification of the blocking ancestor: the disabled proper prefix nearest the root.\<close>

definition blocker :: "toggle list \<Rightarrow> string \<Rightarrow> string \<Rightarrow> bool \<times> string" where
  "blocker R app path =
     (case List.find (\<lambda>p. \<not> enabled_at R app p) (butlast (path_prefixes path)) of
        None \<Rightarrow> (True, [])
      | Some p \<Rightarrow> (False, last (Split dot p)))"

lemma find_rows:
  assumes "toggle_inv R" "list_all2 (live_at R app) ps cs"
  shows "(case List.find (\<lambda>c. \<not> tg_Enabled c) cs of Some c \<Rightarrow> (False, tg_Value c) | None \<Rightarrow> (True, []))
    = (case List.find (\<lambda>p. \<not> enabled_at R app p) ps of None \<Rightarrow> (True, []) | Some p \<Rightarrow> (False, last (Split dot p)))"
  using assms(2)
  by (induction rule: list_all2_induct)
     (simp_all add: enabled_at_live[OF assms(1)] live_value(1)[OF assms(1)])

context toggle_repository
begin

lemma AncestorBlocker_blocker:
  assumes "tu_toggleRepo uc = repo" "toggle_inv (rows s)" "live_at (rows s) app path t"
  shows "AncestorBlocker uc t s = Some (Inr (blocker (rows s) app path), s)"
proof -
  from ancestor_chain_rows[OF assms, of "[]"] obtain cs where
    "ancestor_chain uc t [] s = Some (Inr cs, s)"
    "list_all2 (live_at (rows s) app) (butlast (path_prefixes path)) (rev cs)" by auto
  with find_rows[OF assms(2) this(2)] show ?thesis
    by (simp add: AncestorBlocker_def ok_def blocker_def)
qed

end

end
