(* ===== verification/ToggleSubtree.thy ===== *)
theory ToggleSubtree
  imports ToggleProps
begin

text \<open>
  The use cases that act on a whole subtree: enabling or disabling it, archiving it, restoring it and
  listing it. The lemmas say exactly what each does to the table, that it keeps the invariant, and
  that restoring undoes archiving.
\<close>

section \<open>changes that keep the tree\<close>

lemma under_map:
  assumes R: "forest R" and same: "\<And>x. x \<in> set R \<Longrightarrow> same_node x (g x)"
    and vis: "\<And>x. x \<in> set R \<Longrightarrow> vis (g x) = vis x" and x: "x \<in> set R"
  shows "under (filter vis (map g R)) i (g x) \<longleftrightarrow> under (filter vis R) i x"
proof
  have "\<exists>z\<in>set R. y = g z \<and> under (filter vis R) i z" if "under (filter vis (map g R)) i y" for y
    using that
  proof (induction rule: under.induct)
    case (under_root y)
    then obtain z where z: "z \<in> set R" "y = g z" "vis z" using vis by auto
    with under_root(2) same_nodeD(1)[OF same[OF z(1)]] have "under (filter vis R) i z"
      by (intro under.intros(1)) auto
    with z show ?case by blast
  next
    case (under_child p y)
    then obtain z q where z: "z \<in> set R" "y = g z" "vis z" and q: "q \<in> set R" "p = g q" "under (filter vis R) i q"
      using vis by auto
    then have "tg_ParentID z = Some (tg_ID q)"
      using under_child(3) same_nodeD(2)[OF same[OF z(1)]] same_nodeD(1)[OF same[OF q(1)]] by simp
    with z q(3) have "under (filter vis R) i z" using under.intros(2)[OF q(3), of z] by auto
    with z show ?case by blast
  qed
  note source = this
  assume "under (filter vis (map g R)) i (g x)"
  from source[OF this] obtain z where z: "z \<in> set R" "g x = g z" "under (filter vis R) i z" by blast
  with same_nodeD(1)[OF same[OF x]] same_nodeD(1)[OF same[OF z(1)]] have "tg_ID x = tg_ID z" by simp
  with z forest_unique[OF R x z(1)] show "under (filter vis R) i x" by simp
next
  assume "under (filter vis R) i x"
  then show "under (filter vis (map g R)) i (g x)"
  proof (induction rule: under.induct)
    case (under_root t)
    then have "t \<in> set R" by simp
    with under_root vis same_nodeD(1)[OF same] show ?case by (intro under.intros(1)) auto
  next
    case (under_child p t)
    then have tp: "t \<in> set R" "p \<in> set R" by (auto dest: under_in)
    have "tg_ParentID (g t) = Some (tg_ID (g p))"
      using under_child(3) same_nodeD(2)[OF same[OF tp(1)]] same_nodeD(1)[OF same[OF tp(2)]] by simp
    with under_child tp vis show ?case by (intro under.intros(2)[OF under_child.IH]) auto
  qed
qed

text \<open>A change of the columns that do not place a row keeps the invariant.\<close>

definition same_place :: "toggle \<Rightarrow> toggle \<Rightarrow> bool" where
  "same_place x y \<longleftrightarrow> same_node x y \<and> tg_Path y = tg_Path x \<and> tg_Value y = tg_Value x
     \<and> toggle_live y = toggle_live x"

lemma same_place_refl [simp]: "same_place x x"
  by (simp add: same_place_def)

lemma same_placeD:
  assumes "same_place x y"
  shows "same_node x y" "tg_Path y = tg_Path x" "tg_Value y = tg_Value x" "toggle_live y = toggle_live x"
  using assms by (auto simp: same_place_def)

lemma toggle_inv_map:
  assumes inv: "toggle_inv R" and same: "\<And>x. x \<in> set R \<Longrightarrow> same_place x (g x)"
  shows "toggle_inv (map g R)"
proof -
  note d = same_placeD[OF same] and nd = same_nodeD[OF same_placeD(1)[OF same]]
  have "well_placed (map g R) (g t)" if t: "t \<in> set R" "toggle_live t" for t
  proof -
    from inv t have "well_placed R t" by (simp add: toggle_inv_def)
    moreover have "live_at (map g R) a p (g q)" if "live_at R a p q" for a p q
      using that d[of q] nd[of q] by (auto simp: live_at_def)
    ultimately show ?thesis
      unfolding well_placed_def Let_def d(2)[OF t(1)] d(3)[OF t(1)] nd[OF t(1)]
      using nd(1) by (auto split: if_splits)
  qed
  moreover have "forest (map g R)" by (rule forest_map[OF toggle_inv_forest[OF inv] d(1)])
  moreover have "map (\<lambda>t. (tg_AppID t, tg_Path t)) (filter toggle_live (map g R))
      = map (\<lambda>t. (tg_AppID t, tg_Path t)) (filter toggle_live R)"
    using d(2,4) nd(4) by (induction R) (auto simp: same)
  ultimately show ?thesis using inv d(4) unfolding toggle_inv_def by auto
qed

text \<open>Archiving a subtree keeps it.\<close>

lemma if_else_mono: "(if c then A else B) \<Longrightarrow> (B \<Longrightarrow> B') \<Longrightarrow> (if c then A else B')"
  by simp

lemma toggle_inv_erase:
  assumes inv: "toggle_inv R"
  shows "toggle_inv (on_subtree toggle_live i (toggle_erased now) R)"
proof -
  let ?g = "\<lambda>x. if under (filter toggle_live R) i x then toggle_erased now x else x"
  have sn: "same_node x (?g x)" for x by (simp add: same_node_def toggle_erased_def)
  have live: "toggle_live (?g x) \<longleftrightarrow> toggle_live x \<and> \<not> under (filter toggle_live R) i x" for x
    by (simp add: toggle_live_def toggle_erased_def)
  have fix_live: "?g x = x" if "toggle_live (?g x)" for x using that live by auto
  have "well_placed (map ?g R) (?g t)" if t: "t \<in> set R" "toggle_live (?g t)" for t
  proof -
    have t': "toggle_live t" "\<not> under (filter toggle_live R) i t" using t(2) live by auto
    with inv t(1) have w: "well_placed R t" by (simp add: toggle_inv_def)
    have keep: "live_at (map ?g R) a p q" if q: "live_at R a p q" "tg_ParentID t = Some (tg_ID q)" for a p q
    proof -
      have "\<not> under (filter toggle_live R) i q"
        using t t' q(2) under.intros(2)[of "filter toggle_live R" i q t] by auto
      then have "?g q = q" by simp
      moreover have "?g q \<in> set (map ?g R)"
        unfolding set_map by (rule imageI) (use q(1) in \<open>simp add: live_at_def\<close>)
      ultimately show ?thesis using q(1) unfolding live_at_def by simp
    qed
    have "\<exists>p\<in>set (map ?g R). live_at (map ?g R) a b p \<and> tg_ParentID t = Some (tg_ID p)"
      if "\<exists>p\<in>set R. live_at R a b p \<and> tg_ParentID t = Some (tg_ID p)" for a b
      using that keep unfolding live_at_def[of "map ?g R"] by blast
    note parent = this and w' = w[unfolded well_placed_def Let_def]
    note rest = conjunct2[OF w']
    show ?thesis unfolding fix_live[OF t(2)] well_placed_def Let_def
      by (rule conjI[OF conjunct1[OF w'] conjI[OF conjunct1[OF rest] if_else_mono[OF conjunct2[OF rest] parent]]])
  qed
  then have placed: "\<forall>t\<in>set (map ?g R). toggle_live t \<longrightarrow> well_placed (map ?g R) t"
    unfolding set_map by blast
  have forest: "forest (map ?g R)" by (rule forest_map[OF toggle_inv_forest[OF inv] sn])
  have "filter toggle_live (map ?g R) = filter (\<lambda>x. \<not> under (filter toggle_live R) i x) (filter toggle_live R)"
    unfolding filter_map o_def live filter_filter by (subst map_idI) (auto intro: filter_cong)
  moreover have "distinct (map (\<lambda>t. (tg_AppID t, tg_Path t)) (filter toggle_live R))"
    using inv by (simp add: toggle_inv_def)
  ultimately have "distinct (map (\<lambda>t. (tg_AppID t, tg_Path t)) (filter toggle_live (map ?g R)))"
    by (simp only: distinct_map_filter)
  with placed forest show ?thesis unfolding toggle_inv_def on_subtree_def by blast
qed

section \<open>enabling a subtree\<close>

lemma attempt_ok_unit: "attempt m fail (\<lambda>_. ok ()) = (m :: ('s, 'e, unit) io)"
  by (auto simp: fun_eq_iff attempt_def ok_def fail_def split: option.splits sum.splits)

definition toggle_enabled :: "bool \<Rightarrow> toggle \<Rightarrow> toggle" where
  "toggle_enabled b t = toggle_columns (t\<lparr> tg_Enabled := b \<rparr>)"

lemma toggle_enabled_place: "same_place x (toggle_enabled b x)"
  by (simp add: same_place_def same_node_def toggle_enabled_def toggle_columns_def toggle_live_def)

context toggle_repository
begin

lemma GetByID_row:
  assumes "forest (rows s)" "t \<in> set (rows s)" "toggle_live t"
  shows "tr_GetByID repo (tg_ID t) s = Some (Inr t, s)"
  using GetByID[of "tg_ID t" s] assms forest_unique[OF assms(1)]
  by (fastforce simp: found_def split: sum.splits)

lemma enable_walk:
  assumes uc: "tu_toggleRepo uc = repo"
  shows "subtree_walk rows toggle_live (\<lambda>t. tg_AppID t = app) (toggle_enabled b) (\<lambda>x. x)
    (\<lambda>i. UpdateEnabledRecursively uc i b app) (\<lambda>_. ok ())"
proof
  fix s t assume f: "forest (rows s)" and t: "t \<in> set (rows s)" "toggle_live t" "tg_AppID t = app"
  have "\<exists>x\<in>set (rows s). toggle_live x \<and> tg_ID x = tg_ID (t\<lparr> tg_Enabled := b \<rparr>)" using t by auto
  from Update[OF this] obtain s1 where
    s1: "tr_Update repo (t\<lparr> tg_Enabled := b \<rparr>) s = Some (Inr (), s1)"
      "rows s1 = at_node toggle_live (tg_ID t) (\<lambda>_. toggle_enabled b t) (rows s)"
    by (auto simp: toggle_enabled_def)
  have r1: "rows s1 = at_node toggle_live (tg_ID t) (toggle_enabled b) (rows s)"
    unfolding s1(2) at_node_def using forest_unique[OF f _ t(1)] by (intro map_cong) auto
  have "forest (rows s1)" unfolding r1 at_node_def
    by (rule forest_map[OF f]) (simp add: same_placeD(1)[OF toggle_enabled_place])
  with GetChildren[of "tg_ID t" s1] obtain xs where
    xs: "tr_GetChildren repo (tg_ID t) s1 = Some (Inr xs, s1)"
    "set xs = {c \<in> set (rows s1). toggle_live c \<and> tg_ParentID c = Some (tg_ID t)}"
    "distinct (map tg_ID xs)" using forest_distinct by blast
  have "UpdateEnabledRecursively uc (tg_ID t) b app s
      = for_each (\<lambda>c. UpdateEnabledRecursively uc (tg_ID c) b app) xs s1"
    by (subst UpdateEnabledRecursively.simps) (simp add: uc GetByID_row[OF f t(1,2)] t(3) s1(1) xs(1))
  with r1 xs show "\<exists>cs s1. rows s1 = at_node toggle_live (tg_ID t) (toggle_enabled b) (rows s)
      \<and> set cs = {c \<in> set (rows s1). toggle_live c \<and> tg_ParentID c = Some (tg_ID t)}
      \<and> distinct (map tg_ID cs)
      \<and> UpdateEnabledRecursively uc (tg_ID t) b app s
        = attempt (for_each (\<lambda>c. UpdateEnabledRecursively uc (tg_ID c) b app) cs) fail (\<lambda>_. ok ()) s1"
    unfolding attempt_ok_unit by blast
qed (auto simp: same_placeD[OF toggle_enabled_place] at_node_def ok_def)

lemma UpdateEnabledRecursively_rows:
  assumes uc: "tu_toggleRepo uc = repo" and inv: "toggle_inv (rows s)"
    and t: "t \<in> set (rows s)" "toggle_live t" "tg_AppID t = app"
  shows "\<exists>s'. UpdateEnabledRecursively uc (tg_ID t) b app s = Some (Inr (), s')
    \<and> rows s' = on_subtree toggle_live (tg_ID t) (toggle_enabled b) (rows s) \<and> toggle_inv (rows s')"
proof -
  from subtree_walk.walk_subtree[OF enable_walk[OF uc] toggle_inv_forest[OF inv] t]
  obtain s' where s': "UpdateEnabledRecursively uc (tg_ID t) b app s = Some (Inr (), s')"
    "rows s' = on_subtree toggle_live (tg_ID t) (toggle_enabled b) (rows s)" by blast
  moreover have "toggle_inv (rows s')" unfolding s'(2) on_subtree_def
    by (rule toggle_inv_map[OF inv]) (simp add: toggle_enabled_place)
  ultimately show ?thesis by blast
qed

end


section \<open>archiving and restoring\<close>

text \<open>The row of an archived subtree: its root carries who deleted it.\<close>

definition archived_row :: "int \<Rightarrow> string \<Rightarrow> string \<Rightarrow> toggle \<Rightarrow> toggle" where
  "archived_row now deletedBy i t =
     toggle_erased now (if tg_ID t = i then toggle_marked deletedBy t else t)"

definition archived :: "int \<Rightarrow> string \<Rightarrow> string \<Rightarrow> toggle list \<Rightarrow> toggle list" where
  "archived now deletedBy i R = on_subtree toggle_live i (archived_row now deletedBy i) R"

lemma marked_place: "same_place x (toggle_marked u x)"
  by (simp add: same_place_def same_node_def toggle_marked_def toggle_live_def)

lemma archived_node: "same_node x (archived_row now u i x)"
  by (simp add: archived_row_def same_node_def toggle_erased_def toggle_marked_def)

lemma archived_dead: "\<not> toggle_live (archived_row now u i x)"
  by (simp add: archived_row_def toggle_live_def toggle_erased_def)

lemma restored_archived:
  "toggle_live x \<Longrightarrow> tg_DeletedBy x = None \<Longrightarrow> \<not> tg_ArchivedRoot x \<Longrightarrow> toggle_restored (archived_row now u i x) = x"
  by (cases x) (simp add: archived_row_def toggle_restored_def toggle_erased_def toggle_marked_def toggle_live_def)

lemma erase_marked:
  assumes R: "forest R" and t: "t \<in> set R" "toggle_live t" "tg_ID t = i"
  shows "on_subtree toggle_live i (toggle_erased now) (at_node toggle_live i (toggle_marked u) R)
    = archived now u i R"
proof -
  let ?m = "\<lambda>x. if toggle_live x \<and> tg_ID x = i then toggle_marked u x else x"
  have place: "same_place x (?m x)" for x by (simp add: marked_place)
  have u: "under (filter toggle_live (map ?m R)) i (?m x) \<longleftrightarrow> under (filter toggle_live R) i x" if "x \<in> set R" for x
    by (rule under_map[of R ?m toggle_live, OF R _ _ that]) (simp_all only: same_placeD[OF place])
  have "(if under (filter toggle_live (map ?m R)) i (?m x) then toggle_erased now (?m x) else ?m x)
      = (if under (filter toggle_live R) i x then archived_row now u i x else x)" if x: "x \<in> set R" for x
  proof (cases "under (filter toggle_live R) i x")
    case True
    then have "toggle_live x" by (auto dest: under_in)
    with True u[OF x] show ?thesis by (simp add: archived_row_def)
  next
    case False
    then have "\<not> (toggle_live x \<and> tg_ID x = i)" using x by (auto intro: under.intros(1))
    with False u[OF x] show ?thesis by auto
  qed
  then show ?thesis unfolding archived_def on_subtree_def at_node_def map_map o_def
    by (intro map_cong refl) blast
qed

context toggle_repository
begin

lemma DeleteToggleByID_rows:
  assumes uc: "tu_toggleRepo uc = repo" and inv: "toggle_inv (rows s)"
    and t: "t \<in> set (rows s)" "toggle_live t" "tg_AppID t = app" and ne: "tg_ID t \<noteq> []" "app \<noteq> []"
  shows "\<exists>s'. DeleteToggleByID uc (tg_ID t) app u s = Some (Inr (), s')
    \<and> rows s' = archived now u (tg_ID t) (rows s) \<and> toggle_inv (rows s')"
proof -
  note f = toggle_inv_forest[OF inv]
  from MarkDeletionMeta[of "tg_ID t" u s] obtain s1 where
    s1: "tr_MarkDeletionMeta repo (tg_ID t) u s = Some (Inr (), s1)"
      "rows s1 = at_node toggle_live (tg_ID t) (toggle_marked u) (rows s)" by blast
  have inv1: "toggle_inv (rows s1)" unfolding s1(2) at_node_def
    by (rule toggle_inv_map[OF inv]) (simp add: marked_place)
  have "toggle_marked u t \<in> set (rows s1)" unfolding s1(2) at_node_def using t by (auto simp: image_iff)
  moreover have "toggle_live (toggle_marked u t)" "tg_ID (toggle_marked u t) = tg_ID t"
    using same_placeD(1,4)[OF marked_place] t(2) same_nodeD(1) by auto
  ultimately obtain s2 where s2: "tr_Delete repo (tg_ID t) s1 = Some (Inr (), s2)"
    "rows s2 = on_subtree toggle_live (tg_ID t) (toggle_erased now) (rows s1)"
    using Delete[OF toggle_inv_forest[OF inv1]] by metis
  have "DeleteToggleByID uc (tg_ID t) app u s = Some (Inr (), s2)"
    using GetByID_row[OF f t(1,2)] ne t(3) s1(1) s2(1) by (simp add: DeleteToggleByID_def uc ok_def)
  moreover have "rows s2 = archived now u (tg_ID t) (rows s)"
    unfolding s2(2) s1(2) by (rule erase_marked[OF f t(1,2) refl])
  moreover have "toggle_inv (rows s2)" unfolding s2(2) by (rule toggle_inv_erase[OF inv1])
  ultimately show ?thesis by blast
qed

text \<open>The collision check succeeds exactly when no live row has the path of a row of the subtree.\<close>

lemma for_each_check:
  assumes "\<And>x. x \<in> set xs \<Longrightarrow> \<exists>r. f x s = Some (r, s) \<and> (r = Inr () \<longleftrightarrow> P x)"
  shows "\<exists>r. for_each f xs s = Some (r, s) \<and> (r = Inr () \<longleftrightarrow> (\<forall>x\<in>set xs. P x))"
  using assms
proof (induction xs)
  case Nil
  then show ?case by (simp add: ok_def)
next
  case (Cons x xs)
  from Cons.prems[of x] obtain r where r: "f x s = Some (r, s)" "r = Inr () \<longleftrightarrow> P x" by auto
  show ?case
  proof (cases r)
    case (Inl e)
    with r show ?thesis by (simp add: fail_def)
  next
    case (Inr u)
    with r Cons show ?thesis by simp
  qed
qed

lemma checkRestoreCollision_iff:
  assumes uc: "tu_toggleRepo uc = repo" and f: "forest (rows s)" and t: "t \<in> set (rows s)"
  shows "\<exists>r. checkRestoreCollision uc t s = Some (r, s)
    \<and> (r = Inr () \<longleftrightarrow> (\<forall>x. under (rows s) (tg_ID t) x \<longrightarrow> missing (rows s) (tg_AppID x) (tg_Path x)))"
proof -
  define M where "M = Max (set (map tg_Level (rows s)))"
  have M: "x \<in> set (rows s) \<Longrightarrow> tg_Level x \<le> M" for x by (simp add: M_def)
  show ?thesis using t
  proof (induction "nat (M - tg_Level t)" arbitrary: t rule: less_induct)
    case less
    have ex: "tr_Exists repo (tg_Path t) (tg_AppID t) s = Some (Inr (\<not> missing (rows s) (tg_AppID t) (tg_Path t)), s)"
      using Exists[of "tg_Path t" "tg_AppID t" s] by (auto simp: missing_def live_at_def)
    note kids = under_children[OF f order_refl less.prems]
    show ?case
    proof (cases "missing (rows s) (tg_AppID t) (tg_Path t)")
      case False
      with kids have "\<not> (\<forall>x. under (rows s) (tg_ID t) x \<longrightarrow> missing (rows s) (tg_AppID x) (tg_Path x))" by auto
      with False show ?thesis
        by (subst checkRestoreCollision.simps) (simp add: uc ex fail_def)
    next
      case True
      from GetChildrenUnscoped[of "tg_ID t" s] obtain xs where
        xs: "tr_GetChildrenUnscoped repo (tg_ID t) s = Some (Inr xs, s)"
        "set xs = {c \<in> set (rows s). tg_ParentID c = Some (tg_ID t)}" by blast
      have "\<exists>r. for_each (checkRestoreCollision uc) xs s = Some (r, s) \<and> (r = Inr () \<longleftrightarrow>
          (\<forall>c\<in>set xs. \<forall>x. under (rows s) (tg_ID c) x \<longrightarrow> missing (rows s) (tg_AppID x) (tg_Path x)))"
      proof (rule for_each_check)
        fix c assume c: "c \<in> set xs"
        then have "tg_Level c = tg_Level t + 1" using xs(2) forest_parent_of(1)[OF f _ less.prems] by auto
        moreover have "tg_Level c \<le> M" using c xs(2) M by auto
        ultimately show "\<exists>r. checkRestoreCollision uc c s = Some (r, s) \<and> (r = Inr () \<longleftrightarrow>
            (\<forall>x. under (rows s) (tg_ID c) x \<longrightarrow> missing (rows s) (tg_AppID x) (tg_Path x)))"
          using less.hyps[of c] c xs(2) by auto
      qed
      then obtain r where r: "for_each (checkRestoreCollision uc) xs s = Some (r, s)"
        "r = Inr () \<longleftrightarrow> (\<forall>c\<in>set xs. \<forall>x. under (rows s) (tg_ID c) x \<longrightarrow> missing (rows s) (tg_AppID x) (tg_Path x))"
        by blast
      have "tr_Exists repo (tg_Path t) (tg_AppID t) s = Some (Inr False, s)" using ex True by simp
      then have "checkRestoreCollision uc t s = Some (r, s)"
        by (subst checkRestoreCollision.simps) (simp add: uc attempt_simps(3) xs(1) r(1))
      moreover have "(\<forall>x. under (rows s) (tg_ID t) x \<longrightarrow> missing (rows s) (tg_AppID x) (tg_Path x))
          \<longleftrightarrow> (\<forall>c\<in>set xs. \<forall>x. under (rows s) (tg_ID c) x \<longrightarrow> missing (rows s) (tg_AppID x) (tg_Path x))"
        unfolding kids xs(2) using True by blast
      ultimately show ?thesis using r(2) by blast
    qed
  qed
qed

lemma GetByIDUnscoped_row:
  assumes "forest (rows s)" "t \<in> set (rows s)"
  shows "tr_GetByIDUnscoped repo (tg_ID t) s = Some (Inr t, s)"
  using GetByIDUnscoped[of "tg_ID t" s] assms forest_unique[OF assms(1)]
  by (fastforce simp: found_def split: sum.splits)

text \<open>Restoring an archive root succeeds exactly when no path of its subtree is taken.\<close>

lemma RestoreToggle_rows:
  assumes uc: "tu_toggleRepo uc = repo" and f: "forest (rows s)" and t: "t \<in> set (rows s)"
    and root: "tg_ArchivedRoot t" "tg_AppID t = app" and ne: "tg_ID t \<noteq> []" "app \<noteq> []"
  shows "\<exists>r s'. RestoreToggle uc (tg_ID t) app s = Some (r, s')
    \<and> (if \<forall>x. under (rows s) (tg_ID t) x \<longrightarrow> missing (rows s) (tg_AppID x) (tg_Path x)
       then r = Inr () \<and> rows s' = on_subtree (\<lambda>_. True) (tg_ID t) toggle_restored (rows s)
       else r \<noteq> Inr () \<and> s' = s)"
proof -
  from checkRestoreCollision_iff[OF uc f t] obtain r where
    r: "checkRestoreCollision uc t s = Some (r, s)"
      "r = Inr () \<longleftrightarrow> (\<forall>x. under (rows s) (tg_ID t) x \<longrightarrow> missing (rows s) (tg_AppID x) (tg_Path x))" by blast
  from Restore[OF f t] obtain s' where s': "tr_Restore repo (tg_ID t) s = Some (Inr (), s')"
    "rows s' = on_subtree (\<lambda>_. True) (tg_ID t) toggle_restored (rows s)" by blast
  have start: "RestoreToggle uc (tg_ID t) app s = attempt (checkRestoreCollision uc t) fail (\<lambda>_.
      attempt (tr_Restore repo (tg_ID t)) (\<lambda>_. app_fail ErrCodeDatabase ''error restoring toggle'') ok) s"
    using GetByIDUnscoped_row[OF f t] root ne by (simp add: RestoreToggle_def uc)
  show ?thesis
  proof (cases r)
    case (Inl e)
    with start r show ?thesis by (simp add: fail_def)
  next
    case (Inr u)
    with start r s' show ?thesis by (simp add: ok_def)
  qed
qed

end


section \<open>the listing\<close>

text \<open>All nodes of a listing, in the order they are written.\<close>

fun all_nodes :: "toggle_node \<Rightarrow> toggle_node list" where
  "all_nodes (ToggleNode i v e ns) = ToggleNode i v e ns # concat (map all_nodes ns)"

definition node_status :: "toggle_node \<Rightarrow> string \<times> bool" where
  "node_status n = (nd_id n, nd_enabled n)"

text \<open>
  A list of rows of one application, as the repository returns it: the live rows of a well-formed
  table.
\<close>

lemma child_rows_set:
  assumes inv: "toggle_inv R" and xs: "set xs = {t \<in> set R. toggle_live t \<and> tg_AppID t = app}"
    and t: "t \<in> set xs"
  shows "set (child_rows xs t) = {c \<in> set R. toggle_live c \<and> tg_ParentID c = Some (tg_ID t)}"
proof -
  have tR: "t \<in> set R" "tg_AppID t = app" using t xs by auto
  show ?thesis
    unfolding child_rows_def byLevel_def using xs tR forest_parent_of[OF toggle_inv_forest[OF inv] _ tR(1)]
    by auto
qed

lemma nodes_under:
  assumes inv: "toggle_inv R" and xs: "set xs = {t \<in> set R. toggle_live t \<and> tg_AppID t = app}"
    and "t \<in> set xs" "effective R app (tg_Path t) = (tg_Enabled t \<and> pe)"
  shows "node_status ` set (all_nodes (buildToggleNodeRecursiveArray xs t pe))
    = (\<lambda>x. (tg_ID x, effective R app (tg_Path x))) ` {x. under (filter toggle_live R) (tg_ID t) x}"
  using assms(3,4)
proof (induction "length (filter (\<lambda>x. tg_Level x > tg_Level t) xs)" arbitrary: t pe rule: less_induct)
  case less
  let ?V = "filter toggle_live R" and ?e = "tg_Enabled t \<and> pe"
  let ?st = "\<lambda>x. (tg_ID x, effective R app (tg_Path x))"
  have tR: "t \<in> set R" "toggle_live t" "tg_AppID t = app" using less.prems(1) xs by auto
  note kids = child_rows_set[OF inv xs less.prems(1)]
  have child: "node_status ` set (all_nodes (buildToggleNodeRecursiveArray xs c ?e))
      = ?st ` {x. under ?V (tg_ID c) x}" if c: "c \<in> set (child_rows xs t)" for c
  proof (rule less.hyps[OF child_rows_deeper[OF c]])
    have c': "c \<in> set R" "toggle_live c" "tg_ParentID c = Some (tg_ID t)" using c kids by auto
    have app: "tg_AppID c = app" using forest_parent_of(2)[OF toggle_inv_forest[OF inv] c'(1) tR(1) c'(3)] tR(3) by simp
    then show "c \<in> set xs" using c' xs by simp
    have lc: "live_at R app (tg_Path c) c" using c' app by (simp add: live_at_def)
    then have "length (Split dot (tg_Path c)) \<noteq> 1" using live_root[OF inv lc] c'(3) by auto
    then have len: "length (Split dot (tg_Path c)) > 1" using length_Split_pos[of dot "tg_Path c"] by linarith
    from live_parent[OF inv lc len] obtain p where
      p: "live_at R app (parent_path (tg_Path c)) p" "tg_ParentID c = Some (tg_ID p)" .
    have "p = t" using p c'(3) forest_unique[OF toggle_inv_forest[OF inv] _ tR(1)] by (auto simp: live_at_def)
    with p(1) have "parent_path (tg_Path c) = tg_Path t" by (auto simp: live_at_def)
    then show "effective R app (tg_Path c) = (tg_Enabled c \<and> ?e)"
      using effective_parent[OF len, of R app] enabled_at_live[OF inv lc] less.prems(2) by auto
  qed
  have "under ?V (tg_ID t) x \<longleftrightarrow> x = t \<or> (\<exists>c\<in>set (child_rows xs t). under ?V (tg_ID c) x)" for x
    using under_children[OF toggle_inv_forest[OF inv], of ?V t x] tR kids by auto
  then have "{x. under ?V (tg_ID t) x} = insert t (\<Union>c\<in>set (child_rows xs t). {x. under ?V (tg_ID c) x})"
    by auto
  moreover have "node_status ` set (all_nodes (buildToggleNodeRecursiveArray xs t pe))
      = insert (tg_ID t, ?e) (\<Union>c\<in>set (child_rows xs t).
          node_status ` set (all_nodes (buildToggleNodeRecursiveArray xs c ?e)))"
    by (subst buildToggleNodeRecursiveArray.simps) (simp add: Let_def node_status_def image_UN)
  ultimately show ?case using child less.prems(2) by (simp add: image_UN)
qed

text \<open>Every node of the tree is built for a row of the list, its children for the rows below it, and none twice.\<close>

lemma all_nodes_built: "all_nodes (buildToggleNodeRecursiveArray xs t pe)
  = ToggleNode (tg_ID t) (tg_Value t) (tg_Enabled t \<and> pe)
      (map (\<lambda>c. buildToggleNodeRecursiveArray xs c (tg_Enabled t \<and> pe)) (child_rows xs t))
    # concat (map (\<lambda>c. all_nodes (buildToggleNodeRecursiveArray xs c (tg_Enabled t \<and> pe))) (child_rows xs t))"
  by (subst buildToggleNodeRecursiveArray.simps) (simp add: Let_def o_def)

lemma nd_built [simp]: "nd_id (buildToggleNodeRecursiveArray xs t pe) = tg_ID t"
  by (subst buildToggleNodeRecursiveArray.simps) (simp add: Let_def)

lemma node_of_row:
  assumes "n \<in> set (all_nodes (buildToggleNodeRecursiveArray xs t pe))" "t \<in> set xs"
  shows "\<exists>x\<in>set xs. nd_id n = tg_ID x \<and> nd_value n = tg_Value x \<and> map nd_id (nd_toggles n) = map tg_ID (child_rows xs x)"
  using assms
proof (induction xs t pe rule: buildToggleNodeRecursiveArray.induct)
  case (1 xs t pe)
  from 1(2) consider "n = ToggleNode (tg_ID t) (tg_Value t) (tg_Enabled t \<and> pe)
      (map (\<lambda>c. buildToggleNodeRecursiveArray xs c (tg_Enabled t \<and> pe)) (child_rows xs t))"
    | c where "c \<in> set (child_rows xs t)" "n \<in> set (all_nodes (buildToggleNodeRecursiveArray xs c (tg_Enabled t \<and> pe)))"
    unfolding all_nodes_built[of xs t pe] by auto
  then show ?case
  proof cases
    case 1
    with \<open>t \<in> set xs\<close> show ?thesis by (intro bexI[of _ t]) (simp_all add: o_def)
  next
    case 2
    moreover have "c \<in> set xs" using 2(1) by (simp add: child_rows_def byLevel_def)
    ultimately show ?thesis using 1(1)[OF refl 2(1)] by blast
  qed
qed

lemma distinct_concat_map:
  assumes "distinct xs" "\<And>x. x \<in> set xs \<Longrightarrow> distinct (f x)"
    and "\<And>x y. x \<in> set xs \<Longrightarrow> y \<in> set xs \<Longrightarrow> x \<noteq> y \<Longrightarrow> set (f x) \<inter> set (f y) = {}"
  shows "distinct (concat (map f xs))"
  using assms by (induction xs) auto

lemma under_siblings:
  assumes inv: "toggle_inv R" and "x \<in> set R" "y \<in> set R" "tg_Level x = tg_Level y"
    and "under (filter toggle_live R) (tg_ID x) z" "under (filter toggle_live R) (tg_ID y) z"
  shows "x = y"
  using under_same_level[OF assms(5,6) toggle_inv_forest[OF inv]] assms(2-4) forest_unique[OF toggle_inv_forest[OF inv]] by auto

lemma ids_under:
  assumes inv: "toggle_inv R" and xs: "set xs = {t \<in> set R. toggle_live t \<and> tg_AppID t = app}"
    and "t \<in> set xs" "i \<in> nd_id ` set (all_nodes (buildToggleNodeRecursiveArray xs t pe))"
  shows "\<exists>x. under (filter toggle_live R) (tg_ID t) x \<and> i = tg_ID x"
  using assms
proof (induction xs t pe rule: buildToggleNodeRecursiveArray.induct)
  case (1 xs t pe)
  have t: "t \<in> set (filter toggle_live R)" using 1(3,4) by auto
  from 1(5) consider "i = tg_ID t"
    | c where "c \<in> set (child_rows xs t)" "i \<in> nd_id ` set (all_nodes (buildToggleNodeRecursiveArray xs c (tg_Enabled t \<and> pe)))"
    unfolding all_nodes_built[of xs t pe] by auto
  then show ?case
  proof cases
    case 1
    with under.intros(1)[OF t refl] show ?thesis by blast
  next
    case 2
    then have c: "c \<in> set xs" by (simp add: child_rows_def byLevel_def)
    from 1(1)[OF refl 2(1) inv 1(3) c 2(2)] obtain x where x: "under (filter toggle_live R) (tg_ID c) x" "i = tg_ID x" by blast
    have "c \<in> set (filter toggle_live R)" "tg_ParentID c = Some (tg_ID t)" using 2(1) c 1(3) by (auto simp: child_rows_def)
    with x under_children[OF toggle_inv_forest[OF inv] filter_is_subset t, of x] show ?thesis by blast
  qed
qed

lemma nodes_distinct:
  assumes inv: "toggle_inv R" and xs: "set xs = {t \<in> set R. toggle_live t \<and> tg_AppID t = app}"
    and ids: "distinct (map tg_ID xs)" and "t \<in> set xs"
  shows "distinct (map nd_id (all_nodes (buildToggleNodeRecursiveArray xs t pe)))"
  using assms
proof (induction xs t pe rule: buildToggleNodeRecursiveArray.induct)
  case (1 xs t pe)
  let ?e = "tg_Enabled t \<and> pe" and ?V = "filter toggle_live R"
  note f = toggle_inv_forest[OF inv]
  have tR: "t \<in> set R" using 1(3,5) by auto
  have kid: "c \<in> set xs" "c \<in> set R" "tg_Level c = tg_Level t + 1" if "c \<in> set (child_rows xs t)" for c
    using that 1(3) by (auto simp: child_rows_def byLevel_def)
  have "tg_ID t \<notin> nd_id ` set (all_nodes (buildToggleNodeRecursiveArray xs c ?e))" if c: "c \<in> set (child_rows xs t)" for c
  proof
    assume "tg_ID t \<in> nd_id ` set (all_nodes (buildToggleNodeRecursiveArray xs c ?e))"
    from ids_under[OF inv 1(3) kid(1)[OF c] this] obtain x where x: "under ?V (tg_ID c) x" "tg_ID t = tg_ID x" by blast
    then have "x = t" using forest_unique[OF f _ tR] under_in by fastforce
    with under_level[OF x(1) f filter_is_subset kid(2)[OF c] refl] kid(3)[OF c] show False by auto
  qed
  moreover have "distinct (concat (map (\<lambda>c. map nd_id (all_nodes (buildToggleNodeRecursiveArray xs c ?e))) (child_rows xs t)))"
  proof (rule distinct_concat_map)
    show "distinct (child_rows xs t)" using 1(4) by (auto simp: child_rows_def byLevel_def distinct_map)
    show "distinct (map nd_id (all_nodes (buildToggleNodeRecursiveArray xs c ?e)))" if c: "c \<in> set (child_rows xs t)" for c
      using 1(1)[OF refl c inv 1(3,4) kid(1)[OF c]] .
    show "set (map nd_id (all_nodes (buildToggleNodeRecursiveArray xs c ?e)))
        \<inter> set (map nd_id (all_nodes (buildToggleNodeRecursiveArray xs c' ?e))) = {}"
      if c: "c \<in> set (child_rows xs t)" "c' \<in> set (child_rows xs t)" "c \<noteq> c'" for c c'
    proof (rule ccontr)
      assume "\<not> ?thesis"
      then obtain i where "i \<in> nd_id ` set (all_nodes (buildToggleNodeRecursiveArray xs c ?e))"
        "i \<in> nd_id ` set (all_nodes (buildToggleNodeRecursiveArray xs c' ?e))" by auto
      with ids_under[OF inv 1(3) kid(1)[OF c(1)]] ids_under[OF inv 1(3) kid(1)[OF c(2)]] obtain x y where
        x: "under ?V (tg_ID c) x" "under ?V (tg_ID c') y" "tg_ID x = tg_ID y" by metis
      then have "x = y" using forest_unique[OF f] by (metis filter_is_subset subsetD under_in)
      with under_siblings[OF inv kid(2)[OF c(1)] kid(2)[OF c(2)]] kid(3)[OF c(1)] kid(3)[OF c(2)] x(1,2) c(3)
      show False by simp
    qed
  qed
  ultimately show ?case unfolding all_nodes_built[of xs t pe] by (auto simp: map_concat o_def)
qed

text \<open>Every live row is below a root.\<close>

lemma under_some_root:
  assumes inv: "toggle_inv R" and "live_at R app path t"
  shows "\<exists>r\<in>set R. toggle_live r \<and> tg_AppID r = app \<and> tg_Level r = 0 \<and> under (filter toggle_live R) (tg_ID r) t"
  using assms(2)
proof (induction "length (Split dot path)" arbitrary: path t rule: less_induct)
  case less
  show ?case
  proof (cases "length (Split dot path) > 1")
    case True
    from live_parent[OF inv less.prems True] obtain p where
      p: "live_at R app (parent_path path) p" "tg_ParentID t = Some (tg_ID p)" .
    from less.hyps[OF _ p(1)] True obtain r where
      r: "r \<in> set R" "toggle_live r" "tg_AppID r = app" "tg_Level r = 0" "under (filter toggle_live R) (tg_ID r) p"
      by (auto simp: Split_parent_path)
    moreover have "under (filter toggle_live R) (tg_ID r) t"
      by (rule under.intros(2)[OF r(5) _ p(2)]) (use less.prems in \<open>simp add: live_at_def\<close>)
    ultimately show ?thesis by blast
  next
    case False
    then have "tg_Level t = 0" using live_value(2)[OF inv less.prems] length_Split_pos[of dot path] by linarith
    with less.prems show ?thesis by (auto simp: live_at_def intro!: bexI[of _ t] under.intros(1))
  qed
qed

lemma level_root: "toggle_inv R \<Longrightarrow> t \<in> set R \<Longrightarrow> toggle_live t \<Longrightarrow> tg_Level t = 0 \<longleftrightarrow> tg_ParentID t = None"
  using length_Split_pos[of dot "tg_Path t"]
  by (auto simp: toggle_inv_def well_placed_def Let_def split: if_splits)

lemma under_app:
  assumes "forest R" "r \<in> set R" "under (filter toggle_live R) (tg_ID r) x"
  shows "tg_AppID x = tg_AppID r"
  using assms(3)
proof (induction rule: under.induct)
  case (under_root t)
  then have "t = r" using forest_unique[OF assms(1) _ assms(2)] by simp
  then show ?case by simp
next
  case (under_child p t)
  then have "t \<in> set R" "p \<in> set R" by (auto dest: under_in)
  with under_child show ?case using forest_parent_of(2)[OF assms(1)] by simp
qed

context toggle_repository
begin

lemma GetToggleHierarchy_nodes:
  assumes uc: "tu_toggleRepo uc = repo" and inv: "toggle_inv (rows s)" and ne: "app \<noteq> []"
  shows "\<exists>ns. GetToggleHierarchy uc app s = Some (Inr ns, s)
    \<and> node_status ` set (concat (map all_nodes ns))
      = (\<lambda>t. (tg_ID t, effective (rows s) app (tg_Path t)))
          ` {t \<in> set (rows s). toggle_live t \<and> tg_AppID t = app}
    \<and> distinct (map nd_id (concat (map all_nodes ns)))
    \<and> nd_id ` set ns = tg_ID ` {t \<in> set (rows s). toggle_live t \<and> tg_AppID t = app \<and> tg_ParentID t = None}
    \<and> (\<forall>n\<in>set (concat (map all_nodes ns)). \<exists>t\<in>set (rows s). toggle_live t \<and> tg_ID t = nd_id n \<and> tg_Value t = nd_value n
        \<and> nd_id ` set (nd_toggles n) = tg_ID ` {c \<in> set (rows s). toggle_live c \<and> tg_ParentID c = Some (nd_id n)})"
proof -
  let ?R = "rows s" and ?st = "\<lambda>t. (tg_ID t, effective (rows s) app (tg_Path t))"
  note f = toggle_inv_forest[OF inv]
  from GetHierarchyByAppID[of app s] obtain xs where
    xs: "tr_GetHierarchyByAppID repo app s = Some (Inr xs, s)"
      "set xs = {t \<in> set ?R. toggle_live t \<and> tg_AppID t = app}" "distinct (map tg_ID xs)"
    using forest_distinct[OF f] by blast
  have node: "node_status ` set (all_nodes (buildToggleNodeArray xs r))
      = ?st ` {x. under (filter toggle_live ?R) (tg_ID r) x}" if r: "r \<in> set (byLevel xs 0)" for r
  proof -
    have r': "r \<in> set xs" "tg_Level r = 0" using r by (auto simp: byLevel_def)
    then have lr: "live_at ?R app (tg_Path r) r" using xs(2) by (auto simp: live_at_def)
    have one: "length (Split dot (tg_Path r)) = 1"
      using live_value(2)[OF inv lr] r'(2) length_Split_pos[of dot "tg_Path r"] by linarith
    have "effective ?R app (tg_Path r) = (tg_Enabled r \<and> tg_Enabled r)"
      using enabled_at_live[OF inv lr] by (simp add: effective_def prefixes_root[OF one])
    from nodes_under[OF inv xs(2) r'(1) this] show ?thesis by (simp add: buildToggleNodeArray_def)
  qed
  have "(\<Union>r\<in>set (byLevel xs 0). {x. under (filter toggle_live ?R) (tg_ID r) x})
      = {t \<in> set ?R. toggle_live t \<and> tg_AppID t = app}"
  proof (intro equalityI subsetI)
    fix x assume "x \<in> (\<Union>r\<in>set (byLevel xs 0). {x. under (filter toggle_live ?R) (tg_ID r) x})"
    then obtain r where "r \<in> set xs" "under (filter toggle_live ?R) (tg_ID r) x" by (auto simp: byLevel_def)
    then show "x \<in> {t \<in> set ?R. toggle_live t \<and> tg_AppID t = app}"
      using xs(2) under_app[OF f] by (auto dest: under_in)
  next
    fix x assume "x \<in> {t \<in> set ?R. toggle_live t \<and> tg_AppID t = app}"
    then have "live_at ?R app (tg_Path x) x" by (simp add: live_at_def)
    from under_some_root[OF inv this] show "x \<in> (\<Union>r\<in>set (byLevel xs 0). {x. under (filter toggle_live ?R) (tg_ID r) x})"
      using xs(2) by (auto simp: byLevel_def)
  qed
  note all = this
  have "node_status ` set (concat (map all_nodes (buildHierarchyArray xs)))
      = (\<Union>r\<in>set (byLevel xs 0). node_status ` set (all_nodes (buildToggleNodeArray xs r)))"
    by (simp add: buildHierarchyArray_def image_UN)
  also have "\<dots> = ?st ` (\<Union>r\<in>set (byLevel xs 0). {x. under (filter toggle_live ?R) (tg_ID r) x})"
    using node by (simp add: image_UN)
  finally have status: "node_status ` set (concat (map all_nodes (buildHierarchyArray xs)))
      = ?st ` {t \<in> set ?R. toggle_live t \<and> tg_AppID t = app}" unfolding all .
  have dist: "distinct (map nd_id (concat (map all_nodes (buildHierarchyArray xs))))"
  proof -
    have "distinct (concat (map (\<lambda>r. map nd_id (all_nodes (buildToggleNodeArray xs r))) (byLevel xs 0)))"
    proof (rule distinct_concat_map)
      show "distinct (byLevel xs 0)" using xs(3) by (auto simp: byLevel_def distinct_map)
      show "distinct (map nd_id (all_nodes (buildToggleNodeArray xs r)))" if "r \<in> set (byLevel xs 0)" for r
        using that nodes_distinct[OF inv xs(2,3)] by (simp add: buildToggleNodeArray_def byLevel_def)
      show "set (map nd_id (all_nodes (buildToggleNodeArray xs r))) \<inter> set (map nd_id (all_nodes (buildToggleNodeArray xs r'))) = {}"
        if r: "r \<in> set (byLevel xs 0)" "r' \<in> set (byLevel xs 0)" "r \<noteq> r'" for r r'
      proof (rule ccontr)
        have rs: "r \<in> set xs" "r' \<in> set xs" "r \<in> set ?R" "r' \<in> set ?R" "tg_Level r = tg_Level r'"
          using r xs(2) by (auto simp: byLevel_def)
        assume "\<not> ?thesis"
        then obtain x y where x: "under (filter toggle_live ?R) (tg_ID r) x" "under (filter toggle_live ?R) (tg_ID r') y"
          "tg_ID x = tg_ID y"
          using ids_under[OF inv xs(2) rs(1)] ids_under[OF inv xs(2) rs(2)] unfolding buildToggleNodeArray_def
          by (metis disjoint_iff list.set_map)
        then have "x = y" using forest_unique[OF f] by (metis filter_is_subset subsetD under_in)
        with under_siblings[OF inv rs(3-5)] x(1,2) r(3) show False by simp
      qed
    qed
    then show ?thesis by (simp add: buildHierarchyArray_def map_concat o_def)
  qed
  have roots: "nd_id ` set (buildHierarchyArray xs) = tg_ID ` {t \<in> set ?R. toggle_live t \<and> tg_AppID t = app \<and> tg_ParentID t = None}"
  proof -
    have "set (byLevel xs 0) = {t \<in> set ?R. toggle_live t \<and> tg_AppID t = app \<and> tg_ParentID t = None}"
      using xs(2) level_root[OF inv] by (auto simp: byLevel_def)
    then show ?thesis by (simp add: buildHierarchyArray_def image_image buildToggleNodeArray_def)
  qed
  have nodes: "\<exists>t\<in>set ?R. toggle_live t \<and> tg_ID t = nd_id n \<and> tg_Value t = nd_value n
      \<and> nd_id ` set (nd_toggles n) = tg_ID ` {c \<in> set ?R. toggle_live c \<and> tg_ParentID c = Some (nd_id n)}"
    if "n \<in> set (concat (map all_nodes (buildHierarchyArray xs)))" for n
  proof -
    from that obtain r where "r \<in> set xs" "n \<in> set (all_nodes (buildToggleNodeRecursiveArray xs r (tg_Enabled r)))"
      by (auto simp: buildHierarchyArray_def buildToggleNodeArray_def byLevel_def)
    from node_of_row[OF this(2,1)] obtain x where x: "x \<in> set xs" "nd_id n = tg_ID x" "nd_value n = tg_Value x"
      "map nd_id (nd_toggles n) = map tg_ID (child_rows xs x)" by blast
    from arg_cong[OF x(4), of set] child_rows_set[OF inv xs(2) x(1)] x(2)
    have "nd_id ` set (nd_toggles n) = tg_ID ` {c \<in> set ?R. toggle_live c \<and> tg_ParentID c = Some (nd_id n)}" by simp
    with x(1-3) xs(2) show ?thesis by (intro bexI[of _ x]) auto
  qed
  have "GetToggleHierarchy uc app s = Some (Inr (buildHierarchyArray xs), s)"
    using xs(1) ne by (simp add: GetToggleHierarchy_def uc ok_def)
  then show ?thesis using status dist roots nodes by (intro exI[of _ "buildHierarchyArray xs"] conjI ballI)
qed

end

end
