(* ===== verification/ToggleTheorems.thy ===== *)
theory ToggleTheorems
  imports ToggleSubtree
begin

text \<open>
  The properties of the toggle use cases over the GORM repository, on any database that answers as
  documented, with witnesses on the tables in memory.
\<close>

definition NewToggleUseCase :: "'s toggle_repo \<Rightarrow> 's app_repo \<Rightarrow> 's toggle_usecase" where
  "NewToggleUseCase toggleRepo appRepo = \<lparr> tu_toggleRepo = toggleRepo, tu_appRepo = appRepo \<rparr>"

lemma NewToggleUseCase_sel [simp]:
  "tu_toggleRepo (NewToggleUseCase tr ar) = tr" "tu_appRepo (NewToggleUseCase tr ar) = ar"
  by (simp_all add: NewToggleUseCase_def)

lemmas contract = toggle_table.contract
lemmas contract_create = toggle_repository.create_levels[OF toggle_table.contract NewToggleUseCase_sel(1)]
lemmas contract_status = toggle_repository.status_effective[OF toggle_table.contract NewToggleUseCase_sel(1)]
lemmas contract_blocker = toggle_repository.AncestorBlocker_blocker[OF toggle_table.contract NewToggleUseCase_sel(1)]
lemmas contract_enable =
  toggle_repository.UpdateEnabledRecursively_rows[OF toggle_table.contract NewToggleUseCase_sel(1)]
lemmas contract_delete = toggle_repository.DeleteToggleByID_rows[OF toggle_table.contract NewToggleUseCase_sel(1)]
lemmas contract_restore = toggle_repository.RestoreToggle_rows[OF toggle_table.contract NewToggleUseCase_sel(1)]
lemmas contract_hierarchy =
  toggle_repository.GetToggleHierarchy_nodes[OF toggle_table.contract NewToggleUseCase_sel(1)]

section \<open>a small table\<close>

text \<open>An application \<open>a\<close> with the toggle \<open>p\<close> and its child \<open>p.c\<close>, and its use case.\<close>

definition row_p :: toggle where
  "row_p = NewToggle ''1'' ''p'' True ''p'' 0 None ''a''"

definition row_c :: toggle where
  "row_c = NewToggle ''2'' ''c'' True ''p.c'' 1 (Some ''1'') ''a''"

definition small_db :: "toggle list \<Rightarrow> db" where
  "small_db ts = \<lparr> db_toggles = ts, db_users = [], db_apps = [\<lparr> ap_ID = ''a'', ap_Name = ''app'' \<rparr>] \<rparr>"

definition mem_apps :: "db app_repo" where
  "mem_apps =
     \<lparr> pr_Create = (\<lambda>_. fail ErrDB),
       pr_GetByID = (\<lambda>i d. case List.find (\<lambda>a. ap_ID a = i) (db_apps d) of
                            None \<Rightarrow> fail ErrRecordNotFound d | Some a \<Rightarrow> ok a d),
       pr_GetByName = (\<lambda>_. fail ErrDB), pr_GetAll = fail ErrDB, pr_GetAllWithToggleCounts = fail ErrDB,
       pr_Update = (\<lambda>_. fail ErrDB), pr_Delete = (\<lambda>_. fail ErrDB), pr_Exists = (\<lambda>_. fail ErrDB) \<rparr>"

definition mem_uc :: "int \<Rightarrow> db toggle_usecase" where
  "mem_uc now = NewToggleUseCase (toggle_repo_impl (mem_toggles now) mem_users) mem_apps"

lemmas small_defs = row_p_def row_c_def small_db_def NewToggle_def

lemma split_p: "Split dot ''p'' = [''p'']" and split_pc: "Split dot ''p.c'' = [''p'', ''c'']"
  and split_pd: "Split dot ''p.d'' = [''p'', ''d'']"
  by simp_all

lemma small_inv: "toggle_inv [row_p, row_c]"
  by (simp add: toggle_inv_def forest_def well_placed_def live_at_def small_defs toggle_live_def
      split_p split_pc)

lemma CreateToggle_rows:
  assumes "toggle_table g rows now users"
    and "pr_GetByID apps app s = Some (Inr a, s)" "path \<noteq> []" "app \<noteq> []"
    and "toggle_inv (rows s)" "missing (rows s) app path"
    and "inj ulid" "\<forall>j. ulid j \<notin> tg_ID ` set (rows s)"
  shows "\<exists>s' new. CreateToggle (NewToggleUseCase (toggle_repo_impl g users) apps) ulid path enabled editable app s
        = Some (Inr (), s')
    \<and> rows s' = rows s @ new
    \<and> map tg_Path new = filter (missing (rows s) app) (path_prefixes path)
    \<and> (\<forall>t\<in>set new. toggle_live t \<and> tg_AppID t = app \<and> tg_Enabled t)
    \<and> toggle_inv (rows s')"
proof -
  let ?uc = "NewToggleUseCase (toggle_repo_impl g users) apps"
  have ex: "tr_Exists (toggle_repo_impl g users) path app s = Some (Inr False, s)"
    using toggle_repository.Exists[OF contract[OF assms(1)], of path app s] assms(6)
    by (auto simp: missing_def live_at_def)
  have "CreateToggle ?uc ulid path enabled editable app s
      = createToggleHierarchy ?uc ulid (Split dot path) enabled editable app None 0 s"
    using assms(2-4) ex by (simp add: CreateToggle_def ParseTogglePath_def)
  with contract_create[OF assms(1,7,5) length_Split_pos, where app = app and par = None and path = path
      and ar = apps and enabled = enabled and editable = editable] assms(8)
  show ?thesis by (auto simp: parent_at_def path_prefixes_def)
qed

section \<open>properties\<close>

text \<open>C22. Creating a toggle in an application that exists, at a path no live toggle has, succeeds and
  adds exactly the missing prefixes of the path, each under the live toggle at its parent path, every
  one of them live and enabled (whatever was asked for the last); other rows are untouched and the
  table stays well-formed.\<close>

theorem CreateToggle_missing_prefixes:
  assumes "toggle_table g rows now users"
    and "pr_GetByID apps app s = Some (Inr a, s)" "path \<noteq> []" "app \<noteq> []"
    and "toggle_inv (rows s)" "missing (rows s) app path"
    and "inj ulid" "\<forall>j. ulid j \<notin> tg_ID ` set (rows s)"
  shows "\<exists>s' new. CreateToggle (NewToggleUseCase (toggle_repo_impl g users) apps) ulid path enabled editable app s
        = Some (Inr (), s')
    \<and> rows s' = rows s @ new
    \<and> map tg_Path new = filter (missing (rows s) app) (path_prefixes path)
    \<and> (\<forall>t\<in>set new. toggle_live t \<and> tg_AppID t = app \<and> tg_Enabled t)
    \<and> toggle_inv (rows s')"
  by (rule CreateToggle_rows[OF assms])

theorem CreateToggle_missing_prefixes_witness:
  "\<exists>s'. CreateToggle (mem_uc 0) (\<lambda>k. replicate (k + 3) CHR ''x'') ''p.d'' False True ''a'' (small_db [row_p, row_c])
        = Some (Inr (), s')
    \<and> map tg_Path (db_toggles s') = [''p'', ''p.c'', ''p.d'']"
proof -
  let ?d = "small_db [row_p, row_c]" and ?ulid = "\<lambda>k. replicate (k + 3) CHR ''x''"
  have "inj ?ulid" by (rule injI) (metis add_right_cancel length_replicate)
  moreover have "\<forall>j. ?ulid j \<notin> tg_ID ` set (db_toggles ?d)" by (simp add: small_defs numeral_3_eq_3)
  moreover have m: "missing (db_toggles ?d) ''a'' ''p.d''" by (auto simp: missing_def live_at_def small_defs)
  moreover have "pr_GetByID mem_apps ''a'' ?d = Some (Inr \<lparr> ap_ID = ''a'', ap_Name = ''app'' \<rparr>, ?d)"
    by (simp add: mem_apps_def small_db_def ok_def)
  moreover have "toggle_inv (db_toggles ?d)" using small_inv by (simp add: small_db_def)
  ultimately obtain s' new where
    created: "CreateToggle (mem_uc 0) ?ulid ''p.d'' False True ''a'' ?d = Some (Inr (), s')"
      "db_toggles s' = db_toggles ?d @ new"
      "map tg_Path new = filter (missing (db_toggles ?d) ''a'') (path_prefixes ''p.d'')"
    using CreateToggle_missing_prefixes[OF mem_toggle_table, where now = 0 and apps = mem_apps and app = "''a''" and s = ?d
        and path = "''p.d''" and ulid = ?ulid and enabled = False and editable = True]
    unfolding mem_uc_def by blast
  have "path_prefixes ''p.d'' = [''p'', ''p.d'']"
    by (simp add: path_prefixes_def prefix_path_def split_pd)
  moreover have "\<not> missing (db_toggles ?d) ''a'' ''p''"
    unfolding missing_def by (simp, intro exI[of _ row_p]) (simp add: live_at_def small_defs toggle_live_def)
  ultimately have "map tg_Path new = [''p.d'']" using created(3) m by simp
  with created(1,2) show ?thesis by (simp add: small_defs)
qed

text \<open>C23. The status of a toggle is whether every prefix of its path is a live enabled toggle, and
  \<open>not found\<close> when the path has no live toggle; the read changes nothing.\<close>

theorem GetToggleStatus_effective:
  assumes "toggle_table g rows now users" "toggle_inv (rows s)" "path \<noteq> []" "app \<noteq> []"
  shows "GetToggleStatus (NewToggleUseCase (toggle_repo_impl g users) apps) path app s =
    Some (if missing (rows s) app path then Inl (NewAppError ErrCodeNotFound ''toggle not found'')
          else Inr (effective (rows s) app path), s)"
  using assms(3,4)
  by (cases rule: toggle_repository.GetByPath_cases[OF contract[OF assms(1)] assms(2), of app path])
     (auto simp: GetToggleStatus_def app_fail_def fail_def missing_def contract_status[OF assms(1,2)])

theorem GetToggleStatus_effective_witness:
  "GetToggleStatus (mem_uc 0) ''p.c'' ''a'' (small_db [row_p\<lparr> tg_Enabled := False \<rparr>, row_c])
     = Some (Inr False, small_db [row_p\<lparr> tg_Enabled := False \<rparr>, row_c])"
proof -
  let ?R = "[row_p\<lparr> tg_Enabled := False \<rparr>, row_c]"
  have "toggle_inv ?R"
    by (simp add: toggle_inv_def forest_def well_placed_def live_at_def small_defs toggle_live_def split_p split_pc)
  moreover have "\<not> missing ?R ''a'' ''p.c''"
    unfolding missing_def by (simp, intro exI[of _ row_c]) (simp add: live_at_def small_defs toggle_live_def)
  moreover have "\<not> effective ?R ''a'' ''p.c''"
    by (simp add: effective_def path_prefixes_def prefix_path_def split_pc enabled_at_def live_at_def small_defs)
  ultimately show ?thesis
    using GetToggleStatus_effective[OF mem_toggle_table, of "small_db ?R" "''p.c''" "''a''" 0 mem_apps]
    by (simp add: mem_uc_def small_db_def)
qed

text \<open>The warning that an ancestor blocks a toggle names the disabled ancestor nearest the root, and
  the toggle is effectively on exactly when its own switch is on and there is no such warning.\<close>

theorem AncestorBlocker_correct:
  assumes "toggle_table g rows now users" "toggle_inv (rows s)" "live_at (rows s) app path t"
  shows "AncestorBlocker (NewToggleUseCase (toggle_repo_impl g users) apps) t s
      = Some (Inr (blocker (rows s) app path), s)
    \<and> (effective (rows s) app path \<longleftrightarrow> tg_Enabled t \<and> fst (blocker (rows s) app path))"
proof -
  have ne: "path_prefixes path \<noteq> []" "last (path_prefixes path) = path"
    using length_Split_pos[of dot path] prefix_path_last[of path] by (auto simp: path_prefixes_def last_map)
  have "set (path_prefixes path) = insert path (set (butlast (path_prefixes path)))"
    using append_butlast_last_id[OF ne(1)] ne(2) by (metis insert_is_Un list.set(1,2) set_append sup_commute)
  then have "effective (rows s) app path \<longleftrightarrow> tg_Enabled t \<and> fst (blocker (rows s) app path)"
    unfolding effective_def blocker_def using enabled_at_live[OF assms(2,3)]
    by (auto split: option.splits simp: find_None_iff find_Some_iff)
  with contract_blocker[OF assms] show ?thesis by simp
qed

theorem AncestorBlocker_correct_witness:
  "AncestorBlocker (mem_uc 0) row_c (small_db [row_p\<lparr> tg_Enabled := False \<rparr>, row_c])
     = Some (Inr (False, ''p''), small_db [row_p\<lparr> tg_Enabled := False \<rparr>, row_c])"
proof -
  let ?R = "[row_p\<lparr> tg_Enabled := False \<rparr>, row_c]"
  have "toggle_inv ?R"
    by (simp add: toggle_inv_def forest_def well_placed_def live_at_def small_defs toggle_live_def split_p split_pc)
  moreover have "live_at ?R ''a'' ''p.c'' row_c" by (simp add: live_at_def small_defs toggle_live_def)
  moreover have "blocker ?R ''a'' ''p.c'' = (False, ''p'')"
    by (simp add: blocker_def path_prefixes_def prefix_path_def split_pc split_p enabled_at_def live_at_def small_defs)
  ultimately show ?thesis
    using AncestorBlocker_correct[OF mem_toggle_table, of "small_db ?R" "''a''" "''p.c''" row_c 0 mem_apps]
    by (simp add: mem_uc_def small_db_def)
qed

text \<open>C6. Switching a toggle recursively returns, and sets the switch of exactly the toggle and its live
  descendants; nothing else of the table changes and it stays well-formed.\<close>

theorem UpdateEnabledRecursively_subtree:
  assumes "toggle_table g rows now users" "toggle_inv (rows s)"
    and "t \<in> set (rows s)" "toggle_live t" "tg_AppID t = app"
  shows "\<exists>s'. UpdateEnabledRecursively (NewToggleUseCase (toggle_repo_impl g users) apps) (tg_ID t) b app s
      = Some (Inr (), s')
    \<and> rows s' = map (\<lambda>x. if under (filter toggle_live (rows s)) (tg_ID t) x
                          then toggle_columns (x\<lparr> tg_Enabled := b \<rparr>) else x) (rows s)
    \<and> toggle_inv (rows s')"
  using contract_enable[OF assms, of apps b] unfolding on_subtree_def toggle_enabled_def .

theorem UpdateEnabledRecursively_subtree_witness:
  "\<exists>s'. UpdateEnabledRecursively (mem_uc 0) ''1'' False ''a'' (small_db [row_p, row_c]) = Some (Inr (), s')
     \<and> map tg_Enabled (db_toggles s') = [False, False]"
proof -
  let ?R = "[row_p, row_c]"
  have p: "row_p \<in> set (db_toggles (small_db ?R))" "toggle_live row_p" "tg_AppID row_p = ''a''" "tg_ID row_p = ''1''"
    by (simp_all add: small_defs toggle_live_def)
  have "under (filter toggle_live ?R) ''1'' row_p"
    by (rule under.intros(1)) (simp_all add: small_defs toggle_live_def)
  moreover from this have "under (filter toggle_live ?R) ''1'' row_c"
    by (rule under.intros(2)) (simp_all add: small_defs toggle_live_def)
  moreover have "toggle_inv (db_toggles (small_db ?R))" using small_inv by (simp add: small_db_def)
  note UpdateEnabledRecursively_subtree[OF mem_toggle_table this p(1-3), of 0 mem_apps False]
  ultimately show ?thesis unfolding mem_uc_def p(4)
    by (auto simp: small_db_def toggle_columns_def)
qed

text \<open>C21. Archiving a toggle and restoring it gives back the very same table, when no row of its subtree
  was archived before.\<close>

theorem archive_restore_roundtrip:
  assumes tab: "toggle_table g rows now users" and inv: "toggle_inv (rows s)"
    and t: "t \<in> set (rows s)" "tg_AppID t = app" "tg_ID t \<noteq> []" "app \<noteq> []"
    and clean: "\<forall>x. under (rows s) (tg_ID t) x \<longrightarrow>
      toggle_live x \<and> tg_DeletedBy x = None \<and> \<not> tg_ArchivedRoot x"
  shows "\<exists>s1 s2. DeleteToggleByID (NewToggleUseCase (toggle_repo_impl g users) apps) (tg_ID t) app u s
        = Some (Inr (), s1)
    \<and> (\<forall>x\<in>set (rows s1). under (rows s1) (tg_ID t) x \<longrightarrow> \<not> toggle_live x)
    \<and> RestoreToggle (NewToggleUseCase (toggle_repo_impl g users) apps) (tg_ID t) app s1 = Some (Inr (), s2)
    \<and> rows s2 = rows s"
proof -
  let ?R = "rows s" and ?i = "tg_ID t" and ?uc = "NewToggleUseCase (toggle_repo_impl g users) apps"
  let ?h = "\<lambda>x. if under (filter toggle_live ?R) ?i x then archived_row now u ?i x else x"
  note f = toggle_inv_forest[OF inv]
  have ut: "under ?R ?i t" using t(1) by (auto intro: under.intros(1))
  have live: "under (filter toggle_live ?R) ?i x \<longleftrightarrow> under ?R ?i x" for x
  proof
    show "under ?R ?i x" if "under (filter toggle_live ?R) ?i x"
      using that by (induction rule: under.induct) (auto intro: under.intros)
    show "under (filter toggle_live ?R) ?i x" if "under ?R ?i x"
      using that
    proof (induction rule: under.induct)
      case (under_root x)
      then show ?case using clean by (auto intro!: under.intros(1) intro: under.intros)
    next
      case (under_child p x)
      then show ?case using clean under.intros(2)[OF under_child(1-3)]
        by (auto intro!: under.intros(2)[OF under_child.IH])
    qed
  qed
  from contract_delete[OF tab inv t(1) _ t(2-4), of apps u] clean ut obtain s1 where
    s1: "DeleteToggleByID ?uc ?i app u s = Some (Inr (), s1)" "rows s1 = archived now u ?i ?R" "toggle_inv (rows s1)"
    by blast
  have r1: "rows s1 = map ?h ?R" by (simp add: s1(2) archived_def on_subtree_def)
  have node: "same_node x (?h x)" for x by (simp add: archived_node)
  have u1: "under (rows s1) ?i (?h x) \<longleftrightarrow> under ?R ?i x" if "x \<in> set ?R" for x
    using under_map[of ?R ?h "\<lambda>_. True", OF f node refl that] by (simp add: r1)
  have dead: "\<forall>x\<in>set (rows s1). under (rows s1) ?i x \<longrightarrow> \<not> toggle_live x"
  proof (intro ballI impI)
    fix y assume y: "y \<in> set (rows s1)" "under (rows s1) ?i y"
    obtain x where x: "x \<in> set ?R" "y = ?h x" using y(1) unfolding r1 set_map by blast
    with y(2) u1 have "under ?R ?i x" by simp
    with x live show "\<not> toggle_live y" by (simp add: archived_dead)
  qed
  have ht: "?h t \<in> set (rows s1)" unfolding r1 set_map by (rule imageI[OF t(1)])
  have t1: "tg_ID (?h t) = ?i" "tg_ArchivedRoot (?h t)" "tg_AppID (?h t) = app"
    using ut live t(2) by (auto simp: archived_row_def toggle_erased_def toggle_marked_def)
  have free: "\<forall>y. under (rows s1) ?i y \<longrightarrow> missing (rows s1) (tg_AppID y) (tg_Path y)"
  proof (intro allI impI)
    fix y assume y: "under (rows s1) ?i y"
    obtain x where x: "x \<in> set ?R" "y = ?h x" using under_in[OF y] unfolding r1 set_map by blast
    with y u1 have ux: "under ?R ?i x" by simp
    have py: "tg_AppID y = tg_AppID x" "tg_Path y = tg_Path x"
      using x(2) by (auto simp: archived_row_def toggle_erased_def toggle_marked_def)
    show "missing (rows s1) (tg_AppID y) (tg_Path y)"
      unfolding missing_def
    proof
      assume "\<exists>z. live_at (rows s1) (tg_AppID y) (tg_Path y) z"
      then obtain z where z: "z \<in> set ?R" "toggle_live (?h z)" "tg_AppID (?h z) = tg_AppID y" "tg_Path (?h z) = tg_Path y"
        unfolding r1 live_at_def by auto
      then have nz: "\<not> under ?R ?i z" using live archived_dead by (auto split: if_splits)
      with z live py have "live_at ?R (tg_AppID x) (tg_Path x) z" by (simp add: live_at_def)
      moreover have "live_at ?R (tg_AppID x) (tg_Path x) x" using ux clean x(1) by (simp add: live_at_def)
      ultimately have "z = x" by (rule live_at_unique[OF inv])
      with nz ux show False by simp
    qed
  qed
  from contract_restore[OF tab toggle_inv_forest[OF s1(3)] ht t1(2,3), of apps] t(3,4) free
  obtain s2 where s2: "RestoreToggle ?uc ?i app s1 = Some (Inr (), s2)"
    "rows s2 = on_subtree (\<lambda>_. True) ?i toggle_restored (rows s1)" unfolding t1(1) by auto
  have "(if under (rows s1) ?i (?h x) then toggle_restored (?h x) else ?h x) = x" if x: "x \<in> set ?R" for x
    using u1[OF x] live[of x] clean restored_archived[of x now u ?i] by auto
  then have "rows s2 = ?R" unfolding s2(2) on_subtree_def
    by (simp add: r1 map_idI)
  with s1(1) dead s2(1) show ?thesis by blast
qed

theorem archive_restore_roundtrip_witness:
  "\<exists>s1 s2. DeleteToggleByID (mem_uc 5) ''1'' ''a'' ''u'' (small_db [row_p, row_c]) = Some (Inr (), s1)
     \<and> RestoreToggle (mem_uc 5) ''1'' ''a'' s1 = Some (Inr (), s2) \<and> db_toggles s2 = [row_p, row_c]"
proof -
  let ?R = "[row_p, row_c]"
  have p: "row_p \<in> set (db_toggles (small_db ?R))" "tg_AppID row_p = ''a''" "tg_ID row_p \<noteq> []" "''a'' \<noteq> []"
    by (simp_all add: small_defs)
  have "toggle_live x \<and> tg_DeletedBy x = None \<and> \<not> tg_ArchivedRoot x" if "under (db_toggles (small_db ?R)) (tg_ID row_p) x" for x
    using under_in[OF that] by (auto simp: small_defs toggle_live_def)
  moreover have "toggle_inv (db_toggles (small_db ?R))" using small_inv by (simp add: small_db_def)
  ultimately show ?thesis
    using archive_restore_roundtrip[OF mem_toggle_table _ p(1-4), of 5 mem_apps "''u''"]
    by (auto simp: mem_uc_def row_p_def NewToggle_def small_db_def) 
qed

text \<open>C20. The hierarchy listing has exactly one node for every live toggle of the application and no other, and the
  flag of each node is the toggle's effective status, which the server computes elsewhere by walking
  up from the toggle. The roots are the toggles without a parent, and the nodes inside a node are its children. The
  listing always returns.\<close>

theorem GetToggleHierarchy_effective:
  assumes "toggle_table g rows now users" "toggle_inv (rows s)" "app \<noteq> []"
  shows "\<exists>ns. GetToggleHierarchy (NewToggleUseCase (toggle_repo_impl g users) apps) app s = Some (Inr ns, s)
    \<and> (\<lambda>n. (nd_id n, nd_enabled n)) ` set (concat (map all_nodes ns))
      = (\<lambda>t. (tg_ID t, effective (rows s) app (tg_Path t))) ` {t. live_at (rows s) app (tg_Path t) t}
    \<and> distinct (map nd_id (concat (map all_nodes ns)))
    \<and> nd_id ` set ns = tg_ID ` {t. live_at (rows s) app (tg_Path t) t \<and> tg_ParentID t = None}
    \<and> (\<forall>n\<in>set (concat (map all_nodes ns)). \<exists>t\<in>set (rows s). toggle_live t \<and> tg_ID t = nd_id n \<and> tg_Value t = nd_value n
        \<and> nd_id ` set (nd_toggles n) = tg_ID ` {c \<in> set (rows s). toggle_live c \<and> tg_ParentID c = Some (nd_id n)})"
  using contract_hierarchy[OF assms, of apps] by (simp add: node_status_def[abs_def] live_at_def)

theorem GetToggleHierarchy_effective_witness:
  "\<exists>ns. GetToggleHierarchy (mem_uc 0) ''a'' (small_db [row_p, row_c]) = Some (Inr ns, small_db [row_p, row_c])
     \<and> (''2'', True) \<in> (\<lambda>n. (nd_id n, nd_enabled n)) ` set (concat (map all_nodes ns))
     \<and> nd_id ` set ns = {''1''} \<and> length (concat (map all_nodes ns)) = 2"
proof -
  let ?d = "small_db [row_p, row_c]"
  have "toggle_inv (db_toggles ?d)" using small_inv by (simp add: small_db_def)
  from GetToggleHierarchy_effective[OF mem_toggle_table[of 0] this, of "''a''" mem_apps, OF list.distinct(2), folded mem_uc_def] obtain ns where
    ns: "GetToggleHierarchy (mem_uc 0) ''a'' ?d = Some (Inr ns, ?d)"
    "(\<lambda>n. (nd_id n, nd_enabled n)) ` set (concat (map all_nodes ns))
      = (\<lambda>t. (tg_ID t, effective (db_toggles ?d) ''a'' (tg_Path t)))
          ` {t. live_at (db_toggles ?d) ''a'' (tg_Path t) t}"
    "distinct (map nd_id (concat (map all_nodes ns)))"
    "nd_id ` set ns = tg_ID ` {t. live_at (db_toggles ?d) ''a'' (tg_Path t) t \<and> tg_ParentID t = None}"
    by (elim exE conjE) (rule that)
  have live: "{t. live_at (db_toggles ?d) ''a'' (tg_Path t) t} = {row_p, row_c}"
    by (auto simp: live_at_def small_defs toggle_live_def)
  have "effective (db_toggles ?d) ''a'' ''p.c''"
    by (simp add: effective_def path_prefixes_def prefix_path_def split_pc enabled_at_def live_at_def small_defs toggle_live_def)
  moreover have "tg_ID row_c = ''2''" "tg_Path row_c = ''p.c''" by (simp_all add: small_defs)
  ultimately have "(''2'', True) \<in> (\<lambda>n. (nd_id n, nd_enabled n)) ` set (concat (map all_nodes ns))"
    unfolding ns(2) live by simp
  moreover have "{t. live_at (db_toggles ?d) ''a'' (tg_Path t) t \<and> tg_ParentID t = None} = {row_p}"
    by (auto simp: live_at_def small_defs toggle_live_def)
  then have "nd_id ` set ns = {''1''}" unfolding ns(4) by (simp add: small_defs)
  moreover have "length (concat (map all_nodes ns)) = 2"
  proof -
    have "nd_id ` set (concat (map all_nodes ns)) = fst ` (\<lambda>n. (nd_id n, nd_enabled n)) ` set (concat (map all_nodes ns))"
      by (simp only: image_image fst_conv)
    also have "\<dots> = {''1'', ''2''}" unfolding ns(2) live by (simp add: small_defs)
    finally have "card (nd_id ` set (concat (map all_nodes ns))) = 2" by simp
    with distinct_card[OF ns(3)] show ?thesis by simp
  qed
  ultimately show ?thesis using ns(1) by blast
qed

lemmas mem_eval =
  mem_uc_def toggle_repo_impl_def mem_toggles_def mem_users_def mem_apps_def mem_table_def
  Toggle_Create_def Toggle_GetByID_def Toggle_GetByPath_def Toggle_Update_def Toggle_GetChildren_def
  Toggle_Exists_def Toggle_MarkDeletionMeta_def Toggle_GetByIDUnscoped_def Toggle_GetChildrenUnscoped_def
  ok_def fail_def unordered_def toggle_live_def toggle_columns_def toggle_defaults_def
  toggle_erased_def toggle_marked_def toggle_restored_def List.map_filter_def
  Toggle_Delete.simps Toggle_Restore.simps attempt_def

lemma story_delete_c:
  "DeleteToggleByID (mem_uc 5) ''2'' ''a'' ''u'' (small_db [row_p, row_c])
    = Some (Inr (), small_db [row_p, toggle_erased 5 (toggle_marked ''u'' row_c)])"
  by (simp add: DeleteToggleByID_def mem_eval small_defs del: attempt_simps attempt_bool)

subsection \<open>a row created again at an archived path\<close>

lemma archived_map: "archived now u i R = map (\<lambda>x. if under (filter toggle_live R) i x then archived_row now u i x else x) R"
  by (simp add: archived_def on_subtree_def)

lemma archived_row_simps [simp]:
  "tg_ID (archived_row now u i x) = tg_ID x" "tg_Path (archived_row now u i x) = tg_Path x"
  "tg_AppID (archived_row now u i x) = tg_AppID x"
  by (simp_all add: archived_row_def toggle_erased_def toggle_marked_def)

lemma archived_IDs: "tg_ID ` set (archived now u i R) = tg_ID ` set R"
proof -
  have "map tg_ID (archived now u i R) = map tg_ID R" by (simp add: archived_map)
  then show ?thesis by (metis list.set_map)
qed

lemma in_archived_live:
  "z \<in> set (archived now u i R) \<and> toggle_live z \<longleftrightarrow> z \<in> set R \<and> toggle_live z \<and> \<not> under (filter toggle_live R) i z"
  by (auto simp: archived_map archived_dead)

text \<open>Rows with the nodes of other rows keep their place in the tree.\<close>

lemma under_image:
  assumes "under R i x" "\<And>x. x \<in> set R \<Longrightarrow> g x \<in> set R' \<and> same_node x (g x)"
  shows "under R' i (g x)"
  using assms(1)
proof (induction rule: under.induct)
  case (under_root x)
  with assms(2)[of x] same_nodeD(1) show ?case by (metis under.intros(1))
next
  case (under_child p x)
  then have p: "p \<in> set R" by (auto dest: under_in)
  have "tg_ParentID (g x) = Some (tg_ID (g p))"
    using under_child(2,3) assms(2)[OF p] assms(2)[of x] same_nodeD(1,2) by metis
  with under_child.IH assms(2)[OF under_child(2)] show ?case by (metis under.intros(2))
qed

lemma same_node_archived: "same_node x (if P then archived_row now u i x else x)"
  by (simp add: archived_node)

text \<open>The live rows that stay when a row \<open>c\<close> below \<open>t\<close> is archived are still below \<open>t\<close>.\<close>

lemma under_rest:
  assumes "under (filter toggle_live R) i y" "\<not> under (filter toggle_live R) j y"
  shows "under (filter toggle_live (archived now u j R @ new)) i y"
  using assms
proof (induction rule: under.induct)
  case (under_root y)
  then have "y \<in> set (archived now u j R) \<and> toggle_live y" unfolding in_archived_live by simp
  with under_root(2) show ?case by (auto intro: under.intros(1))
next
  case (under_child p y)
  then have "\<not> under (filter toggle_live R) j p" by (metis under.intros(2))
  from under_child.IH[OF this] have p: "under (filter toggle_live (archived now u j R @ new)) i p" .
  have "y \<in> set (archived now u j R) \<and> toggle_live y" using under_child unfolding in_archived_live by simp
  then show ?case by (intro under.intros(2)[OF p _ under_child(3)]) auto
qed

text \<open>
  A row \<open>c\<close> below \<open>t\<close> was archived, a row \<open>c'\<close> was created at its path (\<open>R2\<close>) and \<open>t\<close> was archived (\<open>R3\<close>); before,
  everything below \<open>t\<close> was live.
\<close>

definition recreated :: "toggle list \<Rightarrow> toggle list \<Rightarrow> toggle list \<Rightarrow> toggle \<Rightarrow> toggle \<Rightarrow> toggle \<Rightarrow> string \<Rightarrow> string \<Rightarrow> bool" where
  "recreated R R2 R3 c c' t app path \<longleftrightarrow>
     toggle_inv R \<and> live_at R app path c \<and> t \<in> set R \<and> toggle_live t
     \<and> under (filter toggle_live R) (tg_ID t) c \<and> c \<noteq> t \<and> (\<forall>x. under R (tg_ID t) x \<longrightarrow> toggle_live x)
     \<and> (\<exists>n u. R2 = archived n u (tg_ID c) R @ [c']) \<and> toggle_inv R2
     \<and> toggle_live c' \<and> tg_AppID c' = app \<and> tg_Path c' = path \<and> (\<exists>m u. R3 = archived m u (tg_ID t) R2)"

lemma recreatedD:
  assumes "recreated R R2 R3 c c' t app path"
  shows "toggle_inv R" "live_at R app path c" "t \<in> set R" "toggle_live t"
    "under (filter toggle_live R) (tg_ID t) c" "c \<noteq> t" "\<And>x. under R (tg_ID t) x \<Longrightarrow> toggle_live x"
    "\<exists>n u. R2 = archived n u (tg_ID c) R @ [c']" "toggle_inv R2" "toggle_live c'" "tg_AppID c' = app" "tg_Path c' = path"
    "\<exists>m u. R3 = archived m u (tg_ID t) R2" "forest R" "forest R2" "c \<in> set R" "toggle_live c" "tg_AppID c = app" "tg_Path c = path"
  using assms toggle_inv_forest by (auto simp: recreated_def live_at_def)

lemma recreated_deeper:
  assumes "recreated R R2 R3 c c' t app path" "under (filter toggle_live R) (tg_ID c) x"
  shows "x = c \<or> tg_Level c < tg_Level x"
  using under_level[OF assms(2) recreatedD(14)[OF assms(1)] filter_is_subset recreatedD(16)[OF assms(1)]] by auto

text \<open>The row created again is below \<open>t\<close>: the parent of the archived row is its parent.\<close>

lemma recreated_below:
  assumes r: "recreated R R2 R3 c c' t app path"
  shows "under (filter toggle_live R2) (tg_ID t) c'"
proof -
  note d = recreatedD[OF r]
  obtain n u where R2: "R2 = archived n u (tg_ID c) R @ [c']" using d(8) by blast
  have l': "live_at R2 app path c'" using d(10-12) by (simp add: live_at_def R2)
  from d(5,6) obtain p where p: "under (filter toggle_live R) (tg_ID t) p" "tg_ParentID c = Some (tg_ID p)"
    by (cases rule: underE) (use d(3,16) forest_unique[OF d(14)] in auto)
  have "length (Split dot path) \<noteq> 1" using live_root[OF d(1,2)] p(2) by auto
  then have len: "length (Split dot path) > 1" using length_Split_pos[of dot path] by linarith
  from live_parent[OF d(1,2) len] obtain q where
    q: "live_at R app (Join dot (butlast (Split dot path))) q" "tg_ParentID c = Some (tg_ID q)" .
  have "p = q" using p q forest_unique[OF d(14)] under_in[OF p(1)] by (auto simp: live_at_def)
  from live_parent[OF d(9) l' len] obtain p' where
    p': "live_at R2 app (Join dot (butlast (Split dot path))) p'" "tg_ParentID c' = Some (tg_ID p')" .
  have "tg_Level c = tg_Level p + 1" using forest_parent_of(1)[OF d(14,16) _ p(2)] under_in[OF p(1)] by simp
  then have out: "\<not> under (filter toggle_live R) (tg_ID c) p" using recreated_deeper[OF r, of p] by auto
  from under_rest[OF p(1) out, of n u "[c']"] have p2: "under (filter toggle_live R2) (tg_ID t) p" by (simp add: R2)
  then have "live_at R2 app (Join dot (butlast (Split dot path))) p"
    using under_in[OF p2] q(1) \<open>p = q\<close> by (auto simp: live_at_def)
  then have "p' = p" using live_at_unique[OF d(9) p'(1)] by simp
  with under.intros(2)[OF p2, of c'] p'(2) d(10) show ?thesis by (simp add: R2)
qed

text \<open>The rows, and what they were.\<close>

lemma origin:
  assumes r: "recreated R R2 R3 c c' t app path" and "x \<in> set R3"
  shows "(\<exists>y\<in>set R. same_node y x \<and> tg_Path x = tg_Path y) \<or> same_node c' x \<and> tg_Path x = path"
proof -
  note d = recreatedD[OF r]
  obtain n u m u' where R2: "R2 = archived n u (tg_ID c) R @ [c']" and R3: "R3 = archived m u' (tg_ID t) R2" using d(8,13) by blast
  have arch: "\<exists>y\<in>set S. same_node y x \<and> tg_Path x = tg_Path y" if "x \<in> set (archived k v i S)" for x k v i S
  proof -
    from that obtain y where "y \<in> set S" "x = (if under (filter toggle_live S) i y then archived_row k v i y else y)"
      by (auto simp: archived_map)
    then show ?thesis using same_node_archived by (intro bexI[of _ y]) auto
  qed
  from arch[of x m u' "tg_ID t" R2] assms(2) obtain y where y: "y \<in> set R2" "same_node y x" "tg_Path x = tg_Path y" by (auto simp: R3)
  from y(1) consider "y = c'" | z where "z \<in> set R" "same_node z y" "tg_Path y = tg_Path z"
    using arch[of y n u "tg_ID c" R] by (auto simp: R2)
  then show ?thesis using y(2,3) d(12) same_node_comp by cases auto
qed

lemma recreated_fresh:
  assumes r: "recreated R R2 R3 c c' t app path"
  shows "tg_ID c' \<notin> tg_ID ` set R"
proof -
  obtain n u where R2: "R2 = archived n u (tg_ID c) R @ [c']" using recreatedD(8)[OF r] by blast
  from forest_distinct[OF recreatedD(15)[OF r]] show ?thesis by (simp add: R2 archived_IDs)
qed

lemma origin_below:
  assumes r: "recreated R R2 R3 c c' t app path" and "under R3 (tg_ID t) x"
  shows "(\<exists>y. under R (tg_ID t) y \<and> same_node y x \<and> tg_Path x = tg_Path y) \<or> same_node c' x \<and> tg_Path x = path"
  using assms(2)
proof (induction rule: under.induct)
  case (under_root x)
  from origin[OF r under_root(1)] show ?case
    using under.intros(1) same_nodeD(1) under_root(2) by metis
next
  case (under_child p x)
  from origin[OF r under_child(2)] show ?case
  proof
    assume "\<exists>y\<in>set R. same_node y x \<and> tg_Path x = tg_Path y"
    then obtain y where y: "y \<in> set R" "same_node y x" "tg_Path x = tg_Path y" by blast
    then have par: "tg_ParentID y = Some (tg_ID p)" using under_child(3) same_nodeD(2) by metis
    from under_child.IH have "\<exists>q. under R (tg_ID t) q \<and> tg_ID q = tg_ID p"
    proof
      assume "same_node c' p \<and> tg_Path p = path"
      then have "tg_ID p = tg_ID c'" by (simp add: same_node_def)
      with par have par': "tg_ParentID y = Some (tg_ID c')" by simp
      obtain q where "q \<in> set R" "tg_ID q = tg_ID c'" by (rule forest_parent[OF recreatedD(14)[OF r] y(1) par'])
      with recreated_fresh[OF r] show ?thesis by (metis imageI)
    qed (metis same_nodeD(1))
    with par y show ?thesis by (metis under.intros(2))
  qed simp
qed

text \<open>Nothing live is in the way of a restore of \<open>t\<close>.\<close>

lemma nothing_in_the_way:
  assumes r: "recreated R R2 R3 c c' t app path" and "under R3 (tg_ID t) x"
  shows "missing R3 (tg_AppID x) (tg_Path x)"
  unfolding missing_def
proof
  note d = recreatedD[OF r]
  obtain n u m u' where R2: "R2 = archived n u (tg_ID c) R @ [c']" and R3: "R3 = archived m u' (tg_ID t) R2" using d(8,13) by blast
  let ?V = "filter toggle_live R" and ?V2 = "filter toggle_live R2"
  assume "\<exists>z. live_at R3 (tg_AppID x) (tg_Path x) z"
  then obtain z where z: "z \<in> set R3" "toggle_live z" "tg_AppID z = tg_AppID x" "tg_Path z = tg_Path x"
    by (auto simp: live_at_def)
  then have z2: "z \<in> set R2" "\<not> under ?V2 (tg_ID t) z" using in_archived_live[of z m u' "tg_ID t" R2] by (simp_all add: R3)
  with recreated_below[OF r] have "z \<noteq> c'" by auto
  with z2 z(2) have zR: "z \<in> set R" "\<not> under ?V (tg_ID c) z"
    using in_archived_live[of z n u "tg_ID c" R] by (auto simp: R2)
  have out: "\<not> under ?V (tg_ID t) z" using under_rest[OF _ zR(2), of "tg_ID t" n u "[c']"] z2(2) by (auto simp: R2)
  from origin_below[OF r assms(2)] show False
  proof
    assume "same_node c' x \<and> tg_Path x = path"
    then have "live_at R app path z" using z zR d(11) by (simp add: live_at_def same_node_def)
    with live_at_unique[OF d(1,2)] d(5) out show False by blast
  next
    assume "\<exists>y. under R (tg_ID t) y \<and> same_node y x \<and> tg_Path x = tg_Path y"
    then obtain y where y: "under R (tg_ID t) y" "same_node y x" "tg_Path x = tg_Path y" by blast
    have "live_at R (tg_AppID x) (tg_Path x) z" using z zR by (simp add: live_at_def)
    moreover have "live_at R (tg_AppID x) (tg_Path x) y"
      using y d(7)[OF y(1)] under_in[OF y(1)] by (simp add: live_at_def same_node_def)
    ultimately have "z = y" by (rule live_at_unique[OF d(1)])
    have "under ?V (tg_ID t) y" using y(1)
    proof (induction rule: under.induct)
      case (under_root y)
      then show ?case using d(7)[OF under.intros(1)] by (auto intro!: under.intros(1))
    next
      case (under_child p y)
      then show ?case using d(7)[OF under.intros(2)[OF under_child(1-3)]] by (auto intro!: under.intros(2)[OF under_child.IH])
    qed
    with \<open>z = y\<close> out show False by simp
  qed
qed

text \<open>After the restore both rows are live at the path.\<close>

lemma both_live:
  assumes r: "recreated R R2 R3 c c' t app path"
  defines "R4 \<equiv> on_subtree (\<lambda>_. True) (tg_ID t) toggle_restored R3"
  shows "\<exists>x y. x \<noteq> y \<and> live_at R4 app path x \<and> live_at R4 app path y"
proof -
  note d = recreatedD[OF r]
  obtain n u m u' where R2: "R2 = archived n u (tg_ID c) R @ [c']" and R3: "R3 = archived m u' (tg_ID t) R2" using d(8,13) by blast
  let ?V = "filter toggle_live R" and ?V2 = "filter toggle_live R2"
  let ?h = "\<lambda>x. if under ?V (tg_ID c) x then archived_row n u (tg_ID c) x else x"
  let ?h2 = "\<lambda>x. if under ?V2 (tg_ID t) x then archived_row m u' (tg_ID t) x else x"
  have h2: "?h2 x \<in> set R3 \<and> same_node x (?h2 x)" if "x \<in> set R2" for x
    using that by (auto simp: R3 archived_map same_node_archived archived_node)
  have h: "?h2 (?h x) \<in> set R3 \<and> same_node x (?h2 (?h x))" if "x \<in> set R" for x
  proof -
    have "?h x \<in> set R2" using that by (auto simp: R2 archived_map)
    with h2[of "?h x"] same_node_comp[OF same_node_archived[of x "under ?V (tg_ID c) x" n u "tg_ID c"]] show ?thesis by blast
  qed
  have in4: "live_at R4 app path (toggle_restored x)" if "under R3 (tg_ID t) x" "tg_AppID x = app" "tg_Path x = path" for x
    using that under_in[OF that(1)]
    by (auto simp: R4_def on_subtree_def live_at_def toggle_restored_def toggle_live_def image_iff)
  have up: "under R i x" if "under ?V i x" for i x
    using that by (induction rule: under.induct) (auto intro: under.intros)
  have up2: "under R2 i x" if "under ?V2 i x" for i x
    using that by (induction rule: under.induct) (auto intro: under.intros)
  have "under R3 (tg_ID t) (?h2 (?h c))" by (rule under_image[OF up[OF d(5)] h])
  then have x: "live_at R4 app path (toggle_restored (?h2 (?h c)))" using d(18,19) by (intro in4) auto
  have "under R3 (tg_ID t) (?h2 c')" by (rule under_image[OF up2[OF recreated_below[OF r]] h2])
  then have y: "live_at R4 app path (toggle_restored (?h2 c'))" using d(11,12) by (intro in4) auto
  have "tg_ID c' \<noteq> tg_ID c"
    using recreated_fresh[OF r] d(16) by (metis imageI)
  then have "toggle_restored (?h2 (?h c)) \<noteq> toggle_restored (?h2 c')"
    by (auto simp: toggle_restored_def dest!: arg_cong[of _ _ tg_ID])
  with x y show ?thesis by blast
qed

text \<open>Creating the path of an archived row adds one row, since the rows above it are still live.\<close>

lemma create_at_archived:
  assumes tab: "toggle_table g rows now users" and app: "pr_GetByID apps app s = Some (Inr a, s)" "path \<noteq> []" "app \<noteq> []"
    and inv: "toggle_inv R" and c: "live_at R app path c" and s: "rows s = archived n u (tg_ID c) R" "toggle_inv (rows s)"
    and ulid: "inj ulid" "\<forall>j. ulid j \<notin> tg_ID ` set R"
  shows "\<exists>s' c'. CreateToggle (NewToggleUseCase (toggle_repo_impl g users) apps) ulid path enabled editable app s = Some (Inr (), s')
    \<and> rows s' = rows s @ [c'] \<and> toggle_live c' \<and> tg_AppID c' = app \<and> tg_Path c' = path \<and> toggle_inv (rows s')"
proof -
  let ?n = "length (Split dot path)" and ?V = "filter toggle_live R"
  have cR: "c \<in> set R" using c by (simp add: live_at_def)
  have gone: "missing (rows s) app path"
    unfolding missing_def
  proof
    assume "\<exists>z. live_at (rows s) app path z"
    then obtain z where z: "z \<in> set (rows s) \<and> toggle_live z" "tg_AppID z = app" "tg_Path z = path" by (auto simp: live_at_def)
    then have zR: "z \<in> set R" "toggle_live z" "\<not> under ?V (tg_ID c) z" unfolding s(1) in_archived_live by simp_all
    then have "live_at R app path z" using z(2,3) by (simp add: live_at_def)
    then have "z = c" by (rule live_at_unique[OF inv _ c])
    with zR have "under ?V (tg_ID c) z" by (intro under.intros(1)) simp_all
    with zR(3) show False by simp
  qed
  have stays: "\<not> missing (rows s) app (prefix_path path k)" if k: "k < ?n - 1" for k
  proof -
    have "k < ?n" using k by linarith
    from live_prefixes[OF inv c this] obtain z where z: "live_at R app (prefix_path path k) z" by blast
    have "length (Split dot (prefix_path path k)) = k + 1" using k by (simp add: Split_prefix_path)
    then have "tg_Level z < tg_Level c" using live_value(2)[OF inv z] live_value(2)[OF inv c] k by simp
    then have "\<not> under ?V (tg_ID c) z"
      using under_level[OF _ toggle_inv_forest[OF inv] filter_is_subset cR refl] by force
    with z in_archived_live[of z n u "tg_ID c" R] have "live_at (rows s) app (prefix_path path k) z"
      by (simp add: live_at_def s(1))
    then show ?thesis by (auto simp: missing_def)
  qed
  have "path_prefixes path = map (prefix_path path) [0..<?n - 1] @ [path]"
    using length_Split_pos[of dot path] prefix_path_last[of path] by (cases ?n) (simp_all add: path_prefixes_def)
  then have only: "filter (missing (rows s) app) (path_prefixes path) = [path]"
    using gone stays by (auto simp: filter_empty_conv)
  have "tg_ID ` set (rows s) = tg_ID ` set R" by (simp add: s(1) archived_IDs)
  with ulid have fresh: "\<forall>j. ulid j \<notin> tg_ID ` set (rows s)" by simp
  from CreateToggle_rows[OF tab app s(2) gone ulid(1) fresh, of enabled editable] obtain s' new where
    s': "CreateToggle (NewToggleUseCase (toggle_repo_impl g users) apps) ulid path enabled editable app s = Some (Inr (), s')"
      "rows s' = rows s @ new" "map tg_Path new = [path]" "\<forall>t\<in>set new. toggle_live t \<and> tg_AppID t = app \<and> tg_Enabled t"
      "toggle_inv (rows s')" unfolding only by (elim exE conjE) (rule that)
  then obtain c' where "new = [c']" by auto
  with s' show ?thesis by auto
qed

text \<open>C34. The collision check of a restore only looks at live toggles, so that it can put two live toggles at one
  path: take any live toggle \<open>t\<close> with a toggle \<open>c\<close> somewhere below it, where nothing below \<open>t\<close> is archived. Deleting
  \<open>c\<close>, creating its path again, deleting \<open>t\<close> and restoring \<open>t\<close> all succeed, whatever the table and the times of the
  calls, and then two different live toggles have the path of \<open>c\<close>: the table is no longer well-formed.\<close>

theorem restore_duplicates_path:
  assumes tab: "\<And>n. toggle_table (g n) rows n users"
    and inv: "toggle_inv (rows s)" and t: "t \<in> set (rows s)" "toggle_live t" "tg_ID t \<noteq> []"
    and c: "live_at (rows s) app path c" "tg_ID c \<noteq> []" "path \<noteq> []" "app \<noteq> []"
    and below: "under (filter toggle_live (rows s)) (tg_ID t) c" "c \<noteq> t"
    and clean: "\<forall>x. under (rows s) (tg_ID t) x \<longrightarrow> toggle_live x"
    and ulid: "inj ulid" "\<forall>j. ulid j \<notin> tg_ID ` set (rows s)"
  shows "let uc = (\<lambda>n. NewToggleUseCase (toggle_repo_impl (g n) users) apps) in \<exists>s1. DeleteToggleByID (uc ta) (tg_ID c) app u s = Some (Inr (), s1)
    \<and> (pr_GetByID apps app s1 = Some (Inr a, s1) \<longrightarrow>
        (\<exists>s2 s3 s4 x y. CreateToggle (uc tb) ulid path enabled editable app s1 = Some (Inr (), s2)
          \<and> DeleteToggleByID (uc tc) (tg_ID t) app u s2 = Some (Inr (), s3)
          \<and> RestoreToggle (uc td) (tg_ID t) app s3 = Some (Inr (), s4)
          \<and> x \<noteq> y \<and> live_at (rows s4) app path x \<and> live_at (rows s4) app path y \<and> \<not> toggle_inv (rows s4)))"
proof -
  let ?uc = "\<lambda>n. NewToggleUseCase (toggle_repo_impl (g n) users) apps"
  have cR: "c \<in> set (rows s)" "toggle_live c" "tg_AppID c = app" using c(1) by (auto simp: live_at_def)
  have tapp: "tg_AppID t = app" using under_app[OF toggle_inv_forest[OF inv] t(1) below(1)] cR(3) by simp
  from contract_delete[OF tab inv cR c(2,4), of ta apps u] obtain s1 where
    s1: "DeleteToggleByID (?uc ta) (tg_ID c) app u s = Some (Inr (), s1)" "rows s1 = archived ta u (tg_ID c) (rows s)"
      "toggle_inv (rows s1)" by blast
  have "\<exists>s2 s3 s4 x y. CreateToggle (?uc tb) ulid path enabled editable app s1 = Some (Inr (), s2)
      \<and> DeleteToggleByID (?uc tc) (tg_ID t) app u s2 = Some (Inr (), s3)
      \<and> RestoreToggle (?uc td) (tg_ID t) app s3 = Some (Inr (), s4)
      \<and> x \<noteq> y \<and> live_at (rows s4) app path x \<and> live_at (rows s4) app path y \<and> \<not> toggle_inv (rows s4)"
    if there: "pr_GetByID apps app s1 = Some (Inr a, s1)"
  proof -
    from create_at_archived[OF tab there c(3,4) inv c(1) s1(2,3) ulid, of tb enabled editable] obtain s2 c' where
      s2: "CreateToggle (?uc tb) ulid path enabled editable app s1 = Some (Inr (), s2)" "rows s2 = rows s1 @ [c']"
        "toggle_live c'" "tg_AppID c' = app" "tg_Path c' = path" "toggle_inv (rows s2)" by blast
    have "\<not> under (filter toggle_live (rows s)) (tg_ID c) t"
      using under_level[OF _ toggle_inv_forest[OF inv] filter_is_subset cR(1) refl, where t = t]
        under_level[OF below(1) toggle_inv_forest[OF inv] filter_is_subset t(1) refl] below(2) by force
    then have t2: "t \<in> set (rows s2)" using t in_archived_live[of t ta u "tg_ID c" "rows s"] by (simp add: s2(2) s1(2))
    from contract_delete[OF tab s2(6) t2 t(2) tapp t(3) c(4), of tc apps u] obtain s3 where
      s3: "DeleteToggleByID (?uc tc) (tg_ID t) app u s2 = Some (Inr (), s3)" "rows s3 = archived tc u (tg_ID t) (rows s2)"
        "toggle_inv (rows s3)" by blast
    have r: "recreated (rows s) (rows s2) (rows s3) c c' t app path"
      unfolding recreated_def using inv c(1) t(1,2) below clean s1(2) s2 s3(2) by auto
    let ?t = "archived_row tc u (tg_ID t) t"
    have "under (filter toggle_live (rows s2)) (tg_ID t) t" using t2 t(2) by (auto intro: under.intros(1))
    then have tt: "?t \<in> set (rows s3)" "tg_ArchivedRoot ?t" "tg_AppID ?t = app" "tg_ID ?t = tg_ID t"
      using t2 tapp by (auto simp: s3(2) archived_map archived_row_def toggle_erased_def toggle_marked_def image_iff intro!: bexI[of _ t])
    from contract_restore[OF tab toggle_inv_forest[OF s3(3)] tt(1-3), of td apps] t(3) c(4) nothing_in_the_way[OF r]
    obtain s4 where s4: "RestoreToggle (?uc td) (tg_ID t) app s3 = Some (Inr (), s4)"
      "rows s4 = on_subtree (\<lambda>_. True) (tg_ID t) toggle_restored (rows s3)" unfolding tt(4) by auto
    from both_live[OF r] obtain x y where xy: "x \<noteq> y" "live_at (rows s4) app path x" "live_at (rows s4) app path y"
      unfolding s4(2) by blast
    then have "\<not> toggle_inv (rows s4)" using live_at_unique by blast
    with s2(1) s3(1) s4(1) xy show ?thesis by blast
  qed
  with s1(1) show ?thesis unfolding Let_def by blast
qed

text \<open>On the small table.\<close>

theorem restore_duplicates_path_witness:
  "\<exists>s2 s3 s4 x y. CreateToggle (mem_uc 6) (\<lambda>k. replicate (k + 3) CHR ''x'') ''p.c'' True True ''a''
        (small_db [row_p, toggle_erased 5 (toggle_marked ''u'' row_c)]) = Some (Inr (), s2)
     \<and> DeleteToggleByID (mem_uc 7) ''1'' ''a'' ''u'' s2 = Some (Inr (), s3)
     \<and> RestoreToggle (mem_uc 8) ''1'' ''a'' s3 = Some (Inr (), s4)
     \<and> x \<noteq> y \<and> live_at (db_toggles s4) ''a'' ''p.c'' x \<and> live_at (db_toggles s4) ''a'' ''p.c'' y"
proof -
  let ?d = "small_db [row_p, row_c]" and ?ulid = "\<lambda>k. replicate (k + 3) CHR ''x''"
  have inv: "toggle_inv (db_toggles ?d)" using small_inv by (simp add: small_db_def)
  have p: "row_p \<in> set (db_toggles ?d)" "toggle_live row_p" "tg_ID row_p \<noteq> []" "tg_ID row_p = ''1''"
    and c: "live_at (db_toggles ?d) ''a'' ''p.c'' row_c" "tg_ID row_c \<noteq> []" "''p.c'' \<noteq> []" "''a'' \<noteq> []" "tg_ID row_c = ''2''"
    and ne: "row_c \<noteq> row_p"
    by (simp_all add: live_at_def small_defs toggle_live_def)
  have "under (filter toggle_live (db_toggles ?d)) ''1'' row_p"
    by (rule under.intros(1)) (simp_all add: small_defs toggle_live_def)
  then have below: "under (filter toggle_live (db_toggles ?d)) (tg_ID row_p) row_c"
    unfolding p(4) by (rule under.intros(2)) (simp_all add: small_defs toggle_live_def)
  have clean: "\<forall>x. under (db_toggles ?d) (tg_ID row_p) x \<longrightarrow> toggle_live x"
    using under_in by (fastforce simp: small_defs toggle_live_def)
  have ulid: "inj ?ulid" "\<forall>j. ?ulid j \<notin> tg_ID ` set (db_toggles ?d)"
    by (rule injI, metis add_right_cancel length_replicate) (simp add: small_defs numeral_3_eq_3)
  have app: "pr_GetByID mem_apps ''a'' (small_db [row_p, toggle_erased 5 (toggle_marked ''u'' row_c)])
      = Some (Inr \<lparr> ap_ID = ''a'', ap_Name = ''app'' \<rparr>, small_db [row_p, toggle_erased 5 (toggle_marked ''u'' row_c)])"
    by (simp add: mem_apps_def small_db_def ok_def)
  from restore_duplicates_path[OF mem_toggle_table inv p(1-3) c(1-4) below ne clean ulid,
      where apps = mem_apps and a = "\<lparr> ap_ID = ''a'', ap_Name = ''app'' \<rparr>" and u = "''u''" and enabled = True and editable = True
        and ta = 5 and tb = 6 and tc = 7 and td = 8, unfolded Let_def, folded mem_uc_def]
  show ?thesis unfolding p(4) c(5) story_delete_c using app by simp blast
qed

section \<open>reachable tables\<close>

text \<open>
  One call of a toggle use case, whatever its arguments and result, other than a restore; the
  identifiers of new toggles are unused ones.
\<close>

inductive toggle_call :: "'s toggle_usecase \<Rightarrow> ('s \<Rightarrow> toggle list) \<Rightarrow> 's \<Rightarrow> 's \<Rightarrow> bool" for uc rows where
  call_create: "CreateToggle uc ulid path enabled editable app s = Some (r, s') \<Longrightarrow> inj ulid \<Longrightarrow>
     \<forall>j. ulid j \<notin> tg_ID ` set (rows s) \<Longrightarrow> toggle_call uc rows s s'"
| call_update: "UpdateToggle uc path enabled app s = Some (r, s') \<Longrightarrow> toggle_call uc rows s s'"
| call_update_id: "UpdateToggleByID uc i enabled app s = Some (r, s') \<Longrightarrow> toggle_call uc rows s s'"
| call_bulk: "BulkUpdateEnabled uc ids enabled app s = Some (r, s') \<Longrightarrow> toggle_call uc rows s s'"
| call_recursive: "UpdateEnabledRecursively uc i enabled app s = Some (r, s') \<Longrightarrow> toggle_call uc rows s s'"
| call_rule: "UpdateToggleWithRule pf tokens texts uc i enabled has rule app s = Some (q, s') \<Longrightarrow> toggle_call uc rows s s'"
| call_delete: "DeleteToggleByID uc i app u s = Some (r, s') \<Longrightarrow> toggle_call uc rows s s'"

text \<open>A result that only validation can have, and a saved row.\<close>

context toggle_repository
begin

lemma GetByID_cases:
  assumes "forest (rows s)"
  obtains (gone) "tr_GetByID repo i s = Some (Inl ErrRecordNotFound, s)"
  | (row) t where "t \<in> set (rows s)" "toggle_live t" "tg_ID t = i" "tr_GetByID repo i s = Some (Inr t, s)"
  using GetByID[of i s] by (fastforce simp: found_def split: sum.splits)

lemma saved_inv:
  assumes inv: "toggle_inv (rows s)" and t: "t \<in> set (rows s)" "toggle_live t"
    and place: "same_place t (toggle_columns t')" and id: "tg_ID t' = tg_ID t"
  obtains s' where "tr_Update repo t' s = Some (Inr (), s')" "toggle_inv (rows s')"
proof -
  have "\<exists>x\<in>set (rows s). toggle_live x \<and> tg_ID x = tg_ID t'" using t id by auto
  from Update[OF this] obtain s' where
    s': "tr_Update repo t' s = Some (Inr (), s')"
      "rows s' = at_node toggle_live (tg_ID t') (\<lambda>_. toggle_columns t') (rows s)" by blast
  have "toggle_inv (rows s')" unfolding s'(2) at_node_def id
  proof (rule toggle_inv_map[OF inv])
    fix x assume x: "x \<in> set (rows s)"
    show "same_place x (if toggle_live x \<and> tg_ID x = tg_ID t then toggle_columns t' else x)"
      using forest_unique[OF toggle_inv_forest[OF inv] x t(1)] place by auto
  qed
  with s'(1) that show thesis by blast
qed

end

lemma columns_place:
  "same_place t (toggle_columns (t\<lparr> tg_Enabled := b \<rparr>))"
  by (simp add: same_place_def same_node_def toggle_columns_def toggle_live_def)

text \<open>Each use case keeps the invariant, whatever it returns.\<close>

context toggle_repository
begin

lemma UpdateToggle_inv:
  assumes uc: "tu_toggleRepo uc = repo" and inv: "toggle_inv (rows s)"
    and "UpdateToggle uc path b app s = Some (r, s')"
  shows "toggle_inv (rows s')"
  using inv
proof (cases rule: GetByPath_cases[where app = app and path = path])
  case absent
  with assms show ?thesis by (auto simp: UpdateToggle_def app_fail_def fail_def split: if_splits)
next
  case (present t)
  then have t: "t \<in> set (rows s)" "toggle_live t" by (auto simp: live_at_def)
  obtain s1 where "tr_Update repo (t\<lparr> tg_Enabled := b \<rparr>) s = Some (Inr (), s1)" "toggle_inv (rows s1)"
    using saved_inv[OF inv t columns_place] by auto
  with assms present show ?thesis by (auto simp: UpdateToggle_def app_fail_def fail_def ok_def split: if_splits)
qed

lemma UpdateToggleByID_inv:
  assumes uc: "tu_toggleRepo uc = repo" and inv: "toggle_inv (rows s)"
  shows "\<exists>r s'. UpdateToggleByID uc i b app s = Some (r, s') \<and> toggle_inv (rows s')"
  using toggle_inv_forest[OF inv]
proof (cases rule: GetByID_cases[where i = i])
  case gone
  with uc inv show ?thesis by (simp add: UpdateToggleByID_def app_fail_def fail_def)
next
  case (row t)
  obtain s1 where "tr_Update repo (t\<lparr> tg_Enabled := b \<rparr>) s = Some (Inr (), s1)" "toggle_inv (rows s1)"
    using saved_inv[OF inv row(1,2) columns_place] by auto
  with uc inv row show ?thesis by (simp add: UpdateToggleByID_def app_fail_def fail_def ok_def)
qed

lemma for_each_inv_any:
  assumes "P s" "\<And>x s. P s \<Longrightarrow> \<exists>r s'. f x s = Some (r, s') \<and> P s'"
  shows "\<exists>r s'. for_each f xs s = Some (r, s') \<and> P s'"
  using assms(1)
proof (induction xs arbitrary: s)
  case Nil
  then show ?case by (simp add: ok_def)
next
  case (Cons x xs)
  from assms(2)[OF Cons.prems, of x] obtain r s1 where s1: "f x s = Some (r, s1)" "P s1" by blast
  with Cons.IH[OF s1(2)] show ?case by (cases r) (auto simp: fail_def)
qed

lemma BulkUpdateEnabled_inv:
  assumes uc: "tu_toggleRepo uc = repo" and inv: "toggle_inv (rows s)"
  shows "\<exists>r s'. BulkUpdateEnabled uc ids b app s = Some (r, s') \<and> toggle_inv (rows s')"
proof (cases ids)
  case Nil
  with inv show ?thesis by (simp add: BulkUpdateEnabled_def app_fail_def fail_def)
next
  case (Cons x xs)
  have "\<exists>r s'. for_each (\<lambda>i. UpdateToggleByID uc i b app) ids s = Some (r, s') \<and> toggle_inv (rows s')"
    by (rule for_each_inv_any[where P = "\<lambda>s. toggle_inv (rows s)", OF inv]) (rule UpdateToggleByID_inv[OF uc])
  with Cons show ?thesis by (simp add: BulkUpdateEnabled_def)
qed

lemma UpdateEnabledRecursively_inv:
  assumes uc: "tu_toggleRepo uc = repo" and inv: "toggle_inv (rows s)"
  shows "\<exists>r s'. UpdateEnabledRecursively uc i b app s = Some (r, s') \<and> toggle_inv (rows s')"
  using toggle_inv_forest[OF inv]
proof (cases rule: GetByID_cases[where i = i])
  case gone
  with uc inv show ?thesis by (subst UpdateEnabledRecursively.simps) (simp add: fail_def)
next
  case (row t)
  show ?thesis
  proof (cases "tg_AppID t = app")
    case True
    with UpdateEnabledRecursively_rows[OF uc inv row(1,2), of app b] row(3) show ?thesis by blast
  next
    case False
    with uc inv row show ?thesis by (subst UpdateEnabledRecursively.simps) (simp add: fail_def)
  qed
qed

lemma DeleteToggleByID_inv:
  assumes uc: "tu_toggleRepo uc = repo" and inv: "toggle_inv (rows s)"
  shows "\<exists>r s'. DeleteToggleByID uc i app u s = Some (r, s') \<and> toggle_inv (rows s')"
  using toggle_inv_forest[OF inv]
proof (cases rule: GetByID_cases[where i = i])
  case gone
  with uc inv show ?thesis by (simp add: DeleteToggleByID_def app_fail_def fail_def)
next
  case (row t)
  show ?thesis
  proof (cases "tg_AppID t = app \<and> i \<noteq> [] \<and> app \<noteq> []")
    case True
    with DeleteToggleByID_rows[OF uc inv row(1,2), of app u] row(3) show ?thesis by blast
  next
    case False
    with uc inv row show ?thesis by (auto simp: DeleteToggleByID_def app_fail_def fail_def)
  qed
qed

lemma UpdateToggleWithRule_inv:
  assumes uc: "tu_toggleRepo uc = repo" and inv: "toggle_inv (rows s)"
  shows "\<exists>r s'. UpdateToggleWithRule pf tokens texts uc i b has rule app s = Some (r, s') \<and> toggle_inv (rows s')"
  using toggle_inv_forest[OF inv]
proof (cases rule: GetByID_cases[where i = i])
  case gone
  with uc inv show ?thesis by (simp add: UpdateToggleWithRule_def app_fail_def fail_def)
next
  case (row t)
  let ?t = "t\<lparr> tg_Enabled := b, tg_HasActivationRule := has \<rparr>"
  have save: "\<exists>s1. tr_Update repo t' s = Some (Inr (), s1) \<and> toggle_inv (rows s1)"
    if "same_place t (toggle_columns t')" for t'
    using saved_inv[OF inv row(1,2) that] that by (auto simp: same_place_def same_node_def toggle_columns_def)
  have clear: "same_place t (toggle_columns (ClearActivationRule ?t))"
    by (simp add: same_place_def same_node_def toggle_columns_def ClearActivationRule_def toggle_live_def)
  have set_rule: "same_place t (toggle_columns t') \<and> same_place t (toggle_columns (t'\<lparr> tg_RuleContextWarning := True \<rparr>))"
    if "SetActivationRule pf (Some x) ?t = Inr t'" for x t'
    using that by (auto simp: SetActivationRule_def same_place_def same_node_def toggle_columns_def toggle_live_def
        split: option.splits)
  show ?thesis
  proof (cases "if has then rule else None")
    case None
    with uc inv row save[OF clear] show ?thesis
      by (auto simp: UpdateToggleWithRule_def app_fail_def fail_def ok_def Let_def)
  next
    case (Some x)
    show ?thesis
    proof (cases "SetActivationRule pf (Some x) ?t")
      case (Inl e)
      with Some uc inv row show ?thesis
        by (auto simp: UpdateToggleWithRule_def app_fail_def fail_def Let_def)
    next
      case (Inr t')
      with Some uc inv row set_rule[OF Inr] save[of t'] save[of "t'\<lparr> tg_RuleContextWarning := True \<rparr>"] show ?thesis
        by (auto simp: UpdateToggleWithRule_def app_fail_def fail_def ok_def Let_def)
    qed
  qed
qed

end

lemma CreateToggle_inv:
  assumes tab: "toggle_table g rows now users" and inv: "toggle_inv (rows s)"
    and apps: "\<exists>q. pr_GetByID apps app s = Some (q, s)"
    and "inj ulid" "\<forall>j. ulid j \<notin> tg_ID ` set (rows s)"
    and call: "CreateToggle (NewToggleUseCase (toggle_repo_impl g users) apps) ulid path enabled editable app s
      = Some (r, s')"
  shows "toggle_inv (rows s')"
proof -
  have ex: "tr_Exists (toggle_repo_impl g users) path app s = Some (Inr (\<not> missing (rows s) app path), s)"
    using toggle_repository.Exists[OF contract[OF tab], of path app s] by (auto simp: missing_def live_at_def)
  from apps obtain q where q: "pr_GetByID apps app s = Some (q, s)" by blast
  consider "path = [] \<or> app = []" | e where "path \<noteq> []" "app \<noteq> []" "q = Inl e"
    | a where "path \<noteq> []" "app \<noteq> []" "q = Inr a" "\<not> missing (rows s) app path"
    | a where "path \<noteq> []" "app \<noteq> []" "q = Inr a" "missing (rows s) app path"
    by (cases q) auto
  then show ?thesis
  proof cases
    case 1
    then have "s' = s" using call by (cases "path = []") (auto simp: CreateToggle_def app_fail_def fail_def)
    with inv show ?thesis by simp
  next
    case 2
    then have "s' = s" using call q by (simp add: CreateToggle_def app_fail_def fail_def)
    with inv show ?thesis by simp
  next
    case 3
    then have "tr_Exists (toggle_repo_impl g users) path app s = Some (Inr True, s)" using ex by simp
    with 3 q call have "s' = s" by (simp add: CreateToggle_def app_fail_def fail_def)
    with inv show ?thesis by simp
  next
    case 4
    from CreateToggle_rows[OF tab q[unfolded 4(3)] 4(1,2) inv 4(4) assms(4,5),
        where enabled = enabled and editable = editable] call
    show ?thesis by auto
  qed
qed

lemma any_result:
  "\<exists>r s'. x = Some (r, s') \<and> toggle_inv (rows s') \<Longrightarrow> x = Some (q, s1) \<Longrightarrow> toggle_inv (rows s1)"
  by auto

lemma toggle_call_inv:
  assumes tab: "toggle_table g rows now users" and inv: "toggle_inv (rows s)"
    and apps: "\<forall>i s. \<exists>q. pr_GetByID apps i s = Some (q, s)"
    and "toggle_call (NewToggleUseCase (toggle_repo_impl g users) apps) rows s s'"
  shows "toggle_inv (rows s')"
proof -
  note c = contract[OF tab] and u = NewToggleUseCase_sel(1)
  from assms(4) show ?thesis
  proof (cases rule: toggle_call.cases)
    case call_create
    show ?thesis by (rule CreateToggle_inv[OF tab inv _ call_create(2,3,1)]) (use apps in blast)
  next
    case call_update
    show ?thesis by (rule toggle_repository.UpdateToggle_inv[OF c u inv call_update])
  next
    case call_update_id
    show ?thesis by (rule any_result[OF toggle_repository.UpdateToggleByID_inv[OF c u inv] call_update_id])
  next
    case call_bulk
    show ?thesis by (rule any_result[OF toggle_repository.BulkUpdateEnabled_inv[OF c u inv] call_bulk])
  next
    case call_recursive
    show ?thesis by (rule any_result[OF toggle_repository.UpdateEnabledRecursively_inv[OF c u inv] call_recursive])
  next
    case call_rule
    show ?thesis by (rule any_result[OF toggle_repository.UpdateToggleWithRule_inv[OF c u inv] call_rule])
  next
    case call_delete
    show ?thesis by (rule any_result[OF toggle_repository.DeleteToggleByID_inv[OF c u inv] call_delete])
  qed
qed

text \<open>C5. Whatever sequence of toggle calls runs on a well-formed table (with any arguments, failing or
  not, restores apart), the table stays well-formed: unique identifiers, one live toggle per path of
  an application, and every live toggle under the live toggle its path names.\<close>

theorem toggle_calls_keep_invariant:
  assumes "toggle_table g rows now users" "toggle_inv (rows s)"
    and "\<forall>i s. \<exists>q. pr_GetByID apps i s = Some (q, s)"
    and "(toggle_call (NewToggleUseCase (toggle_repo_impl g users) apps) rows)\<^sup>*\<^sup>* s s'"
  shows "toggle_inv (rows s')"
  using assms(4,2)
  by (induction rule: rtranclp_induct) (blast intro: toggle_call_inv[OF assms(1) _ assms(3)])+

theorem toggle_calls_keep_invariant_witness:
  "toggle_inv (db_toggles (small_db [row_p, toggle_erased 5 (toggle_marked ''u'' row_c)]))"
proof -
  have "toggle_call (mem_uc 5) db_toggles (small_db [row_p, row_c])
      (small_db [row_p, toggle_erased 5 (toggle_marked ''u'' row_c)])"
    by (rule call_delete[OF story_delete_c])
  moreover have "\<forall>i s. \<exists>q. pr_GetByID mem_apps i s = Some (q, s)"
    by (auto simp: mem_apps_def ok_def fail_def split: option.splits)
  moreover have "toggle_inv (db_toggles (small_db [row_p, row_c]))" using small_inv by (simp add: small_db_def)
  ultimately show ?thesis
    using toggle_calls_keep_invariant[OF mem_toggle_table, of "small_db [row_p, row_c]" mem_apps 5]
    unfolding mem_uc_def by blast
qed

end
