(* ===== verification/SecretKey.thy ===== *)
theory SecretKey
  imports Store
begin

text \<open>
  Secret keys: \<open>entity/secret_key.go\<close>, \<open>infrastructure/database/secret_key_repository.go\<close> with its
  interface, and \<open>usecase/secret_key_usecase.go\<close>. \<open>sha256\<close> and the random bytes are parameters. The
  lemmas say which keys authenticate and what a rotation does to the keys of an application.
\<close>

section \<open>secret_key.go\<close>

record secret_key =
  sk_ID :: string
  sk_Name :: string
  sk_KeyHash :: string
  sk_ApplicationID :: string
  sk_CreatedBy :: string
  sk_Active :: bool
  sk_IsCurrent :: bool
  sk_LastUsedAt :: "int option"

definition NewSecretKey :: "string \<Rightarrow> string \<Rightarrow> string \<Rightarrow> string \<Rightarrow> bool \<Rightarrow> secret_key" where
  "NewSecretKey newID name applicationID createdBy active =
     \<lparr> sk_ID = newID, sk_Name = name, sk_KeyHash = [], sk_ApplicationID = applicationID,
       sk_CreatedBy = createdBy, sk_Active = active, sk_IsCurrent = True, sk_LastUsedAt = None \<rparr>"

text \<open>\<open>hex.EncodeToString\<close>\<close>

definition hex_digit :: "nat \<Rightarrow> char" where
  "hex_digit n = char_of (if n < 10 then 48 + n else 87 + n)"

definition EncodeToString :: "string \<Rightarrow> string" where
  "EncodeToString bs = concat (map (\<lambda>b. [hex_digit (of_char b div 16), hex_digit (of_char b mod 16)]) bs)"

text \<open>The random source gives 32 bytes, or fails.\<close>

definition GenerateSecretKey :: "string option \<Rightarrow> string option" where
  "GenerateSecretKey random =
     (case random of None \<Rightarrow> None | Some bytes \<Rightarrow> Some (''sk_'' @ EncodeToString bytes))"

definition SetSecretKey ::
    "(string \<Rightarrow> string) \<Rightarrow> string option \<Rightarrow> secret_key \<Rightarrow> (string \<times> secret_key) option" where
  "SetSecretKey sha256 random sk =
     (case GenerateSecretKey random of
        None \<Rightarrow> None
      | Some secretKey \<Rightarrow> Some (secretKey, sk\<lparr> sk_KeyHash := EncodeToString (sha256 secretKey) \<rparr>))"

datatype key_invalid = KeyNameRequired | KeyNameTooShort | KeyApplicationRequired | KeyCreatedByRequired

definition SecretKey_Validate :: "secret_key \<Rightarrow> key_invalid option" where
  "SecretKey_Validate sk =
     (if sk_Name sk = [] then Some KeyNameRequired
      else if length (sk_Name sk) < 3 then Some KeyNameTooShort
      else if sk_ApplicationID sk = [] then Some KeyApplicationRequired
      else if sk_CreatedBy sk = [] then Some KeyCreatedByRequired
      else None)"

section \<open>secret_key_repository.go\<close>

record 's key_repo =
  kr_Create :: "secret_key \<Rightarrow> ('s, db_error, unit) io"
  kr_GetByID :: "string \<Rightarrow> ('s, db_error, secret_key) io"
  kr_GetByHash :: "string \<Rightarrow> ('s, db_error, secret_key) io"
  kr_GetByApplicationID :: "string \<Rightarrow> ('s, db_error, secret_key list) io"
  kr_GetAll :: "('s, db_error, secret_key list) io"
  kr_Update :: "secret_key \<Rightarrow> ('s, db_error, unit) io"
  kr_Delete :: "string \<Rightarrow> ('s, db_error, unit) io"

definition Key_Create :: "(secret_key, 'd) table \<Rightarrow> secret_key \<Rightarrow> ('d, db_error, unit) io" where
  "Key_Create g k = attempt (g_Create g k) fail (\<lambda>_. ok ())"

definition Key_GetByID :: "(secret_key, 'd) table \<Rightarrow> string \<Rightarrow> ('d, db_error, secret_key) io" where
  "Key_GetByID g i = g_First g False (\<lambda>k. sk_ID k = i)"

definition Key_GetByHash :: "(secret_key, 'd) table \<Rightarrow> string \<Rightarrow> ('d, db_error, secret_key) io" where
  "Key_GetByHash g hash = g_First g False (\<lambda>k. sk_KeyHash k = hash)"

definition Key_GetByApplicationID :: "(secret_key, 'd) table \<Rightarrow> string \<Rightarrow> ('d, db_error, secret_key list) io" where
  "Key_GetByApplicationID g app = g_Find g False (\<lambda>k. sk_ApplicationID k = app) unordered"

definition Key_GetAll :: "(secret_key, 'd) table \<Rightarrow> ('d, db_error, secret_key list) io" where
  "Key_GetAll g = g_Find g False (\<lambda>_. True) unordered"

definition Key_Update :: "(secret_key, 'd) table \<Rightarrow> secret_key \<Rightarrow> ('d, db_error, unit) io" where
  "Key_Update g k = g_Save g k"

definition Key_Delete :: "(secret_key, 'd) table \<Rightarrow> string \<Rightarrow> ('d, db_error, unit) io" where
  "Key_Delete g i = g_Delete g False (\<lambda>k. sk_ID k = i)"

definition NewSecretKeyRepository :: "(secret_key, 'd) table \<Rightarrow> 'd key_repo" where
  "NewSecretKeyRepository g =
     \<lparr> kr_Create = Key_Create g, kr_GetByID = Key_GetByID g, kr_GetByHash = Key_GetByHash g,
       kr_GetByApplicationID = Key_GetByApplicationID g, kr_GetAll = Key_GetAll g,
       kr_Update = Key_Update g, kr_Delete = Key_Delete g \<rparr>"

section \<open>secret_key_usecase.go\<close>

datatype key_error = KeyInvalid key_invalid | KeyRandom | KeyDB db_error | KeyNotFound

record key_response =
  kp_SecretKey :: secret_key
  kp_PlainTextKey :: string

text \<open>The identifier, the random bytes and the hash function a creation draws on.\<close>

record key_source =
  ks_ulid :: string
  ks_random :: "string option"
  ks_sha256 :: "string \<Rightarrow> string"

definition createSecretKey ::
    "'s key_repo \<Rightarrow> key_source \<Rightarrow> string \<Rightarrow> string \<Rightarrow> string \<Rightarrow> bool \<Rightarrow> ('s, key_error, key_response) io" where
  "createSecretKey repo src name applicationID createdBy active =
     (let secretKey = NewSecretKey (ks_ulid src) name applicationID createdBy active in
      (case SecretKey_Validate secretKey of
         Some e \<Rightarrow> fail (KeyInvalid e)
       | None \<Rightarrow>
           (case SetSecretKey (ks_sha256 src) (ks_random src) secretKey of
              None \<Rightarrow> fail KeyRandom
            | Some (plainTextKey, secretKey) \<Rightarrow>
                attempt (kr_Create repo secretKey) (\<lambda>e. fail (KeyDB e)) (\<lambda>_.
                  ok \<lparr> kp_SecretKey = secretKey, kp_PlainTextKey = plainTextKey \<rparr>))))"

definition CreateSecretKey ::
    "'s key_repo \<Rightarrow> key_source \<Rightarrow> string \<Rightarrow> string \<Rightarrow> string \<Rightarrow> ('s, key_error, key_response) io" where
  "CreateSecretKey repo src name applicationID createdBy =
     createSecretKey repo src name applicationID createdBy True"

definition CreatePendingSecretKey ::
    "'s key_repo \<Rightarrow> key_source \<Rightarrow> string \<Rightarrow> string \<Rightarrow> string \<Rightarrow> ('s, key_error, key_response) io" where
  "CreatePendingSecretKey repo src name applicationID createdBy =
     createSecretKey repo src name applicationID createdBy False"

definition RevokeSecretKey :: "'s key_repo \<Rightarrow> string \<Rightarrow> ('s, key_error, unit) io" where
  "RevokeSecretKey repo i = attempt (kr_Delete repo i) (\<lambda>e. fail (KeyDB e)) ok"

definition rotate_one :: "'s key_repo \<Rightarrow> secret_key \<Rightarrow> ('s, key_error, unit) io" where
  "rotate_one repo key =
     (if \<not> sk_Active key then ok ()
      else if sk_IsCurrent key
      then attempt (kr_Update repo (key\<lparr> sk_IsCurrent := False \<rparr>)) (\<lambda>e. fail (KeyDB e)) ok
      else RevokeSecretKey repo (sk_ID key))"

definition rotateExistingKeys :: "'s key_repo \<Rightarrow> string \<Rightarrow> ('s, key_error, unit) io" where
  "rotateExistingKeys repo applicationID =
     attempt (kr_GetByApplicationID repo applicationID) (\<lambda>e. fail (KeyDB e))
       (\<lambda>keys. for_each (rotate_one repo) keys)"

definition ActivateAndRotateSecretKey :: "'s key_repo \<Rightarrow> string \<Rightarrow> string \<Rightarrow> ('s, key_error, unit) io" where
  "ActivateAndRotateSecretKey repo newKeyID applicationID =
     attempt (rotateExistingKeys repo applicationID) fail (\<lambda>_.
     attempt (kr_GetByID repo newKeyID) (\<lambda>e. fail (KeyDB e)) (\<lambda>newKey.
     attempt (kr_Update repo (newKey\<lparr> sk_Active := True, sk_IsCurrent := True \<rparr>)) (\<lambda>e. fail (KeyDB e)) ok))"

definition GetSecretKeysByApplicationID :: "'s key_repo \<Rightarrow> string \<Rightarrow> ('s, key_error, secret_key list) io" where
  "GetSecretKeysByApplicationID repo applicationID =
     attempt (kr_GetByApplicationID repo applicationID) (\<lambda>e. fail (KeyDB e))
       (\<lambda>keys. ok (filter sk_Active keys))"

definition GetAllSecretKeys :: "'s key_repo \<Rightarrow> ('s, key_error, secret_key list) io" where
  "GetAllSecretKeys repo = attempt (kr_GetAll repo) (\<lambda>e. fail (KeyDB e)) ok"

definition GetSecretKeyByID :: "'s key_repo \<Rightarrow> string \<Rightarrow> ('s, key_error, secret_key) io" where
  "GetSecretKeyByID repo i = attempt (kr_GetByID repo i) (\<lambda>e. fail (KeyDB e)) ok"

definition DeleteSecretKey :: "'s key_repo \<Rightarrow> string \<Rightarrow> ('s, key_error, unit) io" where
  "DeleteSecretKey repo i = attempt (kr_Delete repo i) (\<lambda>e. fail (KeyDB e)) ok"

text \<open>The error of the write of the time of use is ignored.\<close>

definition ValidateSecretKey ::
    "'s key_repo \<Rightarrow> (string \<Rightarrow> string) \<Rightarrow> int \<Rightarrow> string \<Rightarrow> ('s, key_error, secret_key) io" where
  "ValidateSecretKey repo sha256 now secretKey =
     (let keyHash = EncodeToString (sha256 secretKey) in
      attempt (kr_GetByHash repo keyHash) (\<lambda>e. fail (KeyDB e)) (\<lambda>key.
      if \<not> sk_Active key then fail KeyNotFound
      else
        let key = key\<lparr> sk_LastUsedAt := Some now \<rparr> in
        attempt (kr_Update repo key) (\<lambda>_. ok key) (\<lambda>_. ok key)))"

definition RegenerateSecretKey ::
    "'s key_repo \<Rightarrow> key_source \<Rightarrow> string \<Rightarrow> string \<Rightarrow> ('s, key_error, key_response) io" where
  "RegenerateSecretKey repo src applicationID createdBy =
     attempt (rotateExistingKeys repo applicationID) fail (\<lambda>_.
     CreateSecretKey repo src ''API Access Key'' applicationID createdBy)"

section \<open>the table of keys\<close>

definition key_clash :: "secret_key \<Rightarrow> secret_key \<Rightarrow> bool" where
  "key_clash x k \<longleftrightarrow> sk_ID x = sk_ID k \<or> sk_KeyHash x = sk_KeyHash k"

locale key_table =
  gorm_table g rows "\<lambda>_. True" "\<lambda>k. k" "\<lambda>k. k" sk_ID key_clash "\<lambda>_. None"
  for g :: "(secret_key, 'd) table" and rows

text \<open>Identifiers and hashes are unique.\<close>

definition keys_unique :: "secret_key list \<Rightarrow> bool" where
  "keys_unique R \<longleftrightarrow> distinct (map sk_ID R) \<and> distinct (map sk_KeyHash R)"

text \<open>What a rotation does to a key: the current one becomes the previous, the previous one goes.\<close>

definition rotated :: "string \<Rightarrow> secret_key \<Rightarrow> secret_key option" where
  "rotated app k =
     (if sk_ApplicationID k = app \<and> sk_Active k
      then (if sk_IsCurrent k then Some (k\<lparr> sk_IsCurrent := False \<rparr>) else None)
      else Some k)"

lemma keys_unique_eq:
  assumes "keys_unique R" "x \<in> set R" "y \<in> set R"
  shows "sk_ID x = sk_ID y \<Longrightarrow> x = y" "sk_KeyHash x = sk_KeyHash y \<Longrightarrow> x = y"
  using assms by (auto simp: keys_unique_def distinct_map dest: inj_onD)

lemma map_filter_filter: "List.map_filter (\<lambda>x. if P x then None else Some x) xs = filter (\<lambda>x. \<not> P x) xs"
  by (induction xs) (auto simp: List.map_filter_def)

lemma set_map_filter': "set (List.map_filter h R) = {y. \<exists>x\<in>set R. h x = Some y}"
  by (induction R) (auto simp: map_filter_simps split: option.splits)

lemma map_filter_cong:
  "(\<And>x. x \<in> set R \<Longrightarrow> h x = h' x) \<Longrightarrow> List.map_filter h R = List.map_filter h' R"
  by (induction R) (auto simp: map_filter_simps split: option.splits)

lemma filter_map_filter:
  assumes "\<And>x y. x \<in> set R \<Longrightarrow> h x = Some y \<Longrightarrow> Q y \<longleftrightarrow> x \<noteq> k"
  shows "filter Q (List.map_filter h R) = List.map_filter (\<lambda>x. if x = k then None else h x) R"
  using assms by (induction R) (auto simp: map_filter_simps split: option.splits)

lemma distinct_map_map_filter:
  assumes "distinct (map f R)" "\<And>x y. x \<in> set R \<Longrightarrow> h x = Some y \<Longrightarrow> f y = f x"
  shows "distinct (map f (List.map_filter h R))"
  using assms
proof (induction R)
  case Nil
  then show ?case by (simp add: map_filter_simps)
next
  case (Cons x R)
  have "f y \<notin> f ` set (List.map_filter h R)" if "h x = Some y" for y
  proof
    assume "f y \<in> f ` set (List.map_filter h R)"
    then obtain z w where "w \<in> set R" "h w = Some z" "f y = f z" by (auto simp: set_map_filter')
    with Cons.prems that have "f x = f w" by (metis list.set_intros)
    with Cons.prems(1) \<open>w \<in> set R\<close> show False by simp
  qed
  with Cons show ?case by (auto simp: map_filter_simps split: option.splits)
qed

context key_table
begin

definition repo :: "'d key_repo" where
  "repo = NewSecretKeyRepository g"

lemma find_keys:
  "\<exists>xs. kr_GetByApplicationID (NewSecretKeyRepository g) app d = Some (Inr xs, d)
     \<and> set xs = {k \<in> set (rows d). sk_ApplicationID k = app}
     \<and> (distinct (map sk_ID (rows d)) \<longrightarrow> distinct (map sk_ID xs))"
  using find_set[of False "\<lambda>k. sk_ApplicationID k = app" unordered d]
  by (auto simp: NewSecretKeyRepository_def Key_GetByApplicationID_def)

lemma save_key:
  assumes "keys_unique (rows d)" "k \<in> set (rows d)" "sk_ID k' = sk_ID k" "sk_KeyHash k' = sk_KeyHash k"
  shows "\<exists>d'. kr_Update (NewSecretKeyRepository g) k' d = Some (Inr (), d')
    \<and> rows d' = map (\<lambda>x. if sk_ID x = sk_ID k then k' else x) (rows d)"
proof -
  have "\<exists>x\<in>set (rows d). True \<and> sk_ID x = sk_ID k'" using assms(2,3) by auto
  moreover have "\<forall>x\<in>set (rows d). sk_ID x \<noteq> sk_ID k' \<longrightarrow> \<not> key_clash x k'"
    using keys_unique_eq(2)[OF assms(1) _ assms(2)] assms(3,4) by (auto simp: key_clash_def)
  ultimately show ?thesis using save[of d k'] assms(3)
    by (simp add: NewSecretKeyRepository_def Key_Update_def)
qed

lemma delete_key:
  "\<exists>d'. kr_Delete (NewSecretKeyRepository g) i d = Some (Inr (), d')
     \<and> rows d' = filter (\<lambda>x. sk_ID x \<noteq> i) (rows d)"
  using delete[of False "\<lambda>k. sk_ID k = i" d]
  by (simp add: NewSecretKeyRepository_def Key_Delete_def map_filter_filter cong del: if_weak_cong)

text \<open>The rotation of the keys listed so far.\<close>

definition rotated_of :: "secret_key list \<Rightarrow> secret_key \<Rightarrow> secret_key option" where
  "rotated_of ys k = (if k \<in> set ys then rotated (sk_ApplicationID k) k else Some k)"

lemma rotated_keeps: "rotated app x = Some y \<Longrightarrow> sk_ID y = sk_ID x \<and> sk_KeyHash y = sk_KeyHash x"
  by (auto simp: rotated_def split: if_splits)

lemma rotated_unique:
  assumes "keys_unique R" "\<And>x y. h x = Some y \<Longrightarrow> sk_ID y = sk_ID x \<and> sk_KeyHash y = sk_KeyHash x"
  shows "keys_unique (List.map_filter h R)"
  using assms by (auto simp: keys_unique_def intro!: distinct_map_map_filter)

lemma rotateExistingKeys_rows:
  assumes u: "keys_unique (rows d)"
  shows "\<exists>d'. rotateExistingKeys (NewSecretKeyRepository g) app d = Some (Inr (), d')
    \<and> rows d' = List.map_filter (rotated app) (rows d) \<and> keys_unique (rows d')"
proof -
  let ?repo = "NewSecretKeyRepository g" and ?R = "rows d"
  from find_keys[of app d] u obtain xs where
    xs: "kr_GetByApplicationID ?repo app d = Some (Inr xs, d)"
      "set xs = {k \<in> set ?R. sk_ApplicationID k = app}" "distinct (map sk_ID xs)"
    by (auto simp: keys_unique_def)
  have keeps: "rotated_of ys x = Some y \<Longrightarrow> sk_ID y = sk_ID x \<and> sk_KeyHash y = sk_KeyHash x" for ys x y
    using rotated_keeps by (auto simp: rotated_of_def split: if_splits)
  have "\<exists>d'. for_each (rotate_one ?repo) xs d = Some (Inr (), d')
    \<and> rows d' = List.map_filter (rotated_of xs) ?R"
  proof (rule for_each_inv)
    have "rotated_of [] = Some" by (simp add: fun_eq_iff rotated_of_def)
    moreover have "List.map_filter Some xs = xs" for xs :: "secret_key list"
      by (induction xs) (simp_all add: map_filter_simps)
    ultimately show "rows d = List.map_filter (rotated_of []) ?R" by simp
  next
    fix ys k zs d1
    assume split: "xs = ys @ k # zs" and d1: "rows d1 = List.map_filter (rotated_of ys) ?R"
    have kR: "k \<in> set ?R" "sk_ApplicationID k = app" using split xs(2) by auto
    have ky: "k \<notin> set ys" using xs(3) split by auto
    have u1: "keys_unique (rows d1)" unfolding d1 by (rule rotated_unique[OF u keeps])
    have k1: "k \<in> set (rows d1)"
      unfolding d1 using kR ky by (force simp: List.map_filter_def rotated_of_def image_iff)
    have step: "rotated_of (ys @ [k]) x = (if x = k then rotated app k else rotated_of ys x)" for x
      using kR(2) ky by (auto simp: rotated_of_def)
    have only_k: "sk_ID y = sk_ID k \<longleftrightarrow> x = k" if "x \<in> set ?R" "rotated_of ys x = Some y" for x y
      using keeps[OF that(2)] keys_unique_eq(1)[OF u that(1) kR(1)] by auto
    have ykk: "rotated_of ys k = Some k" using ky by (simp add: rotated_of_def)
    show "\<exists>d2. rotate_one ?repo k d1 = Some (Inr (), d2) \<and> rows d2 = List.map_filter (rotated_of (ys @ [k])) ?R"
    proof (cases "sk_Active k")
      case False
      have "List.map_filter (rotated_of (ys @ [k])) ?R = List.map_filter (rotated_of ys) ?R"
        using False ykk by (auto simp: step rotated_def List.map_filter_def intro!: map_cong filter_cong)
      with False d1 show ?thesis by (simp add: rotate_one_def ok_def)
    next
      case act: True
      show ?thesis
      proof (cases "sk_IsCurrent k")
        case True
        from save_key[OF u1 k1, of "k\<lparr> sk_IsCurrent := False \<rparr>"] obtain d2 where
          d2: "kr_Update ?repo (k\<lparr> sk_IsCurrent := False \<rparr>) d1 = Some (Inr (), d2)"
          "rows d2 = map (\<lambda>x. if sk_ID x = sk_ID k then k\<lparr> sk_IsCurrent := False \<rparr> else x) (rows d1)" by auto
        have "map (\<lambda>x. if sk_ID x = sk_ID k then k\<lparr> sk_IsCurrent := False \<rparr> else x) (List.map_filter (rotated_of ys) ?R)
            = List.map_filter (rotated_of (ys @ [k])) ?R"
          using act True kR(2) ykk only_k
          by (auto simp: step rotated_def List.map_filter_def intro!: map_cong filter_cong split: option.splits)
        with d2 d1 act True show ?thesis by (simp add: rotate_one_def ok_def)
      next
        case False
        from delete_key[of "sk_ID k" d1] obtain d2 where
          d2: "kr_Delete ?repo (sk_ID k) d1 = Some (Inr (), d2)" "rows d2 = filter (\<lambda>x. sk_ID x \<noteq> sk_ID k) (rows d1)"
          by blast
        have "rotated_of (ys @ [k]) = (\<lambda>x. if x = k then None else rotated_of ys x)"
          using act False kR(2) by (auto simp: fun_eq_iff step rotated_def)
        then have "filter (\<lambda>x. sk_ID x \<noteq> sk_ID k) (List.map_filter (rotated_of ys) ?R)
            = List.map_filter (rotated_of (ys @ [k])) ?R"
          using filter_map_filter[of ?R "rotated_of ys" "\<lambda>x. sk_ID x \<noteq> sk_ID k" k] only_k by simp
        with d2 d1 act False show ?thesis by (simp add: rotate_one_def RevokeSecretKey_def ok_def)
      qed
    qed
  qed
  moreover have "List.map_filter (rotated_of xs) ?R = List.map_filter (rotated app) ?R"
    using xs(2) by (intro map_filter_cong) (auto simp: rotated_of_def rotated_def)
  ultimately show ?thesis
    using xs(1) rotated_unique[OF u rotated_keeps] by (auto simp: rotateExistingKeys_def)
qed

lemma GetByHash_cases:
  assumes "keys_unique (rows d)"
  obtains (gone) "\<forall>k\<in>set (rows d). sk_KeyHash k \<noteq> h"
      "kr_GetByHash (NewSecretKeyRepository g) h d = Some (Inl ErrRecordNotFound, d)"
  | (row) k where "k \<in> set (rows d)" "sk_KeyHash k = h"
      "kr_GetByHash (NewSecretKeyRepository g) h d = Some (Inr k, d)"
  using first[of False "\<lambda>k. sk_KeyHash k = h" d]
  by (fastforce simp: found_def NewSecretKeyRepository_def Key_GetByHash_def split: sum.splits)

lemma GetByID_cases:
  obtains (gone) "\<forall>k\<in>set (rows d). sk_ID k \<noteq> i"
      "kr_GetByID (NewSecretKeyRepository g) i d = Some (Inl ErrRecordNotFound, d)"
  | (row) k where "k \<in> set (rows d)" "sk_ID k = i"
      "kr_GetByID (NewSecretKeyRepository g) i d = Some (Inr k, d)"
  using first[of False "\<lambda>k. sk_ID k = i" d]
  by (fastforce simp: found_def NewSecretKeyRepository_def Key_GetByID_def split: sum.splits)

lemma create_key:
  assumes "sk_ID k \<notin> sk_ID ` set (rows d)" "sk_KeyHash k \<notin> sk_KeyHash ` set (rows d)"
  shows "\<exists>d'. kr_Create (NewSecretKeyRepository g) k d = Some (Inr (), d') \<and> rows d' = rows d @ [k]"
proof -
  have "\<forall>x\<in>set (rows d). \<not> key_clash x k"
    unfolding key_clash_def using assms imageI[of _ "set (rows d)" sk_ID] imageI[of _ "set (rows d)" sk_KeyHash]
    by metis
  from create[OF this] obtain d' where "g_Create g k d = Some (Inr k, d')" "rows d' = rows d @ [k]" by blast
  then show ?thesis by (simp add: NewSecretKeyRepository_def Key_Create_def ok_def)
qed

end

section \<open>properties\<close>

text \<open>The keys a presented string authenticates as.\<close>

definition authenticates :: "secret_key list \<Rightarrow> (string \<Rightarrow> string) \<Rightarrow> string \<Rightarrow> bool" where
  "authenticates R sha256 presented \<longleftrightarrow>
     (\<exists>k\<in>set R. sk_Active k \<and> sk_KeyHash k = EncodeToString (sha256 presented))"

text \<open>A key for the witnesses, and a hash that is the identity.\<close>

definition sample_key :: "string \<Rightarrow> string \<Rightarrow> bool \<Rightarrow> secret_key" where
  "sample_key i plain current =
     \<lparr> sk_ID = i, sk_Name = ''key'', sk_KeyHash = EncodeToString plain, sk_ApplicationID = ''a'',
       sk_CreatedBy = ''u'', sk_Active = True, sk_IsCurrent = current, sk_LastUsedAt = None \<rparr>"

definition mem_keys :: "(secret_key, secret_key list) table" where
  "mem_keys = mem_table (\<lambda>d. d) (\<lambda>xs _. xs) (\<lambda>_. True) (\<lambda>k. k) (\<lambda>k. k) sk_ID key_clash (\<lambda>_. None)"

lemma mem_key_table: "key_table mem_keys (\<lambda>d. d)"
  unfolding key_table_def mem_keys_def by (rule mem_table_gorm) simp

interpretation mem_keys: key_table mem_keys "\<lambda>d. d"
  by (rule mem_key_table)

lemma ValidateSecretKey_outcome:
  assumes "key_table g rows" "keys_unique (rows d)"
  shows "\<exists>r d'. ValidateSecretKey (NewSecretKeyRepository g) sha256 now presented d = Some (r, d')
    \<and> (if authenticates (rows d) sha256 presented
       then \<exists>k\<in>set (rows d). sk_Active k \<and> sk_KeyHash k = EncodeToString (sha256 presented)
              \<and> r = Inr (k\<lparr> sk_LastUsedAt := Some now \<rparr>)
              \<and> rows d' = map (\<lambda>x. if sk_ID x = sk_ID k then k\<lparr> sk_LastUsedAt := Some now \<rparr> else x) (rows d)
       else (\<exists>e. r = Inl e) \<and> d' = d)"
proof (cases rule: key_table.GetByHash_cases[OF assms, of "EncodeToString (sha256 presented)"])
  case 1
  then show ?thesis
    by (auto simp: ValidateSecretKey_def authenticates_def fail_def)
next
  case (2 k)
  have same: "k' = k" if "k' \<in> set (rows d)" "sk_KeyHash k' = EncodeToString (sha256 presented)" for k'
    using keys_unique_eq(2)[OF assms(2) that(1) 2(1)] that(2) 2(2) by simp
  from key_table.save_key[OF assms 2(1), of "k\<lparr> sk_LastUsedAt := Some now \<rparr>"] obtain d' where
    "kr_Update (NewSecretKeyRepository g) (k\<lparr> sk_LastUsedAt := Some now \<rparr>) d = Some (Inr (), d')"
    "rows d' = map (\<lambda>x. if sk_ID x = sk_ID k then k\<lparr> sk_LastUsedAt := Some now \<rparr> else x) (rows d)" by auto
  note d' = this
  show ?thesis
  proof (cases "sk_Active k")
    case True
    then have "ValidateSecretKey (NewSecretKeyRepository g) sha256 now presented d
        = Some (Inr (k\<lparr> sk_LastUsedAt := Some now \<rparr>), d')"
      using 2(3) d'(1) by (simp add: ValidateSecretKey_def ok_def Let_def)
    moreover have "authenticates (rows d) sha256 presented" using 2 True by (auto simp: authenticates_def)
    ultimately show ?thesis using 2 True d'(2) by auto
  next
    case False
    then have "ValidateSecretKey (NewSecretKeyRepository g) sha256 now presented d = Some (Inl KeyNotFound, d)"
      using 2(3) by (simp add: ValidateSecretKey_def fail_def)
    moreover have "\<not> authenticates (rows d) sha256 presented" using same False by (auto simp: authenticates_def)
    ultimately show ?thesis by simp
  qed
qed

text \<open>C29. A presented secret key authenticates exactly when the table holds an active key with its hash:
  a key that waits for approval, or was revoked, does not. A success returns that key and changes
  nothing but its time of use.\<close>

theorem ValidateSecretKey_authenticates:
  assumes "key_table g rows" "keys_unique (rows d)"
  shows "\<exists>r d'. ValidateSecretKey (NewSecretKeyRepository g) sha256 now presented d = Some (r, d')
    \<and> (if authenticates (rows d) sha256 presented
       then \<exists>k\<in>set (rows d). sk_Active k \<and> sk_KeyHash k = EncodeToString (sha256 presented)
              \<and> r = Inr (k\<lparr> sk_LastUsedAt := Some now \<rparr>)
              \<and> rows d' = map (\<lambda>x. if sk_ID x = sk_ID k then k\<lparr> sk_LastUsedAt := Some now \<rparr> else x) (rows d)
       else (\<exists>e. r = Inl e) \<and> d' = d)"
  by (rule ValidateSecretKey_outcome[OF assms])

theorem ValidateSecretKey_authenticates_witness:
  "\<exists>d'. ValidateSecretKey (NewSecretKeyRepository mem_keys) (\<lambda>s. s) 7 ''sk_1'' [sample_key ''1'' ''sk_1'' True]
     = Some (Inr (sample_key ''1'' ''sk_1'' True\<lparr> sk_LastUsedAt := Some 7 \<rparr>), d')"
proof -
  have "authenticates [sample_key ''1'' ''sk_1'' True] (\<lambda>s. s) ''sk_1''"
    by (simp add: authenticates_def sample_key_def)
  moreover have "keys_unique [sample_key ''1'' ''sk_1'' True]" by (simp add: keys_unique_def)
  ultimately show ?thesis
    using ValidateSecretKey_authenticates[OF mem_key_table, of "[sample_key ''1'' ''sk_1'' True]" "\<lambda>s. s" 7 "''sk_1''"]
    by auto
qed

text \<open>The active current, or previous, keys of an application.\<close>

definition slots :: "secret_key list \<Rightarrow> string \<Rightarrow> bool \<Rightarrow> secret_key list" where
  "slots R app current = filter (\<lambda>k. sk_ApplicationID k = app \<and> sk_Active k \<and> sk_IsCurrent k = current) R"

lemma slots_rotated:
  "length (slots (List.map_filter (rotated app) R) app True) = 0"
  "length (slots (List.map_filter (rotated app) R) app False) = length (slots R app True)"
  by (induction R) (auto simp: slots_def map_filter_simps rotated_def)

lemma authenticates_rotated:
  "authenticates (List.map_filter (rotated app) R) H p \<longleftrightarrow>
     (\<exists>k\<in>set R. sk_Active k \<and> sk_KeyHash k = EncodeToString (H p) \<and> (sk_ApplicationID k = app \<longrightarrow> sk_IsCurrent k))"
  by (induction R) (auto simp: map_filter_simps authenticates_def rotated_def)

text \<open>C16. Regenerating the key of an application issues a new current key, active at once, keeps the
  former current key as the previous one and removes the former previous one; keys waiting for
  approval and keys of other applications are untouched. So the new string authenticates, and any
  other string authenticates afterwards exactly if it did before with a key that is not the
  application's former previous key. At most one active current and one previous key remain.\<close>

theorem RegenerateSecretKey_rotates:
  assumes "key_table g rows" "keys_unique (rows d)" "app \<noteq> []" "createdBy \<noteq> []"
    and "ks_random src = Some bytes" "ks_ulid src \<notin> sk_ID ` set (rows d)"
    and "EncodeToString (ks_sha256 src (''sk_'' @ EncodeToString bytes)) \<notin> sk_KeyHash ` set (rows d)"
  shows "\<exists>resp d'. RegenerateSecretKey (NewSecretKeyRepository g) src app createdBy d = Some (Inr resp, d')
    \<and> rows d' = List.map_filter (rotated app) (rows d) @ [kp_SecretKey resp]
    \<and> authenticates (rows d') (ks_sha256 src) (kp_PlainTextKey resp)
    \<and> (\<forall>p. EncodeToString (ks_sha256 src p) \<noteq> sk_KeyHash (kp_SecretKey resp) \<longrightarrow>
          authenticates (rows d') (ks_sha256 src) p =
            (\<exists>k\<in>set (rows d). sk_Active k \<and> sk_KeyHash k = EncodeToString (ks_sha256 src p)
               \<and> (sk_ApplicationID k = app \<longrightarrow> sk_IsCurrent k)))
    \<and> length (slots (rows d') app True) = 1
    \<and> length (slots (rows d') app False) = length (slots (rows d) app True)"
proof -
  let ?repo = "NewSecretKeyRepository g" and ?plain = "''sk_'' @ EncodeToString bytes"
  let ?key = "(NewSecretKey (ks_ulid src) ''API Access Key'' app createdBy True)
    \<lparr> sk_KeyHash := EncodeToString (ks_sha256 src ?plain) \<rparr>"
  let ?resp = "\<lparr> kp_SecretKey = ?key, kp_PlainTextKey = ?plain \<rparr>"
  from key_table.rotateExistingKeys_rows[OF assms(1,2), of app] obtain d1 where
    d1: "rotateExistingKeys ?repo app d = Some (Inr (), d1)" "rows d1 = List.map_filter (rotated app) (rows d)" by blast
  have keeps: "rotated app k = Some y \<Longrightarrow> sk_ID y = sk_ID k \<and> sk_KeyHash y = sk_KeyHash k" for k y
    by (auto simp: rotated_def split: if_splits)
  have fresh: "sk_ID ?key \<notin> sk_ID ` set (rows d1)" "sk_KeyHash ?key \<notin> sk_KeyHash ` set (rows d1)"
    using assms(6,7) keeps unfolding d1(2) set_map_filter' by (force simp: NewSecretKey_def)+
  from key_table.create_key[OF assms(1) fresh] obtain d2 where
    d2: "kr_Create ?repo ?key d1 = Some (Inr (), d2)" "rows d2 = rows d1 @ [?key]" by blast
  have run: "RegenerateSecretKey ?repo src app createdBy d = Some (Inr ?resp, d2)"
    using d1(1) d2(1) assms(3-5)
    by (simp add: RegenerateSecretKey_def CreateSecretKey_def createSecretKey_def SecretKey_Validate_def
        SetSecretKey_def GenerateSecretKey_def NewSecretKey_def ok_def Let_def)
  have rows: "rows d2 = List.map_filter (rotated app) (rows d) @ [kp_SecretKey ?resp]" using d1(2) d2(2) by simp
  have new: "authenticates (rows d2) (ks_sha256 src) ?plain"
    by (simp add: d2(2) authenticates_def NewSecretKey_def)
  have others: "authenticates (rows d2) (ks_sha256 src) p = authenticates (rows d1) (ks_sha256 src) p"
    if "EncodeToString (ks_sha256 src p) \<noteq> sk_KeyHash ?key" for p
    using that by (auto simp: d2(2) authenticates_def)
  have "length (slots (rows d2) app True) = 1" "length (slots (rows d2) app False) = length (slots (rows d) app True)"
    using slots_rotated[of app "rows d"] unfolding rows by (simp_all add: slots_def NewSecretKey_def)
  with run rows new others show ?thesis
    using authenticates_rotated[of app "rows d" "ks_sha256 src"] unfolding d1(2)
    by (intro exI[of _ ?resp] exI[of _ d2]) simp
qed

theorem RegenerateSecretKey_rotates_witness:
  "\<exists>resp d'. RegenerateSecretKey (NewSecretKeyRepository mem_keys)
       \<lparr> ks_ulid = ''3'', ks_random = Some ''x'', ks_sha256 = (\<lambda>s. s) \<rparr> ''a'' ''u''
       [sample_key ''1'' ''old'' False, sample_key ''2'' ''now'' True] = Some (Inr resp, d')
     \<and> authenticates d' (\<lambda>s. s) ''now'' \<and> \<not> authenticates d' (\<lambda>s. s) ''old''"
proof -
  let ?src = "\<lparr> ks_ulid = ''3'', ks_random = Some ''x'', ks_sha256 = (\<lambda>s. s) \<rparr>"
  let ?R = "[sample_key ''1'' ''old'' False, sample_key ''2'' ''now'' True]"
  have hex: "EncodeToString ''old'' \<noteq> EncodeToString ''now''"
    by (simp add: EncodeToString_def hex_digit_def)
  have len: "length (EncodeToString s) = 2 * length s" for s by (induction s) (simp_all add: EncodeToString_def)
  have x: "length (''sk_'' @ EncodeToString ''x'') = 5" by (simp add: len)
  have ne: "EncodeToString (''sk_'' @ EncodeToString ''x'') \<noteq> EncodeToString p" if "length p = 3" for p
  proof
    assume "EncodeToString (''sk_'' @ EncodeToString ''x'') = EncodeToString p"
    from arg_cong[OF this, of length] show False unfolding len x that by simp
  qed
  have "keys_unique ?R" using hex by (simp add: keys_unique_def sample_key_def)
  moreover have "EncodeToString (ks_sha256 ?src (''sk_'' @ EncodeToString ''x'')) \<notin> sk_KeyHash ` set ?R"
    using ne[of "''old''"] ne[of "''now''"] by (simp add: sample_key_def)
  moreover have "ks_ulid ?src \<notin> sk_ID ` set ?R" by (simp add: sample_key_def)
  ultimately obtain resp d' where
    r: "RegenerateSecretKey (NewSecretKeyRepository mem_keys) ?src ''a'' ''u'' ?R = Some (Inr resp, d')"
    "d' = List.map_filter (rotated ''a'') ?R @ [kp_SecretKey resp]"
    "\<forall>p. EncodeToString p \<noteq> sk_KeyHash (kp_SecretKey resp) \<longrightarrow> authenticates d' (\<lambda>s. s) p =
        (\<exists>k\<in>set ?R. sk_Active k \<and> sk_KeyHash k = EncodeToString p
           \<and> (sk_ApplicationID k = ''a'' \<longrightarrow> sk_IsCurrent k))"
    using RegenerateSecretKey_rotates[OF mem_key_table, of ?R "''a''" "''u''" ?src "''x''"] by auto
  have "kp_SecretKey resp = last d'" using r(2) by simp
  have "sk_KeyHash (kp_SecretKey resp) = EncodeToString (''sk_'' @ EncodeToString ''x'')"
    using r(1) by (auto simp: RegenerateSecretKey_def CreateSecretKey_def createSecretKey_def
        SecretKey_Validate_def SetSecretKey_def GenerateSecretKey_def NewSecretKey_def ok_def fail_def Let_def
        elim!: attempt_Some)
  then have "EncodeToString p \<noteq> sk_KeyHash (kp_SecretKey resp)" if "length p = 3" for p
    using ne[OF that] by simp
  then have "authenticates d' (\<lambda>s. s) ''now''" "\<not> authenticates d' (\<lambda>s. s) ''old''"
    using r(3) hex by (auto simp: sample_key_def)
  with r(1) show ?thesis by blast
qed

text \<open>C28. Executing an approved key request rotates the application's keys and makes the requested key
  active and current when the rotation left it in the table. When it did not (it was the previous key
  by then, or never existed), the call fails, but the rotation has happened: the current key was
  demoted and the previous one removed.\<close>

theorem ActivateAndRotateSecretKey_rows:
  assumes "key_table g rows" "keys_unique (rows d)"
  shows "\<exists>r d'. ActivateAndRotateSecretKey (NewSecretKeyRepository g) i app d = Some (r, d')
    \<and> (let R = List.map_filter (rotated app) (rows d) in
       if i \<in> sk_ID ` set R
       then r = Inr ()
         \<and> rows d' = map (\<lambda>x. if sk_ID x = i then x\<lparr> sk_Active := True, sk_IsCurrent := True \<rparr> else x) R
       else r = Inl (KeyDB ErrRecordNotFound) \<and> rows d' = R)"
proof -
  let ?repo = "NewSecretKeyRepository g" and ?R = "List.map_filter (rotated app) (rows d)"
  from key_table.rotateExistingKeys_rows[OF assms, of app] obtain d1 where
    d1: "rotateExistingKeys ?repo app d = Some (Inr (), d1)" "rows d1 = ?R" "keys_unique (rows d1)" by blast
  show ?thesis
  proof (cases rule: key_table.GetByID_cases[OF assms(1), of d1 i])
    case 1
    then have "i \<notin> sk_ID ` set ?R" using d1(2) by auto
    with 1 d1 show ?thesis
      by (intro exI[of _ "Inl (KeyDB ErrRecordNotFound)"] exI[of _ d1])
         (simp add: ActivateAndRotateSecretKey_def fail_def Let_def)
  next
    case (2 k)
    let ?k = "k\<lparr> sk_Active := True, sk_IsCurrent := True \<rparr>"
    from key_table.save_key[OF assms(1) d1(3) 2(1), of ?k] obtain d2 where
      d2: "kr_Update ?repo ?k d1 = Some (Inr (), d2)"
        "rows d2 = map (\<lambda>x. if sk_ID x = sk_ID k then ?k else x) (rows d1)" by auto
    have "rows d2 = map (\<lambda>x. if sk_ID x = i then x\<lparr> sk_Active := True, sk_IsCurrent := True \<rparr> else x) ?R"
      unfolding d2(2) d1(2)[symmetric] using keys_unique_eq(1)[OF d1(3) _ 2(1)] 2(2) by (intro map_cong) auto
    moreover have "i \<in> sk_ID ` set ?R" using 2(1,2) d1(2) by auto
    ultimately show ?thesis using 2 d1(1) d2(1)
      by (intro exI[of _ "Inr ()"] exI[of _ d2]) (simp add: ActivateAndRotateSecretKey_def ok_def Let_def)
  qed
qed

theorem ActivateAndRotateSecretKey_rows_witness:
  "ActivateAndRotateSecretKey (NewSecretKeyRepository mem_keys) ''9'' ''a''
     [sample_key ''1'' ''old'' False, sample_key ''2'' ''now'' True]
   = Some (Inl (KeyDB ErrRecordNotFound), [sample_key ''2'' ''now'' False])"
proof -
  let ?R = "[sample_key ''1'' ''old'' False, sample_key ''2'' ''now'' True]"
  have "EncodeToString ''old'' \<noteq> EncodeToString ''now''" by (simp add: EncodeToString_def hex_digit_def)
  then have "keys_unique ?R" by (simp add: keys_unique_def sample_key_def)
  moreover have "List.map_filter (rotated ''a'') ?R = [sample_key ''2'' ''now'' False]"
    by (simp add: map_filter_simps rotated_def sample_key_def)
  moreover have "''9'' \<notin> sk_ID ` set [sample_key ''2'' ''now'' False]" by (simp add: sample_key_def)
  ultimately show ?thesis
    using ActivateAndRotateSecretKey_rows[OF mem_key_table, of ?R "''9''" "''a''"] by (auto simp: Let_def)
qed

end
