(* ===== verification/Database.thy ===== *)
theory Database
  imports SecretKey
begin

text \<open>
  What the repositories over several tables share: the Go error values of the use cases, tables that
  leave one another alone, deletes that may fail half-way, and database transactions. GORM's
  transactions are not part of the repository: they are a record of three calls, and the locale
  \<open>transaction\<close> states what a transaction promises (a rollback, and a failed commit, give back the
  content of the begin).
\<close>

section \<open>error values\<close>

text \<open>
  The errors the use cases return: \<open>errors.New\<close>, \<open>fmt.Errorf\<close> with \<open>%w\<close>, and the errors of the calls they
  make.
\<close>

datatype go_error =
    ErrText string
  | ErrWrap string go_error
  | ErrApp app_error
  | ErrGorm db_error
  | ErrKey key_error
  | ErrRequest request_error
  | ErrSettings settings_error
  | ErrTeam team_error
  | ErrUser user_error
  | ErrPassword password_error
  | ErrJSON
  | ErrApprovalAccessDenied

text \<open>\<open>fmt.Errorf("...: %w", err)\<close> keeps its cause: \<open>errors.Unwrap\<close> to the end.\<close>

fun cause :: "go_error \<Rightarrow> go_error" where
  "cause (ErrWrap m e) = cause e"
| "cause e = e"

definition text_fail :: "string \<Rightarrow> ('s, go_error, 'a) io" where
  "text_fail m = fail (ErrText m)"

text \<open>Passing an error on, of the database or of another use case.\<close>

definition db_call :: "('s, db_error, 'a) io \<Rightarrow> ('s, go_error, 'a) io" where
  "db_call m = attempt m (\<lambda>e. fail (ErrGorm e)) ok"

definition app_call :: "('s, app_error, 'a) io \<Rightarrow> ('s, go_error, 'a) io" where
  "app_call m = attempt m (\<lambda>e. fail (ErrApp e)) ok"

definition key_call :: "('s, key_error, 'a) io \<Rightarrow> ('s, go_error, 'a) io" where
  "key_call m = attempt m (\<lambda>e. fail (ErrKey e)) ok"

definition wrapped :: "string \<Rightarrow> ('s, go_error, 'a) io \<Rightarrow> ('s, go_error, 'a) io" where
  "wrapped m c = attempt c (\<lambda>e. fail (ErrWrap m e)) ok"

lemma call_results [simp]:
  "db_call c s = (case c s of None \<Rightarrow> None | Some (Inl e, s') \<Rightarrow> Some (Inl (ErrGorm e), s')
                    | Some (Inr a, s') \<Rightarrow> Some (Inr a, s'))"
  "app_call c' s = (case c' s of None \<Rightarrow> None | Some (Inl e, s') \<Rightarrow> Some (Inl (ErrApp e), s')
                    | Some (Inr a, s') \<Rightarrow> Some (Inr a, s'))"
  "key_call c'' s = (case c'' s of None \<Rightarrow> None | Some (Inl e, s') \<Rightarrow> Some (Inl (ErrKey e), s')
                    | Some (Inr a, s') \<Rightarrow> Some (Inr a, s'))"
  "wrapped m k s = (case k s of None \<Rightarrow> None | Some (Inl e, s') \<Rightarrow> Some (Inl (ErrWrap m e), s')
                    | Some (Inr a, s') \<Rightarrow> Some (Inr a, s'))"
  by (auto simp: db_call_def app_call_def key_call_def wrapped_def attempt_def fail_def ok_def
      split: option.splits sum.splits)

section \<open>frames\<close>

text \<open>The writes of a table leave a view of the state alone.\<close>

definition keeps :: "('r, 'd) table \<Rightarrow> ('d \<Rightarrow> 'v) \<Rightarrow> bool" where
  "keeps g v \<longleftrightarrow>
     (\<forall>r d x d'. g_Create g r d = Some (x, d') \<longrightarrow> v d' = v d)
     \<and> (\<forall>r d x d'. g_Save g r d = Some (x, d') \<longrightarrow> v d' = v d)
     \<and> (\<forall>u P f d x d'. g_Updates g u P f d = Some (x, d') \<longrightarrow> v d' = v d)
     \<and> (\<forall>u P d x d'. g_Delete g u P d = Some (x, d') \<longrightarrow> v d' = v d)"

lemma keepsD:
  assumes "keeps g v"
  shows "g_Create g r d = Some (x, d') \<Longrightarrow> v d' = v d"
    "g_Save g r d = Some (y, d') \<Longrightarrow> v d' = v d"
    "g_Updates g u P f d = Some (y, d') \<Longrightarrow> v d' = v d"
    "g_Delete g u P d = Some (y, d') \<Longrightarrow> v d' = v d"
  using assms unfolding keeps_def by blast+

lemma keeps_part: "keeps g v \<Longrightarrow> (\<And>d d'. v d = v d' \<Longrightarrow> u d = u d') \<Longrightarrow> keeps g u"
  unfolding keeps_def by metis

lemma mem_table_keeps:
  assumes "\<And>xs d. v (put xs d) = v d"
  shows "keeps (mem_table get put live columns defaults key clash erase) v"
  unfolding keeps_def by (auto simp: mem_table_def ok_def fail_def assms split: if_splits)

text \<open>Calls that keep a view of the state, whatever they return.\<close>

definition call_keeps :: "('s, 'e, 'a) io \<Rightarrow> ('s \<Rightarrow> 'v) \<Rightarrow> bool" where
  "call_keeps c v \<longleftrightarrow> (\<forall>s r s'. c s = Some (r, s') \<longrightarrow> v s' = v s)"

lemma call_keepsD: "call_keeps c v \<Longrightarrow> c s = Some (r, s') \<Longrightarrow> v s' = v s"
  by (auto simp: call_keeps_def)

named_theorems keep_intros \<open>calls that keep a view\<close>

lemma call_keeps_ok [keep_intros]: "call_keeps (ok a) v" and call_keeps_fail [keep_intros]: "call_keeps (fail e) v"
  by (auto simp: call_keeps_def ok_def fail_def)

lemma call_keeps_attempt [keep_intros]:
  assumes "call_keeps m v" "\<And>e. call_keeps (h e) v" "\<And>a. call_keeps (k a) v"
  shows "call_keeps (attempt m h k) v"
  using assms unfolding call_keeps_def attempt_def by (fastforce split: option.splits sum.splits prod.splits)

lemma call_keeps_for_each [keep_intros]:
  assumes "\<And>x. call_keeps (f x) v"
  shows "call_keeps (for_each f xs) v"
  by (induction xs) (auto intro!: keep_intros assms)

lemma call_keeps_table:
  assumes "keeps g v"
  shows "call_keeps (g_Create g r) v" "call_keeps (g_Save g r) v" "call_keeps (g_Updates g u P f) v"
    "call_keeps (g_Delete g u P) v"
  using assms unfolding call_keeps_def by (blast dest: keepsD)+

section \<open>transactions\<close>

record 'd tx =
  tx_Begin :: "('d, db_error, unit) io"
  tx_Commit :: "('d, db_error, unit) io"
  tx_Rollback :: "('d, db_error, unit) io"

locale transaction =
  fixes tx :: "'d tx" and content :: "'d \<Rightarrow> 'c" and saved :: "'d \<Rightarrow> 'c option"
  assumes begin_tx: "\<exists>r d'. tx_Begin tx d = Some (r, d') \<and> content d' = content d
        \<and> (r = Inr () \<longrightarrow> saved d' = Some (content d))"
    and rollback: "saved d = Some c \<Longrightarrow> \<exists>r d'. tx_Rollback tx d = Some (r, d') \<and> content d' = c"
    and commit: "saved d = Some c \<Longrightarrow> \<exists>r d'. tx_Commit tx d = Some (r, d')
        \<and> content d' = (if r = Inr () then content d else c)"

text \<open>A delete that may fail after any part of its effect.\<close>

definition fallible_delete :: "bool \<Rightarrow> ('r, 'd) table \<Rightarrow> ('d \<Rightarrow> 'r list) \<Rightarrow> bool" where
  "fallible_delete u g rows \<longleftrightarrow>
     (\<forall>P d. \<exists>r d'. g_Delete g u P d = Some (r, d')
        \<and> (r = Inr () \<longrightarrow> rows d' = filter (\<lambda>x. \<not> P x) (rows d)))"

end
