(* ===== verification/Team.thy ===== *)
theory Team
  imports Database ToggleUseCase
begin

text \<open>
  Teams: the rows of \<open>entity/team.go\<close> that join teams with users and applications, the repositories
  \<open>team_repository.go\<close> and \<open>team_approver_repository.go\<close> over GORM tables with their interfaces, and
  \<open>usecase/team_usecase.go\<close>. A preloaded association is read from the join table and then from the
  joined one, as GORM does. The lemmas say who is a member, which permission a user has on an
  application and what each change does to the join rows.
\<close>

section \<open>team.go\<close>

record team_user =
  mb_TeamID :: string
  mb_UserID :: string
  mb_IsApprover :: bool

record team_app =
  ta_TeamID :: string
  ta_AppID :: string
  ta_Permission :: permission

record team_user_with_approver =
  tw_TeamID :: string
  tw_UserID :: string
  tw_IsApprover :: bool
  tw_Username :: string
  tw_Role :: user_role

record team_counts =
  tc_ID :: string
  tc_Name :: string
  tc_Description :: string
  tc_UserCount :: nat
  tc_ApplicationCount :: nat

section \<open>the interfaces\<close>

record 's team_repo =
  tm_Create :: "team \<Rightarrow> ('s, db_error, unit) io"
  tm_GetByID :: "string \<Rightarrow> ('s, db_error, team) io"
  tm_GetByName :: "string \<Rightarrow> ('s, db_error, team) io"
  tm_GetAll :: "('s, db_error, team list) io"
  tm_Update :: "team \<Rightarrow> ('s, db_error, unit) io"
  tm_Delete :: "string \<Rightarrow> ('s, db_error, unit) io"
  tm_AddUserToTeam :: "string \<Rightarrow> string \<Rightarrow> ('s, db_error, unit) io"
  tm_RemoveUserFromTeam :: "string \<Rightarrow> string \<Rightarrow> ('s, db_error, unit) io"
  tm_GetUsersByTeamID :: "string \<Rightarrow> ('s, db_error, user list) io"
  tm_GetTeamsByUserID :: "string \<Rightarrow> ('s, db_error, team list) io"
  tm_AddApplicationToTeam :: "string \<Rightarrow> string \<Rightarrow> permission \<Rightarrow> ('s, db_error, unit) io"
  tm_RemoveApplicationFromTeam :: "string \<Rightarrow> string \<Rightarrow> ('s, db_error, unit) io"
  tm_UpdateApplicationPermission :: "string \<Rightarrow> string \<Rightarrow> permission \<Rightarrow> ('s, db_error, unit) io"
  tm_GetApplicationsByTeamID :: "string \<Rightarrow> ('s, db_error, application list) io"
  tm_GetTeamsByApplicationID :: "string \<Rightarrow> ('s, db_error, team list) io"
  tm_GetTeamApplicationPermission :: "string \<Rightarrow> string \<Rightarrow> ('s, db_error, permission) io"
  tm_GetUserTeamApplicationPermissions :: "string \<Rightarrow> string \<Rightarrow> ('s, db_error, permission list) io"
  tm_GetTeamsWithCounts :: "('s, db_error, team_counts list) io"
  tm_GetTeamWithCounts :: "string \<Rightarrow> ('s, db_error, team_counts) io"

record 's approver_repo =
  ar_SetUserAsApprover :: "string \<Rightarrow> string \<Rightarrow> bool \<Rightarrow> ('s, db_error, unit) io"
  ar_IsUserApprover :: "string \<Rightarrow> string \<Rightarrow> ('s, db_error, bool) io"
  ar_GetTeamApprovers :: "string \<Rightarrow> ('s, db_error, team_user_with_approver list) io"
  ar_GetUserTeamsAsApprover :: "string \<Rightarrow> ('s, db_error, string list) io"

text \<open>\<open>domain/repository/user_repository.go\<close>\<close>

record 's user_repo =
  ur_Create :: "user \<Rightarrow> ('s, db_error, unit) io"
  ur_GetByID :: "string \<Rightarrow> ('s, db_error, user) io"
  ur_GetByUsername :: "string \<Rightarrow> ('s, db_error, user) io"
  ur_GetAll :: "('s, db_error, user list) io"
  ur_Update :: "user \<Rightarrow> ('s, db_error, unit) io"
  ur_Delete :: "string \<Rightarrow> ('s, db_error, unit) io"
  ur_GetApplicationsByUserID :: "string \<Rightarrow> ('s, db_error, application list) io"
  ur_AddUserToApplication :: "string \<Rightarrow> string \<Rightarrow> ('s, db_error, unit) io"
  ur_RemoveUserFromApplication :: "string \<Rightarrow> string \<Rightarrow> ('s, db_error, unit) io"
  ur_GetUsersByApplicationID :: "string \<Rightarrow> ('s, db_error, user list) io"

section \<open>team_repository.go\<close>

text \<open>The tables behind \<open>r.db\<close>. \<open>td_created\<close> is the creation time of a team row.\<close>

record 'd team_db =
  td_teams :: "(team, 'd) table"
  td_users :: "(user, 'd) table"
  td_apps :: "(application, 'd) table"
  td_team_users :: "(team_user, 'd) table"
  td_team_apps :: "(team_app, 'd) table"
  td_created :: "team \<Rightarrow> int"

definition Team_Create :: "'d team_db \<Rightarrow> team \<Rightarrow> ('d, db_error, unit) io" where
  "Team_Create db t = attempt (g_Create (td_teams db) t) fail (\<lambda>_. ok ())"

definition Team_GetByID :: "'d team_db \<Rightarrow> string \<Rightarrow> ('d, db_error, team) io" where
  "Team_GetByID db i = g_First (td_teams db) False (\<lambda>t. te_ID t = i)"

definition Team_GetByName :: "'d team_db \<Rightarrow> string \<Rightarrow> ('d, db_error, team) io" where
  "Team_GetByName db name = g_First (td_teams db) False (\<lambda>t. te_Name t = name)"

definition Team_GetAll :: "'d team_db \<Rightarrow> ('d, db_error, team list) io" where
  "Team_GetAll db = g_Find (td_teams db) False (\<lambda>_. True) unordered"

definition Team_Update :: "'d team_db \<Rightarrow> team \<Rightarrow> ('d, db_error, unit) io" where
  "Team_Update db t = g_Save (td_teams db) t"

definition Team_Delete :: "'d team_db \<Rightarrow> string \<Rightarrow> ('d, db_error, unit) io" where
  "Team_Delete db i =
     attempt (g_Delete (td_team_users db) True (\<lambda>m. mb_TeamID m = i)) fail (\<lambda>_.
     attempt (g_Delete (td_team_apps db) True (\<lambda>a. ta_TeamID a = i)) fail (\<lambda>_.
     g_Delete (td_teams db) False (\<lambda>t. te_ID t = i)))"

text \<open>\<open>Association("Users").Append\<close> leaves an existing join row as it is.\<close>

definition Team_AddUserToTeam :: "'d team_db \<Rightarrow> string \<Rightarrow> string \<Rightarrow> ('d, db_error, unit) io" where
  "Team_AddUserToTeam db teamID userID =
     attempt (g_First (td_teams db) False (\<lambda>t. te_ID t = teamID)) fail (\<lambda>team.
     attempt (g_First (td_users db) False (\<lambda>u. us_ID u = userID)) fail (\<lambda>user.
     attempt (g_Count (td_team_users db) False (\<lambda>m. mb_TeamID m = te_ID team \<and> mb_UserID m = us_ID user)) fail (\<lambda>n.
     if n > 0 then ok ()
     else attempt (g_Create (td_team_users db)
            \<lparr> mb_TeamID = te_ID team, mb_UserID = us_ID user, mb_IsApprover = False \<rparr>) fail (\<lambda>_. ok ()))))"

definition Team_RemoveUserFromTeam :: "'d team_db \<Rightarrow> string \<Rightarrow> string \<Rightarrow> ('d, db_error, unit) io" where
  "Team_RemoveUserFromTeam db teamID userID =
     attempt (g_First (td_teams db) False (\<lambda>t. te_ID t = teamID)) fail (\<lambda>team.
     attempt (g_First (td_users db) False (\<lambda>u. us_ID u = userID)) fail (\<lambda>user.
     g_Delete (td_team_users db) False (\<lambda>m. mb_TeamID m = te_ID team \<and> mb_UserID m = us_ID user)))"

definition Team_GetUsersByTeamID :: "'d team_db \<Rightarrow> string \<Rightarrow> ('d, db_error, user list) io" where
  "Team_GetUsersByTeamID db teamID =
     attempt (g_First (td_teams db) False (\<lambda>t. te_ID t = teamID)) fail (\<lambda>team.
     attempt (g_Find (td_team_users db) False (\<lambda>m. mb_TeamID m = te_ID team) unordered) fail (\<lambda>ms.
     g_Find (td_users db) False (\<lambda>u. us_ID u \<in> set (map mb_UserID ms)) unordered))"

definition Team_GetTeamsByUserID :: "'d team_db \<Rightarrow> string \<Rightarrow> ('d, db_error, team list) io" where
  "Team_GetTeamsByUserID db userID =
     attempt (g_First (td_users db) False (\<lambda>u. us_ID u = userID)) fail (\<lambda>user.
     attempt (g_Find (td_team_users db) False (\<lambda>m. mb_UserID m = us_ID user) unordered) fail (\<lambda>ms.
     g_Find (td_teams db) False (\<lambda>t. te_ID t \<in> set (map mb_TeamID ms)) unordered))"

definition Team_AddApplicationToTeam ::
    "'d team_db \<Rightarrow> string \<Rightarrow> string \<Rightarrow> permission \<Rightarrow> ('d, db_error, unit) io" where
  "Team_AddApplicationToTeam db teamID applicationID p =
     attempt (g_Create (td_team_apps db) \<lparr> ta_TeamID = teamID, ta_AppID = applicationID, ta_Permission = p \<rparr>)
       fail (\<lambda>_. ok ())"

definition Team_RemoveApplicationFromTeam :: "'d team_db \<Rightarrow> string \<Rightarrow> string \<Rightarrow> ('d, db_error, unit) io" where
  "Team_RemoveApplicationFromTeam db teamID applicationID =
     g_Delete (td_team_apps db) False (\<lambda>a. ta_TeamID a = teamID \<and> ta_AppID a = applicationID)"

definition Team_UpdateApplicationPermission ::
    "'d team_db \<Rightarrow> string \<Rightarrow> string \<Rightarrow> permission \<Rightarrow> ('d, db_error, unit) io" where
  "Team_UpdateApplicationPermission db teamID applicationID p =
     g_Updates (td_team_apps db) False (\<lambda>a. ta_TeamID a = teamID \<and> ta_AppID a = applicationID)
       (\<lambda>a. a\<lparr> ta_Permission := p \<rparr>)"

definition Team_GetApplicationsByTeamID :: "'d team_db \<Rightarrow> string \<Rightarrow> ('d, db_error, application list) io" where
  "Team_GetApplicationsByTeamID db teamID =
     attempt (g_First (td_teams db) False (\<lambda>t. te_ID t = teamID)) fail (\<lambda>team.
     attempt (g_Find (td_team_apps db) False (\<lambda>a. ta_TeamID a = te_ID team) unordered) fail (\<lambda>as.
     g_Find (td_apps db) False (\<lambda>a. ap_ID a \<in> set (map ta_AppID as)) unordered))"

definition Team_GetTeamsByApplicationID :: "'d team_db \<Rightarrow> string \<Rightarrow> ('d, db_error, team list) io" where
  "Team_GetTeamsByApplicationID db applicationID =
     attempt (g_First (td_apps db) False (\<lambda>a. ap_ID a = applicationID)) fail (\<lambda>app.
     attempt (g_Find (td_team_apps db) False (\<lambda>a. ta_AppID a = ap_ID app) unordered) fail (\<lambda>as.
     g_Find (td_teams db) False (\<lambda>t. te_ID t \<in> set (map ta_TeamID as)) unordered))"

definition Team_GetTeamApplicationPermission ::
    "'d team_db \<Rightarrow> string \<Rightarrow> string \<Rightarrow> ('d, db_error, permission) io" where
  "Team_GetTeamApplicationPermission db teamID applicationID =
     attempt (g_First (td_team_apps db) False (\<lambda>a. ta_TeamID a = teamID \<and> ta_AppID a = applicationID)) fail
       (\<lambda>a. ok (ta_Permission a))"

text \<open>The joins of the raw queries, over the rows of the joined tables.\<close>

definition Team_GetUserTeamApplicationPermissions ::
    "'d team_db \<Rightarrow> string \<Rightarrow> string \<Rightarrow> ('d, db_error, permission list) io" where
  "Team_GetUserTeamApplicationPermissions db userID applicationID =
     attempt (g_Find (td_team_apps db) True (\<lambda>a. ta_AppID a = applicationID) unordered) fail (\<lambda>as.
     attempt (g_Find (td_team_users db) True (\<lambda>m. mb_UserID m = userID) unordered) fail (\<lambda>ms.
     ok (map (\<lambda>(a, m). ta_Permission a)
           (filter (\<lambda>(a, m). ta_TeamID a = mb_TeamID m) (List.product as ms)))))"

definition counted :: "team_user list \<Rightarrow> team_app list \<Rightarrow> team \<Rightarrow> team_counts" where
  "counted ms as t =
     \<lparr> tc_ID = te_ID t, tc_Name = te_Name t, tc_Description = te_Description t,
       tc_UserCount = length (filter (\<lambda>m. mb_TeamID m = te_ID t) ms),
       tc_ApplicationCount = length (filter (\<lambda>a. ta_TeamID a = te_ID t) as) \<rparr>"

definition Team_GetTeamsWithCounts :: "'d team_db \<Rightarrow> ('d, db_error, team_counts list) io" where
  "Team_GetTeamsWithCounts db =
     attempt (g_Find (td_teams db) True (\<lambda>_. True) (\<lambda>t. [- td_created db t])) fail (\<lambda>ts.
     attempt (g_Find (td_team_users db) True (\<lambda>_. True) unordered) fail (\<lambda>ms.
     attempt (g_Find (td_team_apps db) True (\<lambda>_. True) unordered) fail (\<lambda>as.
     ok (map (counted ms as) ts))))"

text \<open>\<open>Scan\<close> of a query without rows leaves the zero struct and reports no error.\<close>

definition Team_GetTeamWithCounts :: "'d team_db \<Rightarrow> string \<Rightarrow> ('d, db_error, team_counts) io" where
  "Team_GetTeamWithCounts db i =
     attempt (g_Find (td_teams db) True (\<lambda>t. te_ID t = i) unordered) fail (\<lambda>ts.
     attempt (g_Find (td_team_users db) True (\<lambda>m. mb_TeamID m = i) unordered) fail (\<lambda>ms.
     attempt (g_Find (td_team_apps db) True (\<lambda>a. ta_TeamID a = i) unordered) fail (\<lambda>as.
     ok (case ts of
           t # _ \<Rightarrow> counted ms as t
         | [] \<Rightarrow> \<lparr> tc_ID = [], tc_Name = [], tc_Description = [], tc_UserCount = 0, tc_ApplicationCount = 0 \<rparr>))))"

definition NewTeamRepository :: "'d team_db \<Rightarrow> 'd team_repo" where
  "NewTeamRepository db =
     \<lparr> tm_Create = Team_Create db, tm_GetByID = Team_GetByID db, tm_GetByName = Team_GetByName db,
       tm_GetAll = Team_GetAll db, tm_Update = Team_Update db, tm_Delete = Team_Delete db,
       tm_AddUserToTeam = Team_AddUserToTeam db, tm_RemoveUserFromTeam = Team_RemoveUserFromTeam db,
       tm_GetUsersByTeamID = Team_GetUsersByTeamID db, tm_GetTeamsByUserID = Team_GetTeamsByUserID db,
       tm_AddApplicationToTeam = Team_AddApplicationToTeam db,
       tm_RemoveApplicationFromTeam = Team_RemoveApplicationFromTeam db,
       tm_UpdateApplicationPermission = Team_UpdateApplicationPermission db,
       tm_GetApplicationsByTeamID = Team_GetApplicationsByTeamID db,
       tm_GetTeamsByApplicationID = Team_GetTeamsByApplicationID db,
       tm_GetTeamApplicationPermission = Team_GetTeamApplicationPermission db,
       tm_GetUserTeamApplicationPermissions = Team_GetUserTeamApplicationPermissions db,
       tm_GetTeamsWithCounts = Team_GetTeamsWithCounts db, tm_GetTeamWithCounts = Team_GetTeamWithCounts db \<rparr>"

section \<open>team_approver_repository.go\<close>

definition Approver_SetUserAsApprover ::
    "'d team_db \<Rightarrow> string \<Rightarrow> string \<Rightarrow> bool \<Rightarrow> ('d, db_error, unit) io" where
  "Approver_SetUserAsApprover db teamID userID isApprover =
     attempt (g_First (td_team_users db) False (\<lambda>m. mb_TeamID m = teamID \<and> mb_UserID m = userID)) fail (\<lambda>teamUser.
     g_Updates (td_team_users db) False
       (\<lambda>m. mb_TeamID m = mb_TeamID teamUser \<and> mb_UserID m = mb_UserID teamUser)
       (\<lambda>m. m\<lparr> mb_IsApprover := isApprover \<rparr>))"

definition Approver_IsUserApprover :: "'d team_db \<Rightarrow> string \<Rightarrow> string \<Rightarrow> ('d, db_error, bool) io" where
  "Approver_IsUserApprover db teamID userID =
     attempt (g_First (td_team_users db) False (\<lambda>m. mb_TeamID m = teamID \<and> mb_UserID m = userID))
       (\<lambda>err. if err = ErrRecordNotFound then ok False else fail err)
       (\<lambda>teamUser. ok (mb_IsApprover teamUser))"

definition username_key :: "string \<Rightarrow> int list" where
  "username_key s = map (\<lambda>c. int (of_char c)) s"

definition Approver_GetTeamApprovers ::
    "'d team_db \<Rightarrow> string \<Rightarrow> ('d, db_error, team_user_with_approver list) io" where
  "Approver_GetTeamApprovers db teamID =
     attempt (g_Find (td_users db) True (\<lambda>_. True) (\<lambda>u. username_key (us_Username u))) fail (\<lambda>us.
     attempt (g_Find (td_team_users db) True (\<lambda>m. mb_TeamID m = teamID) unordered) fail (\<lambda>ms.
     ok (map (\<lambda>(u, m). \<lparr> tw_TeamID = mb_TeamID m, tw_UserID = mb_UserID m, tw_IsApprover = mb_IsApprover m,
                          tw_Username = us_Username u, tw_Role = us_Role u \<rparr>)
           (filter (\<lambda>(u, m). mb_UserID m = us_ID u) (List.product us ms)))))"

definition Approver_GetUserTeamsAsApprover :: "'d team_db \<Rightarrow> string \<Rightarrow> ('d, db_error, string list) io" where
  "Approver_GetUserTeamsAsApprover db userID =
     attempt (g_Find (td_team_users db) False (\<lambda>m. mb_UserID m = userID \<and> mb_IsApprover m) unordered) fail
       (\<lambda>ms. ok (map mb_TeamID ms))"

definition NewTeamApproverRepository :: "'d team_db \<Rightarrow> 'd approver_repo" where
  "NewTeamApproverRepository db =
     \<lparr> ar_SetUserAsApprover = Approver_SetUserAsApprover db, ar_IsUserApprover = Approver_IsUserApprover db,
       ar_GetTeamApprovers = Approver_GetTeamApprovers db,
       ar_GetUserTeamsAsApprover = Approver_GetUserTeamsAsApprover db \<rparr>"

section \<open>team_usecase.go\<close>

record 's team_usecase =
  te_teamRepo :: "'s team_repo"
  te_userRepo :: "'s user_repo"
  te_appRepo :: "'s app_repo"

text \<open>\<open>existing, _ := GetByName(name); if existing != nil { ... }\<close>: an error counts as absent.\<close>

definition CreateTeam :: "'s team_usecase \<Rightarrow> team \<Rightarrow> ('s, go_error, unit) io" where
  "CreateTeam uc team =
     attempt (attempt (tm_GetByName (te_teamRepo uc) (te_Name team)) (\<lambda>_. ok False) (\<lambda>_. ok True)) fail (\<lambda>exists.
     if exists then text_fail ''team name already exists''
     else (case Team_Validate team of
             Some e \<Rightarrow> fail (ErrTeam e)
           | None \<Rightarrow> db_call (tm_Create (te_teamRepo uc) team)))"

definition GetTeamByID :: "'s team_usecase \<Rightarrow> string \<Rightarrow> ('s, go_error, team) io" where
  "GetTeamByID uc i =
     (if i = [] then text_fail ''team ID is required'' else db_call (tm_GetByID (te_teamRepo uc) i))"

definition GetTeamByName :: "'s team_usecase \<Rightarrow> string \<Rightarrow> ('s, go_error, team) io" where
  "GetTeamByName uc name =
     (if name = [] then text_fail ''team name is required'' else db_call (tm_GetByName (te_teamRepo uc) name))"

definition GetAllTeams :: "'s team_usecase \<Rightarrow> ('s, go_error, team list) io" where
  "GetAllTeams uc = db_call (tm_GetAll (te_teamRepo uc))"

definition UpdateTeam :: "'s team_usecase \<Rightarrow> team \<Rightarrow> ('s, go_error, unit) io" where
  "UpdateTeam uc team =
     attempt (wrapped ''team not found'' (db_call (tm_GetByID (te_teamRepo uc) (te_ID team)))) fail (\<lambda>existingTeam.
     attempt (if te_Name existingTeam \<noteq> te_Name team
              then attempt (tm_GetByName (te_teamRepo uc) (te_Name team)) (\<lambda>_. ok False)
                     (\<lambda>nameCheck. ok (te_ID nameCheck \<noteq> te_ID team))
              else ok False) fail (\<lambda>taken.
     if taken then text_fail ''team name already exists''
     else (case Team_Validate team of
             Some e \<Rightarrow> fail (ErrTeam e)
           | None \<Rightarrow> db_call (tm_Update (te_teamRepo uc) team))))"

definition DeleteTeam :: "'s team_usecase \<Rightarrow> string \<Rightarrow> ('s, go_error, unit) io" where
  "DeleteTeam uc i =
     (if i = [] then text_fail ''team ID is required''
      else attempt (wrapped ''team not found'' (db_call (tm_GetByID (te_teamRepo uc) i))) fail (\<lambda>_.
           db_call (tm_Delete (te_teamRepo uc) i)))"

subsection \<open>users of a team\<close>

definition AddUserToTeam :: "'s team_usecase \<Rightarrow> string \<Rightarrow> string \<Rightarrow> ('s, go_error, unit) io" where
  "AddUserToTeam uc teamID userID =
     (if teamID = [] \<or> userID = [] then text_fail ''team ID and user ID are required''
      else
        attempt (wrapped ''team not found'' (db_call (tm_GetByID (te_teamRepo uc) teamID))) fail (\<lambda>_.
        attempt (wrapped ''user not found'' (db_call (ur_GetByID (te_userRepo uc) userID))) fail (\<lambda>_.
        attempt (db_call (tm_GetTeamsByUserID (te_teamRepo uc) userID)) fail (\<lambda>userTeams.
        if list_ex (\<lambda>team. te_ID team = teamID) userTeams
        then text_fail ''user is already a member of this team''
        else db_call (tm_AddUserToTeam (te_teamRepo uc) teamID userID)))))"

definition RemoveUserFromTeam :: "'s team_usecase \<Rightarrow> string \<Rightarrow> string \<Rightarrow> ('s, go_error, unit) io" where
  "RemoveUserFromTeam uc teamID userID =
     (if teamID = [] \<or> userID = [] then text_fail ''team ID and user ID are required''
      else
        attempt (wrapped ''team not found'' (db_call (tm_GetByID (te_teamRepo uc) teamID))) fail (\<lambda>_.
        attempt (wrapped ''user not found'' (db_call (ur_GetByID (te_userRepo uc) userID))) fail (\<lambda>_.
        db_call (tm_RemoveUserFromTeam (te_teamRepo uc) teamID userID))))"

definition GetTeamUsers :: "'s team_usecase \<Rightarrow> string \<Rightarrow> ('s, go_error, user list) io" where
  "GetTeamUsers uc teamID =
     (if teamID = [] then text_fail ''team ID is required''
      else
        attempt (wrapped ''team not found'' (db_call (tm_GetByID (te_teamRepo uc) teamID))) fail (\<lambda>_.
        db_call (tm_GetUsersByTeamID (te_teamRepo uc) teamID)))"

definition GetUserTeams :: "'s team_usecase \<Rightarrow> string \<Rightarrow> ('s, go_error, team list) io" where
  "GetUserTeams uc userID =
     (if userID = [] then text_fail ''user ID is required''
      else
        attempt (wrapped ''user not found'' (db_call (ur_GetByID (te_userRepo uc) userID))) fail (\<lambda>_.
        db_call (tm_GetTeamsByUserID (te_teamRepo uc) userID)))"

subsection \<open>applications of a team\<close>

definition invalid_permission :: string where
  "invalid_permission = ''invalid permission level. Must be 'read', 'write', or 'admin'' @ [CHR 39]"

definition AddApplicationToTeam ::
    "'s team_usecase \<Rightarrow> string \<Rightarrow> string \<Rightarrow> permission \<Rightarrow> ('s, go_error, unit) io" where
  "AddApplicationToTeam uc teamID applicationID p =
     (if teamID = [] \<or> applicationID = [] then text_fail ''team ID and application ID are required''
      else if \<not> ValidatePermission p then text_fail invalid_permission
      else
        attempt (wrapped ''team not found'' (db_call (tm_GetByID (te_teamRepo uc) teamID))) fail (\<lambda>_.
        attempt (wrapped ''application not found'' (db_call (pr_GetByID (te_appRepo uc) applicationID))) fail (\<lambda>_.
        attempt (db_call (tm_GetApplicationsByTeamID (te_teamRepo uc) teamID)) fail (\<lambda>teamApps.
        if list_ex (\<lambda>app. ap_ID app = applicationID) teamApps
        then text_fail ''application is already associated with this team''
        else db_call (tm_AddApplicationToTeam (te_teamRepo uc) teamID applicationID p)))))"

definition RemoveApplicationFromTeam :: "'s team_usecase \<Rightarrow> string \<Rightarrow> string \<Rightarrow> ('s, go_error, unit) io" where
  "RemoveApplicationFromTeam uc teamID applicationID =
     (if teamID = [] \<or> applicationID = [] then text_fail ''team ID and application ID are required''
      else
        attempt (wrapped ''team not found'' (db_call (tm_GetByID (te_teamRepo uc) teamID))) fail (\<lambda>_.
        attempt (wrapped ''application not found'' (db_call (pr_GetByID (te_appRepo uc) applicationID))) fail (\<lambda>_.
        db_call (tm_RemoveApplicationFromTeam (te_teamRepo uc) teamID applicationID))))"

definition RemoveApplicationFromAllTeams :: "'s team_usecase \<Rightarrow> string \<Rightarrow> ('s, go_error, unit) io" where
  "RemoveApplicationFromAllTeams uc applicationID =
     (if applicationID = [] then text_fail ''application ID is required''
      else
        attempt (wrapped ''application not found'' (db_call (pr_GetByID (te_appRepo uc) applicationID))) fail (\<lambda>_.
        attempt (wrapped ''error getting teams for application''
                   (db_call (tm_GetTeamsByApplicationID (te_teamRepo uc) applicationID))) fail (\<lambda>teams.
        for_each (\<lambda>team. wrapped (''error removing application from team '' @ te_ID team)
                    (db_call (tm_RemoveApplicationFromTeam (te_teamRepo uc) (te_ID team) applicationID))) teams)))"

definition UpdateApplicationPermission ::
    "'s team_usecase \<Rightarrow> string \<Rightarrow> string \<Rightarrow> permission \<Rightarrow> ('s, go_error, unit) io" where
  "UpdateApplicationPermission uc teamID applicationID p =
     (if teamID = [] \<or> applicationID = [] then text_fail ''team ID and application ID are required''
      else if \<not> ValidatePermission p then text_fail invalid_permission
      else
        attempt (wrapped ''team not found'' (db_call (tm_GetByID (te_teamRepo uc) teamID))) fail (\<lambda>_.
        attempt (wrapped ''application not found'' (db_call (pr_GetByID (te_appRepo uc) applicationID))) fail (\<lambda>_.
        attempt (wrapped ''application is not associated with this team''
                   (db_call (tm_GetTeamApplicationPermission (te_teamRepo uc) teamID applicationID))) fail (\<lambda>_.
        db_call (tm_UpdateApplicationPermission (te_teamRepo uc) teamID applicationID p)))))"

definition GetTeamApplications :: "'s team_usecase \<Rightarrow> string \<Rightarrow> ('s, go_error, application list) io" where
  "GetTeamApplications uc teamID =
     (if teamID = [] then text_fail ''team ID is required''
      else
        attempt (wrapped ''team not found'' (db_call (tm_GetByID (te_teamRepo uc) teamID))) fail (\<lambda>_.
        db_call (tm_GetApplicationsByTeamID (te_teamRepo uc) teamID)))"

definition GetApplicationTeams :: "'s team_usecase \<Rightarrow> string \<Rightarrow> ('s, go_error, team list) io" where
  "GetApplicationTeams uc applicationID =
     (if applicationID = [] then text_fail ''application ID is required''
      else
        attempt (wrapped ''application not found'' (db_call (pr_GetByID (te_appRepo uc) applicationID))) fail (\<lambda>_.
        db_call (tm_GetTeamsByApplicationID (te_teamRepo uc) applicationID)))"

subsection \<open>permissions\<close>

definition GetTeamApplicationPermission :: "'s team_usecase \<Rightarrow> string \<Rightarrow> string \<Rightarrow> ('s, go_error, permission) io" where
  "GetTeamApplicationPermission uc teamID applicationID =
     (if teamID = [] \<or> applicationID = [] then text_fail ''team ID and application ID are required''
      else db_call (tm_GetTeamApplicationPermission (te_teamRepo uc) teamID applicationID))"

definition GetUserApplicationPermissions ::
    "'s team_usecase \<Rightarrow> string \<Rightarrow> string \<Rightarrow> ('s, go_error, permission list) io" where
  "GetUserApplicationPermissions uc userID applicationID =
     (if userID = [] \<or> applicationID = [] then text_fail ''user ID and application ID are required''
      else
        attempt (wrapped ''user not found'' (db_call (ur_GetByID (te_userRepo uc) userID))) fail (\<lambda>_.
        attempt (wrapped ''application not found'' (db_call (pr_GetByID (te_appRepo uc) applicationID))) fail (\<lambda>_.
        db_call (tm_GetUserTeamApplicationPermissions (te_teamRepo uc) userID applicationID))))"

definition GetAllTeamsWithCounts :: "'s team_usecase \<Rightarrow> ('s, go_error, team_counts list) io" where
  "GetAllTeamsWithCounts uc = db_call (tm_GetTeamsWithCounts (te_teamRepo uc))"

definition GetTeamWithCounts :: "'s team_usecase \<Rightarrow> string \<Rightarrow> ('s, go_error, team_counts) io" where
  "GetTeamWithCounts uc i =
     (if i = [] then text_fail ''team ID is required'' else db_call (tm_GetTeamWithCounts (te_teamRepo uc) i))"

text \<open>The loop for the highest permission, from the current one.\<close>

fun highest_permission :: "permission \<Rightarrow> permission list \<Rightarrow> permission" where
  "highest_permission h [] = h"
| "highest_permission h (perm # perms) =
     (if perm = PermissionAdmin then PermissionAdmin
      else if perm = PermissionWrite \<and> h = PermissionRead then highest_permission PermissionWrite perms
      else highest_permission h perms)"

definition UserCanAccessApplication ::
    "'s team_usecase \<Rightarrow> string \<Rightarrow> string \<Rightarrow> ('s, go_error, bool \<times> permission) io" where
  "UserCanAccessApplication uc userID applicationID =
     attempt (GetUserApplicationPermissions uc userID applicationID) fail (\<lambda>permissions.
     ok (case permissions of
           [] \<Rightarrow> (False, OtherPermission [])
         | p # _ \<Rightarrow> (True, highest_permission p permissions)))"

definition UserCanModifyApplication :: "'s team_usecase \<Rightarrow> string \<Rightarrow> string \<Rightarrow> ('s, go_error, bool) io" where
  "UserCanModifyApplication uc userID applicationID =
     attempt (UserCanAccessApplication uc userID applicationID) fail (\<lambda>(canAccess, p).
     if \<not> canAccess then ok False else ok (p = PermissionWrite \<or> p = PermissionAdmin))"

definition UserCanAdminApplication :: "'s team_usecase \<Rightarrow> string \<Rightarrow> string \<Rightarrow> ('s, go_error, bool) io" where
  "UserCanAdminApplication uc userID applicationID =
     attempt (UserCanAccessApplication uc userID applicationID) fail (\<lambda>(canAccess, p).
     if \<not> canAccess then ok False else ok (p = PermissionAdmin))"

end
