(* ===== verification/AuditTrail.thy ===== *)
theory AuditTrail
  imports Team "HOL-Library.Sublist"
begin

text \<open>
  The audit trail: \<open>entity/audit_log.go\<close>, \<open>infrastructure/database/audit_log_repository.go\<close> with its
  interface, and \<open>usecase/audit_usecase.go\<close>. Writing an entry never fails the operation it records.
  The lemmas say that the pages of a listing are its successive slices, also when the clock moves between them.
\<close>

section \<open>audit_log.go\<close>

datatype audit_category = AuditCategoryToggles | AuditCategoryKeys | AuditCategoryAccess | AuditCategoryApprovals

datatype audit_event =
    AuditEventToggleCreated | AuditEventToggleDeleted | AuditEventToggleEnabled | AuditEventToggleDisabled
  | AuditEventToggleRuleSet | AuditEventToggleRestored | AuditEventApplicationCreated
  | AuditEventApplicationDeleted | AuditEventApplicationUpdated | AuditEventKeyGenerated
  | AuditEventKeyRevoked | AuditEventTeamCreated | AuditEventMemberAdded | AuditEventMemberRemoved
  | AuditEventUserCreated | AuditEventUserDeleted | AuditEventUserStatusChanged
  | AuditEventUserPasswordReset | AuditEventPasswordResetRequested | AuditEventApprovalApproved
  | AuditEventApprovalRejected | AuditEventApprovalSystemToggled | AuditEventApprovalRequested
  | AuditEventApprovalWithdrawn

fun EventCategory :: "audit_event \<Rightarrow> audit_category" where
  "EventCategory AuditEventToggleCreated = AuditCategoryToggles"
| "EventCategory AuditEventToggleDeleted = AuditCategoryToggles"
| "EventCategory AuditEventToggleEnabled = AuditCategoryToggles"
| "EventCategory AuditEventToggleDisabled = AuditCategoryToggles"
| "EventCategory AuditEventToggleRuleSet = AuditCategoryToggles"
| "EventCategory AuditEventToggleRestored = AuditCategoryToggles"
| "EventCategory AuditEventApplicationCreated = AuditCategoryToggles"
| "EventCategory AuditEventApplicationUpdated = AuditCategoryToggles"
| "EventCategory AuditEventApplicationDeleted = AuditCategoryToggles"
| "EventCategory AuditEventKeyGenerated = AuditCategoryKeys"
| "EventCategory AuditEventKeyRevoked = AuditCategoryKeys"
| "EventCategory AuditEventTeamCreated = AuditCategoryAccess"
| "EventCategory AuditEventMemberAdded = AuditCategoryAccess"
| "EventCategory AuditEventMemberRemoved = AuditCategoryAccess"
| "EventCategory AuditEventUserCreated = AuditCategoryAccess"
| "EventCategory AuditEventUserDeleted = AuditCategoryAccess"
| "EventCategory AuditEventUserStatusChanged = AuditCategoryAccess"
| "EventCategory AuditEventUserPasswordReset = AuditCategoryAccess"
| "EventCategory AuditEventPasswordResetRequested = AuditCategoryAccess"
| "EventCategory AuditEventApprovalApproved = AuditCategoryApprovals"
| "EventCategory AuditEventApprovalRejected = AuditCategoryApprovals"
| "EventCategory AuditEventApprovalSystemToggled = AuditCategoryApprovals"
| "EventCategory AuditEventApprovalRequested = AuditCategoryApprovals"
| "EventCategory AuditEventApprovalWithdrawn = AuditCategoryApprovals"

record audit_log =
  al_ID :: string
  al_EventType :: audit_event
  al_Category :: audit_category
  al_Text :: string
  al_Target :: string
  al_TeamID :: "string option"
  al_ApplicationID :: "string option"
  al_Before :: "string option"
  al_After :: "string option"
  al_ActorID :: string
  al_ActorName :: string
  al_CreatedAt :: int

text \<open>The identifier and the time stay empty until the row is created.\<close>

definition NewAuditLog ::
    "audit_event \<Rightarrow> string \<Rightarrow> string \<Rightarrow> string option \<Rightarrow> string \<Rightarrow> string \<Rightarrow> audit_log" where
  "NewAuditLog eventType txt target teamID actorID actorName =
     \<lparr> al_ID = [], al_EventType = eventType, al_Category = EventCategory eventType, al_Text = txt,
       al_Target = target, al_TeamID = teamID, al_ApplicationID = None, al_Before = None, al_After = None,
       al_ActorID = actorID, al_ActorName = actorName, al_CreatedAt = 0 \<rparr>"

definition Audit_BeforeCreate :: "string \<Rightarrow> audit_log \<Rightarrow> audit_log" where
  "Audit_BeforeCreate newID a = (if al_ID a = [] then a\<lparr> al_ID := newID \<rparr> else a)"

section \<open>audit_log_repository.go\<close>

record audit_cursor =
  cu_CreatedAt :: int
  cu_ID :: string

record audit_filter =
  fi_ApplicationID :: string
  fi_Category :: "audit_category option"
  fi_ActorID :: string
  fi_CreatedAfter :: "int option"
  fi_Cursor :: "audit_cursor option"
  fi_Limit :: nat

record 's audit_repo =
  lr_Create :: "audit_log \<Rightarrow> ('s, db_error, unit) io"
  lr_List :: "audit_filter \<Rightarrow> ('s, db_error, audit_log list) io"
  lr_ListActors :: "('s, db_error, (string \<times> string) list) io"

text \<open>
  \<open>ORDER BY created_at DESC, id DESC\<close>: the later and then the greater first. The final 1, above every
  negated character, makes a proper prefix come last.
\<close>

definition desc_key :: "string \<Rightarrow> int list" where
  "desc_key s = map (\<lambda>c. - int (of_char c)) s @ [1]"

definition audit_order :: "audit_log \<Rightarrow> int list" where
  "audit_order a = - al_CreatedAt a # desc_key (al_ID a)"

definition audit_where :: "audit_filter \<Rightarrow> audit_log \<Rightarrow> bool" where
  "audit_where f a \<longleftrightarrow>
     (fi_ApplicationID f \<noteq> [] \<longrightarrow> al_ApplicationID a = Some (fi_ApplicationID f))
     \<and> (case fi_Category f of None \<Rightarrow> True | Some c \<Rightarrow> al_Category a = c)
     \<and> (fi_ActorID f \<noteq> [] \<longrightarrow> al_ActorID a = fi_ActorID f)
     \<and> (case fi_CreatedAfter f of None \<Rightarrow> True | Some t \<Rightarrow> al_CreatedAt a > t)
     \<and> (case fi_Cursor f of
          None \<Rightarrow> True
        | Some c \<Rightarrow> al_CreatedAt a < cu_CreatedAt c
                    \<or> al_CreatedAt a = cu_CreatedAt c \<and> desc_key (cu_ID c) < desc_key (al_ID a))"

text \<open>GORM fills the creation time in; \<open>BeforeCreate\<close> the identifier.\<close>

definition Audit_Create :: "(audit_log, 'd) table \<Rightarrow> int \<Rightarrow> string \<Rightarrow> audit_log \<Rightarrow> ('d, db_error, unit) io" where
  "Audit_Create g now newID a =
     attempt (g_Create g ((Audit_BeforeCreate newID a)\<lparr> al_CreatedAt := (if al_CreatedAt a = 0 then now else al_CreatedAt a) \<rparr>))
       fail (\<lambda>_. ok ())"

definition Audit_List :: "(audit_log, 'd) table \<Rightarrow> audit_filter \<Rightarrow> ('d, db_error, audit_log list) io" where
  "Audit_List g f =
     attempt (g_Find g False (audit_where f) audit_order) fail (\<lambda>rows. ok (take (fi_Limit f) rows))"

text \<open>The first name seen of each actor, the most recent rows first.\<close>

fun actors_seen :: "string set \<Rightarrow> audit_log list \<Rightarrow> (string \<times> string) list" where
  "actors_seen seen [] = []"
| "actors_seen seen (row # rows) =
     (if al_ActorID row \<in> seen then actors_seen seen rows
      else (al_ActorID row, al_ActorName row) # actors_seen (insert (al_ActorID row) seen) rows)"

definition Audit_ListActors :: "(audit_log, 'd) table \<Rightarrow> ('d, db_error, (string \<times> string) list) io" where
  "Audit_ListActors g =
     attempt (g_Find g False (\<lambda>_. True) (\<lambda>a. [- al_CreatedAt a])) fail (\<lambda>rows. ok (actors_seen {} rows))"

definition NewAuditLogRepository :: "(audit_log, 'd) table \<Rightarrow> int \<Rightarrow> string \<Rightarrow> 'd audit_repo" where
  "NewAuditLogRepository g now newID =
     \<lparr> lr_Create = Audit_Create g now newID, lr_List = Audit_List g, lr_ListActors = Audit_ListActors g \<rparr>"

section \<open>audit_usecase.go\<close>

definition DefaultAuditPageSize :: int where "DefaultAuditPageSize = 30"
definition MaxAuditPageSize :: int where "MaxAuditPageSize = 100"

text \<open>\<open>teamAudience\<close> is the pair of look-ups of the interface \<open>teamAudienceResolver\<close>.\<close>

record 's audit_usecase =
  ag_repo :: "'s audit_repo"
  ag_GetTeamsByApplicationID :: "string \<Rightarrow> ('s, db_error, team list) io"
  ag_GetTeamsByUserID :: "string \<Rightarrow> ('s, db_error, team list) io"

definition NewAuditUseCase :: "'s audit_repo \<Rightarrow> 's team_repo \<Rightarrow> 's audit_usecase" where
  "NewAuditUseCase repo teams =
     \<lparr> ag_repo = repo, ag_GetTeamsByApplicationID = tm_GetTeamsByApplicationID teams,
       ag_GetTeamsByUserID = tm_GetTeamsByUserID teams \<rparr>"

text \<open>The error of the write is only logged.\<close>

definition audit_record ::
    "'s audit_usecase \<Rightarrow> audit_event \<Rightarrow> string \<Rightarrow> string \<Rightarrow> string option \<Rightarrow> string option \<Rightarrow> string option
     \<Rightarrow> string option \<Rightarrow> user option \<Rightarrow> ('s, 'e, unit) io" where
  "audit_record uc eventType txt target teamID applicationID bef aft actor =
     (case actor of
        None \<Rightarrow> ok ()
      | Some u \<Rightarrow>
          let entry = (NewAuditLog eventType txt target teamID (us_ID u) (us_Name u))
                \<lparr> al_ApplicationID := applicationID, al_Before := bef, al_After := aft \<rparr>
          in attempt (lr_Create (ag_repo uc) entry) (\<lambda>_. ok ()) (\<lambda>_. ok ()))"

definition Record ::
    "'s audit_usecase \<Rightarrow> audit_event \<Rightarrow> string \<Rightarrow> string \<Rightarrow> string option \<Rightarrow> user option \<Rightarrow> ('s, 'e, unit) io" where
  "Record uc eventType txt target teamID actor = audit_record uc eventType txt target teamID None None None actor"

definition RecordWithApplication ::
    "'s audit_usecase \<Rightarrow> audit_event \<Rightarrow> string \<Rightarrow> string \<Rightarrow> string option \<Rightarrow> string option \<Rightarrow> user option
     \<Rightarrow> ('s, 'e, unit) io" where
  "RecordWithApplication uc eventType txt target teamID applicationID actor =
     audit_record uc eventType txt target teamID applicationID None None actor"

definition RecordSystem :: "'s audit_usecase \<Rightarrow> audit_event \<Rightarrow> string \<Rightarrow> string \<Rightarrow> ('s, 'e, unit) io" where
  "RecordSystem uc eventType txt target =
     attempt (lr_Create (ag_repo uc) (NewAuditLog eventType txt target None ''system'' ''System''))
       (\<lambda>_. ok ()) (\<lambda>_. ok ())"

definition firstTeamIDFor ::
    "(string \<Rightarrow> ('s, db_error, team list) io) \<Rightarrow> string \<Rightarrow> ('s, 'e, string option) io" where
  "firstTeamIDFor lookup i =
     attempt (lookup i) (\<lambda>_. ok None) (\<lambda>teams. ok (case teams of [] \<Rightarrow> None | t # _ \<Rightarrow> Some (te_ID t)))"

definition RecordForApplication ::
    "'s audit_usecase \<Rightarrow> audit_event \<Rightarrow> string \<Rightarrow> string \<Rightarrow> string \<Rightarrow> user option \<Rightarrow> ('s, 'e, unit) io" where
  "RecordForApplication uc eventType txt target applicationID actor =
     attempt (firstTeamIDFor (ag_GetTeamsByApplicationID uc) applicationID) fail (\<lambda>teamID.
     audit_record uc eventType txt target teamID (Some applicationID) None None actor)"

definition RecordRuleChange ::
    "'s audit_usecase \<Rightarrow> string \<Rightarrow> string \<Rightarrow> string \<Rightarrow> string \<Rightarrow> string \<Rightarrow> user option \<Rightarrow> ('s, 'e, unit) io" where
  "RecordRuleChange uc txt target applicationID bef aft actor =
     attempt (firstTeamIDFor (ag_GetTeamsByApplicationID uc) applicationID) fail (\<lambda>teamID.
     audit_record uc AuditEventToggleRuleSet txt target teamID (Some applicationID) (Some bef) (Some aft) actor)"

definition RecordForUser ::
    "'s audit_usecase \<Rightarrow> audit_event \<Rightarrow> string \<Rightarrow> string \<Rightarrow> string \<Rightarrow> user option \<Rightarrow> ('s, 'e, unit) io" where
  "RecordForUser uc eventType txt target targetUserID actor =
     attempt (firstTeamIDFor (ag_GetTeamsByUserID uc) targetUserID) fail (\<lambda>teamID.
     Record uc eventType txt target teamID actor)"

definition clampAuditLimit :: "int \<Rightarrow> int" where
  "clampAuditLimit n =
     (if n \<le> 0 then DefaultAuditPageSize else if n > MaxAuditPageSize then MaxAuditPageSize else n)"

record audit_options =
  lo_Category :: "audit_category option"
  lo_ActorID :: string
  lo_CreatedAfter :: "int option"

definition Audit_ListPage ::
    "'s audit_usecase \<Rightarrow> audit_options \<Rightarrow> audit_cursor option \<Rightarrow> int \<Rightarrow> ('s, app_error, audit_log list) io" where
  "Audit_ListPage uc opts cursor n =
     attempt (lr_List (ag_repo uc)
       \<lparr> fi_ApplicationID = [], fi_Category = lo_Category opts, fi_ActorID = lo_ActorID opts,
         fi_CreatedAfter = lo_CreatedAfter opts, fi_Cursor = cursor, fi_Limit = nat (clampAuditLimit n) \<rparr>)
       (\<lambda>_. app_fail ErrCodeDatabase ''error fetching audit log'') ok"

definition ListForApplication ::
    "'s audit_usecase \<Rightarrow> string \<Rightarrow> audit_options \<Rightarrow> audit_cursor option \<Rightarrow> int \<Rightarrow> ('s, app_error, audit_log list) io" where
  "ListForApplication uc applicationID opts cursor n =
     attempt (lr_List (ag_repo uc)
       \<lparr> fi_ApplicationID = applicationID, fi_Category = lo_Category opts, fi_ActorID = [],
         fi_CreatedAfter = lo_CreatedAfter opts, fi_Cursor = cursor, fi_Limit = nat (clampAuditLimit n) \<rparr>)
       (\<lambda>_. app_fail ErrCodeDatabase ''error fetching application audit log'') ok"

definition ListActors :: "'s audit_usecase \<Rightarrow> ('s, app_error, (string \<times> string) list) io" where
  "ListActors uc =
     attempt (lr_ListActors (ag_repo uc)) (\<lambda>_. app_fail ErrCodeDatabase ''error fetching audit actors'') ok"

section \<open>audit_handler.go\<close>

text \<open>
  The listing endpoints, over their decoded query parameters: the limit as \<open>strconv.Atoi\<close> gives it (0
  when it fails) and the cursor as a value (its base64 text is opaque to the client, which sends back
  what it got). A reply is a status without a page, or a page with the cursor of the next one.
\<close>

definition auditRangeCutoff :: "int \<Rightarrow> string \<Rightarrow> int option" where
  "auditRangeCutoff now rangeParam =
     (if rangeParam = ''24h'' then Some (now - day)
      else if rangeParam = ''7d'' then Some (now - 7 * day)
      else if rangeParam = ''30d'' then Some (now - 30 * day)
      else None)"

definition page_limit :: "int \<Rightarrow> int" where
  "page_limit n =
     (if n \<le> 0 then DefaultAuditPageSize else if n > MaxAuditPageSize then MaxAuditPageSize else n)"

definition parseAuditCategory :: "string \<Rightarrow> audit_category option option" where
  "parseAuditCategory c =
     (if c = [] then Some None
      else if c = ''toggles'' then Some (Some AuditCategoryToggles)
      else if c = ''keys'' then Some (Some AuditCategoryKeys)
      else if c = ''access'' then Some (Some AuditCategoryAccess)
      else if c = ''approvals'' then Some (Some AuditCategoryApprovals)
      else None)"

definition paginateAuditLogs :: "audit_log list \<Rightarrow> int \<Rightarrow> audit_log list \<times> audit_cursor option" where
  "paginateAuditLogs logs n =
     (if int (length logs) > n
      then (take (nat n) logs,
            Some \<lparr> cu_CreatedAt = al_CreatedAt (last (take (nat n) logs)), cu_ID = al_ID (last (take (nat n) logs)) \<rparr>)
      else (logs, None))"

datatype audit_reply = AuditStatus int | AuditPage "audit_log list" "audit_cursor option"

record audit_query =
  aq_category :: string
  aq_actor_id :: string
  aq_range :: string
  aq_limit :: int

definition GetAuditLog ::
    "'s audit_usecase \<Rightarrow> int \<Rightarrow> user option \<Rightarrow> audit_query \<Rightarrow> audit_cursor option \<Rightarrow> ('s, unit, audit_reply) io" where
  "GetAuditLog uc now actor q cursor =
     (case actor of
        None \<Rightarrow> ok (AuditStatus 401)
      | Some _ \<Rightarrow>
          (case parseAuditCategory (aq_category q) of
             None \<Rightarrow> ok (AuditStatus 400)
           | Some category \<Rightarrow>
               let n = page_limit (aq_limit q);
                   opts = \<lparr> lo_Category = category, lo_ActorID = aq_actor_id q,
                            lo_CreatedAfter = auditRangeCutoff now (aq_range q) \<rparr>
               in attempt (Audit_ListPage uc opts cursor (n + 1)) (\<lambda>_. ok (AuditStatus 500))
                    (\<lambda>logs. ok (case paginateAuditLogs logs n of (page, next) \<Rightarrow> AuditPage page next))))"

definition GetApplicationAudit ::
    "'s audit_usecase \<Rightarrow> int \<Rightarrow> user option \<Rightarrow> string \<Rightarrow> audit_query \<Rightarrow> audit_cursor option
     \<Rightarrow> ('s, unit, audit_reply) io" where
  "GetApplicationAudit uc now actor applicationID q cursor =
     (case actor of
        None \<Rightarrow> ok (AuditStatus 401)
      | Some _ \<Rightarrow>
          if applicationID = [] then ok (AuditStatus 400)
          else
          (case parseAuditCategory (aq_category q) of
             None \<Rightarrow> ok (AuditStatus 400)
           | Some category \<Rightarrow>
               let n = page_limit (aq_limit q);
                   opts = \<lparr> lo_Category = category, lo_ActorID = [],
                            lo_CreatedAfter = auditRangeCutoff now (aq_range q) \<rparr>
               in attempt (ListForApplication uc applicationID opts cursor (n + 1)) (\<lambda>_. ok (AuditStatus 500))
                    (\<lambda>logs. ok (case paginateAuditLogs logs n of (page, next) \<Rightarrow> AuditPage page next))))"

definition GetAuditActors :: "'s audit_usecase \<Rightarrow> user option \<Rightarrow> ('s, unit, int \<times> (string \<times> string) list) io" where
  "GetAuditActors uc actor =
     (case actor of
        None \<Rightarrow> ok (401, [])
      | Some _ \<Rightarrow> attempt (ListActors uc) (\<lambda>_. ok (500, [])) (\<lambda>actors. ok (200, actors)))"

text \<open>A client that follows the cursor, one request at each of the given times: the entries it gets.\<close>

fun audit_walk ::
    "'s audit_usecase \<Rightarrow> user \<Rightarrow> audit_query \<Rightarrow> int list \<Rightarrow> audit_cursor option \<Rightarrow> 's \<Rightarrow> audit_log list" where
  "audit_walk uc u q [] c s = []"
| "audit_walk uc u q (now # ts) c s =
     (case GetAuditLog uc now (Some u) q c s of
        Some (Inr (AuditPage page next), s') \<Rightarrow>
          page @ (case next of None \<Rightarrow> [] | Some c' \<Rightarrow> audit_walk uc u q ts (Some c') s')
      | _ \<Rightarrow> [])"

section \<open>the trail as a table\<close>

locale audit_table =
  gorm_table g rows "\<lambda>_. True" "\<lambda>a. a" "\<lambda>a. a" al_ID "\<lambda>x a. al_ID x = al_ID a" "\<lambda>_. None"
  for g :: "(audit_log, 'd) table" and rows

lemma desc_key_inj: "desc_key a = desc_key b \<longleftrightarrow> a = b"
proof
  assume "desc_key a = desc_key b"
  then have "map (\<lambda>c. - int (of_char c)) a = map (\<lambda>c. - int (of_char c)) b" by (simp add: desc_key_def)
  moreover have "inj (\<lambda>c. - int (of_char c :: nat))" by (auto intro!: injI)
  ultimately show "a = b" by (simp add: inj_map_eq_map)
qed simp

lemma audit_order_inj: "distinct (map al_ID xs) \<Longrightarrow> inj_on audit_order (set xs)"
  by (auto simp: inj_on_def audit_order_def desc_key_inj distinct_map)

text \<open>The rows a filter without cursor selects, in the order of the listing.\<close>

definition audit_listing :: "audit_filter \<Rightarrow> audit_log list \<Rightarrow> audit_log list" where
  "audit_listing f R = sort_key audit_order (filter (audit_where f) R)"

definition at_cursor :: "audit_log \<Rightarrow> audit_cursor" where
  "at_cursor a = \<lparr> cu_CreatedAt = al_CreatedAt a, cu_ID = al_ID a \<rparr>"

lemma audit_where_cursor:
  "audit_where (f\<lparr> fi_Cursor := Some (at_cursor c) \<rparr>) a
     \<longleftrightarrow> audit_where (f\<lparr> fi_Cursor := None \<rparr>) a \<and> audit_order c < audit_order a"
  by (auto simp: audit_where_def at_cursor_def audit_order_def)

lemma filter_after:
  assumes "sorted_wrt (<) (map f xs)" "0 < k" "k \<le> length xs"
  shows "filter (\<lambda>a. f (xs ! (k - 1)) < (f a :: 'b :: linorder)) xs = drop k xs"
proof -
  let ?P = "\<lambda>a. f (xs ! (k - 1)) < f a"
  have less: "f (xs ! i) < f (xs ! j)" if "i < j" "j < length xs" for i j
    using assms(1) that by (simp add: sorted_wrt_iff_nth_less)
  have "\<not> ?P a" if a: "a \<in> set (take k xs)" for a
  proof -
    obtain i where i: "i < k" "a = xs ! i" using a assms(3) by (auto simp: in_set_conv_nth)
    show ?thesis
    proof (cases "i = k - 1")
      case False
      then have "f (xs ! i) < f (xs ! (k - 1))" using i assms(2,3) less by simp
      then show ?thesis using i by simp
    qed (simp add: i)
  qed
  moreover have "?P a" if a: "a \<in> set (drop k xs)" for a
  proof -
    obtain i where "i < length xs - k" "a = xs ! (k + i)" using a assms(3) by (auto simp: in_set_conv_nth)
    then show ?thesis using assms(2) less[of "k - 1" "k + i"] by simp
  qed
  ultimately have "filter ?P (take k xs @ drop k xs) = drop k xs"
    unfolding filter_append by (simp add: filter_False filter_True del: append_take_drop_id)
  then show ?thesis by simp
qed

lemma sorted_distinct_strict:
  "sorted (map f xs) \<Longrightarrow> distinct (map f xs) \<Longrightarrow> sorted_wrt (<) (map f xs)"
  by (simp add: strict_sorted_iff)

lemma distinct_order: "distinct (map al_ID xs) \<Longrightarrow> distinct (map audit_order xs)"
  by (simp add: distinct_map audit_order_inj)

lemma audit_listing_distinct:
  assumes "distinct (map al_ID R)"
  shows "distinct (map al_ID (audit_listing f R))"
proof -
  have "mset (map al_ID (audit_listing f R)) = mset (map al_ID (filter (audit_where f) R))"
    by (simp add: audit_listing_def)
  then show ?thesis using assms distinct_map_filter by (metis mset_eq_imp_distinct_iff)
qed

lemma audit_listing_after:
  assumes "distinct (map al_ID R)" "fi_Cursor f = None" "0 < k" "k \<le> length (audit_listing f R)"
  shows "audit_listing (f\<lparr> fi_Cursor := Some (at_cursor (audit_listing f R ! (k - 1))) \<rparr>) R
      = drop k (audit_listing f R)"
proof -
  let ?L = "audit_listing f R"
  have f: "f\<lparr> fi_Cursor := None \<rparr> = f" using assms(2) by simp
  have "sorted_wrt (<) (map audit_order ?L)"
    by (rule sorted_distinct_strict)
       (simp_all add: audit_listing_def[of f R] distinct_order[OF audit_listing_distinct[OF assms(1)], unfolded audit_listing_def])
  then have "filter (\<lambda>a. audit_order (?L ! (k - 1)) < audit_order a) ?L = drop k ?L"
    using assms(3,4) by (rule filter_after)
  moreover have "audit_listing (f\<lparr> fi_Cursor := Some (at_cursor (?L ! (k - 1))) \<rparr>) R
      = filter (\<lambda>a. audit_order (?L ! (k - 1)) < audit_order a) ?L"
    unfolding audit_listing_def[of "f\<lparr> fi_Cursor := c \<rparr>" for c] audit_where_cursor[abs_def] f
    by (simp add: audit_listing_def filter_sort)
  ultimately show ?thesis by simp
qed

context audit_table
begin

lemma List_listing:
  assumes "distinct (map al_ID (rows d))"
  shows "Audit_List g f d = Some (Inr (take (fi_Limit f) (audit_listing f (rows d))), d)"
proof -
  from find[of False "audit_where f" audit_order d] obtain xs where
    xs: "g_Find g False (audit_where f) audit_order d = Some (Inr xs, d)"
      "mset xs = mset (filter (audit_where f) (rows d))" "sorted (map audit_order xs)" by auto
  let ?L = "audit_listing f (rows d)"
  have m: "mset xs = mset ?L" using xs(2) by (simp add: audit_listing_def)
  then have s: "set xs = set ?L" by (rule mset_eq_setD)
  have "distinct (map al_ID xs)"
    using m audit_listing_distinct[OF assms] by (metis mset_eq_imp_distinct_iff mset_map)
  then have "xs = ?L"
    using s xs(3) audit_order_inj[OF audit_listing_distinct[OF assms, of f]]
      distinct_order[OF audit_listing_distinct[OF assms, of f]] distinct_order
    by (intro map_sorted_distinct_set_unique[of audit_order]) (simp_all add: audit_listing_def)
  with xs(1) show ?thesis by (simp add: Audit_List_def ok_def)
qed

end

section \<open>walking the pages\<close>

text \<open>The filter a query asks for, without cursor.\<close>

definition query_filter :: "int \<Rightarrow> audit_query \<Rightarrow> audit_category option \<Rightarrow> audit_filter" where
  "query_filter now q category =
     \<lparr> fi_ApplicationID = [], fi_Category = category, fi_ActorID = aq_actor_id q,
       fi_CreatedAfter = auditRangeCutoff now (aq_range q), fi_Cursor = None,
       fi_Limit = nat (clampAuditLimit (page_limit (aq_limit q) + 1)) \<rparr>"

definition cursor_at :: "audit_log list \<Rightarrow> nat \<Rightarrow> audit_cursor option" where
  "cursor_at L k = (if k = 0 then None else Some (at_cursor (L ! (k - 1))))"

lemma page_limit_range: "1 \<le> page_limit n \<and> page_limit n \<le> 100"
  by (simp add: page_limit_def DefaultAuditPageSize_def MaxAuditPageSize_def)

lemma clamp_page: "clampAuditLimit (page_limit n + 1) = min 100 (page_limit n + 1)"
  using page_limit_range[of n]
  by (simp add: clampAuditLimit_def DefaultAuditPageSize_def MaxAuditPageSize_def min_def)

lemma paginate_take:
  assumes "0 < p"
  shows "paginateAuditLogs (take m L) (int p)
    = (take (min m p) L, if p < m \<and> p < length L then Some (at_cursor (L ! (p - 1))) else None)"
proof (cases "p < m \<and> p < length L")
  case True
  then have "take p (take m L) = take p L" by simp
  moreover have "last (take p L) = L ! (p - 1)" using True assms by (cases p) (simp_all add: take_Suc_conv_app_nth)
  ultimately show ?thesis using True by (simp add: paginateAuditLogs_def at_cursor_def min_def)
next
  case False
  then have "length (take m L) \<le> p" by auto
  moreover have "take m L = take (min m p) L"
  proof (cases "m \<le> p")
    case True
    then show ?thesis by (simp add: min_absorb1)
  next
    case m: False
    with False have "length L \<le> p" "length L \<le> m" by simp_all
    then show ?thesis using m by (simp add: min_absorb2)
  qed
  ultimately show ?thesis using False by (simp add: paginateAuditLogs_def)
qed

lemma GetAuditLog_page:
  assumes tab: "audit_table g rows" and ids: "distinct (map al_ID (rows d))"
    and cat: "parseAuditCategory (aq_category q) = Some category"
    and L: "L = audit_listing ((query_filter now q category)\<lparr> fi_Cursor := c \<rparr>) (rows d)"
    and p: "p = nat (page_limit (aq_limit q))"
  shows "GetAuditLog (NewAuditUseCase (NewAuditLogRepository g t i) teams) now (Some u) q c d
    = Some (Inr (AuditPage (take p L)
        (if p < 100 \<and> p < length L then Some (at_cursor (L ! (p - 1))) else None)), d)"
proof -
  let ?f = "(query_filter now q category)\<lparr> fi_Cursor := c \<rparr>"
  have pl: "page_limit (aq_limit q) = int p" "1 \<le> p" "p \<le> 100"
    using page_limit_range[of "aq_limit q"] by (auto simp: p)
  have lim: "fi_Limit ?f = min 100 (p + 1)" by (simp add: query_filter_def clamp_page) (use pl in auto)
  have List: "Audit_List g ?f d = Some (Inr (take (min 100 (p + 1)) L), d)"
    using audit_table.List_listing[OF tab ids, of ?f] by (simp only: lim L)
  have page: "paginateAuditLogs (take (min 100 (p + 1)) L) (int p)
      = (take p L, if p < 100 \<and> p < length L then Some (at_cursor (L ! (p - 1))) else None)"
    using pl paginate_take[of p "min 100 (p + 1)" L] by (auto simp: min_def)
  have "Audit_ListPage (NewAuditUseCase (NewAuditLogRepository g t i) teams)
      \<lparr> lo_Category = category, lo_ActorID = aq_actor_id q, lo_CreatedAfter = auditRangeCutoff now (aq_range q) \<rparr>
      c (page_limit (aq_limit q) + 1) d = Some (Inr (take (min 100 (p + 1)) L), d)"
    using List by (simp add: Audit_ListPage_def NewAuditUseCase_def NewAuditLogRepository_def query_filter_def ok_def)
  then show ?thesis using cat page pl(1)
    by (simp add: GetAuditLog_def Let_def ok_def)
qed

text \<open>As the clock moves on, the range moves with it: the listing loses entries at its end.\<close>

definition within_range :: "int \<Rightarrow> audit_query \<Rightarrow> audit_log \<Rightarrow> bool" where
  "within_range now q a \<longleftrightarrow> (case auditRangeCutoff now (aq_range q) of None \<Rightarrow> True | Some t \<Rightarrow> al_CreatedAt a > t)"

lemma within_range_mono: "within_range now' q a \<Longrightarrow> now \<le> now' \<Longrightarrow> within_range now q a"
  by (auto simp: within_range_def auditRangeCutoff_def split: if_splits)

lemma within_range_recent: "within_range now q a \<Longrightarrow> audit_order b \<le> audit_order a \<Longrightarrow> within_range now q b"
  by (auto simp: within_range_def audit_order_def split: option.splits)

lemma audit_where_range:
  assumes "now \<le> now'"
  shows "audit_where ((query_filter now' q category)\<lparr> fi_Cursor := c \<rparr>) a
    \<longleftrightarrow> audit_where ((query_filter now q category)\<lparr> fi_Cursor := c \<rparr>) a \<and> within_range now' q a"
  using within_range_mono[OF _ assms, of q a] by (auto simp: audit_where_def query_filter_def within_range_def)

lemma listing_range:
  assumes "now \<le> now'"
  shows "audit_listing ((query_filter now' q category)\<lparr> fi_Cursor := c \<rparr>) R
    = filter (within_range now' q) (audit_listing ((query_filter now q category)\<lparr> fi_Cursor := c \<rparr>) R)"
  by (simp add: audit_listing_def filter_sort audit_where_range[OF assms, abs_def] conj_commute)

lemma filter_prefix:
  assumes "sorted_wrt (\<lambda>x y. P y \<longrightarrow> P x) xs"
  shows "filter P (drop k xs) = drop k (filter P xs)" "filter P xs = take (length (filter P xs)) xs"
proof -
  have none: "filter P ys = []" if "\<not> P y" "\<forall>z\<in>set ys. P z \<longrightarrow> P y" for y ys using that by (auto simp: filter_empty_conv)
  show "filter P (drop k xs) = drop k (filter P xs)"
    using assms
  proof (induction xs arbitrary: k)
    case (Cons x xs)
    show ?case
    proof (cases "P x")
      case True
      with Cons show ?thesis by (cases k) auto
    next
      case False
      with Cons.prems none[of x xs] have e: "filter P xs = []" by auto
      then have "filter P (drop k (x # xs)) = []" 
        using False by (metis filter.simps(2) filter_False filter_empty_conv in_set_dropD)
      with e False show ?thesis by simp
    qed
  qed simp
  show "filter P xs = take (length (filter P xs)) xs"
    using assms none by (induction xs) auto
qed

text \<open>The page at a time \<open>now\<close> behind the \<open>k\<close>-th entry of the listing of an earlier time.\<close>

lemma page_listing:
  assumes ids: "distinct (map al_ID R)" and L: "L = audit_listing (query_filter now q category) R"
    and k: "k \<le> length L" and now: "now \<le> now'" and m: "m = length (filter (within_range now' q) L)"
  shows "audit_listing ((query_filter now' q category)\<lparr> fi_Cursor := cursor_at L k \<rparr>) R = take (m - k) (drop k L)"
proof -
  have f0: "fi_Cursor (query_filter now q category) = None"
    "(query_filter now q category)\<lparr> fi_Cursor := None \<rparr> = query_filter now q category" by (simp_all add: query_filter_def)
  have "sorted_wrt (\<lambda>x y. audit_order x \<le> audit_order y) L"
    using sorted_sort_key[of audit_order] unfolding L audit_listing_def sorted_map by blast
  then have pre: "sorted_wrt (\<lambda>x y. within_range now' q y \<longrightarrow> within_range now' q x) L"
    by (rule sorted_wrt_mono_rel[rotated]) (auto intro: within_range_recent)
  have "audit_listing ((query_filter now q category)\<lparr> fi_Cursor := cursor_at L k \<rparr>) R = drop k L"
    using audit_listing_after[OF ids f0(1), of k] k f0(2) by (cases "k = 0") (simp_all add: cursor_at_def L)
  with listing_range[OF now] have "audit_listing ((query_filter now' q category)\<lparr> fi_Cursor := cursor_at L k \<rparr>) R
      = drop k (filter (within_range now' q) L)" using filter_prefix(1)[OF pre] by simp
  also have "\<dots> = take (m - k) (drop k L)" using filter_prefix(2)[OF pre] by (metis drop_take m)
  finally show ?thesis .
qed

text \<open>A walk from the \<open>k\<close>-th entry on gets a piece of the listing of the start, at least up to the end of the listing
  of the last request.\<close>

lemma audit_walk_piece:
  assumes tab: "audit_table g rows" and ids: "distinct (map al_ID (rows d))"
    and cat: "parseAuditCategory (aq_category q) = Some category"
    and L: "L = audit_listing (query_filter now q category) (rows d)"
    and p: "p = nat (page_limit (aq_limit q))" "p < 100"
    and k: "k \<le> length L" and ts: "sorted ts" "\<forall>t\<in>set ts. now \<le> t"
  shows "\<exists>N \<le> length ts * p. audit_walk (NewAuditUseCase (NewAuditLogRepository g t i) teams) u q ts (cursor_at L k) d
      = take N (drop k L)
    \<and> (ts \<noteq> [] \<longrightarrow> min (length ts * p) (length (filter (within_range (last ts) q) L) - k) \<le> N)"
  using k ts
proof (induction ts arbitrary: k)
  case Nil
  then show ?case by simp
next
  case (Cons now' ts)
  let ?m = "length (filter (within_range now' q) L)" and ?uc = "NewAuditUseCase (NewAuditLogRepository g t i) teams"
  let ?last = "length (filter (within_range (last ts) q) L)"
  have p1: "1 \<le> p" using page_limit_range[of "aq_limit q"] p(1) by linarith
  have now': "now \<le> now'" using Cons.prems by simp
  have ml: "?m \<le> length L" by simp
  note page = GetAuditLog_page[OF tab ids cat page_listing[OF ids L Cons.prems(1) now' refl, symmetric] p(1), of t i teams u]
  show ?case
  proof (cases "k + p < ?m")
    case True
    with ml have kp: "k + p < length L" by linarith
    with True have "take (?m - k) (drop k L) ! (p - 1) = L ! (k + p - 1)" "p < length (take (?m - k) (drop k L))"
      using p1 kp by (auto simp: nth_append)
    with True p1 have "at_cursor (take (?m - k) (drop k L) ! (p - 1)) = the (cursor_at L (k + p))"
      "cursor_at L (k + p) \<noteq> None" by (simp_all add: cursor_at_def)
    with page True p(2) \<open>p < length _\<close> have
      walk: "audit_walk ?uc u q (now' # ts) (cursor_at L k) d = take p (drop k L) @ audit_walk ?uc u q ts (cursor_at L (k + p)) d"
      by (auto simp: min_def cursor_at_def)
    obtain N where N: "N \<le> length ts * p" "audit_walk ?uc u q ts (cursor_at L (k + p)) d = take N (drop (k + p) L)"
      "ts \<noteq> [] \<longrightarrow> min (length ts * p) (?last - (k + p)) \<le> N"
      using Cons.IH[of "k + p"] kp Cons.prems by auto
    have "audit_walk ?uc u q (now' # ts) (cursor_at L k) d = take (p + N) (drop k L)"
      unfolding walk N(2) take_add drop_drop by (simp only: add.commute)
    moreover have "now' # ts \<noteq> [] \<longrightarrow> min (length (now' # ts) * p) (length (filter (within_range (last (now' # ts)) q) L) - k) \<le> p + N"
      using N(3) by (cases "ts = []") auto
    ultimately show ?thesis using N(1) by (intro exI[of _ "p + N"]) simp
  next
    case False
    then have short: "length (take (?m - k) (drop k L)) \<le> p" by (auto intro: min.coboundedI2)
    then have walk: "audit_walk ?uc u q (now' # ts) (cursor_at L k) d = take (?m - k) (drop k L)"
      using page[unfolded take_all[OF short]] by (simp only: audit_walk.simps not_less[symmetric]) simp
    have "now' \<le> last (now' # ts)" using Cons.prems(2) by (cases "ts = []") auto
    then have "length (filter (within_range (last (now' # ts)) q) L) \<le> ?m"
      by (induction L) (auto dest: within_range_mono)
    with walk False show ?thesis by (intro exI[of _ "?m - k"]) (auto intro: min.coboundedI2 diff_le_mono)
  qed
qed

section \<open>properties\<close>

text \<open>C17. Following the cursor with a page size below 100, one request at each of a list of growing times, gives the
  selected entries, each once, the most recent first: what the client gets is a beginning of the
  listing of the first request, at most a page per request, and at least as many pages of the listing of the last
  request, from which the entries that left the range meanwhile are missing. Without a range these listings are the
  same, and the client gets exactly the first pages, and all entries with as many requests as entries.\<close>

theorem audit_pages_complete:
  assumes "audit_table g rows" "distinct (map al_ID (rows d))"
    and "parseAuditCategory (aq_category q) = Some category" "page_limit (aq_limit q) < 100"
    and "sorted ts" "ts \<noteq> []"
  shows "let L = (\<lambda>now. audit_listing (query_filter now q category) (rows d)); n = length ts * nat (page_limit (aq_limit q));
             walk = audit_walk (NewAuditUseCase (NewAuditLogRepository g t i) teams) u q ts None d
         in prefix walk (take n (L (hd ts))) \<and> prefix (take n (L (last ts))) walk
           \<and> (auditRangeCutoff 0 (aq_range q) = None \<longrightarrow> walk = take n (L (hd ts)))
           \<and> (length (L (last ts)) \<le> length ts \<longrightarrow> prefix (L (last ts)) walk)"
proof -
  obtain p where p: "p = nat (page_limit (aq_limit q))" "p < 100" "1 \<le> p"
    using assms(4) page_limit_range[of "aq_limit q"] by auto
  let ?L = "\<lambda>now. audit_listing (query_filter now q category) (rows d)" and ?n = "length ts * p"
  let ?walk = "audit_walk (NewAuditUseCase (NewAuditLogRepository g t i) teams) u q ts None d"
  have range: "\<forall>t\<in>set ts. hd ts \<le> t" using assms(5,6) by (cases ts) auto
  from audit_walk_piece[OF assms(1-3) refl p(1,2) le0 assms(5) range, of t i teams u] obtain N where
    N: "N \<le> ?n" "?walk = take N (?L (hd ts))" "min ?n (length (filter (within_range (last ts) q) (?L (hd ts)))) \<le> N"
    using assms(6) by (auto simp: cursor_at_def)
  have "hd ts \<le> last ts" using range assms(6) by simp
  from page_listing[OF assms(2) refl le0 this refl]
  have last: "?L (last ts) = take (length (filter (within_range (last ts) q) (?L (hd ts)))) (?L (hd ts))"
    by (simp add: cursor_at_def query_filter_def)
  have upper: "prefix ?walk (take ?n (?L (hd ts)))" using N(1,2) by (metis min.absorb_iff1 take_is_prefix take_take)
  have lower: "prefix (take ?n (?L (last ts))) ?walk"
    unfolding last N(2) take_take using N(3) by (metis min.absorb_iff1 take_is_prefix take_take)
  have "?walk = take ?n (?L (hd ts))" if "auditRangeCutoff 0 (aq_range q) = None"
  proof -
    from that have "query_filter (last ts) q category = query_filter (hd ts) q category"
      by (auto simp: query_filter_def auditRangeCutoff_def split: if_splits)
    with upper lower show ?thesis using prefix_order.antisym by metis
  qed
  moreover have "prefix (?L (last ts)) ?walk" if "length (?L (last ts)) \<le> length ts"
  proof -
    from that p(3) mult_le_mono[of "length (?L (last ts))" "length ts" 1 p] have "length (?L (last ts)) \<le> ?n" by simp
    with lower show ?thesis by simp
  qed
  ultimately show ?thesis using upper lower by (simp add: Let_def p(1))
qed

definition example_entry :: "string \<Rightarrow> int \<Rightarrow> audit_log" where
  "example_entry i t = (NewAuditLog AuditEventKeyGenerated ''k'' [] None ''u'' ''U'')\<lparr> al_ID := i, al_CreatedAt := t \<rparr>"

definition mem_audit :: "(audit_log, audit_log list) table" where
  "mem_audit = mem_table (\<lambda>d. d) (\<lambda>xs d. xs) (\<lambda>_. True) (\<lambda>a. a) (\<lambda>a. a) al_ID (\<lambda>x a. al_ID x = al_ID a) (\<lambda>_. None)"

lemma mem_audit_table: "audit_table mem_audit (\<lambda>d. d)"
  unfolding audit_table_def mem_audit_def by (rule mem_table_gorm) simp

interpretation mem_audit: audit_table mem_audit "\<lambda>d. d"
  by (rule mem_audit_table)

definition one_per_page :: audit_query where
  "one_per_page = \<lparr> aq_category = ''keys'', aq_actor_id = [], aq_range = ''all'', aq_limit = 1 \<rparr>"

definition last_day :: audit_query where
  "last_day = one_per_page\<lparr> aq_range := ''24h'' \<rparr>"

lemma example_listing:
  "audit_listing (query_filter (day + x) last_day (Some AuditCategoryKeys)) [example_entry ''a'' 5, example_entry ''b'' 9]
     = (if x < 5 then [example_entry ''b'' 9, example_entry ''a'' 5] else if x < 9 then [example_entry ''b'' 9] else [])"
  by (simp add: audit_listing_def query_filter_def last_day_def one_per_page_def audit_where_def auditRangeCutoff_def
      example_entry_def NewAuditLog_def audit_order_def)

text \<open>The entries of the last day, one per request; at the third one the older entry is a day old.\<close>

theorem audit_pages_complete_witness:
  "\<forall>teams u. prefix [example_entry ''b'' 9]
      (audit_walk (NewAuditUseCase (NewAuditLogRepository mem_audit 0 []) teams) u last_day [day, day + 4, day + 6] None
        [example_entry ''a'' 5, example_entry ''b'' 9])
    \<and> audit_walk (NewAuditUseCase (NewAuditLogRepository mem_audit 0 []) teams) u last_day [day, day + 4] None
        [example_entry ''a'' 5, example_entry ''b'' 9] = [example_entry ''b'' 9, example_entry ''a'' 5]"
proof (intro allI conjI)
  fix teams u
  let ?R = "[example_entry ''a'' 5, example_entry ''b'' 9]"
  have ids: "distinct (map al_ID ?R)" by (simp add: example_entry_def)
  have q: "parseAuditCategory (aq_category last_day) = Some (Some AuditCategoryKeys)" "page_limit (aq_limit last_day) < 100"
    "nat (page_limit (aq_limit last_day)) = 1"
    by (simp_all add: last_day_def one_per_page_def parseAuditCategory_def page_limit_def MaxAuditPageSize_def)
  note walk = audit_pages_complete[OF mem_audit_table ids q(1,2), where t = 0 and i = "[]" and teams = teams and u = u]
  show "prefix [example_entry ''b'' 9]
      (audit_walk (NewAuditUseCase (NewAuditLogRepository mem_audit 0 []) teams) u last_day [day, day + 4, day + 6] None ?R)"
    using walk[of "[day, day + 4, day + 6]"] example_listing[of 0] example_listing[of 6] by (simp add: Let_def q(3))
  show "audit_walk (NewAuditUseCase (NewAuditLogRepository mem_audit 0 []) teams) u last_day [day, day + 4] None ?R
      = [example_entry ''b'' 9, example_entry ''a'' 5]"
    using walk[of "[day, day + 4]"] example_listing[of 0] example_listing[of 4]
    by (intro prefix_order.antisym) (simp_all add: Let_def q(3))
qed

text \<open>C35. With the largest page size, 100, the first page never has a next cursor: the listing stops after
  100 entries however many there are, because the extra entry the handler asks for is cut off again by
  the use case's own limit.\<close>

theorem audit_pages_truncated:
  assumes "audit_table g rows" "distinct (map al_ID (rows d))"
    and "parseAuditCategory (aq_category q) = Some category" "100 \<le> aq_limit q"
  shows "GetAuditLog (NewAuditUseCase (NewAuditLogRepository g t i) teams) now (Some u) q None d
      = Some (Inr (AuditPage (take 100 (audit_listing (query_filter now q category) (rows d))) None), d)"
proof -
  have "100 = nat (page_limit (aq_limit q))" using assms(4) by (simp add: page_limit_def MaxAuditPageSize_def)
  moreover have "(query_filter now q category)\<lparr> fi_Cursor := None \<rparr> = query_filter now q category" by (simp add: query_filter_def)
  ultimately show ?thesis
    using GetAuditLog_page[OF assms(1-3) refl refl, where now = now and c = None and t = t and i = i and teams = teams and u = u]
    by simp
qed

text \<open>A trail of 101 entries, of which the last is never listed.\<close>

definition long_trail :: "audit_log list" where
  "long_trail = map (\<lambda>k. example_entry (replicate k CHR ''x'') (int k)) [1..<102]"

theorem audit_pages_truncated_witness:
  "\<forall>teams u. \<exists>page. GetAuditLog (NewAuditUseCase (NewAuditLogRepository mem_audit 0 []) teams) 0 (Some u)
      (one_per_page\<lparr> aq_limit := 100 \<rparr>) None long_trail = Some (Inr (AuditPage page None), long_trail)
    \<and> length page = 100 \<and> length long_trail = 101"
proof (intro allI)
  fix teams u
  let ?q = "one_per_page\<lparr> aq_limit := 100 \<rparr>"
  have "map al_ID long_trail = map (\<lambda>k. replicate k CHR ''x'') [1..<102]"
    by (simp add: long_trail_def example_entry_def)
  then have d: "distinct (map al_ID long_trail)"
    by (simp add: distinct_map inj_on_def)
  have c: "parseAuditCategory (aq_category ?q) = Some (Some AuditCategoryKeys)" "100 \<le> aq_limit ?q"
    by (simp_all add: one_per_page_def parseAuditCategory_def)
  have "audit_where (query_filter 0 ?q (Some AuditCategoryKeys)) a" if "a \<in> set long_trail" for a
    using that by (auto simp: long_trail_def query_filter_def one_per_page_def audit_where_def auditRangeCutoff_def
        example_entry_def NewAuditLog_def)
  then have "length (audit_listing (query_filter 0 ?q (Some AuditCategoryKeys)) long_trail) = 101"
    by (simp add: audit_listing_def filter_True long_trail_def[THEN arg_cong[of _ _ length]])
  then show "\<exists>page. GetAuditLog (NewAuditUseCase (NewAuditLogRepository mem_audit 0 []) teams) 0 (Some u)
      (one_per_page\<lparr> aq_limit := 100 \<rparr>) None long_trail = Some (Inr (AuditPage page None), long_trail)
    \<and> length page = 100 \<and> length long_trail = 101"
    using audit_pages_truncated[OF mem_audit_table d c, where now = 0 and t = 0 and i = "[]" and teams = teams and u = u]
    by (simp add: long_trail_def[THEN arg_cong[of _ _ length]])
qed

end
