(* ===== verification/User.thy ===== *)
theory User
  imports Team
begin

text \<open>
  Accounts and sessions: \<open>user_repository.go\<close>, \<open>session_repository.go\<close> and \<open>user_favorite_repository.go\<close>,
  the authentication strategies (\<open>domain/auth\<close>), and \<open>user_usecase.go\<close>, \<open>auth_usecase.go\<close> and
  \<open>favorite_usecase.go\<close>. The hash functions, the random bytes, the clock and the file of the initial
  password are parameters. The lemmas show which tokens authenticate, and that a changed password ends
  every session of its user.
\<close>

section \<open>session.go, user_favorite.go, user_application.go\<close>

datatype session_purpose = SessionPurposeAuth | SessionPurposePasswordChange | OtherPurpose string

record session =
  se_ID :: string
  se_TokenHash :: string
  se_UserID :: string
  se_Purpose :: session_purpose
  se_ExpiresAt :: int

definition Session_BeforeCreate :: "string \<Rightarrow> session \<Rightarrow> session" where
  "Session_BeforeCreate newID s = (if se_ID s = [] then s\<lparr> se_ID := newID \<rparr> else s)"

definition HashSessionToken :: "(string \<Rightarrow> string) \<Rightarrow> string \<Rightarrow> string" where
  "HashSessionToken sha256 raw = EncodeToString (sha256 raw)"

text \<open>The random bytes may be missing: \<open>rand.Read\<close> failed.\<close>

definition generateSessionToken :: "string option \<Rightarrow> string option" where
  "generateSessionToken random = map_option EncodeToString random"

definition NewSession ::
    "(string \<Rightarrow> string) \<Rightarrow> string option \<Rightarrow> int \<Rightarrow> string \<Rightarrow> session_purpose \<Rightarrow> int \<Rightarrow> (session \<times> string) option" where
  "NewSession sha256 random now userID purpose ttl =
     (case generateSessionToken random of
        None \<Rightarrow> None
      | Some raw \<Rightarrow>
          Some (\<lparr> se_ID = [], se_TokenHash = HashSessionToken sha256 raw, se_UserID = userID,
                  se_Purpose = purpose, se_ExpiresAt = now + ttl \<rparr>, raw))"

definition Session_IsExpired :: "int \<Rightarrow> session \<Rightarrow> bool" where
  "Session_IsExpired now s \<longleftrightarrow> now > se_ExpiresAt s"

text \<open>The unique columns of a session.\<close>

definition session_clash :: "session \<Rightarrow> session \<Rightarrow> bool" where
  "session_clash x s \<longleftrightarrow> se_ID x = se_ID s \<or> se_TokenHash x = se_TokenHash s"

record user_favorite =
  uf_UserID :: string
  uf_FavoriteKey :: string
  uf_CreatedAt :: int

record user_application =
  uq_UserID :: string
  uq_ApplicationID :: string

text \<open>What the struct tags of a user tell GORM: zero values with a default tag, and no column for teams.\<close>

definition user_defaults :: "user \<Rightarrow> user" where
  "user_defaults u =
     u\<lparr> us_Role := (if us_Role u = OtherRole [] then UserRoleUser else us_Role u), us_Active := True \<rparr>"

definition user_columns :: "user \<Rightarrow> user" where
  "user_columns u = u\<lparr> us_Teams := [] \<rparr>"

section \<open>the repositories\<close>

record 'd user_db =
  uz_users :: "(user, 'd) table"
  uz_teams :: "(team, 'd) table"
  uz_team_users :: "(team_user, 'd) table"
  uz_apps :: "(application, 'd) table"
  uz_user_apps :: "(user_application, 'd) table"

definition User_Create :: "'d user_db \<Rightarrow> user \<Rightarrow> ('d, db_error, unit) io" where
  "User_Create db u = attempt (g_Create (uz_users db) u) fail (\<lambda>_. ok ())"

text \<open>\<open>Preload("Teams")\<close>; the applications of a user are not part of the struct here.\<close>

definition with_teams :: "'d user_db \<Rightarrow> user \<Rightarrow> ('d, db_error, user) io" where
  "with_teams db u =
     attempt (g_Find (uz_team_users db) False (\<lambda>m. mb_UserID m = us_ID u) unordered) fail (\<lambda>ms.
     attempt (g_Find (uz_teams db) False (\<lambda>t. te_ID t \<in> set (map mb_TeamID ms)) unordered) fail (\<lambda>ts.
     ok (u\<lparr> us_Teams := ts \<rparr>)))"

text \<open>The hook \<open>AfterFind\<close> derives the status of every user that is read.\<close>

definition User_GetByID :: "'d user_db \<Rightarrow> string \<Rightarrow> ('d, db_error, user) io" where
  "User_GetByID db i =
     attempt (g_First (uz_users db) False (\<lambda>u. us_ID u = i)) fail (\<lambda>u. with_teams db (RefreshStatus u))"

definition User_GetByUsername :: "'d user_db \<Rightarrow> string \<Rightarrow> ('d, db_error, user) io" where
  "User_GetByUsername db username =
     attempt (g_First (uz_users db) False (\<lambda>u. us_Username u = username)) fail (\<lambda>u. ok (RefreshStatus u))"

fun all_with_teams :: "'d user_db \<Rightarrow> user list \<Rightarrow> ('d, db_error, user list) io" where
  "all_with_teams db [] = ok []"
| "all_with_teams db (u # us) =
     attempt (with_teams db (RefreshStatus u)) fail (\<lambda>u.
     attempt (all_with_teams db us) fail (\<lambda>us. ok (u # us)))"

definition User_GetAll :: "'d user_db \<Rightarrow> ('d, db_error, user list) io" where
  "User_GetAll db = attempt (g_Find (uz_users db) False (\<lambda>_. True) unordered) fail (all_with_teams db)"

definition User_Update :: "'d user_db \<Rightarrow> user \<Rightarrow> ('d, db_error, unit) io" where
  "User_Update db u = g_Save (uz_users db) u"

definition User_Delete :: "'d user_db \<Rightarrow> string \<Rightarrow> ('d, db_error, unit) io" where
  "User_Delete db i =
     attempt (g_Delete (uz_user_apps db) True (\<lambda>a. uq_UserID a = i)) fail (\<lambda>_.
     attempt (g_Delete (uz_team_users db) True (\<lambda>m. mb_UserID m = i)) fail (\<lambda>_.
     g_Delete (uz_users db) False (\<lambda>u. us_ID u = i)))"

definition User_GetApplicationsByUserID :: "'d user_db \<Rightarrow> string \<Rightarrow> ('d, db_error, application list) io" where
  "User_GetApplicationsByUserID db userID =
     attempt (g_Find (uz_user_apps db) True (\<lambda>a. uq_UserID a = userID) unordered) fail (\<lambda>as.
     g_Find (uz_apps db) False (\<lambda>a. ap_ID a \<in> set (map uq_ApplicationID as)) unordered)"

definition User_AddUserToApplication :: "'d user_db \<Rightarrow> string \<Rightarrow> string \<Rightarrow> ('d, db_error, unit) io" where
  "User_AddUserToApplication db userID applicationID =
     attempt (g_Create (uz_user_apps db) \<lparr> uq_UserID = userID, uq_ApplicationID = applicationID \<rparr>) fail (\<lambda>_. ok ())"

definition User_RemoveUserFromApplication :: "'d user_db \<Rightarrow> string \<Rightarrow> string \<Rightarrow> ('d, db_error, unit) io" where
  "User_RemoveUserFromApplication db userID applicationID =
     g_Delete (uz_user_apps db) False (\<lambda>a. uq_UserID a = userID \<and> uq_ApplicationID a = applicationID)"

definition User_GetUsersByApplicationID :: "'d user_db \<Rightarrow> string \<Rightarrow> ('d, db_error, user list) io" where
  "User_GetUsersByApplicationID db applicationID =
     attempt (g_Find (uz_user_apps db) True (\<lambda>a. uq_ApplicationID a = applicationID) unordered) fail (\<lambda>as.
     attempt (g_Find (uz_users db) False (\<lambda>u. us_ID u \<in> set (map uq_UserID as)) unordered) fail
       (\<lambda>us. ok (map RefreshStatus us)))"

definition NewUserRepository :: "'d user_db \<Rightarrow> 'd user_repo" where
  "NewUserRepository db =
     \<lparr> ur_Create = User_Create db, ur_GetByID = User_GetByID db, ur_GetByUsername = User_GetByUsername db,
       ur_GetAll = User_GetAll db, ur_Update = User_Update db, ur_Delete = User_Delete db,
       ur_GetApplicationsByUserID = User_GetApplicationsByUserID db,
       ur_AddUserToApplication = User_AddUserToApplication db,
       ur_RemoveUserFromApplication = User_RemoveUserFromApplication db,
       ur_GetUsersByApplicationID = User_GetUsersByApplicationID db \<rparr>"

record 's session_repo =
  er_Create :: "session \<Rightarrow> ('s, db_error, unit) io"
  er_GetByTokenHash :: "string \<Rightarrow> ('s, db_error, session) io"
  er_DeleteByID :: "string \<Rightarrow> ('s, db_error, unit) io"
  er_DeleteByUserID :: "string \<Rightarrow> ('s, db_error, unit) io"
  er_DeleteExpired :: "('s, db_error, unit) io"

definition Session_Create :: "(session, 'd) table \<Rightarrow> string \<Rightarrow> session \<Rightarrow> ('d, db_error, unit) io" where
  "Session_Create g newID s = attempt (g_Create g (Session_BeforeCreate newID s)) fail (\<lambda>_. ok ())"

definition Session_GetByTokenHash :: "(session, 'd) table \<Rightarrow> string \<Rightarrow> ('d, db_error, session) io" where
  "Session_GetByTokenHash g tokenHash = g_First g False (\<lambda>s. se_TokenHash s = tokenHash)"

definition Session_DeleteByID :: "(session, 'd) table \<Rightarrow> string \<Rightarrow> ('d, db_error, unit) io" where
  "Session_DeleteByID g i = g_Delete g False (\<lambda>s. se_ID s = i)"

definition Session_DeleteByUserID :: "(session, 'd) table \<Rightarrow> string \<Rightarrow> ('d, db_error, unit) io" where
  "Session_DeleteByUserID g userID = g_Delete g False (\<lambda>s. se_UserID s = userID)"

definition Session_DeleteExpired :: "(session, 'd) table \<Rightarrow> int \<Rightarrow> ('d, db_error, unit) io" where
  "Session_DeleteExpired g now = g_Delete g False (\<lambda>s. se_ExpiresAt s < now)"

definition NewSessionRepository :: "(session, 'd) table \<Rightarrow> string \<Rightarrow> int \<Rightarrow> 'd session_repo" where
  "NewSessionRepository g newID now =
     \<lparr> er_Create = Session_Create g newID, er_GetByTokenHash = Session_GetByTokenHash g,
       er_DeleteByID = Session_DeleteByID g, er_DeleteByUserID = Session_DeleteByUserID g,
       er_DeleteExpired = Session_DeleteExpired g now \<rparr>"

record 's favorite_repo =
  fr_Add :: "string \<Rightarrow> string \<Rightarrow> ('s, db_error, unit) io"
  fr_Remove :: "string \<Rightarrow> string \<Rightarrow> ('s, db_error, unit) io"
  fr_ListKeys :: "string \<Rightarrow> ('s, db_error, string list) io"

text \<open>\<open>OnConflict DoNothing\<close> on the unique pair of user and key.\<close>

definition Favorite_Add :: "(user_favorite, 'd) table \<Rightarrow> int \<Rightarrow> string \<Rightarrow> string \<Rightarrow> ('d, db_error, unit) io" where
  "Favorite_Add g now userID key =
     attempt (g_Count g True (\<lambda>f. uf_UserID f = userID \<and> uf_FavoriteKey f = key)) fail (\<lambda>n.
     if n > 0 then ok ()
     else attempt (g_Create g \<lparr> uf_UserID = userID, uf_FavoriteKey = key, uf_CreatedAt = now \<rparr>) fail (\<lambda>_. ok ()))"

definition Favorite_Remove :: "(user_favorite, 'd) table \<Rightarrow> string \<Rightarrow> string \<Rightarrow> ('d, db_error, unit) io" where
  "Favorite_Remove g userID key = g_Delete g False (\<lambda>f. uf_UserID f = userID \<and> uf_FavoriteKey f = key)"

definition Favorite_ListKeys :: "(user_favorite, 'd) table \<Rightarrow> string \<Rightarrow> ('d, db_error, string list) io" where
  "Favorite_ListKeys g userID =
     attempt (g_Find g False (\<lambda>f. uf_UserID f = userID) (\<lambda>f. [uf_CreatedAt f])) fail
       (\<lambda>fs. ok (map uf_FavoriteKey fs))"

definition NewUserFavoriteRepository :: "(user_favorite, 'd) table \<Rightarrow> int \<Rightarrow> 'd favorite_repo" where
  "NewUserFavoriteRepository g now =
     \<lparr> fr_Add = Favorite_Add g now, fr_Remove = Favorite_Remove g, fr_ListKeys = Favorite_ListKeys g \<rparr>"

section \<open>domain/auth\<close>

record auth_result =
  rs_Success :: bool
  rs_User :: "user option"
  rs_Token :: string
  rs_Error :: string

text \<open>The values of \<open>map[string]interface{}\<close>: a string, or anything else.\<close>

datatype credential = CredString string | CredOther

type_synonym credentials = "string \<rightharpoonup> credential"

record 's auth_strategy =
  sy_Authenticate :: "credentials \<Rightarrow> ('s, go_error, auth_result) io"
  sy_GetName :: string
  sy_IsEnabled :: bool

record 's auth_manager =
  am_strategies :: "string \<rightharpoonup> 's auth_strategy"
  am_default :: string

definition NewAuthManager :: "'s auth_manager" where
  "NewAuthManager = \<lparr> am_strategies = Map.empty, am_default = ''local'' \<rparr>"

definition RegisterStrategy :: "string \<Rightarrow> 's auth_strategy \<Rightarrow> 's auth_manager \<Rightarrow> 's auth_manager" where
  "RegisterStrategy name strategy am = am\<lparr> am_strategies := (am_strategies am)(name \<mapsto> strategy) \<rparr>"

definition GetStrategy :: "'s auth_manager \<Rightarrow> string \<Rightarrow> 's auth_strategy option" where
  "GetStrategy am name = am_strategies am name"

definition GetDefaultStrategy :: "'s auth_manager \<Rightarrow> 's auth_strategy option" where
  "GetDefaultStrategy am = am_strategies am (am_default am)"

definition SetDefault :: "string \<Rightarrow> 's auth_manager \<Rightarrow> 's auth_manager" where
  "SetDefault name am = am\<lparr> am_default := name \<rparr>"

definition refused :: "string \<Rightarrow> auth_result" where
  "refused msg = \<lparr> rs_Success = False, rs_User = None, rs_Token = [], rs_Error = msg \<rparr>"

definition cred_text :: "credentials \<Rightarrow> string \<Rightarrow> string" where
  "cred_text creds k = (case creds k of Some (CredString s) \<Rightarrow> s | _ \<Rightarrow> [])"

definition Local_Authenticate :: "bcrypt \<Rightarrow> 's user_repo \<Rightarrow> credentials \<Rightarrow> ('s, go_error, auth_result) io" where
  "Local_Authenticate bc userRepo creds =
     (let username = cred_text creds ''username''; password = cred_text creds ''password'' in
      if username = [] then ok (refused ''Username is required'')
      else if password = [] then ok (refused ''Password is required'')
      else
        attempt (ur_GetByUsername userRepo username)
          (\<lambda>_. ok (refused ''Invalid username or password'')) (\<lambda>user.
        if \<not> CheckPassword bc user password then ok (refused ''Invalid username or password'')
        else if \<not> us_Active user then ok (refused ''Invalid username or password'')
        else ok \<lparr> rs_Success = True, rs_User = Some user, rs_Token = [], rs_Error = [] \<rparr>))"

definition NewLocalAuthStrategy :: "bcrypt \<Rightarrow> 's user_repo \<Rightarrow> 's auth_strategy" where
  "NewLocalAuthStrategy bc userRepo =
     \<lparr> sy_Authenticate = Local_Authenticate bc userRepo, sy_GetName = ''local'', sy_IsEnabled = True \<rparr>"

section \<open>auth_usecase.go\<close>

definition AuthSessionTTL :: int where
  "AuthSessionTTL = 7 * 24 * 3600000000000"

definition PasswordChangeTokenTTL :: int where
  "PasswordChangeTokenTTL = 3600000000000"

text \<open>The file of the initial password, absent when its path is empty; removing a missing file is no error.\<close>

record 's password_file =
  pf_Write :: "string \<Rightarrow> ('s, go_error, unit) io"
  pf_Remove :: "('s, go_error, unit) io"

record 's auth_usecase =
  hu_userRepo :: "'s user_repo"
  hu_authManager :: "'s auth_manager"
  hu_sessionRepo :: "'s session_repo"
  hu_passwordFile :: "'s password_file option"

record auth_env =
  he_now :: int
  he_sha256 :: "string \<Rightarrow> string"
  he_random :: "string option"
  he_bcrypt :: bcrypt
  he_index :: "nat \<Rightarrow> nat option"

definition Authenticate :: "'s auth_usecase \<Rightarrow> string \<Rightarrow> string \<Rightarrow> ('s, go_error, auth_result) io" where
  "Authenticate uc username password =
     (case GetDefaultStrategy (hu_authManager uc) of
        None \<Rightarrow> text_fail ''no authentication strategy available''
      | Some strategy \<Rightarrow>
          sy_Authenticate strategy [''username'' \<mapsto> CredString username, ''password'' \<mapsto> CredString password])"

definition createSession ::
    "'s auth_usecase \<Rightarrow> auth_env \<Rightarrow> string \<Rightarrow> session_purpose \<Rightarrow> int \<Rightarrow> ('s, go_error, string) io" where
  "createSession uc env userID purpose ttl =
     (case NewSession (he_sha256 env) (he_random env) (he_now env) userID purpose ttl of
        None \<Rightarrow> text_fail ''random source''
      | Some (session, rawToken) \<Rightarrow>
          attempt (db_call (er_Create (hu_sessionRepo uc) session)) fail (\<lambda>_. ok rawToken))"

text \<open>A result without success has no user (its error text is returned as it is).\<close>

definition Login :: "'s auth_usecase \<Rightarrow> auth_env \<Rightarrow> string \<Rightarrow> string \<Rightarrow> ('s, go_error, auth_result) io" where
  "Login uc env username password =
     attempt (Authenticate uc username password) fail (\<lambda>result.
     case (if rs_Success result then rs_User result else None) of
       None \<Rightarrow> ok result
     | Some user \<Rightarrow>
         if us_MustChangePassword user then ok result
         else attempt (createSession uc env (us_ID user) SessionPurposeAuth AuthSessionTTL) fail
                (\<lambda>token. ok (result\<lparr> rs_Token := token \<rparr>)))"

definition password_charset :: string where
  "password_charset = ''abcdefghijklmnopqrstuvwxyzABCDEFGHIJKLMNOPQRSTUVWXYZ0123456789!@#$%^&*''"

definition GenerateRandomPassword :: "(nat \<Rightarrow> nat option) \<Rightarrow> string option" where
  "GenerateRandomPassword index =
     those (map (\<lambda>i. map_option (\<lambda>n. password_charset ! n) (index i)) [0..<12])"

definition InitializeRootUser :: "'s auth_usecase \<Rightarrow> auth_env \<Rightarrow> string \<Rightarrow> ('s, go_error, unit) io" where
  "InitializeRootUser uc env newID =
     attempt (db_call (ur_GetAll (hu_userRepo uc))) fail (\<lambda>existingUsers.
     if length existingUsers > 0 then ok ()
     else (case GenerateRandomPassword (he_index env) of
             None \<Rightarrow> text_fail ''random source''
           | Some randomPassword \<Rightarrow>
               let root = \<lparr> us_ID = newID, us_Name = ''Root'', us_Username = ''root'', us_Password = [],
                            us_Role = UserRoleRoot, us_MustChangePassword = True, us_Active = False,
                            us_Status = StatusDisabled, us_Teams = [] \<rparr>
               in (case SetPassword (he_bcrypt env) randomPassword root of
                     Inl err \<Rightarrow> fail (ErrPassword err)
                   | Inr root \<Rightarrow>
                       attempt (db_call (ur_Create (hu_userRepo uc) root)) fail (\<lambda>_.
                       case hu_passwordFile uc of
                         None \<Rightarrow> ok ()
                       | Some f \<Rightarrow> attempt (pf_Write f (randomPassword @ [CHR 10])) fail ok))))"

definition ValidateToken :: "'s auth_usecase \<Rightarrow> auth_env \<Rightarrow> string \<Rightarrow> ('s, go_error, user) io" where
  "ValidateToken uc env token =
     (if token = [] then text_fail ''token is required''
      else
        attempt (er_GetByTokenHash (hu_sessionRepo uc) (HashSessionToken (he_sha256 env) token))
          (\<lambda>_. text_fail ''invalid token'') (\<lambda>session.
        if se_Purpose session \<noteq> SessionPurposeAuth then text_fail ''invalid token''
        else if Session_IsExpired (he_now env) session
        then attempt (er_DeleteByID (hu_sessionRepo uc) (se_ID session))
               (\<lambda>_. text_fail ''token expired'') (\<lambda>_. text_fail ''token expired'')
        else
          attempt (db_call (ur_GetByID (hu_userRepo uc) (se_UserID session))) fail (\<lambda>user.
          if \<not> us_Active user then text_fail ''account disabled'' else ok user)))"

definition Logout :: "'s auth_usecase \<Rightarrow> auth_env \<Rightarrow> string \<Rightarrow> ('s, go_error, unit) io" where
  "Logout uc env token =
     (if token = [] then ok ()
      else
        attempt (er_GetByTokenHash (hu_sessionRepo uc) (HashSessionToken (he_sha256 env) token))
          (\<lambda>_. ok ()) (\<lambda>session. db_call (er_DeleteByID (hu_sessionRepo uc) (se_ID session))))"

definition ChangePasswordFirstTime ::
    "'s auth_usecase \<Rightarrow> auth_env \<Rightarrow> string \<Rightarrow> string \<Rightarrow> ('s, go_error, unit) io" where
  "ChangePasswordFirstTime uc env userID newPassword =
     (if userID = [] \<or> newPassword = [] then text_fail ''user ID and new password are required''
      else
        attempt (db_call (ur_GetByID (hu_userRepo uc) userID)) fail (\<lambda>user.
        if \<not> us_MustChangePassword user then text_fail ''password change not required for this user''
        else (case SetPassword (he_bcrypt env) newPassword user of
                Inl err \<Rightarrow> fail (ErrPassword err)
              | Inr user \<Rightarrow>
                  let user = user\<lparr> us_MustChangePassword := False \<rparr> in
                  attempt (db_call (ur_Update (hu_userRepo uc) user)) fail (\<lambda>_.
                  attempt (case (if IsRoot user then hu_passwordFile uc else None) of
                             None \<Rightarrow> ok () | Some f \<Rightarrow> pf_Remove f) fail (\<lambda>_.
                  db_call (er_DeleteByUserID (hu_sessionRepo uc) userID))))))"

definition GetUserCount :: "'s auth_usecase \<Rightarrow> ('s, go_error, nat) io" where
  "GetUserCount uc = attempt (db_call (ur_GetAll (hu_userRepo uc))) fail (\<lambda>users. ok (length users))"

definition GetUserByUsername :: "'s auth_usecase \<Rightarrow> string \<Rightarrow> ('s, go_error, user) io" where
  "GetUserByUsername uc username = db_call (ur_GetByUsername (hu_userRepo uc) username)"

definition GeneratePasswordChangeToken ::
    "'s auth_usecase \<Rightarrow> auth_env \<Rightarrow> string \<Rightarrow> string \<Rightarrow> ('s, go_error, string) io" where
  "GeneratePasswordChangeToken uc env userID username =
     createSession uc env userID SessionPurposePasswordChange PasswordChangeTokenTTL"

text \<open>The token is deleted when it validates; an error of the delete is ignored.\<close>

definition ValidatePasswordChangeToken ::
    "'s auth_usecase \<Rightarrow> auth_env \<Rightarrow> string \<Rightarrow> ('s, go_error, string \<times> string) io" where
  "ValidatePasswordChangeToken uc env token =
     (if token = [] then text_fail ''token is required''
      else
        attempt (er_GetByTokenHash (hu_sessionRepo uc) (HashSessionToken (he_sha256 env) token))
          (\<lambda>_. text_fail ''invalid token'') (\<lambda>session.
        if se_Purpose session \<noteq> SessionPurposePasswordChange then text_fail ''invalid token type''
        else if Session_IsExpired (he_now env) session
        then attempt (er_DeleteByID (hu_sessionRepo uc) (se_ID session))
               (\<lambda>_. text_fail ''token expired'') (\<lambda>_. text_fail ''token expired'')
        else
          attempt (ur_GetByID (hu_userRepo uc) (se_UserID session)) (\<lambda>_. text_fail ''user not found'') (\<lambda>user.
          if \<not> us_MustChangePassword user then text_fail ''password change no longer required''
          else attempt (er_DeleteByID (hu_sessionRepo uc) (se_ID session))
                 (\<lambda>_. ok (us_ID user, us_Username user)) (\<lambda>_. ok (us_ID user, us_Username user)))))"

section \<open>user_usecase.go\<close>

record 's user_usecase =
  nu_userRepo :: "'s user_repo"
  nu_sessionRepo :: "'s session_repo"

definition CreateUser :: "'s user_usecase \<Rightarrow> user \<Rightarrow> ('s, go_error, unit) io" where
  "CreateUser uc user =
     attempt (ur_GetByUsername (nu_userRepo uc) (us_Username user))
       (\<lambda>_. case User_Validate user of
              Some err \<Rightarrow> fail (ErrUser err)
            | None \<Rightarrow> db_call (ur_Create (nu_userRepo uc) user))
       (\<lambda>_. fail (ErrApp (NewAppError ErrCodeAlreadyExists ''username already exists'')))"

definition GetAllUsers :: "'s user_usecase \<Rightarrow> ('s, go_error, user list) io" where
  "GetAllUsers uc = db_call (ur_GetAll (nu_userRepo uc))"

definition GetUserByID :: "'s user_usecase \<Rightarrow> string \<Rightarrow> ('s, go_error, user) io" where
  "GetUserByID uc i = db_call (ur_GetByID (nu_userRepo uc) i)"

text \<open>An error of the look-up by name counts as no such user.\<close>

definition UpdateUser :: "'s user_usecase \<Rightarrow> user \<Rightarrow> ('s, go_error, unit) io" where
  "UpdateUser uc user =
     attempt (db_call (ur_GetByID (nu_userRepo uc) (us_ID user))) fail (\<lambda>_.
     attempt (attempt (ur_GetByUsername (nu_userRepo uc) (us_Username user))
                (\<lambda>_. ok False) (\<lambda>existing. ok (us_ID existing \<noteq> us_ID user))) fail (\<lambda>taken.
     if taken then text_fail ''username already exists''
     else (case User_Validate user of
             Some err \<Rightarrow> fail (ErrUser err)
           | None \<Rightarrow> db_call (ur_Update (nu_userRepo uc) user))))"

definition ChangePassword ::
    "'s user_usecase \<Rightarrow> bcrypt \<Rightarrow> string \<Rightarrow> string \<Rightarrow> string \<Rightarrow> ('s, go_error, unit) io" where
  "ChangePassword uc bc i oldPassword newPassword =
     attempt (db_call (ur_GetByID (nu_userRepo uc) i)) fail (\<lambda>user.
     if \<not> CheckPassword bc user oldPassword then text_fail ''current password is incorrect''
     else (case SetPassword bc newPassword user of
             Inl err \<Rightarrow> fail (ErrPassword err)
           | Inr user \<Rightarrow>
               attempt (db_call (ur_Update (nu_userRepo uc) user)) fail (\<lambda>_.
               db_call (er_DeleteByUserID (nu_sessionRepo uc) i))))"

definition InvalidateSessions :: "'s user_usecase \<Rightarrow> string \<Rightarrow> ('s, go_error, unit) io" where
  "InvalidateSessions uc userID = db_call (er_DeleteByUserID (nu_sessionRepo uc) userID)"

definition DeleteUser :: "'s user_usecase \<Rightarrow> string \<Rightarrow> ('s, go_error, unit) io" where
  "DeleteUser uc i =
     attempt (db_call (ur_GetByID (nu_userRepo uc) i)) fail (\<lambda>user.
     if IsRoot user then text_fail ''cannot delete root user''
     else attempt (InvalidateSessions uc i) fail (\<lambda>_. db_call (ur_Delete (nu_userRepo uc) i)))"

definition AddUserToApplication :: "'s user_usecase \<Rightarrow> string \<Rightarrow> string \<Rightarrow> ('s, go_error, unit) io" where
  "AddUserToApplication uc userID applicationID =
     db_call (ur_AddUserToApplication (nu_userRepo uc) userID applicationID)"

definition RemoveUserFromApplication :: "'s user_usecase \<Rightarrow> string \<Rightarrow> string \<Rightarrow> ('s, go_error, unit) io" where
  "RemoveUserFromApplication uc userID applicationID =
     db_call (ur_RemoveUserFromApplication (nu_userRepo uc) userID applicationID)"

definition GetUsersByApplicationID :: "'s user_usecase \<Rightarrow> string \<Rightarrow> ('s, go_error, user list) io" where
  "GetUsersByApplicationID uc applicationID = db_call (ur_GetUsersByApplicationID (nu_userRepo uc) applicationID)"

section \<open>favorite_usecase.go\<close>

definition MaxFavoriteKeyLength :: nat where
  "MaxFavoriteKeyLength = 300"

definition validateFavoriteKey :: "string \<Rightarrow> app_error option" where
  "validateFavoriteKey key =
     (if key = [] then Some (NewAppError ErrCodeValidation ''Favorite key is required'')
      else if length key > MaxFavoriteKeyLength
      then Some (NewAppError ErrCodeValidation ''Favorite key is too long'')
      else None)"

definition Favorites_List :: "'s favorite_repo \<Rightarrow> string \<Rightarrow> ('s, go_error, string list) io" where
  "Favorites_List repo userID = db_call (fr_ListKeys repo userID)"

definition Favorites_Add :: "'s favorite_repo \<Rightarrow> string \<Rightarrow> string \<Rightarrow> ('s, go_error, unit) io" where
  "Favorites_Add repo userID key =
     (case validateFavoriteKey key of
        Some err \<Rightarrow> fail (ErrApp err) | None \<Rightarrow> db_call (fr_Add repo userID key))"

definition Favorites_Remove :: "'s favorite_repo \<Rightarrow> string \<Rightarrow> string \<Rightarrow> ('s, go_error, unit) io" where
  "Favorites_Remove repo userID key =
     (case validateFavoriteKey key of
        Some err \<Rightarrow> fail (ErrApp err) | None \<Rightarrow> db_call (fr_Remove repo userID key))"

end
