(* ===== verification/World.thy ===== *)
theory World
  imports AuditTrail User
begin

text \<open>
  All tables of the server in memory, with transactions by copy: the instance on which the contracts
  of the repositories are interpreted and the witnesses run. Every table behaves as documented and
  leaves the other tables and the saved copy alone.
\<close>

text \<open>What the struct tags of an approval request tell GORM: \<open>PlainSecretKey\<close> is no column.\<close>

definition request_columns :: "approval_request \<Rightarrow> approval_request" where
  "request_columns r = r\<lparr> rq_PlainSecretKey := [] \<rparr>"

record world =
  w_toggles :: "toggle list"
  w_users :: "user list"
  w_apps :: "application list"
  w_keys :: "secret_key list"
  w_teams :: "team list"
  w_team_users :: "team_user list"
  w_team_apps :: "team_app list"
  w_requests :: "approval_request list"
  w_settings :: "approval_settings list"
  w_audit :: "audit_log list"
  w_user_apps :: "user_application list"
  w_sessions :: "session list"
  w_favorites :: "user_favorite list"

type_synonym mem = "world \<times> world option"

definition empty_world :: world where
  "empty_world = \<lparr> w_toggles = [], w_users = [], w_apps = [], w_keys = [], w_teams = [], w_team_users = [],
     w_team_apps = [], w_requests = [], w_settings = [], w_audit = [], w_user_apps = [], w_sessions = [],
     w_favorites = [] \<rparr>"

abbreviation on_world :: "('r list \<Rightarrow> world \<Rightarrow> world) \<Rightarrow> 'r list \<Rightarrow> mem \<Rightarrow> mem" where
  "on_world put \<equiv> \<lambda>xs d. (put xs (fst d), snd d)"

definition wt_toggles :: "int \<Rightarrow> (toggle, mem) table" where
  "wt_toggles now = mem_table (\<lambda>d. w_toggles (fst d)) (on_world (\<lambda>xs w. w\<lparr> w_toggles := xs \<rparr>)) toggle_live
     toggle_columns toggle_defaults tg_ID (\<lambda>x t. tg_ID x = tg_ID t) (\<lambda>t. Some (toggle_erased now t))"

definition wt_users :: "(user, mem) table" where
  "wt_users = mem_table (\<lambda>d. w_users (fst d)) (on_world (\<lambda>xs w. w\<lparr> w_users := xs \<rparr>)) (\<lambda>_. True)
     user_columns user_defaults us_ID (\<lambda>x u. us_ID x = us_ID u \<or> us_Username x = us_Username u) (\<lambda>_. None)"

definition wt_apps :: "(application, mem) table" where
  "wt_apps = mem_table (\<lambda>d. w_apps (fst d)) (on_world (\<lambda>xs w. w\<lparr> w_apps := xs \<rparr>)) (\<lambda>_. True)
     (\<lambda>u. u) (\<lambda>u. u) ap_ID (\<lambda>x u. ap_ID x = ap_ID u) (\<lambda>_. None)"

definition wt_keys :: "(secret_key, mem) table" where
  "wt_keys = mem_table (\<lambda>d. w_keys (fst d)) (on_world (\<lambda>xs w. w\<lparr> w_keys := xs \<rparr>)) (\<lambda>_. True)
     (\<lambda>u. u) (\<lambda>u. u) sk_ID key_clash (\<lambda>_. None)"

definition wt_teams :: "(team, mem) table" where
  "wt_teams = mem_table (\<lambda>d. w_teams (fst d)) (on_world (\<lambda>xs w. w\<lparr> w_teams := xs \<rparr>)) (\<lambda>_. True)
     (\<lambda>u. u) (\<lambda>u. u) te_ID (\<lambda>x u. te_ID x = te_ID u \<or> te_Name x = te_Name u) (\<lambda>_. None)"

definition member_key :: "team_user \<Rightarrow> string \<times> string" where
  "member_key m = (mb_TeamID m, mb_UserID m)"

definition team_app_key :: "team_app \<Rightarrow> string \<times> string" where
  "team_app_key a = (ta_TeamID a, ta_AppID a)"

definition wt_team_users :: "(team_user, mem) table" where
  "wt_team_users = mem_table (\<lambda>d. w_team_users (fst d)) (on_world (\<lambda>xs w. w\<lparr> w_team_users := xs \<rparr>)) (\<lambda>_. True)
     (\<lambda>u. u) (\<lambda>u. u) member_key (\<lambda>x u. member_key x = member_key u) (\<lambda>_. None)"

definition wt_team_apps :: "(team_app, mem) table" where
  "wt_team_apps = mem_table (\<lambda>d. w_team_apps (fst d)) (on_world (\<lambda>xs w. w\<lparr> w_team_apps := xs \<rparr>)) (\<lambda>_. True)
     (\<lambda>u. u) (\<lambda>u. u) team_app_key (\<lambda>x u. team_app_key x = team_app_key u) (\<lambda>_. None)"

definition wt_requests :: "(approval_request, mem) table" where
  "wt_requests = mem_table (\<lambda>d. w_requests (fst d)) (on_world (\<lambda>xs w. w\<lparr> w_requests := xs \<rparr>)) (\<lambda>_. True)
     request_columns (\<lambda>u. u) rq_ID (\<lambda>x u. rq_ID x = rq_ID u) (\<lambda>_. None)"

definition wt_settings :: "(approval_settings, mem) table" where
  "wt_settings = mem_table (\<lambda>d. w_settings (fst d)) (on_world (\<lambda>xs w. w\<lparr> w_settings := xs \<rparr>)) (\<lambda>_. True)
     (\<lambda>u. u) (\<lambda>u. u) as_ID (\<lambda>x u. as_ID x = as_ID u) (\<lambda>_. None)"

definition wt_audit :: "(audit_log, mem) table" where
  "wt_audit = mem_table (\<lambda>d. w_audit (fst d)) (on_world (\<lambda>xs w. w\<lparr> w_audit := xs \<rparr>)) (\<lambda>_. True)
     (\<lambda>u. u) (\<lambda>u. u) al_ID (\<lambda>x u. al_ID x = al_ID u) (\<lambda>_. None)"

definition user_app_key :: "user_application \<Rightarrow> string \<times> string" where
  "user_app_key a = (uq_UserID a, uq_ApplicationID a)"

definition wt_user_apps :: "(user_application, mem) table" where
  "wt_user_apps = mem_table (\<lambda>d. w_user_apps (fst d)) (on_world (\<lambda>xs w. w\<lparr> w_user_apps := xs \<rparr>)) (\<lambda>_. True)
     (\<lambda>u. u) (\<lambda>u. u) user_app_key (\<lambda>x u. user_app_key x = user_app_key u) (\<lambda>_. None)"

definition wt_sessions :: "(session, mem) table" where
  "wt_sessions = mem_table (\<lambda>d. w_sessions (fst d)) (on_world (\<lambda>xs w. w\<lparr> w_sessions := xs \<rparr>)) (\<lambda>_. True)
     (\<lambda>u. u) (\<lambda>u. u) se_ID session_clash (\<lambda>_. None)"

definition favorite_key :: "user_favorite \<Rightarrow> string \<times> string" where
  "favorite_key f = (uf_UserID f, uf_FavoriteKey f)"

definition wt_favorites :: "(user_favorite, mem) table" where
  "wt_favorites = mem_table (\<lambda>d. w_favorites (fst d)) (on_world (\<lambda>xs w. w\<lparr> w_favorites := xs \<rparr>)) (\<lambda>_. True)
     (\<lambda>u. u) (\<lambda>u. u) favorite_key (\<lambda>x u. favorite_key x = favorite_key u) (\<lambda>_. None)"

definition wt_tx :: "mem tx" where
  "wt_tx =
     \<lparr> tx_Begin = (\<lambda>d. Some (Inr (), (fst d, Some (fst d)))),
       tx_Commit = (\<lambda>d. Some (Inr (), (fst d, None))),
       tx_Rollback = (\<lambda>d. Some (Inr (), (case snd d of None \<Rightarrow> d | Some w \<Rightarrow> (w, None)))) \<rparr>"

lemmas wt_defs = wt_toggles_def wt_users_def wt_apps_def wt_keys_def wt_teams_def wt_team_users_def
  wt_team_apps_def wt_requests_def wt_settings_def wt_audit_def wt_user_apps_def
  wt_sessions_def wt_favorites_def

section \<open>the contracts\<close>

interpretation wt_users: gorm_table wt_users "\<lambda>d. w_users (fst d)" "\<lambda>_. True" user_columns user_defaults us_ID
  "\<lambda>x u. us_ID x = us_ID u \<or> us_Username x = us_Username u" "\<lambda>_. None"
  unfolding wt_users_def by (rule mem_table_gorm) simp

interpretation wt_apps: gorm_table wt_apps "\<lambda>d. w_apps (fst d)" "\<lambda>_. True" "\<lambda>u. u" "\<lambda>u. u" ap_ID
  "\<lambda>x u. ap_ID x = ap_ID u" "\<lambda>_. None"
  unfolding wt_apps_def by (rule mem_table_gorm) simp

interpretation wt_teams: gorm_table wt_teams "\<lambda>d. w_teams (fst d)" "\<lambda>_. True" "\<lambda>u. u" "\<lambda>u. u" te_ID
  "\<lambda>x u. te_ID x = te_ID u \<or> te_Name x = te_Name u" "\<lambda>_. None"
  unfolding wt_teams_def by (rule mem_table_gorm) simp

interpretation wt_team_users: gorm_table wt_team_users "\<lambda>d. w_team_users (fst d)" "\<lambda>_. True" "\<lambda>u. u" "\<lambda>u. u"
  member_key "\<lambda>x u. member_key x = member_key u" "\<lambda>_. None"
  unfolding wt_team_users_def by (rule mem_table_gorm) simp

interpretation wt_team_apps: gorm_table wt_team_apps "\<lambda>d. w_team_apps (fst d)" "\<lambda>_. True" "\<lambda>u. u" "\<lambda>u. u"
  team_app_key "\<lambda>x u. team_app_key x = team_app_key u" "\<lambda>_. None"
  unfolding wt_team_apps_def by (rule mem_table_gorm) simp

interpretation wt_requests: gorm_table wt_requests "\<lambda>d. w_requests (fst d)" "\<lambda>_. True" request_columns "\<lambda>u. u"
  rq_ID "\<lambda>x u. rq_ID x = rq_ID u" "\<lambda>_. None"
  unfolding wt_requests_def by (rule mem_table_gorm) simp

interpretation wt_settings: gorm_table wt_settings "\<lambda>d. w_settings (fst d)" "\<lambda>_. True" "\<lambda>u. u" "\<lambda>u. u" as_ID
  "\<lambda>x u. as_ID x = as_ID u" "\<lambda>_. None"
  unfolding wt_settings_def by (rule mem_table_gorm) simp

lemma wt_audit_table: "audit_table wt_audit (\<lambda>d. w_audit (fst d))"
  unfolding audit_table_def wt_audit_def by (rule mem_table_gorm) simp

interpretation wt_audit: audit_table wt_audit "\<lambda>d. w_audit (fst d)"
  by (rule wt_audit_table)

lemma wt_key_table: "key_table wt_keys (\<lambda>d. w_keys (fst d))"
  unfolding key_table_def wt_keys_def by (rule mem_table_gorm) simp

interpretation wt_keys: key_table wt_keys "\<lambda>d. w_keys (fst d)"
  by (rule wt_key_table)

lemma wt_toggle_table: "toggle_table (wt_toggles now) (\<lambda>d. w_toggles (fst d)) now wt_users"
proof (rule toggle_table.intro)
  show "gorm_table (wt_toggles now) (\<lambda>d. w_toggles (fst d)) toggle_live toggle_columns toggle_defaults tg_ID
          (\<lambda>x t. tg_ID x = tg_ID t) (\<lambda>t. Some (toggle_erased now t))"
    unfolding wt_toggles_def by (rule mem_table_gorm) simp
  show "toggle_table_axioms wt_users"
    using wt_users.find by unfold_locales blast
qed

interpretation wt_toggles: toggle_table "wt_toggles now" "\<lambda>d. w_toggles (fst d)" now wt_users for now
  by (rule wt_toggle_table)

interpretation wt_tx: transaction wt_tx fst snd
  by unfold_locales (auto simp: wt_tx_def)

interpretation wt_user_apps: gorm_table wt_user_apps "\<lambda>d. w_user_apps (fst d)" "\<lambda>_. True" "\<lambda>u. u" "\<lambda>u. u"
  user_app_key "\<lambda>x u. user_app_key x = user_app_key u" "\<lambda>_. None"
  unfolding wt_user_apps_def by (rule mem_table_gorm) simp

interpretation wt_sessions: gorm_table wt_sessions "\<lambda>d. w_sessions (fst d)" "\<lambda>_. True" "\<lambda>u. u" "\<lambda>u. u"
  se_ID session_clash "\<lambda>_. None"
  unfolding wt_sessions_def by (rule mem_table_gorm) simp

interpretation wt_favorites: gorm_table wt_favorites "\<lambda>d. w_favorites (fst d)" "\<lambda>_. True" "\<lambda>u. u" "\<lambda>u. u"
  favorite_key "\<lambda>x u. favorite_key x = favorite_key u" "\<lambda>_. None"
  unfolding wt_favorites_def by (rule mem_table_gorm) simp

text \<open>The tables are apart, and none touches the saved copy.\<close>

lemma wt_keeps:
  "keeps (wt_toggles now) (\<lambda>d. (w_users (fst d), w_apps (fst d), w_keys (fst d), w_teams (fst d), w_team_users (fst d),
     w_team_apps (fst d), w_requests (fst d), w_settings (fst d), w_audit (fst d), w_sessions (fst d), snd d))"
  "keeps wt_apps (\<lambda>d. (w_toggles (fst d), w_users (fst d), w_keys (fst d), w_teams (fst d), w_team_users (fst d),
     w_team_apps (fst d), w_requests (fst d), w_settings (fst d), w_audit (fst d), w_sessions (fst d), snd d))"
  "keeps wt_keys (\<lambda>d. (w_toggles (fst d), w_users (fst d), w_apps (fst d), w_teams (fst d), w_team_users (fst d),
     w_team_apps (fst d), w_requests (fst d), w_settings (fst d), w_audit (fst d), w_sessions (fst d), snd d))"
  "keeps wt_team_apps (\<lambda>d. (w_toggles (fst d), w_users (fst d), w_apps (fst d), w_keys (fst d), w_teams (fst d),
     w_team_users (fst d), w_requests (fst d), w_settings (fst d), w_audit (fst d), w_sessions (fst d), snd d))"
  "keeps wt_team_users (\<lambda>d. (w_toggles (fst d), w_users (fst d), w_apps (fst d), w_keys (fst d), w_teams (fst d),
     w_team_apps (fst d), w_requests (fst d), w_settings (fst d), w_audit (fst d), w_sessions (fst d), snd d))"
  "keeps wt_requests (\<lambda>d. (w_toggles (fst d), w_users (fst d), w_apps (fst d), w_keys (fst d), w_teams (fst d),
     w_team_users (fst d), w_team_apps (fst d), w_settings (fst d), w_audit (fst d), w_sessions (fst d), snd d))"
  "keeps wt_settings (\<lambda>d. (w_toggles (fst d), w_users (fst d), w_apps (fst d), w_keys (fst d), w_teams (fst d),
     w_team_users (fst d), w_team_apps (fst d), w_requests (fst d), w_audit (fst d), w_sessions (fst d), snd d))"
  "keeps wt_audit (\<lambda>d. (w_toggles (fst d), w_users (fst d), w_apps (fst d), w_keys (fst d), w_teams (fst d),
     w_team_users (fst d), w_team_apps (fst d), w_requests (fst d), w_settings (fst d), w_sessions (fst d), snd d))"
  "keeps wt_users (\<lambda>d. (w_toggles (fst d), w_apps (fst d), w_keys (fst d), w_teams (fst d), w_team_users (fst d),
     w_team_apps (fst d), w_requests (fst d), w_settings (fst d), w_audit (fst d), w_sessions (fst d), snd d))"
  "keeps wt_teams (\<lambda>d. (w_toggles (fst d), w_users (fst d), w_apps (fst d), w_keys (fst d), w_team_users (fst d),
     w_team_apps (fst d), w_requests (fst d), w_settings (fst d), w_audit (fst d), w_sessions (fst d), snd d))"
  "keeps wt_sessions (\<lambda>d. (w_toggles (fst d), w_users (fst d), w_apps (fst d), w_keys (fst d), w_teams (fst d),
     w_team_users (fst d), w_team_apps (fst d), w_requests (fst d), w_settings (fst d), w_audit (fst d), snd d))"
  unfolding wt_defs by (rule mem_table_keeps, simp)+

end
