(* ===== verification/ApprovalRepo.thy ===== *)
theory ApprovalRepo
  imports World
begin

text \<open>
  The repositories of the approval workflow: \<open>approval_settings_repository.go\<close> (one row, created with the
  defaults on the first read) and \<open>approval_request_repository.go\<close> (raw queries that join the names in),
  with the interfaces of \<open>domain/repository/approval_repository.go\<close>. A raw query is written over the rows
  of the tables it joins; \<open>sql.ErrNoRows\<close> is written \<^const>\<open>ErrRecordNotFound\<close> (no caller tells them apart).
\<close>

section \<open>the interfaces\<close>

text \<open>A request with the names it is shown with.\<close>

record request_details =
  dt_Request :: approval_request
  dt_RequesterName :: string
  dt_TeamName :: string
  dt_ApplicationName :: string
  dt_TogglePath :: string
  dt_ActionedUserName :: string

type_synonym request_stats = "approval_status \<rightharpoonup> nat"

record 's request_repo =
  qr_Create :: "approval_request \<Rightarrow> ('s, db_error, unit) io"
  qr_GetByID :: "string \<Rightarrow> ('s, db_error, approval_request) io"
  qr_Update :: "approval_request \<Rightarrow> ('s, db_error, unit) io"
  qr_Delete :: "string \<Rightarrow> ('s, db_error, unit) io"
  qr_GetWithDetails :: "string \<Rightarrow> ('s, db_error, request_details) io"
  qr_GetAllWithDetails :: "('s, db_error, request_details list) io"
  qr_GetPendingWithDetails :: "('s, db_error, request_details list) io"
  qr_GetByTeamIDsWithDetails :: "string list \<Rightarrow> ('s, db_error, request_details list) io"
  qr_GetByRequesterIDWithDetails :: "string \<Rightarrow> ('s, db_error, request_details list) io"
  qr_GetApprovableByUserID :: "string \<Rightarrow> ('s, db_error, request_details list) io"
  qr_MarkExpiredRequests :: "('s, db_error, unit) io"
  qr_GetRequestStats :: "string list \<Rightarrow> ('s, db_error, request_stats) io"

record 's settings_repo =
  gs_Create :: "approval_settings \<Rightarrow> ('s, db_error, unit) io"
  gs_Get :: "('s, db_error, approval_settings) io"
  gs_Update :: "approval_settings \<Rightarrow> ('s, go_error, unit) io"
  gs_Delete :: "('s, db_error, unit) io"
  gs_IsApprovalEnabled :: "('s, db_error, bool) io"
  gs_RequiresApproval :: "action_type \<Rightarrow> ('s, db_error, bool) io"
  gs_GetExpirationDays :: "('s, db_error, int) io"

section \<open>approval_settings_repository.go\<close>

definition Settings_Create :: "(approval_settings, 'd) table \<Rightarrow> approval_settings \<Rightarrow> ('d, db_error, unit) io" where
  "Settings_Create g settings = attempt (g_Create g settings) fail (\<lambda>_. ok ())"

text \<open>\<open>newID\<close> is the identifier of the row a first read creates.\<close>

definition Settings_Get :: "(approval_settings, 'd) table \<Rightarrow> string \<Rightarrow> ('d, db_error, approval_settings) io" where
  "Settings_Get g newID =
     attempt (g_First g False (\<lambda>_. True))
       (\<lambda>err. if err = ErrRecordNotFound
              then let defaultSettings = NewApprovalSettings newID
                   in attempt (Settings_Create g defaultSettings) fail (\<lambda>_. ok defaultSettings)
              else fail err)
       ok"

definition Settings_Update :: "(approval_settings, 'd) table \<Rightarrow> approval_settings \<Rightarrow> ('d, go_error, unit) io" where
  "Settings_Update g settings =
     (case Settings_Validate settings of
        Some err \<Rightarrow> fail (ErrSettings err)
      | None \<Rightarrow> db_call (g_Save g settings))"

definition Settings_Delete :: "(approval_settings, 'd) table \<Rightarrow> ('d, db_error, unit) io" where
  "Settings_Delete g = g_Delete g False (\<lambda>_. True)"

definition Settings_IsApprovalEnabled :: "(approval_settings, 'd) table \<Rightarrow> string \<Rightarrow> ('d, db_error, bool) io" where
  "Settings_IsApprovalEnabled g newID =
     attempt (Settings_Get g newID) fail (\<lambda>settings. ok (as_ApprovalEnabled settings))"

definition Settings_RequiresApproval ::
    "(approval_settings, 'd) table \<Rightarrow> string \<Rightarrow> action_type \<Rightarrow> ('d, db_error, bool) io" where
  "Settings_RequiresApproval g newID actionType =
     attempt (Settings_Get g newID) fail (\<lambda>settings. ok (RequiresApproval settings actionType))"

definition Settings_GetExpirationDays :: "(approval_settings, 'd) table \<Rightarrow> string \<Rightarrow> ('d, db_error, int) io" where
  "Settings_GetExpirationDays g newID =
     attempt (Settings_Get g newID) fail (\<lambda>settings. ok (as_DefaultExpirationDays settings))"

definition NewApprovalSettingsRepository :: "(approval_settings, 'd) table \<Rightarrow> string \<Rightarrow> 'd settings_repo" where
  "NewApprovalSettingsRepository g newID =
     \<lparr> gs_Create = Settings_Create g, gs_Get = Settings_Get g newID, gs_Update = Settings_Update g,
       gs_Delete = Settings_Delete g, gs_IsApprovalEnabled = Settings_IsApprovalEnabled g newID,
       gs_RequiresApproval = Settings_RequiresApproval g newID,
       gs_GetExpirationDays = Settings_GetExpirationDays g newID \<rparr>"

section \<open>approval_request_repository.go\<close>

text \<open>The tables the queries join, and the creation time of a request.\<close>

record 'd request_db =
  qd_requests :: "(approval_request, 'd) table"
  qd_users :: "(user, 'd) table"
  qd_teams :: "(team, 'd) table"
  qd_apps :: "(application, 'd) table"
  qd_toggles :: "(toggle, 'd) table"
  qd_team_users :: "(team_user, 'd) table"
  qd_created :: "approval_request \<Rightarrow> int"

definition Request_Create :: "'d request_db \<Rightarrow> approval_request \<Rightarrow> ('d, db_error, unit) io" where
  "Request_Create db request = attempt (g_Create (qd_requests db) request) fail (\<lambda>_. ok ())"

text \<open>The query leaves the three name columns out.\<close>

definition without_names :: "approval_request \<Rightarrow> approval_request" where
  "without_names r =
     r\<lparr> rq_RequesterName := None, rq_TeamName := None, rq_ApplicationName := None, rq_PlainSecretKey := [] \<rparr>"

definition Request_GetByID :: "'d request_db \<Rightarrow> string \<Rightarrow> ('d, db_error, approval_request) io" where
  "Request_GetByID db i =
     attempt (g_First (qd_requests db) True (\<lambda>r. rq_ID r = i)) fail (\<lambda>r. ok (without_names r))"

definition Request_Update :: "'d request_db \<Rightarrow> approval_request \<Rightarrow> ('d, db_error, unit) io" where
  "Request_Update db request = g_Save (qd_requests db) request"

definition Request_Delete :: "'d request_db \<Rightarrow> string \<Rightarrow> ('d, db_error, unit) io" where
  "Request_Delete db i = g_Delete (qd_requests db) False (\<lambda>r. rq_ID r = i)"

text \<open>\<open>COALESCE(column, joined, '')\<close>\<close>

definition coalesce :: "string option \<Rightarrow> string option \<Rightarrow> string" where
  "coalesce a b = (case a of Some x \<Rightarrow> x | None \<Rightarrow> (case b of Some y \<Rightarrow> y | None \<Rightarrow> []))"

text \<open>The left joins of one request.\<close>

definition joined_details ::
    "user list \<Rightarrow> team list \<Rightarrow> application list \<Rightarrow> toggle list \<Rightarrow> approval_request \<Rightarrow> request_details" where
  "joined_details us ts as gs r =
     \<lparr> dt_Request = r\<lparr> rq_PlainSecretKey := [] \<rparr>,
       dt_RequesterName = coalesce (rq_RequesterName r)
         (map_option us_Username (find (\<lambda>u. us_ID u = rq_RequestedBy r) us)),
       dt_TeamName = coalesce (rq_TeamName r) (map_option te_Name (find (\<lambda>t. te_ID t = rq_TeamID r) ts)),
       dt_ApplicationName = coalesce (rq_ApplicationName r)
         (map_option ap_Name (find (\<lambda>a. rq_ApplicationID r = Some (ap_ID a)) as)),
       dt_TogglePath = coalesce None (map_option tg_Path (find (\<lambda>t. rq_ToggleID r = Some (tg_ID t)) gs)),
       dt_ActionedUserName = coalesce None
         (map_option us_Username (find (\<lambda>u. rq_ActionedBy r = Some (us_ID u)) us)) \<rparr>"

text \<open>The query the listings share: the selected requests, the newest first.\<close>

definition Request_select ::
    "'d request_db \<Rightarrow> (approval_request \<Rightarrow> bool) \<Rightarrow> ('d, db_error, request_details list) io" where
  "Request_select db P =
     attempt (g_Find (qd_requests db) True P (\<lambda>r. [- qd_created db r])) fail (\<lambda>rs.
     attempt (g_Find (qd_users db) True (\<lambda>_. True) unordered) fail (\<lambda>us.
     attempt (g_Find (qd_teams db) True (\<lambda>_. True) unordered) fail (\<lambda>ts.
     attempt (g_Find (qd_apps db) True (\<lambda>_. True) unordered) fail (\<lambda>as.
     attempt (g_Find (qd_toggles db) True (\<lambda>_. True) unordered) fail (\<lambda>gs.
     ok (map (joined_details us ts as gs) rs))))))"

definition Request_GetWithDetails :: "'d request_db \<Rightarrow> string \<Rightarrow> ('d, db_error, request_details) io" where
  "Request_GetWithDetails db i =
     attempt (Request_select db (\<lambda>r. rq_ID r = i)) fail (\<lambda>ds.
     case ds of [] \<Rightarrow> fail ErrRecordNotFound | d # _ \<Rightarrow> ok d)"

definition Request_GetAllWithDetails :: "'d request_db \<Rightarrow> ('d, db_error, request_details list) io" where
  "Request_GetAllWithDetails db = Request_select db (\<lambda>_. True)"

definition Request_GetPendingWithDetails :: "'d request_db \<Rightarrow> int \<Rightarrow> ('d, db_error, request_details list) io" where
  "Request_GetPendingWithDetails db now =
     Request_select db (\<lambda>r. rq_Status r = Pending \<and> rq_ExpiresAt r > now)"

definition Request_GetByTeamIDsWithDetails ::
    "'d request_db \<Rightarrow> string list \<Rightarrow> ('d, db_error, request_details list) io" where
  "Request_GetByTeamIDsWithDetails db teamIDs =
     (if length teamIDs = 0 then ok [] else Request_select db (\<lambda>r. rq_TeamID r \<in> set teamIDs))"

definition Request_GetByRequesterIDWithDetails ::
    "'d request_db \<Rightarrow> string \<Rightarrow> ('d, db_error, request_details list) io" where
  "Request_GetByRequesterIDWithDetails db requesterID = Request_select db (\<lambda>r. rq_RequestedBy r = requesterID)"

text \<open>
  The role is read first (no such user: no role); for anyone but root the query joins the memberships
  (whose pairs of team and user are unique). The debugging counts are left out.
\<close>

definition Request_GetApprovableByUserID ::
    "'d request_db \<Rightarrow> int \<Rightarrow> string \<Rightarrow> ('d, db_error, request_details list) io" where
  "Request_GetApprovableByUserID db now userID =
     attempt (g_Find (qd_users db) True (\<lambda>u. us_ID u = userID) unordered) fail (\<lambda>users.
     if (case users of [] \<Rightarrow> False | u # _ \<Rightarrow> us_Role u = UserRoleRoot)
     then Request_select db (\<lambda>r. rq_Status r = Pending \<and> rq_ExpiresAt r > now)
     else
       attempt (g_Find (qd_team_users db) True (\<lambda>m. mb_UserID m = userID \<and> mb_IsApprover m) unordered) fail (\<lambda>ms.
       Request_select db (\<lambda>r. rq_TeamID r \<in> set (map mb_TeamID ms) \<and> rq_Status r = Pending
         \<and> rq_ExpiresAt r > now \<and> rq_RequestedBy r \<noteq> userID)))"

definition Request_MarkExpiredRequests :: "'d request_db \<Rightarrow> int \<Rightarrow> ('d, db_error, unit) io" where
  "Request_MarkExpiredRequests db now =
     g_Updates (qd_requests db) False (\<lambda>r. rq_Status r = Pending \<and> rq_ExpiresAt r \<le> now)
       (\<lambda>r. r\<lparr> rq_Status := Expired \<rparr>)"

text \<open>\<open>GROUP BY status\<close>: a status no row has is not in the map.\<close>

definition count_status :: "approval_request list \<Rightarrow> request_stats" where
  "count_status rs st =
     (let n = length (filter (\<lambda>r. rq_Status r = st) rs) in if n = 0 then None else Some n)"

definition Request_GetRequestStats :: "'d request_db \<Rightarrow> string list \<Rightarrow> ('d, db_error, request_stats) io" where
  "Request_GetRequestStats db teamIDs =
     attempt (g_Find (qd_requests db) False
         (\<lambda>r. if length teamIDs > 0 then rq_TeamID r \<in> set teamIDs else True) unordered) fail
       (\<lambda>rs. ok (count_status rs))"

definition NewApprovalRequestRepository :: "'d request_db \<Rightarrow> int \<Rightarrow> 'd request_repo" where
  "NewApprovalRequestRepository db now =
     \<lparr> qr_Create = Request_Create db, qr_GetByID = Request_GetByID db, qr_Update = Request_Update db,
       qr_Delete = Request_Delete db, qr_GetWithDetails = Request_GetWithDetails db,
       qr_GetAllWithDetails = Request_GetAllWithDetails db,
       qr_GetPendingWithDetails = Request_GetPendingWithDetails db now,
       qr_GetByTeamIDsWithDetails = Request_GetByTeamIDsWithDetails db,
       qr_GetByRequesterIDWithDetails = Request_GetByRequesterIDWithDetails db,
       qr_GetApprovableByUserID = Request_GetApprovableByUserID db now,
       qr_MarkExpiredRequests = Request_MarkExpiredRequests db now,
       qr_GetRequestStats = Request_GetRequestStats db \<rparr>"

end
