(* ===== verification/Application.thy ===== *)
theory Application
  imports World
begin

text \<open>
  Applications: \<open>infrastructure/database/application_repository.go\<close>, whose delete is a transaction over
  four tables, and \<open>usecase/application_usecase.go\<close>. The lemmas say that a failed delete of the
  repository changes nothing, and what the cascade of the use case leaves behind when it fails.
\<close>

section \<open>application_repository.go\<close>

text \<open>The tables behind \<open>r.db\<close>, its transactions, and the creation time of a row.\<close>

record 'd app_db =
  ad_apps :: "(application, 'd) table"
  ad_toggles :: "(toggle, 'd) table"
  ad_team_apps :: "(team_app, 'd) table"
  ad_keys :: "(secret_key, 'd) table"
  ad_tx :: "'d tx"
  ad_created :: "application \<Rightarrow> int"

definition App_Create :: "'d app_db \<Rightarrow> application \<Rightarrow> ('d, db_error, unit) io" where
  "App_Create db app = attempt (g_Create (ad_apps db) app) fail (\<lambda>_. ok ())"

definition App_GetByID :: "'d app_db \<Rightarrow> string \<Rightarrow> ('d, db_error, application) io" where
  "App_GetByID db i = g_First (ad_apps db) False (\<lambda>a. ap_ID a = i)"

definition App_GetByName :: "'d app_db \<Rightarrow> string \<Rightarrow> ('d, db_error, application) io" where
  "App_GetByName db name = g_First (ad_apps db) False (\<lambda>a. ap_Name a = name)"

definition App_GetAll :: "'d app_db \<Rightarrow> ('d, db_error, application list) io" where
  "App_GetAll db = g_Find (ad_apps db) False (\<lambda>_. True) unordered"

definition App_Update :: "'d app_db \<Rightarrow> application \<Rightarrow> ('d, db_error, unit) io" where
  "App_Update db app = g_Save (ad_apps db) app"

text \<open>\<open>if err != nil { tx.Rollback(); return err }\<close>\<close>

definition or_rollback :: "'d app_db \<Rightarrow> ('d, db_error, unit) io \<Rightarrow> ('d, db_error, unit) io \<Rightarrow> ('d, db_error, unit) io" where
  "or_rollback db step rest =
     attempt step (\<lambda>e. attempt (tx_Rollback (ad_tx db)) (\<lambda>_. fail e) (\<lambda>_. fail e)) (\<lambda>_. rest)"

definition App_Delete :: "'d app_db \<Rightarrow> string \<Rightarrow> ('d, db_error, unit) io" where
  "App_Delete db i =
     attempt (tx_Begin (ad_tx db)) fail (\<lambda>_.
     or_rollback db (g_Delete (ad_toggles db) True (\<lambda>t. tg_AppID t = i))
     (or_rollback db (g_Delete (ad_team_apps db) True (\<lambda>a. ta_AppID a = i))
     (or_rollback db (g_Delete (ad_keys db) False (\<lambda>k. sk_ApplicationID k = i))
     (or_rollback db (g_Delete (ad_apps db) False (\<lambda>a. ap_ID a = i))
     (tx_Commit (ad_tx db))))))"

definition App_Exists :: "'d app_db \<Rightarrow> string \<Rightarrow> ('d, db_error, bool) io" where
  "App_Exists db i = attempt (g_Count (ad_apps db) False (\<lambda>a. ap_ID a = i)) fail (\<lambda>n. ok (n > 0))"

text \<open>The query joins the rows of the toggles table itself, the archived ones included.\<close>

definition App_counted :: "toggle list \<Rightarrow> secret_key list \<Rightarrow> application \<Rightarrow> app_counts" where
  "App_counted ts ks a =
     (let joined = filter (\<lambda>t. tg_AppID t = ap_ID a) ts in
      \<lparr> ac_ID = ap_ID a, ac_Name = ap_Name a, ac_TotalToggles = length joined,
        ac_EnabledToggles = length (filter tg_Enabled joined),
        ac_DisabledToggles = length (filter (\<lambda>t. \<not> tg_Enabled t) joined),
        ac_HasSecretKey = list_ex (\<lambda>k. sk_ApplicationID k = ap_ID a \<and> sk_Active k) ks \<rparr>)"

definition App_GetAllWithToggleCounts :: "'d app_db \<Rightarrow> ('d, db_error, app_counts list) io" where
  "App_GetAllWithToggleCounts db =
     attempt (g_Find (ad_apps db) True (\<lambda>_. True) (\<lambda>a. [- ad_created db a])) fail (\<lambda>as.
     attempt (g_Find (ad_toggles db) True (\<lambda>_. True) unordered) fail (\<lambda>ts.
     attempt (g_Find (ad_keys db) True (\<lambda>_. True) unordered) fail (\<lambda>ks.
     ok (map (App_counted ts ks) as))))"

definition NewApplicationRepository :: "'d app_db \<Rightarrow> 'd app_repo" where
  "NewApplicationRepository db =
     \<lparr> pr_Create = App_Create db, pr_GetByID = App_GetByID db, pr_GetByName = App_GetByName db,
       pr_GetAll = App_GetAll db, pr_GetAllWithToggleCounts = App_GetAllWithToggleCounts db,
       pr_Update = App_Update db, pr_Delete = App_Delete db, pr_Exists = App_Exists db \<rparr>"

section \<open>application_usecase.go\<close>

record 's app_usecase =
  au_appRepo :: "'s app_repo"
  au_toggleRepo :: "'s toggle_repo"

definition NewApplicationUseCase :: "'s app_repo \<Rightarrow> 's toggle_repo \<Rightarrow> 's app_usecase" where
  "NewApplicationUseCase appRepo toggleRepo = \<lparr> au_appRepo = appRepo, au_toggleRepo = toggleRepo \<rparr>"

definition CreateApplication :: "'s app_usecase \<Rightarrow> string \<Rightarrow> string \<Rightarrow> ('s, app_error, application) io" where
  "CreateApplication uc newID name =
     (if name = [] then app_fail ErrCodeValidation ''application name is required''
      else
        attempt (attempt (pr_GetByName (au_appRepo uc) name) (\<lambda>_. ok False) (\<lambda>_. ok True)) fail (\<lambda>exists.
        if exists then app_fail ErrCodeAlreadyExists ''application already exists''
        else
          let app = New_Application newID name in
          attempt (pr_Create (au_appRepo uc) app)
            (\<lambda>_. app_fail ErrCodeDatabase ''error creating application'') (\<lambda>_. ok app)))"

definition GetApplicationByID :: "'s app_usecase \<Rightarrow> string \<Rightarrow> ('s, app_error, application) io" where
  "GetApplicationByID uc i =
     (if i = [] then app_fail ErrCodeValidation ''application ID is required''
      else attempt (pr_GetByID (au_appRepo uc) i)
             (\<lambda>_. app_fail ErrCodeNotFound ''application not found'') ok)"

definition GetAllApplications :: "'s app_usecase \<Rightarrow> ('s, app_error, application list) io" where
  "GetAllApplications uc =
     attempt (pr_GetAll (au_appRepo uc)) (\<lambda>_. app_fail ErrCodeDatabase ''error fetching applications'') ok"

definition GetAllApplicationsWithCounts :: "'s app_usecase \<Rightarrow> ('s, app_error, app_counts list) io" where
  "GetAllApplicationsWithCounts uc =
     attempt (pr_GetAllWithToggleCounts (au_appRepo uc))
       (\<lambda>_. app_fail ErrCodeDatabase ''error fetching applications with counts'') ok"

definition UpdateApplication :: "'s app_usecase \<Rightarrow> string \<Rightarrow> string \<Rightarrow> ('s, app_error, application) io" where
  "UpdateApplication uc i name =
     (if i = [] then app_fail ErrCodeValidation ''application ID is required''
      else if name = [] then app_fail ErrCodeValidation ''application name is required''
      else
        attempt (pr_GetByID (au_appRepo uc) i)
          (\<lambda>_. app_fail ErrCodeNotFound ''application not found'') (\<lambda>app.
        let app = app\<lparr> ap_Name := name \<rparr> in
        attempt (pr_Update (au_appRepo uc) app)
          (\<lambda>_. app_fail ErrCodeDatabase ''error updating application'') (\<lambda>_. ok app)))"

definition DeleteApplication :: "'s app_usecase \<Rightarrow> string \<Rightarrow> ('s, app_error, unit) io" where
  "DeleteApplication uc i =
     (if i = [] then app_fail ErrCodeValidation ''application ID is required''
      else
        attempt (pr_Exists (au_appRepo uc) i)
          (\<lambda>_. app_fail ErrCodeDatabase ''error checking application existence'') (\<lambda>exists.
        if \<not> exists then app_fail ErrCodeNotFound ''application not found''
        else
          attempt (tr_GetByAppID (au_toggleRepo uc) i)
            (\<lambda>_. app_fail ErrCodeDatabase ''error getting toggles for deletion'') (\<lambda>toggles.
          attempt (for_each (\<lambda>toggle. attempt (tr_Delete (au_toggleRepo uc) (tg_ID toggle))
                     (\<lambda>_. app_fail ErrCodeDatabase (''error deleting toggle: '' @ tg_Path toggle)) ok) toggles) fail (\<lambda>_.
          attempt (pr_Delete (au_appRepo uc) i)
            (\<lambda>_. app_fail ErrCodeDatabase ''error deleting application'') ok))))"

definition GetApplicationsWithCountsByIDs ::
    "'s app_usecase \<Rightarrow> string list \<Rightarrow> ('s, app_error, app_counts list) io" where
  "GetApplicationsWithCountsByIDs uc ids =
     (if length ids = 0 then ok []
      else attempt (pr_GetAllWithToggleCounts (au_appRepo uc))
             (\<lambda>_. app_fail ErrCodeDatabase ''error fetching applications with counts'')
             (\<lambda>allApps. ok (filter (\<lambda>app. ac_ID app \<in> set ids) allApps)))"

section \<open>the delete transaction\<close>

text \<open>
  What the repository's delete needs of the database: transactions over a content that holds the rows of
  the four tables, deletes that may fail at any point, and tables that are apart.
\<close>

locale app_store =
  transaction "ad_tx db" content saved
  for db :: "'d app_db" and content :: "'d \<Rightarrow> 'c" and saved +
  fixes ft :: "'c \<Rightarrow> toggle list" and fl :: "'c \<Rightarrow> team_app list"
    and fk :: "'c \<Rightarrow> secret_key list" and fp :: "'c \<Rightarrow> application list"
  assumes del_toggles: "fallible_delete True (ad_toggles db) (\<lambda>d. ft (content d))"
    and del_team_apps: "fallible_delete True (ad_team_apps db) (\<lambda>d. fl (content d))"
    and del_keys: "fallible_delete False (ad_keys db) (\<lambda>d. fk (content d))"
    and del_apps: "fallible_delete False (ad_apps db) (\<lambda>d. fp (content d))"
    and apart: "keeps (ad_toggles db) (\<lambda>d. (saved d, fl (content d), fk (content d), fp (content d)))"
      "keeps (ad_team_apps db) (\<lambda>d. (saved d, ft (content d), fk (content d), fp (content d)))"
      "keeps (ad_keys db) (\<lambda>d. (saved d, ft (content d), fl (content d), fp (content d)))"
      "keeps (ad_apps db) (\<lambda>d. (saved d, ft (content d), fl (content d), fk (content d)))"
begin

text \<open>A failed step gives back the content of the begin, a successful one goes on.\<close>

lemma or_rollback_step:
  assumes "saved d = Some c" "step d = Some (r, d1)" "saved d1 = Some c"
  shows "or_rollback db step rest d = rest d1 \<and> r = Inr ()
    \<or> (\<exists>e d'. or_rollback db step rest d = Some (Inl e, d') \<and> content d' = c)"
proof (cases r)
  case (Inl e)
  from rollback[of d1 c] assms obtain r2 d2 where "tx_Rollback (ad_tx db) d1 = Some (r2, d2)" "content d2 = c" by auto
  with Inl assms(2) have "or_rollback db step rest d = Some (Inl e, d2)"
    by (cases r2) (simp_all add: or_rollback_def fail_def)
  with \<open>content d2 = c\<close> show ?thesis by blast
next
  case (Inr u)
  with assms(2) show ?thesis by (simp add: or_rollback_def)
qed

lemma delete_atomic:
  "\<exists>r d'. App_Delete db i d = Some (r, d')
     \<and> (r = Inr () \<longrightarrow> ft (content d') = filter (\<lambda>t. tg_AppID t \<noteq> i) (ft (content d))
          \<and> fl (content d') = filter (\<lambda>a. ta_AppID a \<noteq> i) (fl (content d))
          \<and> fk (content d') = filter (\<lambda>k. sk_ApplicationID k \<noteq> i) (fk (content d))
          \<and> fp (content d') = filter (\<lambda>a. ap_ID a \<noteq> i) (fp (content d)))
     \<and> (r \<noteq> Inr () \<longrightarrow> content d' = content d)"
proof -
  let ?c = "content d"
  let ?Q = "\<lambda>d'. ft (content d') = filter (\<lambda>t. tg_AppID t \<noteq> i) (ft ?c)
          \<and> fl (content d') = filter (\<lambda>a. ta_AppID a \<noteq> i) (fl ?c)
          \<and> fk (content d') = filter (\<lambda>k. sk_ApplicationID k \<noteq> i) (fk ?c)
          \<and> fp (content d') = filter (\<lambda>a. ap_ID a \<noteq> i) (fp ?c)"
  from begin_tx[of d] obtain r0 d0 where d0: "tx_Begin (ad_tx db) d = Some (r0, d0)" "content d0 = ?c"
    "r0 = Inr () \<longrightarrow> saved d0 = Some ?c" by blast
  show ?thesis
  proof (cases r0)
    case (Inl e)
    then show ?thesis using d0(1,2) by (simp add: App_Delete_def fail_def)
  next
    case (Inr u)
    with d0 have s0: "saved d0 = Some ?c" by simp
    obtain r1 d1 where d1: "g_Delete (ad_toggles db) True (\<lambda>t. tg_AppID t = i) d0 = Some (r1, d1)"
      "r1 = Inr () \<longrightarrow> ft (content d1) = filter (\<lambda>t. tg_AppID t \<noteq> i) (ft (content d0))"
      using del_toggles unfolding fallible_delete_def by metis
    obtain r2 d2 where d2: "g_Delete (ad_team_apps db) True (\<lambda>a. ta_AppID a = i) d1 = Some (r2, d2)"
      "r2 = Inr () \<longrightarrow> fl (content d2) = filter (\<lambda>a. ta_AppID a \<noteq> i) (fl (content d1))"
      using del_team_apps unfolding fallible_delete_def by metis
    obtain r3 d3 where d3: "g_Delete (ad_keys db) False (\<lambda>k. sk_ApplicationID k = i) d2 = Some (r3, d3)"
      "r3 = Inr () \<longrightarrow> fk (content d3) = filter (\<lambda>k. sk_ApplicationID k \<noteq> i) (fk (content d2))"
      using del_keys unfolding fallible_delete_def by metis
    obtain r4 d4 where d4: "g_Delete (ad_apps db) False (\<lambda>a. ap_ID a = i) d3 = Some (r4, d4)"
      "r4 = Inr () \<longrightarrow> fp (content d4) = filter (\<lambda>a. ap_ID a \<noteq> i) (fp (content d3))"
      using del_apps unfolding fallible_delete_def by metis
    have kept: "saved d1 = Some ?c" "saved d2 = Some ?c" "saved d3 = Some ?c" "saved d4 = Some ?c"
      "fl (content d1) = fl (content d0)" "fk (content d1) = fk (content d0)" "fp (content d1) = fp (content d0)"
      "ft (content d2) = ft (content d1)" "fk (content d2) = fk (content d1)" "fp (content d2) = fp (content d1)"
      "ft (content d3) = ft (content d2)" "fl (content d3) = fl (content d2)" "fp (content d3) = fp (content d2)"
      "ft (content d4) = ft (content d3)" "fl (content d4) = fl (content d3)" "fk (content d4) = fk (content d3)"
      using s0 keepsD(4)[OF apart(1) d1(1)] keepsD(4)[OF apart(2) d2(1)] keepsD(4)[OF apart(3) d3(1)]
        keepsD(4)[OF apart(4) d4(1)] by simp_all
    from commit[OF kept(4)] obtain r5 d5 where d5: "tx_Commit (ad_tx db) d4 = Some (r5, d5)"
      "content d5 = (if r5 = Inr () then content d4 else ?c)" by blast
    let ?D1 = "g_Delete (ad_toggles db) True (\<lambda>t. tg_AppID t = i)"
    let ?D2 = "g_Delete (ad_team_apps db) True (\<lambda>a. ta_AppID a = i)"
    let ?D3 = "g_Delete (ad_keys db) False (\<lambda>k. sk_ApplicationID k = i)"
    let ?D4 = "g_Delete (ad_apps db) False (\<lambda>a. ap_ID a = i)"
    let ?R4 = "or_rollback db ?D4 (tx_Commit (ad_tx db))"
    let ?R3 = "or_rollback db ?D3 ?R4" let ?R2 = "or_rollback db ?D2 ?R3" let ?R1 = "or_rollback db ?D1 ?R2"
    let ?bad = "\<lambda>m s. \<exists>e d'. m s = Some (Inl e, d') \<and> content d' = ?c"
    have A4: "?R4 d3 = Some (r5, d5) \<and> r4 = Inr () \<or> ?bad ?R4 d3"
      using or_rollback_step[where step = ?D4, OF kept(3) d4(1) kept(4), of "tx_Commit (ad_tx db)"] d5(1) by simp
    have A3: "?R3 d2 = Some (r5, d5) \<and> r4 = Inr () \<and> r3 = Inr () \<or> ?bad ?R3 d2"
      using or_rollback_step[where step = ?D3, OF kept(2) d3(1) kept(3), of ?R4] A4
      by (elim disjE conjE) simp_all
    have A2: "?R2 d1 = Some (r5, d5) \<and> r4 = Inr () \<and> r3 = Inr () \<and> r2 = Inr () \<or> ?bad ?R2 d1"
      using or_rollback_step[where step = ?D2, OF kept(1) d2(1) kept(2), of ?R3] A3
      by (elim disjE conjE) simp_all
    have A1: "?R1 d0 = Some (r5, d5) \<and> r4 = Inr () \<and> r3 = Inr () \<and> r2 = Inr () \<and> r1 = Inr () \<or> ?bad ?R1 d0"
      using or_rollback_step[where step = ?D1, OF s0 d1(1) kept(1), of ?R2] A2
      by (elim disjE conjE) simp_all
    have "App_Delete db i d = ?R1 d0" using d0(1) Inr by (simp add: App_Delete_def)
    with A1 have "App_Delete db i d = Some (r5, d5) \<and> r4 = Inr () \<and> r3 = Inr () \<and> r2 = Inr () \<and> r1 = Inr ()
      \<or> (\<exists>e d'. App_Delete db i d = Some (Inl e, d') \<and> content d' = ?c)" by simp
    then show ?thesis
    proof (elim disjE exE conjE)
      fix e d' assume "App_Delete db i d = Some (Inl e, d')" "content d' = ?c"
      then show ?thesis by blast
    next
      assume "App_Delete db i d = Some (r5, d5)" "r1 = Inr ()" "r2 = Inr ()" "r3 = Inr ()" "r4 = Inr ()"
      with d0(2) d1(2) d2(2) d3(2) d4(2) d5(2) kept show ?thesis by (cases "r5 = Inr ()") simp_all
    qed
  qed
qed

end

section \<open>the tables in memory\<close>

definition wt_app_db :: "int \<Rightarrow> mem app_db" where
  "wt_app_db now = \<lparr> ad_apps = wt_apps, ad_toggles = wt_toggles now, ad_team_apps = wt_team_apps, ad_keys = wt_keys,
     ad_tx = wt_tx, ad_created = (\<lambda>_. 0) \<rparr>"

text \<open>A database whose table of keys loses rows and reports an error when it deletes.\<close>

definition wt_broken_db :: "int \<Rightarrow> mem app_db" where
  "wt_broken_db now = (wt_app_db now)\<lparr> ad_keys :=
     wt_keys\<lparr> g_Delete := (\<lambda>u P d. fail ErrDB ((fst d)\<lparr> w_keys := [] \<rparr>, snd d)) \<rparr> \<rparr>"

lemma mem_table_delete:
  assumes "\<And>xs d. get (put xs d) = xs"
  shows "fallible_delete True (mem_table get put live columns defaults key clash erase) get"
    and "(\<And>r. live r) \<Longrightarrow> (\<And>r. erase r = None) \<Longrightarrow>
      fallible_delete False (mem_table get put live columns defaults key clash erase) get"
  by (auto simp: fallible_delete_def mem_table_def ok_def assms map_filter_filter cong del: if_weak_cong)

lemma wt_app_store:
  assumes "db = wt_app_db now \<or> db = wt_broken_db now"
  shows "app_store db fst snd w_toggles w_team_apps w_keys w_apps"
proof -
  have tx: "transaction (ad_tx db) fst snd"
    using assms wt_tx.transaction_axioms by (auto simp: wt_app_db_def wt_broken_db_def)
  have broken: "fallible_delete False (wt_keys\<lparr> g_Delete := (\<lambda>u P d. fail ErrDB ((fst d)\<lparr> w_keys := [] \<rparr>, snd d)) \<rparr>)
      (\<lambda>d. w_keys (fst d))" by (simp add: fallible_delete_def fail_def)
  have broken_keeps: "keeps (wt_keys\<lparr> g_Delete := (\<lambda>u P d. fail ErrDB ((fst d)\<lparr> w_keys := [] \<rparr>, snd d)) \<rparr>) v"
    if "keeps wt_keys v" "\<And>d. v ((fst d)\<lparr> w_keys := [] \<rparr>, snd d) = v d" for v :: "mem \<Rightarrow> 'v"
    using that by (auto simp: keeps_def fail_def)
  show ?thesis
  proof (intro app_store.intro app_store_axioms.intro tx)
    show "fallible_delete True (ad_toggles db) (\<lambda>d. w_toggles (fst d))"
      using assms by (auto simp: wt_app_db_def wt_broken_db_def wt_toggles_def intro!: mem_table_delete)
    show "fallible_delete True (ad_team_apps db) (\<lambda>d. w_team_apps (fst d))"
      using assms by (auto simp: wt_app_db_def wt_broken_db_def wt_team_apps_def intro!: mem_table_delete)
    show "fallible_delete False (ad_keys db) (\<lambda>d. w_keys (fst d))"
      using assms broken by (auto simp: wt_app_db_def wt_broken_db_def wt_keys_def intro!: mem_table_delete)
    show "fallible_delete False (ad_apps db) (\<lambda>d. w_apps (fst d))"
      using assms by (auto simp: wt_app_db_def wt_broken_db_def wt_apps_def intro!: mem_table_delete)
    show "keeps (ad_toggles db) (\<lambda>d. (snd d, w_team_apps (fst d), w_keys (fst d), w_apps (fst d)))"
      using assms by (auto simp: wt_app_db_def wt_broken_db_def intro!: keeps_part[OF wt_keeps(1)])
    show "keeps (ad_team_apps db) (\<lambda>d. (snd d, w_toggles (fst d), w_keys (fst d), w_apps (fst d)))"
      using assms by (auto simp: wt_app_db_def wt_broken_db_def intro!: keeps_part[OF wt_keeps(4)])
    show "keeps (ad_keys db) (\<lambda>d. (snd d, w_toggles (fst d), w_team_apps (fst d), w_apps (fst d)))"
      using assms by (auto simp: wt_app_db_def wt_broken_db_def intro!: broken_keeps keeps_part[OF wt_keeps(3)])
    show "keeps (ad_apps db) (\<lambda>d. (snd d, w_toggles (fst d), w_team_apps (fst d), w_keys (fst d)))"
      using assms by (auto simp: wt_app_db_def wt_broken_db_def intro!: keeps_part[OF wt_keeps(2)])
  qed
qed

interpretation wt_app: app_store "wt_app_db now" fst snd w_toggles w_team_apps w_keys w_apps for now
  by (rule wt_app_store[where now = now]) simp

section \<open>properties\<close>

text \<open>C13. Deleting an application in the repository is all or nothing, whichever of the four deletes, the
  begin or the commit fails and whatever a failing one has already changed: either it succeeds and the
  toggles (the archived ones too), the team links, the keys and the application itself are gone and
  nothing else of these tables, or it returns an error and the content is the one before the call.\<close>

theorem App_Delete_atomic:
  assumes "app_store db content saved ft fl fk fp"
  shows "\<exists>r d'. App_Delete db i d = Some (r, d')
     \<and> (r = Inr () \<longrightarrow> ft (content d') = filter (\<lambda>t. tg_AppID t \<noteq> i) (ft (content d))
          \<and> fl (content d') = filter (\<lambda>a. ta_AppID a \<noteq> i) (fl (content d))
          \<and> fk (content d') = filter (\<lambda>k. sk_ApplicationID k \<noteq> i) (fk (content d))
          \<and> fp (content d') = filter (\<lambda>a. ap_ID a \<noteq> i) (fp (content d)))
     \<and> (r \<noteq> Inr () \<longrightarrow> content d' = content d)"
  by (rule app_store.delete_atomic[OF assms])

definition app_world :: world where
  "app_world = empty_world\<lparr> w_apps := [\<lparr> ap_ID = ''a'', ap_Name = ''app'' \<rparr>],
     w_toggles := [NewToggle ''1'' ''p'' True ''p'' 0 None ''a''] \<rparr>"

theorem App_Delete_atomic_witness:
  "\<exists>d'. App_Delete (wt_broken_db 0) ''a'' (app_world, None) = Some (Inl ErrDB, d') \<and> fst d' = app_world"
proof -
  have "app_store (wt_broken_db 0) fst snd w_toggles w_team_apps w_keys w_apps"
    by (rule wt_app_store[where now = 0]) simp
  from App_Delete_atomic[OF this, of "''a''" "(app_world, None)"]
  obtain r d' where r: "App_Delete (wt_broken_db 0) ''a'' (app_world, None) = Some (r, d')"
    "r \<noteq> Inr () \<longrightarrow> fst d' = app_world" by auto
  have "\<exists>x. App_Delete (wt_broken_db 0) ''a'' (app_world, None) = Some (Inl ErrDB, x)"
    by (simp add: App_Delete_def or_rollback_def attempt_def wt_broken_db_def wt_app_db_def wt_tx_def wt_toggles_def
        wt_team_apps_def mem_table_def ok_def fail_def del: attempt_simps attempt_bool)
  with r show ?thesis by auto
qed

text \<open>
  The use case archives the toggles one by one before it calls the repository's transaction. When that
  fails, the application is still there and its toggles stay archived.
\<close>

lemma DeleteApplication_not_atomic:
  "\<exists>d'. DeleteApplication (NewApplicationUseCase (NewApplicationRepository (wt_broken_db 5))
        (toggle_repo_impl (wt_toggles 5) wt_users)) ''a'' (app_world, None)
      = Some (Inl (NewAppError ErrCodeDatabase ''error deleting application''), d')
    \<and> w_apps (fst d') = w_apps app_world \<and> filter toggle_live (w_toggles (fst d')) = []"
proof -
  let ?t = "NewToggle ''1'' ''p'' True ''p'' 0 None ''a''"
  let ?w = "app_world\<lparr> w_toggles := [toggle_erased 5 ?t] \<rparr>"
  have del: "Toggle_Delete (wt_toggles 5) ''1'' (app_world, None) = Some (Inr (), (?w, None))"
    by (subst Toggle_Delete.simps)
       (simp add: attempt_def Toggle_GetChildren_def wt_toggles_def mem_table_def ok_def app_world_def NewToggle_def
        toggle_live_def map_filter_simps del: attempt_simps attempt_bool)
  have repo: "App_Delete (wt_broken_db 5) ''a'' (?w, None) = Some (Inl ErrDB, (?w, None))"
    by (simp add: App_Delete_def or_rollback_def attempt_def wt_broken_db_def wt_app_db_def wt_tx_def wt_toggles_def
        wt_team_apps_def mem_table_def ok_def fail_def del: attempt_simps attempt_bool)
  have "App_Exists (wt_broken_db 5) ''a'' (app_world, None) = Some (Inr True, (app_world, None))"
    by (simp add: App_Exists_def wt_broken_db_def wt_app_db_def wt_apps_def mem_table_def ok_def app_world_def attempt_def
        del: attempt_simps attempt_bool)
  moreover have "Toggle_GetByAppID (wt_toggles 5) ''a'' (app_world, None) = Some (Inr [?t], (app_world, None))"
    by (simp add: Toggle_GetByAppID_def wt_toggles_def mem_table_def ok_def app_world_def NewToggle_def toggle_live_def)
  moreover have "tg_ID ?t = ''1''" by (simp add: NewToggle_def)
  ultimately show ?thesis using del repo
    by (simp add: DeleteApplication_def NewApplicationUseCase_def NewApplicationRepository_def toggle_repo_impl_def
        attempt_def ok_def app_fail_def fail_def app_world_def toggle_erased_def toggle_live_def
        del: attempt_simps attempt_bool)
qed

end
