(* ===== verification/Approval.thy ===== *)
theory Approval
  imports ApprovalRepo Application "HOL-Library.AList"
begin

text \<open>
  \<open>usecase/approval_usecase.go\<close>: the settings, opening a request, deciding it, withdrawing it, and
  executing the approved action through the other use cases. A call gets a \<open>call_env\<close>: the clock (one
  reading per call), the identifiers and random bytes it draws, and the parameters of the standard
  library the rules need.
\<close>

record call_env =
  en_now :: int
  en_requestID :: string
  en_appID :: string
  en_toggleIDs :: "nat \<Rightarrow> string"
  en_keys :: key_source
  en_ParseFloat :: "string \<Rightarrow> float64 option"
  en_tokens :: "string \<Rightarrow> string list"
  en_rule_text :: "rule_error \<Rightarrow> string"

text \<open>\<open>access\<close> is \<open>policy.NewApprovalAccess(teamRepo, teamApproverRepo)\<close>; the audit use case may be nil.\<close>

record 's approval_usecase =
  ax_requestRepo :: "'s request_repo"
  ax_settingsRepo :: "'s settings_repo"
  ax_approverRepo :: "'s approver_repo"
  ax_userRepo :: "'s user_repo"
  ax_teamRepo :: "'s team_repo"
  ax_appRepo :: "'s app_repo"
  ax_toggleRepo :: "'s toggle_repo"
  ax_teamUseCase :: "'s team_usecase"
  ax_toggleUseCase :: "'s toggle_usecase"
  ax_appUseCase :: "'s app_usecase"
  ax_keyRepo :: "'s key_repo"
  ax_audit :: "'s audit_usecase option"

section \<open>approval_access.go, through the repositories\<close>

definition Access_CanAct :: "'s approval_usecase \<Rightarrow> user \<Rightarrow> string \<Rightarrow> ('s, go_error, bool) io" where
  "Access_CanAct uc u teamID =
     (if IsRoot u then ok True else db_call (ar_IsUserApprover (ax_approverRepo uc) teamID (us_ID u)))"

definition Access_CanRead :: "'s approval_usecase \<Rightarrow> user \<Rightarrow> string \<Rightarrow> ('s, go_error, bool) io" where
  "Access_CanRead uc u teamID =
     (if IsRoot u then ok True
      else attempt (db_call (tm_GetTeamsByUserID (ax_teamRepo uc) (us_ID u))) fail
             (\<lambda>teams. ok (list_ex (\<lambda>t. te_ID t = teamID) teams)))"

definition Access_VisibleTeamIDs :: "'s approval_usecase \<Rightarrow> user \<Rightarrow> ('s, go_error, string list \<times> bool) io" where
  "Access_VisibleTeamIDs uc u =
     (if IsRoot u then ok ([], True)
      else attempt (db_call (tm_GetTeamsByUserID (ax_teamRepo uc) (us_ID u))) fail
             (\<lambda>teams. ok (map te_ID teams, False)))"

section \<open>the action data\<close>

text \<open>\<open>_ = request.GetActionDataAs(&data)\<close>: members of the wrong type are skipped.\<close>

definition lenient_members :: "('r \<Rightarrow> string \<Rightarrow> json \<Rightarrow> 'r option) \<Rightarrow> 'r \<Rightarrow> raw_message \<Rightarrow> 'r" where
  "lenient_members f r m =
     (case m of
        RawJSON (JObj kvs) \<Rightarrow> fold (\<lambda>(k, v) r. case f r k v of None \<Rightarrow> r | Some r' \<Rightarrow> r') kvs r
      | _ \<Rightarrow> r)"

text \<open>\<open>GetActionDataAs\<close> with its error: into a struct, from an object or \<open>null\<close>.\<close>

definition GetActionDataAs :: "('r \<Rightarrow> string \<Rightarrow> json \<Rightarrow> 'r option) \<Rightarrow> 'r \<Rightarrow> approval_request \<Rightarrow> 'r option" where
  "GetActionDataAs f zero r =
     (case rq_ActionData r of
        RawJSON (JObj kvs) \<Rightarrow> decode_members f zero kvs
      | RawJSON JNull \<Rightarrow> Some zero
      | _ \<Rightarrow> None)"

definition string_member :: "string \<Rightarrow> string \<Rightarrow> string \<Rightarrow> json \<Rightarrow> string option" where
  "string_member name old k v = (if field_matches name k then decode_string old v else Some old)"

definition bool_member :: "string \<Rightarrow> bool \<Rightarrow> string \<Rightarrow> json \<Rightarrow> bool option" where
  "bool_member name old k v = (if field_matches name k then decode_bool old v else Some old)"

text \<open>The struct with \<open>name\<close> and \<open>team_id\<close>.\<close>

definition name_team_member :: "string \<times> string \<Rightarrow> string \<Rightarrow> json \<Rightarrow> (string \<times> string) option" where
  "name_team_member r k v =
     (if field_matches ''name'' k then map_option (\<lambda>n. (n, snd r)) (decode_string (fst r) v)
      else if field_matches ''team_id'' k then map_option (\<lambda>t. (fst r, t)) (decode_string (snd r) v)
      else Some r)"

text \<open>The struct with \<open>application_id\<close> and \<open>secret_key_id\<close>.\<close>

definition key_create_member :: "string \<times> string \<Rightarrow> string \<Rightarrow> json \<Rightarrow> (string \<times> string) option" where
  "key_create_member r k v =
     (if field_matches ''application_id'' k then map_option (\<lambda>a. (a, snd r)) (decode_string (fst r) v)
      else if field_matches ''secret_key_id'' k then map_option (\<lambda>i. (fst r, i)) (decode_string (snd r) v)
      else Some r)"

fun decode_strings :: "string list \<Rightarrow> json \<Rightarrow> string list option" where
  "decode_strings old JNull = Some []"
| "decode_strings old (JArr js) = those (map (decode_string []) js)"
| "decode_strings old _ = None"

text \<open>The struct with \<open>toggle_ids\<close> and \<open>enabled\<close>.\<close>

definition bulk_member :: "string list \<times> bool \<Rightarrow> string \<Rightarrow> json \<Rightarrow> (string list \<times> bool) option" where
  "bulk_member r k v =
     (if field_matches ''toggle_ids'' k then map_option (\<lambda>is. (is, snd r)) (decode_strings (fst r) v)
      else if field_matches ''enabled'' k then map_option (\<lambda>b. (fst r, b)) (decode_bool (snd r) v)
      else Some r)"

text \<open>\<open>*entity.ActivationRule\<close>\<close>

definition Rule_member :: "activation_rule \<Rightarrow> string \<Rightarrow> json \<Rightarrow> activation_rule option" where
  "Rule_member r k v =
     (if field_matches ''type'' k then map_option (\<lambda>s. r\<lparr> ar_Type := s \<rparr>) (decode_string (ar_Type r) v)
      else if field_matches ''value'' k then map_option (\<lambda>s. r\<lparr> ar_Value := s \<rparr>) (decode_string (ar_Value r) v)
      else if field_matches ''config'' k then Some (r\<lparr> ar_Config := RawJSON v \<rparr>)
      else Some r)"

definition zero_activation_rule :: activation_rule where
  "zero_activation_rule = \<lparr> ar_Type = [], ar_Value = [], ar_Config = RawEmpty \<rparr>"

fun decode_activation_rule :: "activation_rule option \<Rightarrow> json \<Rightarrow> activation_rule option option" where
  "decode_activation_rule old JNull = Some None"
| "decode_activation_rule old (JObj kvs) =
     map_option Some (decode_members Rule_member (case old of None \<Rightarrow> zero_activation_rule | Some r \<Rightarrow> r) kvs)"
| "decode_activation_rule old _ = None"

text \<open>Ignoring errors, the rule keeps the members that fit.\<close>

fun lenient_rule :: "activation_rule option \<Rightarrow> json \<Rightarrow> activation_rule option" where
  "lenient_rule old JNull = None"
| "lenient_rule old (JObj kvs) =
     Some (lenient_members Rule_member (case old of None \<Rightarrow> zero_activation_rule | Some r \<Rightarrow> r) (RawJSON (JObj kvs)))"
| "lenient_rule old _ = old"

record update_data =
  ud_Enabled :: bool
  ud_HasActivationRule :: bool
  ud_ActivationRule :: "activation_rule option"

definition zero_update :: update_data where
  "zero_update = \<lparr> ud_Enabled = False, ud_HasActivationRule = False, ud_ActivationRule = None \<rparr>"

definition update_member ::
    "(activation_rule option \<Rightarrow> json \<Rightarrow> activation_rule option option) \<Rightarrow> update_data \<Rightarrow> string \<Rightarrow> json
     \<Rightarrow> update_data option" where
  "update_member rule d k v =
     (if field_matches ''enabled'' k then map_option (\<lambda>b. d\<lparr> ud_Enabled := b \<rparr>) (decode_bool (ud_Enabled d) v)
      else if field_matches ''has_activation_rule'' k
      then map_option (\<lambda>b. d\<lparr> ud_HasActivationRule := b \<rparr>) (decode_bool (ud_HasActivationRule d) v)
      else if field_matches ''activation_rule'' k
      then map_option (\<lambda>r. d\<lparr> ud_ActivationRule := r \<rparr>) (rule (ud_ActivationRule d) v)
      else Some d)"

section \<open>audit\<close>

definition recordAuditWithApplication ::
    "'s approval_usecase \<Rightarrow> audit_event \<Rightarrow> string \<Rightarrow> string \<Rightarrow> string option \<Rightarrow> string option \<Rightarrow> user
     \<Rightarrow> ('s, go_error, unit) io" where
  "recordAuditWithApplication uc eventType txt target teamID applicationID actor =
     (case ax_audit uc of
        None \<Rightarrow> ok ()
      | Some audit \<Rightarrow> RecordWithApplication audit eventType txt target teamID applicationID (Some actor))"

text \<open>A look-up whose error counts as the empty text.\<close>

definition or_empty :: "('s, db_error, 'a) io \<Rightarrow> ('a \<Rightarrow> string) \<Rightarrow> ('s, go_error, string) io" where
  "or_empty m f = attempt m (\<lambda>_. ok []) (\<lambda>a. ok (f a))"

definition toggle_path_of :: "'s approval_usecase \<Rightarrow> approval_request \<Rightarrow> ('s, go_error, string) io" where
  "toggle_path_of uc request =
     (case rq_ToggleID request of
        None \<Rightarrow> ok []
      | Some i \<Rightarrow> or_empty (tr_GetByID (ax_toggleRepo uc) i) tg_Path)"

definition app_name_of :: "'s approval_usecase \<Rightarrow> approval_request \<Rightarrow> ('s, go_error, string) io" where
  "app_name_of uc request =
     (case rq_ApplicationID request of
        None \<Rightarrow> ok []
      | Some i \<Rightarrow> or_empty (pr_GetByID (ax_appRepo uc) i) ap_Name)"

definition approvalRequestTarget :: "'s approval_usecase \<Rightarrow> approval_request \<Rightarrow> ('s, go_error, string) io" where
  "approvalRequestTarget uc request =
     (case rq_ActionType request of
        ToggleCreate \<Rightarrow> ok (lenient_members (string_member ''toggle'') [] (rq_ActionData request))
      | ToggleUpdate \<Rightarrow> toggle_path_of uc request
      | ToggleDelete \<Rightarrow> toggle_path_of uc request
      | ToggleEnable \<Rightarrow> toggle_path_of uc request
      | ToggleDisable \<Rightarrow> toggle_path_of uc request
      | ToggleRule \<Rightarrow> toggle_path_of uc request
      | ApplicationCreate \<Rightarrow> ok (lenient_members (string_member ''name'') [] (rq_ActionData request))
      | ApplicationUpdate \<Rightarrow>
          let name = lenient_members (string_member ''name'') [] (rq_ActionData request)
          in if name \<noteq> [] then ok name else app_name_of uc request
      | ApplicationDelete \<Rightarrow> app_name_of uc request
      | SecretKeyCreate \<Rightarrow> app_name_of uc request
      | SecretKeyDelete \<Rightarrow> app_name_of uc request
      | OtherAction _ \<Rightarrow> ok [])"

definition bold :: "string \<Rightarrow> string" where
  "bold s = ''<b>'' @ s @ ''</b>''"

definition record_decision ::
    "'s approval_usecase \<Rightarrow> audit_event \<Rightarrow> string \<Rightarrow> approval_request \<Rightarrow> user \<Rightarrow> ('s, go_error, unit) io" where
  "record_decision uc eventType txt request actor =
     attempt (approvalRequestTarget uc request) fail (\<lambda>target.
     recordAuditWithApplication uc eventType txt target (Some (rq_TeamID request)) (rq_ApplicationID request) actor)"

section \<open>settings\<close>

definition GetApprovalSettings :: "'s approval_usecase \<Rightarrow> ('s, go_error, approval_settings) io" where
  "GetApprovalSettings uc =
     attempt (db_call (gs_Get (ax_settingsRepo uc))) fail (\<lambda>settings.
     case GetRequiredActions settings of None \<Rightarrow> fail ErrJSON | Some _ \<Rightarrow> ok settings)"

definition UpdateApprovalSettings ::
    "'s approval_usecase \<Rightarrow> string \<Rightarrow> settings_update \<Rightarrow> ('s, go_error, approval_settings) io" where
  "UpdateApprovalSettings uc userID req =
     attempt (db_call (ur_GetByID (ax_userRepo uc) userID)) fail (\<lambda>user.
     if \<not> IsRoot user then text_fail ''only root users can modify approval settings''
     else
       attempt (db_call (gs_Get (ax_settingsRepo uc))) fail (\<lambda>settings.
       let wasEnabled = as_ApprovalEnabled settings in
       (case ApplyUpdate req settings of
          (_, Some err) \<Rightarrow> fail (ErrSettings err)
        | (settings, None) \<Rightarrow>
            attempt (gs_Update (ax_settingsRepo uc) settings) fail (\<lambda>_.
            attempt (if (case up_ApprovalEnabled req of None \<Rightarrow> False | Some b \<Rightarrow> b \<noteq> wasEnabled)
                     then recordAuditWithApplication uc AuditEventApprovalSystemToggled
                            (''Approval system '' @ (if as_ApprovalEnabled settings then ''enabled'' else ''disabled''))
                            [] None None user
                     else ok ()) fail (\<lambda>_.
            case GetRequiredActions settings of None \<Rightarrow> fail ErrJSON | Some _ \<Rightarrow> ok settings)))))"

section \<open>opening a request\<close>

text \<open>The value of an \<open>interface{}\<close>: a map, or anything else by what it marshals to.\<close>

datatype go_value = GoMap "(string \<times> json) list" | GoOther json

fun Marshal :: "go_value \<Rightarrow> json" where
  "Marshal (GoMap kvs) = JObj kvs"
| "Marshal (GoOther j) = j"

text \<open>\<open>dataMap["secret_key_id"] = id\<close>, into the map or, for anything else, into an empty one.\<close>

fun with_key_id :: "string \<Rightarrow> go_value \<Rightarrow> go_value" where
  "with_key_id i (GoMap kvs) = GoMap (AList.update ''secret_key_id'' (JStr i) kvs)"
| "with_key_id i (GoOther _) = GoMap [(''secret_key_id'', JStr i)]"

text \<open>The request with the frozen names, from the validated rows on.\<close>

definition open_request ::
    "'s approval_usecase \<Rightarrow> call_env \<Rightarrow> action_type \<Rightarrow> string \<Rightarrow> user \<Rightarrow> team \<Rightarrow> string \<Rightarrow> application option
     \<Rightarrow> string option \<Rightarrow> string option \<Rightarrow> string \<times> go_value \<Rightarrow> ('s, go_error, approval_request) io" where
  "open_request uc env actionType description requester team requestedBy app applicationID toggleID keyed =
     (case keyed of (plainSecretKey, actionData) \<Rightarrow>
       let request = (NewApprovalRequest (en_now env) (en_requestID env) actionType description requestedBy
                        (te_ID team) applicationID toggleID (Marshal actionData))
             \<lparr> rq_PlainSecretKey := plainSecretKey, rq_RequesterName := Some (us_Username requester),
               rq_TeamName := Some (te_Name team), rq_ApplicationName := map_option ap_Name app \<rparr>
       in
       attempt (db_call (qr_Create (ax_requestRepo uc) request)) fail (\<lambda>_.
       attempt (record_decision uc AuditEventApprovalRequested (''Requested: '' @ bold description) request requester)
         fail (\<lambda>_. ok request)))"

definition createApprovalRequestUnchecked ::
    "'s approval_usecase \<Rightarrow> call_env \<Rightarrow> action_type \<Rightarrow> string \<Rightarrow> string \<Rightarrow> string \<Rightarrow> string option \<Rightarrow> string option
     \<Rightarrow> go_value \<Rightarrow> ('s, go_error, approval_request) io" where
  "createApprovalRequestUnchecked uc env actionType description requestedBy teamID applicationID toggleID actionData =
     attempt (wrapped ''user not found'' (db_call (ur_GetByID (ax_userRepo uc) requestedBy))) fail (\<lambda>requester.
     attempt (wrapped ''team not found'' (db_call (tm_GetByID (ax_teamRepo uc) teamID))) fail (\<lambda>team.
     attempt (Access_CanRead uc requester teamID) fail (\<lambda>canRequest.
     if \<not> canRequest then fail ErrApprovalAccessDenied
     else
       attempt (case applicationID of
                  None \<Rightarrow> ok None
                | Some i \<Rightarrow> attempt (wrapped ''application not found'' (db_call (pr_GetByID (ax_appRepo uc) i))) fail
                              (\<lambda>a. ok (Some a))) fail (\<lambda>app.
       attempt (case toggleID of
                  None \<Rightarrow> ok ()
                | Some i \<Rightarrow> attempt (wrapped ''toggle not found'' (db_call (tr_GetByID (ax_toggleRepo uc) i))) fail
                              (\<lambda>_. ok ())) fail (\<lambda>_.
       attempt (if actionType = SecretKeyCreate
                then (case applicationID of
                        None \<Rightarrow> text_fail ''application ID is required for secret key creation''
                      | Some i \<Rightarrow>
                          attempt (wrapped ''failed to create pending secret key''
                                     (key_call (CreatePendingSecretKey (ax_keyRepo uc) (en_keys env) ''API Access Key''
                                                  i requestedBy))) fail
                            (\<lambda>pending. ok (kp_PlainTextKey pending,
                                           with_key_id (sk_ID (kp_SecretKey pending)) actionData)))
                else ok ([], actionData)) fail (\<lambda>keyed.
       open_request uc env actionType description requester (team\<lparr> te_ID := teamID \<rparr>) requestedBy app applicationID
         toggleID keyed))))))"

definition CreateApprovalRequest ::
    "'s approval_usecase \<Rightarrow> call_env \<Rightarrow> action_type \<Rightarrow> string \<Rightarrow> string \<Rightarrow> string \<Rightarrow> string option \<Rightarrow> string option
     \<Rightarrow> go_value \<Rightarrow> ('s, go_error, approval_request) io" where
  "CreateApprovalRequest uc env actionType description requestedBy teamID applicationID toggleID actionData =
     attempt (db_call (gs_RequiresApproval (ax_settingsRepo uc) actionType)) fail (\<lambda>requiresApproval.
     if \<not> requiresApproval then text_fail ''this action does not require approval''
     else createApprovalRequestUnchecked uc env actionType description requestedBy teamID applicationID toggleID
            actionData)"

definition CreateSuggestion ::
    "'s approval_usecase \<Rightarrow> call_env \<Rightarrow> action_type \<Rightarrow> string \<Rightarrow> string \<Rightarrow> string \<Rightarrow> string option \<Rightarrow> string option
     \<Rightarrow> go_value \<Rightarrow> ('s, go_error, approval_request) io" where
  "CreateSuggestion uc env actionType description requestedBy teamID applicationID toggleID actionData =
     createApprovalRequestUnchecked uc env actionType description requestedBy teamID applicationID toggleID actionData"

section \<open>reading requests\<close>

definition GetApprovalRequest :: "'s approval_usecase \<Rightarrow> string \<Rightarrow> user \<Rightarrow> ('s, go_error, request_details) io" where
  "GetApprovalRequest uc requestID caller =
     attempt (db_call (qr_GetWithDetails (ax_requestRepo uc) requestID)) fail (\<lambda>request.
     attempt (Access_CanRead uc caller (rq_TeamID (dt_Request request))) fail (\<lambda>canRead.
     if \<not> canRead then fail ErrApprovalAccessDenied else ok request))"

definition GetAllApprovalRequests :: "'s approval_usecase \<Rightarrow> user \<Rightarrow> ('s, go_error, request_details list) io" where
  "GetAllApprovalRequests uc caller =
     attempt (Access_VisibleTeamIDs uc caller) fail (\<lambda>(teamIDs, unrestricted).
     if unrestricted then db_call (qr_GetAllWithDetails (ax_requestRepo uc))
     else db_call (qr_GetByTeamIDsWithDetails (ax_requestRepo uc) teamIDs))"

definition GetPendingApprovalRequests :: "'s approval_usecase \<Rightarrow> ('s, go_error, request_details list) io" where
  "GetPendingApprovalRequests uc = db_call (qr_GetPendingWithDetails (ax_requestRepo uc))"

definition GetApprovalRequestsByTeam ::
    "'s approval_usecase \<Rightarrow> string \<Rightarrow> user \<Rightarrow> ('s, go_error, request_details list) io" where
  "GetApprovalRequestsByTeam uc teamID caller =
     attempt (Access_CanRead uc caller teamID) fail (\<lambda>canRead.
     if \<not> canRead then fail ErrApprovalAccessDenied
     else db_call (qr_GetByTeamIDsWithDetails (ax_requestRepo uc) [teamID]))"

definition GetMyApprovalRequests :: "'s approval_usecase \<Rightarrow> string \<Rightarrow> ('s, go_error, request_details list) io" where
  "GetMyApprovalRequests uc userID = db_call (qr_GetByRequesterIDWithDetails (ax_requestRepo uc) userID)"

definition GetApprovableRequests :: "'s approval_usecase \<Rightarrow> string \<Rightarrow> ('s, go_error, request_details list) io" where
  "GetApprovableRequests uc userID = db_call (qr_GetApprovableByUserID (ax_requestRepo uc) userID)"

section \<open>deciding\<close>

definition ApproveRequest :: "'s approval_usecase \<Rightarrow> call_env \<Rightarrow> string \<Rightarrow> user \<Rightarrow> ('s, go_error, unit) io" where
  "ApproveRequest uc env requestID approver =
     attempt (db_call (qr_GetByID (ax_requestRepo uc) requestID)) fail (\<lambda>request.
     if \<not> CanBeApprovedBy (en_now env) request (us_ID approver) then text_fail ''user cannot approve this request''
     else
       attempt (Access_CanAct uc approver (rq_TeamID request)) fail (\<lambda>canAct.
       if \<not> canAct then text_fail ''user is not an approver for this team''
       else (case Approve (en_now env) (us_ID approver) request of
               Inl err \<Rightarrow> fail (ErrRequest err)
             | Inr request \<Rightarrow>
                 attempt (db_call (qr_Update (ax_requestRepo uc) request)) fail (\<lambda>_.
                 record_decision uc AuditEventApprovalApproved
                   (''Approved '' @ bold (rq_Description request) @ '' request'') request approver))))"

text \<open>The pending key of a \<open>secret_key_create\<close> request goes with the request.\<close>

definition delete_pending_key ::
    "'s approval_usecase \<Rightarrow> string \<Rightarrow> approval_request \<Rightarrow> ('s, go_error, unit) io" where
  "delete_pending_key uc msg request =
     (if rq_ActionType request = SecretKeyCreate
      then (case GetActionDataAs (string_member ''secret_key_id'') [] request of
              None \<Rightarrow> ok ()
            | Some i \<Rightarrow> if i = [] then ok ()
                         else wrapped msg (key_call (DeleteSecretKey (ax_keyRepo uc) i)))
      else ok ())"

definition RejectRequest ::
    "'s approval_usecase \<Rightarrow> call_env \<Rightarrow> string \<Rightarrow> user \<Rightarrow> string \<Rightarrow> ('s, go_error, unit) io" where
  "RejectRequest uc env requestID rejector reason =
     attempt (db_call (qr_GetByID (ax_requestRepo uc) requestID)) fail (\<lambda>request.
     if \<not> CanBeApprovedBy (en_now env) request (us_ID rejector) then text_fail ''user cannot reject this request''
     else
       attempt (Access_CanAct uc rejector (rq_TeamID request)) fail (\<lambda>canAct.
       if \<not> canAct then text_fail ''user is not an approver for this team''
       else (case Reject (en_now env) (us_ID rejector) reason request of
               Inl err \<Rightarrow> fail (ErrRequest err)
             | Inr request \<Rightarrow>
                 attempt (db_call (qr_Update (ax_requestRepo uc) request)) fail (\<lambda>_.
                 attempt (delete_pending_key uc ''failed to delete rejected pending secret key'' request) fail (\<lambda>_.
                 record_decision uc AuditEventApprovalRejected
                   (''Rejected '' @ bold (rq_Description request) @ '' request'') request rejector)))))"

definition WithdrawRequest :: "'s approval_usecase \<Rightarrow> string \<Rightarrow> user \<Rightarrow> ('s, go_error, unit) io" where
  "WithdrawRequest uc requestID requester =
     attempt (db_call (qr_GetByID (ax_requestRepo uc) requestID)) fail (\<lambda>request.
     if rq_RequestedBy request \<noteq> us_ID requester then text_fail ''only the requester can withdraw this request''
     else if rq_Status request \<noteq> Pending then text_fail ''approval request is not pending''
     else
       attempt (delete_pending_key uc ''failed to delete withdrawn pending secret key'' request) fail (\<lambda>_.
       attempt (db_call (qr_Delete (ax_requestRepo uc) requestID)) fail (\<lambda>_.
       record_decision uc AuditEventApprovalWithdrawn
         (''Withdrew '' @ bold (rq_Description request) @ '' request'') request requester)))"

section \<open>approvers\<close>

definition SetTeamApprover ::
    "'s approval_usecase \<Rightarrow> string \<Rightarrow> string \<Rightarrow> bool \<Rightarrow> string \<Rightarrow> ('s, go_error, unit) io" where
  "SetTeamApprover uc teamID userID isApprover actionByUserID =
     attempt (db_call (ur_GetByID (ax_userRepo uc) actionByUserID)) fail (\<lambda>actionByUser.
     attempt (if IsRoot actionByUser then ok ()
              else if \<not> IsAdmin actionByUser then text_fail ''insufficient permissions to manage team approvers''
              else
                attempt (wrapped ''failed to check approval settings'' (db_call (gs_Get (ax_settingsRepo uc)))) fail
                  (\<lambda>settings. if \<not> as_ApprovalEnabled settings
                              then text_fail ''approval system must be enabled for admin users to manage approvers''
                              else ok ())) fail (\<lambda>_.
     attempt (wrapped ''team not found'' (db_call (tm_GetByID (ax_teamRepo uc) teamID))) fail (\<lambda>_.
     attempt (wrapped ''user not found'' (db_call (ur_GetByID (ax_userRepo uc) userID))) fail (\<lambda>user.
     if isApprover \<and> \<not> IsAdmin user \<and> \<not> IsRoot user
     then text_fail ''only admin and root users can be set as approvers''
     else db_call (ar_SetUserAsApprover (ax_approverRepo uc) teamID userID isApprover)))))"

definition GetTeamApprovers ::
    "'s approval_usecase \<Rightarrow> string \<Rightarrow> ('s, go_error, team_user_with_approver list) io" where
  "GetTeamApprovers uc teamID = db_call (ar_GetTeamApprovers (ax_approverRepo uc) teamID)"

definition GetUserApproverTeams :: "'s approval_usecase \<Rightarrow> string \<Rightarrow> ('s, go_error, string list) io" where
  "GetUserApproverTeams uc userID = db_call (ar_GetUserTeamsAsApprover (ax_approverRepo uc) userID)"

text \<open>The loop that keeps the teams without approver.\<close>

fun teams_without_approver :: "'s approval_usecase \<Rightarrow> team list \<Rightarrow> ('s, go_error, team list) io" where
  "teams_without_approver uc [] = ok []"
| "teams_without_approver uc (team # teams) =
     attempt (db_call (ar_GetTeamApprovers (ax_approverRepo uc) (te_ID team))) fail (\<lambda>approvers.
     attempt (teams_without_approver uc teams) fail (\<lambda>rest.
     ok (if list_ex tw_IsApprover approvers then rest else team # rest)))"

definition GetTeamsWithoutApprover :: "'s approval_usecase \<Rightarrow> string \<Rightarrow> ('s, go_error, team list) io" where
  "GetTeamsWithoutApprover uc userID =
     attempt (db_call (tm_GetTeamsByUserID (ax_teamRepo uc) userID)) fail (teams_without_approver uc)"

section \<open>utilities\<close>

definition Uc_RequiresApproval :: "'s approval_usecase \<Rightarrow> action_type \<Rightarrow> ('s, go_error, bool) io" where
  "Uc_RequiresApproval uc actionType = db_call (gs_RequiresApproval (ax_settingsRepo uc) actionType)"

definition Uc_IsApprovalEnabled :: "'s approval_usecase \<Rightarrow> ('s, go_error, bool) io" where
  "Uc_IsApprovalEnabled uc = db_call (gs_IsApprovalEnabled (ax_settingsRepo uc))"

definition MarkExpiredRequests :: "'s approval_usecase \<Rightarrow> ('s, go_error, unit) io" where
  "MarkExpiredRequests uc = db_call (qr_MarkExpiredRequests (ax_requestRepo uc))"

definition GetApprovalStats :: "'s approval_usecase \<Rightarrow> user \<Rightarrow> ('s, go_error, request_stats) io" where
  "GetApprovalStats uc caller =
     attempt (Access_VisibleTeamIDs uc caller) fail (\<lambda>(teamIDs, unrestricted).
     if unrestricted then db_call (qr_GetRequestStats (ax_requestRepo uc) [])
     else db_call (qr_GetRequestStats (ax_requestRepo uc) teamIDs))"

definition GetApprovalStatsByTeam :: "'s approval_usecase \<Rightarrow> string \<Rightarrow> user \<Rightarrow> ('s, go_error, request_stats) io" where
  "GetApprovalStatsByTeam uc teamID caller =
     attempt (Access_CanRead uc caller teamID) fail (\<lambda>canRead.
     if \<not> canRead then fail ErrApprovalAccessDenied
     else db_call (qr_GetRequestStats (ax_requestRepo uc) [teamID]))"

definition GetApplicationIDForSecretKey :: "'s approval_usecase \<Rightarrow> string \<Rightarrow> ('s, go_error, string) io" where
  "GetApplicationIDForSecretKey uc secretKeyID =
     attempt (key_call (GetSecretKeyByID (ax_keyRepo uc) secretKeyID)) fail (\<lambda>key. ok (sk_ApplicationID key))"

text \<open>The loop over the user's teams; an error goes on with the next team.\<close>

fun team_with_app :: "'s approval_usecase \<Rightarrow> string \<Rightarrow> team list \<Rightarrow> ('s, go_error, string option) io" where
  "team_with_app uc applicationID [] = ok None"
| "team_with_app uc applicationID (team # teams) =
     attempt (tm_GetApplicationsByTeamID (ax_teamRepo uc) (te_ID team))
       (\<lambda>_. team_with_app uc applicationID teams)
       (\<lambda>teamApps. if list_ex (\<lambda>app. ap_ID app = applicationID) teamApps then ok (Some (te_ID team))
                   else team_with_app uc applicationID teams)"

definition GetUserTeamForApplication :: "'s approval_usecase \<Rightarrow> string \<Rightarrow> string \<Rightarrow> ('s, go_error, string) io" where
  "GetUserTeamForApplication uc userID applicationID =
     attempt (db_call (tm_GetTeamsByUserID (ax_teamRepo uc) userID)) fail (\<lambda>userTeams.
     case userTeams of
       [] \<Rightarrow> text_fail ''user has no teams assigned''
     | first # _ \<Rightarrow>
         attempt (if applicationID \<noteq> [] then team_with_app uc applicationID userTeams else ok None) fail (\<lambda>found.
         ok (case found of Some teamID \<Rightarrow> teamID | None \<Rightarrow> te_ID first)))"

end
