(* ===== verification/Execution.thy ===== *)
theory Execution
  imports Approval
begin

text \<open>
  \<open>ExecuteApprovedAction\<close> of \<open>usecase/approval_usecase.go\<close>: the check of the caller and of the status, the
  audit line resolved before the action runs, and one executor per action type, each through the use
  case that performs the action when no approval is needed.
\<close>

section \<open>the executors\<close>

definition with_action_data ::
    "('r \<Rightarrow> string \<Rightarrow> json \<Rightarrow> 'r option) \<Rightarrow> 'r \<Rightarrow> approval_request \<Rightarrow> ('r \<Rightarrow> ('s, go_error, 'a) io)
     \<Rightarrow> ('s, go_error, 'a) io" where
  "with_action_data f zero request k =
     (case GetActionDataAs f zero request of
        None \<Rightarrow> fail (ErrWrap ''failed to deserialize action data'' ErrJSON)
      | Some d \<Rightarrow> k d)"

text \<open>A nil pointer of the request is an error of its own.\<close>

definition required :: "string \<Rightarrow> 'x option \<Rightarrow> ('x \<Rightarrow> ('s, go_error, 'a) io) \<Rightarrow> ('s, go_error, 'a) io" where
  "required msg p k = (case p of None \<Rightarrow> text_fail msg | Some x \<Rightarrow> k x)"

definition executeToggleCreateAction ::
    "'s approval_usecase \<Rightarrow> call_env \<Rightarrow> approval_request \<Rightarrow> ('s, go_error, unit) io" where
  "executeToggleCreateAction uc env request =
     with_action_data (string_member ''toggle'') [] request (\<lambda>toggle.
     if toggle = [] then text_fail ''toggle path is required''
     else required ''application ID is required for toggle creation'' (rq_ApplicationID request) (\<lambda>appID.
       wrapped ''failed to create toggle hierarchy''
         (app_call (CreateToggle (ax_toggleUseCase uc) (en_toggleIDs env) toggle False True appID))))"

definition executeToggleUpdateAction ::
    "'s approval_usecase \<Rightarrow> call_env \<Rightarrow> approval_request \<Rightarrow> ('s, go_error, unit) io" where
  "executeToggleUpdateAction uc env request =
     with_action_data (update_member decode_activation_rule) zero_update request (\<lambda>d.
     required ''toggle ID is required for toggle update'' (rq_ToggleID request) (\<lambda>toggleID.
     required ''application ID is required for toggle update'' (rq_ApplicationID request) (\<lambda>appID.
     attempt (wrapped ''failed to update toggle''
                (app_call (UpdateToggleWithRule (en_ParseFloat env) (en_tokens env) (en_rule_text env)
                   (ax_toggleUseCase uc) toggleID (ud_Enabled d) (ud_HasActivationRule d) (ud_ActivationRule d)
                   appID))) fail (\<lambda>_. ok ()))))"

definition executeBulkToggleAction ::
    "'s approval_usecase \<Rightarrow> approval_request \<Rightarrow> ('s, go_error, unit) io" where
  "executeBulkToggleAction uc request =
     with_action_data bulk_member ([], False) request (\<lambda>(toggleIDs, enabled).
     required ''application ID is required for bulk toggle update'' (rq_ApplicationID request) (\<lambda>appID.
     wrapped ''failed to bulk update toggles''
       (app_call (BulkUpdateEnabled (ax_toggleUseCase uc) toggleIDs enabled appID))))"

definition executeToggleDeleteAction ::
    "'s approval_usecase \<Rightarrow> approval_request \<Rightarrow> string \<Rightarrow> ('s, go_error, unit) io" where
  "executeToggleDeleteAction uc request callerID =
     required ''toggle ID is required for toggle deletion'' (rq_ToggleID request) (\<lambda>toggleID.
     required ''application ID is required for toggle deletion'' (rq_ApplicationID request) (\<lambda>appID.
     wrapped ''failed to delete toggle''
       (app_call (DeleteToggleByID (ax_toggleUseCase uc) toggleID appID callerID))))"

definition executeApplicationCreateAction ::
    "'s approval_usecase \<Rightarrow> call_env \<Rightarrow> approval_request \<Rightarrow> ('s, go_error, string) io" where
  "executeApplicationCreateAction uc env request =
     with_action_data name_team_member ([], []) request (\<lambda>(name, teamID).
     if name = [] then text_fail ''application name is required''
     else if teamID = [] then text_fail ''team ID is required''
     else
       attempt (wrapped ''failed to get team'' (db_call (tm_GetByID (ax_teamRepo uc) teamID))) fail (\<lambda>_.
       let app = New_Application (en_appID env) name in
       attempt (wrapped ''failed to create application'' (db_call (pr_Create (ax_appRepo uc) app))) fail (\<lambda>_.
       attempt (wrapped ''failed to associate application with team''
                  (AddApplicationToTeam (ax_teamUseCase uc) teamID (ap_ID app) PermissionAdmin)) fail (\<lambda>_.
       ok (ap_ID app)))))"

definition executeApplicationUpdateAction ::
    "'s approval_usecase \<Rightarrow> approval_request \<Rightarrow> ('s, go_error, unit) io" where
  "executeApplicationUpdateAction uc request =
     required ''application ID is required for application update'' (rq_ApplicationID request) (\<lambda>appID.
     with_action_data name_team_member ([], []) request (\<lambda>(name, teamID).
     attempt (if name \<noteq> []
              then attempt (wrapped ''failed to update application''
                              (app_call (UpdateApplication (ax_appUseCase uc) appID name))) fail (\<lambda>_. ok ())
              else ok ()) fail (\<lambda>_.
     if teamID \<noteq> []
     then
       attempt (wrapped ''failed to remove application from current teams''
                  (RemoveApplicationFromAllTeams (ax_teamUseCase uc) appID)) fail (\<lambda>_.
       wrapped ''failed to associate application with new team''
         (AddApplicationToTeam (ax_teamUseCase uc) teamID appID PermissionAdmin))
     else ok ())))"

definition executeApplicationDeleteAction ::
    "'s approval_usecase \<Rightarrow> approval_request \<Rightarrow> ('s, go_error, unit) io" where
  "executeApplicationDeleteAction uc request =
     required ''application ID is required for application deletion'' (rq_ApplicationID request) (\<lambda>appID.
     wrapped ''failed to delete application with cascade''
       (app_call (DeleteApplication (ax_appUseCase uc) appID)))"

definition executeSecretKeyCreateAction ::
    "'s approval_usecase \<Rightarrow> approval_request \<Rightarrow> ('s, go_error, unit) io" where
  "executeSecretKeyCreateAction uc request =
     with_action_data key_create_member ([], []) request (\<lambda>(_, keyID).
     required ''application ID is required for secret key creation'' (rq_ApplicationID request) (\<lambda>appID.
     if keyID = [] then text_fail ''pending secret key not found for this request''
     else wrapped ''failed to activate secret key''
            (key_call (ActivateAndRotateSecretKey (ax_keyRepo uc) keyID appID))))"

definition executeSecretKeyDeleteAction ::
    "'s approval_usecase \<Rightarrow> approval_request \<Rightarrow> ('s, go_error, unit) io" where
  "executeSecretKeyDeleteAction uc request =
     with_action_data (string_member ''secret_key_id'') [] request (\<lambda>keyID.
     if keyID = [] then text_fail ''secret key ID is required for secret key deletion''
     else wrapped ''failed to revoke secret key'' (key_call (RevokeSecretKey (ax_keyRepo uc) keyID)))"

section \<open>the audit line\<close>

definition after_approval :: string where
  "after_approval = '' (after approval)''"

definition team_name_of :: "'s approval_usecase \<Rightarrow> approval_request \<Rightarrow> ('s, go_error, string) io" where
  "team_name_of uc request = or_empty (tm_GetByID (ax_teamRepo uc) (rq_TeamID request)) te_Name"

text \<open>The number of elements \<open>json.Unmarshal\<close> leaves, bad ones included.\<close>

fun lenient_length :: "nat \<Rightarrow> json \<Rightarrow> nat" where
  "lenient_length n JNull = 0"
| "lenient_length n (JArr js) = length js"
| "lenient_length n _ = n"

definition length_member :: "nat \<Rightarrow> string \<Rightarrow> json \<Rightarrow> nat option" where
  "length_member n k v = Some (if field_matches ''toggle_ids'' k then lenient_length n v else n)"

definition verb :: "bool \<Rightarrow> string" where
  "verb enabled = (if enabled then ''Enabled'' else ''Disabled'')"

definition verb_event :: "bool \<Rightarrow> audit_event" where
  "verb_event enabled = (if enabled then AuditEventToggleEnabled else AuditEventToggleDisabled)"

text \<open>The line of each action type, given the names that were looked up.\<close>

definition execution_line ::
    "approval_request \<Rightarrow> string \<Rightarrow> string \<Rightarrow> string \<Rightarrow> (audit_event \<times> string \<times> string) option" where
  "execution_line request appName teamName togglePath =
     (let data = rq_ActionData request;
          enable_line = (\<lambda>b. Some (verb_event b, verb b @ '' '' @ bold togglePath @ after_approval, appName));
          enable_action = (\<lambda>b.
            if rq_ToggleID request = None
            then Some (verb_event b,
                       verb b @ '' '' @ bold (Itoa (lenient_members length_member 0 data)) @ '' toggles in bulk''
                         @ after_approval, appName)
            else enable_line b)
      in case rq_ActionType request of
           ToggleCreate \<Rightarrow>
             Some (AuditEventToggleCreated,
                   ''Created toggle '' @ bold (lenient_members (string_member ''toggle'') [] data) @ after_approval,
                   appName)
         | ToggleDelete \<Rightarrow>
             Some (AuditEventToggleDeleted, ''Deleted toggle '' @ bold togglePath @ after_approval, appName)
         | ToggleEnable \<Rightarrow> enable_action True
         | ToggleDisable \<Rightarrow> enable_action False
         | ToggleUpdate \<Rightarrow> enable_line (lenient_members (bool_member ''enabled'') False data)
         | ToggleRule \<Rightarrow>
             (let d = lenient_members (update_member (\<lambda>old j. Some (lenient_rule old j))) zero_update data in
              case (if ud_HasActivationRule d then ud_ActivationRule d else None) of
                Some rule \<Rightarrow>
                  Some (AuditEventToggleRuleSet,
                        ''Set '' @ bold (ar_Type rule) @ '' rule''
                          @ (if ar_Type rule = ''percentage''
                             then '' to '' @ bold (ar_Value rule @ ''%'') else [])
                          @ after_approval, togglePath)
              | None \<Rightarrow> enable_line (ud_HasActivationRule d))
         | ApplicationCreate \<Rightarrow>
             Some (AuditEventApplicationCreated,
                   ''Created application '' @ bold (lenient_members (string_member ''name'') [] data) @ after_approval,
                   teamName @ '' team'')
         | ApplicationUpdate \<Rightarrow>
             Some (AuditEventApplicationUpdated, ''Updated application '' @ bold appName @ after_approval, appName)
         | ApplicationDelete \<Rightarrow>
             Some (AuditEventApplicationDeleted, ''Deleted application '' @ bold appName @ after_approval, [])
         | SecretKeyCreate \<Rightarrow> Some (AuditEventKeyGenerated, ''Generated service key'' @ after_approval, appName)
         | SecretKeyDelete \<Rightarrow> Some (AuditEventKeyRevoked, ''Service key revoked'' @ after_approval, appName)
         | OtherAction _ \<Rightarrow> None)"

definition resolveApprovalExecutionAudit ::
    "'s approval_usecase \<Rightarrow> approval_request \<Rightarrow> ('s, go_error, (audit_event \<times> string \<times> string) option) io" where
  "resolveApprovalExecutionAudit uc request =
     attempt (app_name_of uc request) fail (\<lambda>appName.
     attempt (team_name_of uc request) fail (\<lambda>teamName.
     attempt (toggle_path_of uc request) fail (\<lambda>togglePath.
     ok (execution_line request appName teamName togglePath))))"

section \<open>the action\<close>

text \<open>The switch over the action type; it gives the application the audit event belongs to.\<close>

definition run_action ::
    "'s approval_usecase \<Rightarrow> call_env \<Rightarrow> approval_request \<Rightarrow> user \<Rightarrow> ('s, go_error, string option) io" where
  "run_action uc env request caller =
     (let same = (\<lambda>m. attempt m fail (\<lambda>_. ok (rq_ApplicationID request))) in
      case rq_ActionType request of
        ToggleCreate \<Rightarrow> same (executeToggleCreateAction uc env request)
      | ToggleUpdate \<Rightarrow> same (executeToggleUpdateAction uc env request)
      | ToggleDelete \<Rightarrow> same (executeToggleDeleteAction uc request (us_ID caller))
      | ToggleEnable \<Rightarrow> same (if rq_ToggleID request = None then executeBulkToggleAction uc request
                              else executeToggleUpdateAction uc env request)
      | ToggleDisable \<Rightarrow> same (if rq_ToggleID request = None then executeBulkToggleAction uc request
                               else executeToggleUpdateAction uc env request)
      | ToggleRule \<Rightarrow> same (executeToggleUpdateAction uc env request)
      | ApplicationCreate \<Rightarrow> attempt (executeApplicationCreateAction uc env request) fail (\<lambda>i. ok (Some i))
      | ApplicationUpdate \<Rightarrow> same (executeApplicationUpdateAction uc request)
      | ApplicationDelete \<Rightarrow> same (executeApplicationDeleteAction uc request)
      | SecretKeyCreate \<Rightarrow> same (executeSecretKeyCreateAction uc request)
      | SecretKeyDelete \<Rightarrow> same (executeSecretKeyDeleteAction uc request)
      | OtherAction a \<Rightarrow> text_fail (''unsupported action type: '' @ a))"

definition ExecuteApprovedAction ::
    "'s approval_usecase \<Rightarrow> call_env \<Rightarrow> string \<Rightarrow> user \<Rightarrow> ('s, go_error, unit) io" where
  "ExecuteApprovedAction uc env requestID caller =
     attempt (db_call (qr_GetByID (ax_requestRepo uc) requestID)) fail (\<lambda>request.
     attempt (Access_CanAct uc caller (rq_TeamID request)) fail (\<lambda>canAct.
     if \<not> canAct then fail ErrApprovalAccessDenied
     else if rq_Status request \<noteq> Approved then text_fail ''request is not approved''
     else
       attempt (resolveApprovalExecutionAudit uc request) fail (\<lambda>line.
       attempt (run_action uc env request caller) fail (\<lambda>applicationID.
       case line of
         None \<Rightarrow> ok ()
       | Some (eventType, txt, target) \<Rightarrow>
           recordAuditWithApplication uc eventType txt target (Some (rq_TeamID request)) applicationID caller))))"

end
