(* ===== verification/Sessions.thy ===== *)
theory Sessions
  imports World
begin

text \<open>
  What the sessions promise, over any database that keeps GORM's laws for the users and the sessions: a
  token authenticates exactly when it is the token of a live session of an active user, and changing a
  password ends every session of its user. The locale \<open>account_db\<close> states the laws.
\<close>

text \<open>The use cases over a database, as \<open>handler/init.go\<close> puts them together.\<close>

definition auth_over ::
    "'d user_db \<Rightarrow> (session, 'd) table \<Rightarrow> string \<Rightarrow> int \<Rightarrow> 'd auth_manager \<Rightarrow> 'd password_file option \<Rightarrow> 'd auth_usecase" where
  "auth_over db sg newID now am pf =
     \<lparr> hu_userRepo = NewUserRepository db, hu_authManager = am,
       hu_sessionRepo = NewSessionRepository sg newID now, hu_passwordFile = pf \<rparr>"

definition users_over :: "'d user_db \<Rightarrow> (session, 'd) table \<Rightarrow> string \<Rightarrow> int \<Rightarrow> 'd user_usecase" where
  "users_over db sg newID now =
     \<lparr> nu_userRepo = NewUserRepository db, nu_sessionRepo = NewSessionRepository sg newID now \<rparr>"

text \<open>A session that lets its token in.\<close>

definition live_session :: "session list \<Rightarrow> auth_env \<Rightarrow> string \<Rightarrow> session \<Rightarrow> bool" where
  "live_session xs env token x \<longleftrightarrow> x \<in> set xs \<and> se_TokenHash x = HashSessionToken (he_sha256 env) token
     \<and> se_Purpose x = SessionPurposeAuth \<and> he_now env \<le> se_ExpiresAt x"

locale account_db =
  users: gorm_table "uz_users db" urows "\<lambda>_. True" user_columns user_defaults us_ID
    "\<lambda>x u. us_ID x = us_ID u \<or> us_Username x = us_Username u" "\<lambda>_. None" +
  sessions: gorm_table sg srows "\<lambda>_. True" "\<lambda>s. s" "\<lambda>s. s" se_ID session_clash "\<lambda>_. None"
  for db :: "'d user_db" and urows and sg :: "(session, 'd) table" and srows +
  assumes read_teams: "\<exists>xs. g_Find (uz_team_users db) u P order d = Some (Inr xs, d)"
      "\<exists>ys. g_Find (uz_teams db) u Q order' d = Some (Inr ys, d)"
    and apart: "keeps (uz_users db) srows" "keeps sg urows"
begin

text \<open>\<open>with_teams\<close> changes the teams of the struct only.\<close>

lemma with_teams: "\<exists>ts. with_teams db u d = Some (Inr (u\<lparr> us_Teams := ts \<rparr>), d)"
proof -
  from read_teams(1) obtain ms where
    "g_Find (uz_team_users db) False (\<lambda>m. mb_UserID m = us_ID u) unordered d = Some (Inr ms, d)" by blast
  moreover from read_teams(2) obtain ts where
    "g_Find (uz_teams db) False (\<lambda>t. te_ID t \<in> set (map mb_TeamID ms)) unordered d = Some (Inr ts, d)" by blast
  ultimately show ?thesis by (auto simp: with_teams_def ok_def)
qed

lemma GetByID:
  "(\<exists>u ts. u \<in> set (urows d) \<and> us_ID u = i
      \<and> User_GetByID db i d = Some (Inr ((RefreshStatus u)\<lparr> us_Teams := ts \<rparr>), d))
   \<or> (\<forall>u\<in>set (urows d). us_ID u \<noteq> i) \<and> User_GetByID db i d = Some (Inl ErrRecordNotFound, d)"
proof -
  from users.first[of False "\<lambda>u. us_ID u = i" d] obtain r where
    r: "g_First (uz_users db) False (\<lambda>u. us_ID u = i) d = Some (r, d)" "found (\<lambda>u. us_ID u = i) (urows d) r"
    by auto
  show ?thesis
  proof (cases r)
    case (Inl e)
    with r show ?thesis by (auto simp: User_GetByID_def found_def fail_def)
  next
    case (Inr u)
    with r with_teams[of "RefreshStatus u" d] show ?thesis by (auto simp: User_GetByID_def found_def)
  qed
qed

lemma GetByTokenHash:
  "\<exists>r. Session_GetByTokenHash sg h d = Some (r, d) \<and> found (\<lambda>s. se_TokenHash s = h) (srows d) r"
  using sessions.first[of False "\<lambda>s. se_TokenHash s = h" d] by (simp add: Session_GetByTokenHash_def)

lemma DeleteByUserID:
  "\<exists>d'. Session_DeleteByUserID sg i d = Some (Inr (), d') \<and> urows d' = urows d
     \<and> srows d' = filter (\<lambda>s. se_UserID s \<noteq> i) (srows d)"
  using sessions.delete[of False "\<lambda>s. se_UserID s = i" d] apart(2)
  by (auto simp: Session_DeleteByUserID_def map_filter_filter dest: keepsD(4))

lemma DeleteByID:
  "\<exists>d'. Session_DeleteByID sg i d = Some (Inr (), d') \<and> urows d' = urows d
     \<and> srows d' = filter (\<lambda>s. se_ID s \<noteq> i) (srows d)"
  using sessions.delete[of False "\<lambda>s. se_ID s = i" d] apart(2)
  by (auto simp: Session_DeleteByID_def map_filter_filter dest: keepsD(4))

text \<open>Every token that validates belongs to a live session of the user, who is active.\<close>

lemma ValidateToken_sound:
  assumes "ValidateToken (auth_over db sg newID now am pf) env token d = Some (Inr u, d')"
  shows "\<exists>x v. live_session (srows d) env token x \<and> v \<in> set (urows d) \<and> us_ID v = se_UserID x \<and> us_Active v
    \<and> us_ID u = us_ID v \<and> d' = d"
proof -
  obtain r where g: "Session_GetByTokenHash sg (HashSessionToken (he_sha256 env) token) d = Some (r, d)"
    "found (\<lambda>s. se_TokenHash s = HashSessionToken (he_sha256 env) token) (srows d) r"
    using GetByTokenHash by blast
  show ?thesis
  proof (cases r)
    case (Inl e)
    with assms g show ?thesis
      by (simp add: ValidateToken_def auth_over_def NewSessionRepository_def text_fail_def fail_def split: if_splits)
  next
    case (Inr x)
    with assms g have x: "live_session (srows d) env token x" and
      u: "attempt (db_call (User_GetByID db (se_UserID x))) fail
            (\<lambda>user. if \<not> us_Active user then text_fail ''account disabled'' else ok user) d = Some (Inr u, d')"
      by (auto simp: ValidateToken_def auth_over_def NewSessionRepository_def NewUserRepository_def live_session_def
          found_def Session_IsExpired_def text_fail_def fail_def ok_def not_less attempt_def
          simp del: attempt_simps attempt_bool split: if_splits option.splits sum.splits)
    from GetByID[of d "se_UserID x"] u x
    show ?thesis
      by (elim disjE exE conjE) (auto simp: RefreshStatus_def text_fail_def fail_def ok_def split: if_splits
          intro!: exI[of _ x])
  qed
qed

text \<open>And the token of a live session of an active user validates.\<close>

lemma ValidateToken_complete:
  assumes "token \<noteq> []" "live_session (srows d) env token x" "distinct (map se_TokenHash (srows d))"
    and "\<exists>v\<in>set (urows d). us_ID v = se_UserID x"
    and "\<forall>v\<in>set (urows d). us_ID v = se_UserID x \<longrightarrow> us_Active v"
  shows "\<exists>u. ValidateToken (auth_over db sg newID now am pf) env token d = Some (Inr u, d) \<and> us_ID u = se_UserID x"
proof -
  obtain r where g: "Session_GetByTokenHash sg (HashSessionToken (he_sha256 env) token) d = Some (r, d)"
    "found (\<lambda>s. se_TokenHash s = HashSessionToken (he_sha256 env) token) (srows d) r"
    using GetByTokenHash by blast
  from assms(2,3) g(2) have r: "r = Inr x"
    by (cases r) (auto simp: found_def live_session_def distinct_map inj_on_def)
  from GetByID[of d "se_UserID x"] assms(4,5) obtain u ts where
    "u \<in> set (urows d)" "us_ID u = se_UserID x" "us_Active u"
    "User_GetByID db (se_UserID x) d = Some (Inr ((RefreshStatus u)\<lparr> us_Teams := ts \<rparr>), d)"
    by auto
  with assms(1,2) g(1) r show ?thesis
    by (simp add: ValidateToken_def auth_over_def NewSessionRepository_def NewUserRepository_def live_session_def
        Session_IsExpired_def RefreshStatus_def ok_def)
qed

lemma ChangePassword_success:
  assumes "ChangePassword (users_over db sg newID now) bc i old new d = Some (Inr (), d')"
  shows "srows d' = filter (\<lambda>s. se_UserID s \<noteq> i) (srows d)
    \<and> (\<exists>u\<in>set (urows d). us_ID u = i \<and> bc_check bc (us_Password u) old)
    \<and> length new \<ge> 4
    \<and> (\<exists>h. bc_hash bc new = Some h
        \<and> (distinct (map us_ID (urows d)) \<longrightarrow> distinct (map us_Username (urows d)) \<longrightarrow>
            (\<forall>v\<in>set (urows d'). us_ID v = i \<longrightarrow> us_Password v = h)))"
proof -
  from GetByID[of d i] assms obtain u ts where u: "u \<in> set (urows d)" "us_ID u = i"
    "User_GetByID db i d = Some (Inr ((RefreshStatus u)\<lparr> us_Teams := ts \<rparr>), d)"
    by (auto simp: ChangePassword_def users_over_def NewUserRepository_def fail_def)
  let ?u = "(RefreshStatus u)\<lparr> us_Teams := ts \<rparr>"
  from assms u(3) have c: "bc_check bc (us_Password u) old"
    by (auto simp: ChangePassword_def users_over_def NewUserRepository_def CheckPassword_def RefreshStatus_def text_fail_def fail_def
        split: if_splits)
  from assms u(3) c obtain h where h: "length new \<ge> 4" "bc_hash bc new = Some h"
    and s: "attempt (db_call (g_Save (uz_users db) (?u\<lparr> us_Password := h \<rparr>))) fail
        (\<lambda>_. db_call (Session_DeleteByUserID sg i)) d = Some (Inr (), d')"
    by (auto simp: ChangePassword_def users_over_def NewUserRepository_def NewSessionRepository_def CheckPassword_def
        RefreshStatus_def SetPassword_def User_Update_def text_fail_def fail_def
        split: if_splits option.splits)
  from s obtain d1 where d1: "g_Save (uz_users db) (?u\<lparr> us_Password := h \<rparr>) d = Some (Inr (), d1)"
    "db_call (Session_DeleteByUserID sg i) d1 = Some (Inr (), d')"
    by (elim attempt_Some) (auto simp: fail_def split: option.splits sum.splits)
  from keepsD(2)[OF apart(1) d1(1)] have k: "srows d1 = srows d" .
  from DeleteByUserID[of i d1] d1(2) k
  have r: "srows d' = filter (\<lambda>s. se_UserID s \<noteq> i) (srows d)" "urows d' = urows d1" by auto
  have "us_Password v = h"
    if "distinct (map us_ID (urows d))" "distinct (map us_Username (urows d))" "v \<in> set (urows d')" "us_ID v = i" for v
  proof -
    let ?w = "?u\<lparr> us_Password := h \<rparr>"
    have w: "us_ID ?w = i" "us_Username ?w = us_Username u" using u(2) by (simp_all add: RefreshStatus_def)
    have "\<exists>x\<in>set (urows d). True \<and> us_ID x = us_ID ?w" using u(1,2) w by auto
    moreover have "\<forall>x\<in>set (urows d). us_ID x \<noteq> us_ID ?w \<longrightarrow>
        \<not> (us_ID x = us_ID ?w \<or> us_Username x = us_Username ?w)"
      using that(1,2) u(1,2) unfolding w by (auto simp: distinct_map dest: inj_onD)
    ultimately have "urows d1 = map (\<lambda>x. if True \<and> us_ID x = us_ID ?w then user_columns ?w else x) (urows d)"
      using users.save[of d ?w] d1(1) by auto
    with r(2) that(3,4) show ?thesis unfolding w by (auto simp: user_columns_def)
  qed
  with u c h r(1) show ?thesis by auto
qed

end

text \<open>The whole database in memory keeps the laws.\<close>

definition wt_user_db :: "mem user_db" where
  "wt_user_db = \<lparr> uz_users = wt_users, uz_teams = wt_teams, uz_team_users = wt_team_users, uz_apps = wt_apps,
     uz_user_apps = wt_user_apps \<rparr>"

lemma wt_account_db: "account_db wt_user_db (\<lambda>d. w_users (fst d)) wt_sessions (\<lambda>d. w_sessions (fst d))"
proof (intro account_db.intro account_db_axioms.intro)
  show "gorm_table (uz_users wt_user_db) (\<lambda>d. w_users (fst d)) (\<lambda>_. True) user_columns user_defaults us_ID
      (\<lambda>x u. us_ID x = us_ID u \<or> us_Username x = us_Username u) (\<lambda>_. None)"
    using wt_users.gorm_table_axioms by (simp add: wt_user_db_def)
  show "gorm_table wt_sessions (\<lambda>d. w_sessions (fst d)) (\<lambda>_. True) (\<lambda>s. s) (\<lambda>s. s) se_ID session_clash (\<lambda>_. None)"
    by (rule wt_sessions.gorm_table_axioms)
  show "\<exists>xs. g_Find (uz_team_users wt_user_db) u P order d = Some (Inr xs, d)" for u P order d
    using wt_team_users.find[of u P order d] by (auto simp: wt_user_db_def)
  show "\<exists>ys. g_Find (uz_teams wt_user_db) u Q order' d = Some (Inr ys, d)" for u Q order' d
    using wt_teams.find[of u Q order' d] by (auto simp: wt_user_db_def)
  show "keeps (uz_users wt_user_db) (\<lambda>d. w_sessions (fst d))"
    by (simp add: wt_user_db_def) (rule keeps_part[OF wt_keeps(9)], simp)
  show "keeps wt_sessions (\<lambda>d. w_users (fst d))"
    by (rule keeps_part[OF wt_keeps(11)]) simp
qed

interpretation wt_account: account_db wt_user_db "\<lambda>d. w_users (fst d)" wt_sessions "\<lambda>d. w_sessions (fst d)"
  by (rule wt_account_db)

section \<open>properties\<close>

text \<open>C7. When a user changes the password, the old one was right, and every session of the user is over:
  no token, at no later time and under no clock, authenticates as that user any more. The sessions of the
  other users stay as they are.\<close>

theorem ChangePassword_ends_sessions:
  assumes "account_db db urows sg srows"
    and "ChangePassword (users_over db sg newID now) bc i old new d = Some (Inr (), d')"
  shows "(\<exists>u\<in>set (urows d). us_ID u = i \<and> bc_check bc (us_Password u) old)
    \<and> (\<exists>h. bc_hash bc new = Some h)
    \<and> srows d' = filter (\<lambda>s. se_UserID s \<noteq> i) (srows d)
    \<and> (\<forall>newID' now' am pf env token r d2.
         ValidateToken (auth_over db sg newID' now' am pf) env token d' = Some (r, d2)
         \<longrightarrow> (\<forall>u. r = Inr u \<longrightarrow> us_ID u \<noteq> i))"
proof -
  note store = account_db.ValidateToken_sound[OF assms(1)] account_db.ChangePassword_success[OF assms(1)]
  note c = store(2)[OF assms(2)]
  have "us_ID u \<noteq> i"
    if "ValidateToken (auth_over db sg newID' now' am pf) env token d' = Some (Inr u, d2)"
    for newID' now' am pf env token u d2
    using store(1)[OF that] c by (auto simp: live_session_def)
  with c show ?thesis by blast
qed

definition account_world :: world where
  "account_world = empty_world\<lparr>
     w_users := [\<lparr> us_ID = ''u'', us_Name = ''Ann'', us_Username = ''ann'', us_Password = ''old1'',
       us_Role = UserRoleUser, us_MustChangePassword = False, us_Active = True, us_Status = StatusActive,
       us_Teams = [] \<rparr>],
     w_sessions := [\<lparr> se_ID = ''s'', se_TokenHash = ''h'', se_UserID = ''u'', se_Purpose = SessionPurposeAuth,
       se_ExpiresAt = 9 \<rparr>] \<rparr>"

definition plain_bcrypt :: bcrypt where
  "plain_bcrypt = \<lparr> bc_hash = Some, bc_check = (\<lambda>h p. h = p) \<rparr>"

theorem ChangePassword_ends_sessions_witness:
  "\<exists>d'. ChangePassword (users_over wt_user_db wt_sessions ''n'' 0) plain_bcrypt ''u'' ''old1'' ''new1''
      (account_world, None) = Some (Inr (), d') \<and> w_sessions (fst d') = []"
proof -
  have "\<exists>d'. ChangePassword (users_over wt_user_db wt_sessions ''n'' 0) plain_bcrypt ''u'' ''old1'' ''new1''
      (account_world, None) = Some (Inr (), d')"
    by (simp add: ChangePassword_def users_over_def NewUserRepository_def NewSessionRepository_def User_GetByID_def
        with_teams_def User_Update_def Session_DeleteByUserID_def wt_user_db_def wt_users_def wt_teams_def
        wt_team_users_def wt_sessions_def mem_table_def account_world_def empty_world_def plain_bcrypt_def
        attempt_def ok_def fail_def SetPassword_def CheckPassword_def RefreshStatus_def
        del: attempt_simps attempt_bool)
  then obtain d' where d': "ChangePassword (users_over wt_user_db wt_sessions ''n'' 0) plain_bcrypt ''u'' ''old1''
      ''new1'' (account_world, None) = Some (Inr (), d')" by blast
  from ChangePassword_ends_sessions[OF wt_account_db d'] d' show ?thesis
    by (simp add: account_world_def)
qed

end
