(* ===== verification/Wiring.thy ===== *)
theory Wiring
  imports Execution Sessions
begin

text \<open>
  The wiring of \<open>handler/init.go\<close>: every repository and use case over one database. The lemmas show which
  calls leave a part of the database alone: the approval workflow executes actions of the other use
  cases, and none of them touches the requests or the memberships.
\<close>

section \<open>the wiring\<close>

record 'd server_db =
  sd_toggles :: "(toggle, 'd) table"
  sd_users :: "(user, 'd) table"
  sd_apps :: "(application, 'd) table"
  sd_keys :: "(secret_key, 'd) table"
  sd_teams :: "(team, 'd) table"
  sd_team_users :: "(team_user, 'd) table"
  sd_team_apps :: "(team_app, 'd) table"
  sd_requests :: "(approval_request, 'd) table"
  sd_settings :: "(approval_settings, 'd) table"
  sd_audit :: "(audit_log, 'd) table"
  sd_user_apps :: "(user_application, 'd) table"
  sd_tx :: "'d tx"

text \<open>What the hooks and the database draw on while a call runs: the clock, new identifiers, creation times.\<close>

record db_env =
  de_now :: int
  de_auditID :: string
  de_settingsID :: string
  de_request_created :: "approval_request \<Rightarrow> int"
  de_team_created :: "team \<Rightarrow> int"
  de_app_created :: "application \<Rightarrow> int"

definition team_db_of :: "'d server_db \<Rightarrow> db_env \<Rightarrow> 'd team_db" where
  "team_db_of db e =
     \<lparr> td_teams = sd_teams db, td_users = sd_users db, td_apps = sd_apps db, td_team_users = sd_team_users db,
       td_team_apps = sd_team_apps db, td_created = de_team_created e \<rparr>"

definition app_db_of :: "'d server_db \<Rightarrow> db_env \<Rightarrow> 'd app_db" where
  "app_db_of db e =
     \<lparr> ad_apps = sd_apps db, ad_toggles = sd_toggles db, ad_team_apps = sd_team_apps db, ad_keys = sd_keys db,
       ad_tx = sd_tx db, ad_created = de_app_created e \<rparr>"

definition user_db_of :: "'d server_db \<Rightarrow> 'd user_db" where
  "user_db_of db =
     \<lparr> uz_users = sd_users db, uz_teams = sd_teams db, uz_team_users = sd_team_users db, uz_apps = sd_apps db,
       uz_user_apps = sd_user_apps db \<rparr>"

definition request_db_of :: "'d server_db \<Rightarrow> db_env \<Rightarrow> 'd request_db" where
  "request_db_of db e =
     \<lparr> qd_requests = sd_requests db, qd_users = sd_users db, qd_teams = sd_teams db, qd_apps = sd_apps db,
       qd_toggles = sd_toggles db, qd_team_users = sd_team_users db, qd_created = de_request_created e \<rparr>"

definition NewApprovalUseCase :: "'d server_db \<Rightarrow> db_env \<Rightarrow> 'd approval_usecase" where
  "NewApprovalUseCase db e =
     (let appRepo = NewApplicationRepository (app_db_of db e);
          toggleRepo = toggle_repo_impl (sd_toggles db) (sd_users db);
          userRepo = NewUserRepository (user_db_of db);
          teamRepo = NewTeamRepository (team_db_of db e);
          auditLogRepo = NewAuditLogRepository (sd_audit db) (de_now e) (de_auditID e)
      in
      \<lparr> ax_requestRepo = NewApprovalRequestRepository (request_db_of db e) (de_now e),
        ax_settingsRepo = NewApprovalSettingsRepository (sd_settings db) (de_settingsID e),
        ax_approverRepo = NewTeamApproverRepository (team_db_of db e),
        ax_userRepo = userRepo, ax_teamRepo = teamRepo, ax_appRepo = appRepo, ax_toggleRepo = toggleRepo,
        ax_teamUseCase = \<lparr> te_teamRepo = teamRepo, te_userRepo = userRepo, te_appRepo = appRepo \<rparr>,
        ax_toggleUseCase = \<lparr> tu_toggleRepo = toggleRepo, tu_appRepo = appRepo \<rparr>,
        ax_appUseCase = NewApplicationUseCase appRepo toggleRepo,
        ax_keyRepo = NewSecretKeyRepository (sd_keys db),
        ax_audit = Some (NewAuditUseCase auditLogRepo teamRepo) \<rparr>)"

section \<open>calls that leave a view alone\<close>

text \<open>Every call of a table, its reads included.\<close>

definition quiet :: "('r, 'd) table \<Rightarrow> ('d \<Rightarrow> 'v) \<Rightarrow> bool" where
  "quiet g v \<longleftrightarrow>
     (\<forall>r. call_keeps (g_Create g r) v) \<and> (\<forall>u P. call_keeps (g_First g u P) v)
     \<and> (\<forall>u P k. call_keeps (g_Find g u P k) v) \<and> (\<forall>u P. call_keeps (g_Count g u P) v)
     \<and> (\<forall>r. call_keeps (g_Save g r) v) \<and> (\<forall>u P f. call_keeps (g_Updates g u P f) v)
     \<and> (\<forall>u P. call_keeps (g_Delete g u P) v)"

lemma quietD:
  assumes "quiet g v"
  shows "call_keeps (g_Create g r) v" "call_keeps (g_First g u P) v" "call_keeps (g_Find g u P k) v"
    "call_keeps (g_Count g u P) v" "call_keeps (g_Save g r) v" "call_keeps (g_Updates g u P f) v"
    "call_keeps (g_Delete g u P) v"
  using assms unfolding quiet_def by blast+

lemma call_keeps_part: "call_keeps c v \<Longrightarrow> (\<And>d d'. v d = v d' \<Longrightarrow> u d = u d') \<Longrightarrow> call_keeps c u"
  unfolding call_keeps_def by blast

lemma quiet_part:
  assumes "quiet g v" and "\<And>d d'. v d = v d' \<Longrightarrow> u d = u d'"
  shows "quiet g u"
  unfolding quiet_def by (intro conjI allI; rule call_keeps_part[OF quietD(1)[OF assms(1)] assms(2)]
    call_keeps_part[OF quietD(2)[OF assms(1)] assms(2)] call_keeps_part[OF quietD(3)[OF assms(1)] assms(2)]
    call_keeps_part[OF quietD(4)[OF assms(1)] assms(2)] call_keeps_part[OF quietD(5)[OF assms(1)] assms(2)]
    call_keeps_part[OF quietD(6)[OF assms(1)] assms(2)] call_keeps_part[OF quietD(7)[OF assms(1)] assms(2)])

text \<open>A table that keeps GORM's laws does not change on a read.\<close>

lemma quietI:
  assumes "gorm_table g rows live columns defaults key clash erase" "keeps g v"
  shows "quiet g v"
proof -
  note laws = gorm_table.first[OF assms(1)] gorm_table.find[OF assms(1)] gorm_table.count[OF assms(1)]
  show ?thesis
    unfolding quiet_def
  proof (intro conjI allI)
    fix u P k
    show "call_keeps (g_First g u P) v" using laws(1)[of u P] by (auto simp: call_keeps_def) (metis option.inject prod.inject)
    show "call_keeps (g_Find g u P k) v" using laws(2)[of u P k] by (auto simp: call_keeps_def) (metis option.inject prod.inject)
    show "call_keeps (g_Count g u P) v" using laws(3)[of u P] by (simp add: call_keeps_def)
  qed (rule call_keeps_table[OF assms(2)])+
qed

lemma call_keeps_calls [keep_intros]:
  "call_keeps c v \<Longrightarrow> call_keeps (db_call c) v"
  "call_keeps c' v \<Longrightarrow> call_keeps (app_call c') v"
  "call_keeps c2 v \<Longrightarrow> call_keeps (key_call c2) v"
  "call_keeps c3 v \<Longrightarrow> call_keeps (wrapped m c3) v"
  "call_keeps (text_fail m) v" "call_keeps (app_fail code m) v"
  unfolding db_call_def app_call_def key_call_def wrapped_def text_fail_def app_fail_def
  by (intro keep_intros; assumption)+

lemma call_keeps_guards [keep_intros]:
  "(\<And>x. call_keeps (k x) v) \<Longrightarrow> call_keeps (required m p k) v"
  "(\<And>x. call_keeps (l x) v) \<Longrightarrow> call_keeps (with_action_data f z r l) v"
  "call_keeps c v \<Longrightarrow> call_keeps (or_empty c h) v"
  unfolding required_def with_action_data_def or_empty_def
  by (auto split: option.split intro!: keep_intros)

lemma call_keeps_if [keep_intros]: "(b \<Longrightarrow> call_keeps m v) \<Longrightarrow> (\<not> b \<Longrightarrow> call_keeps m' v) \<Longrightarrow> call_keeps (if b then m else m') v"
  by simp

lemma call_keeps_cases [keep_intros]:
  "(\<And>x. call_keeps (f x) v) \<Longrightarrow> call_keeps n v \<Longrightarrow> call_keeps (case p of None \<Rightarrow> n | Some x \<Rightarrow> f x) v"
  "(\<And>x. call_keeps (l x) v) \<Longrightarrow> (\<And>y. call_keeps (r y) v) \<Longrightarrow> call_keeps (case q of Inl x \<Rightarrow> l x | Inr y \<Rightarrow> r y) v"
  "(\<And>x y. call_keeps (h x y) v) \<Longrightarrow> call_keeps (case z of (x, y) \<Rightarrow> h x y) v"
  by (simp_all split: option.split sum.split prod.split)

subsection \<open>the repositories\<close>

lemma toggle_repo_keeps [keep_intros]:
  assumes "quiet g v"
  shows "call_keeps (Toggle_Create g t) v" "call_keeps (Toggle_GetByID g i) v" "call_keeps (Toggle_GetByPath g p a) v"
    "call_keeps (Toggle_GetByAppID g a) v" "call_keeps (Toggle_Update g t) v" "call_keeps (Toggle_GetChildren g i) v"
    "call_keeps (Toggle_Exists g p a) v" "call_keeps (Toggle_MarkDeletionMeta g i by) v"
  unfolding Toggle_Create_def Toggle_GetByID_def Toggle_GetByPath_def Toggle_GetByAppID_def Toggle_Update_def
    Toggle_GetChildren_def Toggle_Exists_def Toggle_MarkDeletionMeta_def
  by (intro keep_intros quietD assms)+

lemma Toggle_Delete_keeps [keep_intros]:
  assumes "quiet g v"
  shows "call_keeps (Toggle_Delete g i) v"
proof -
  have "quiet g v \<longrightarrow> v (snd y) = v s" if "Toggle_Delete g i s = Some y" for s y
    using that
  proof (rule Toggle_Delete.raw_induct[rotated])
    fix F :: "(toggle, 'a) table \<Rightarrow> string \<Rightarrow> 'a \<Rightarrow> ((db_error + unit) \<times> 'a) option" and g i s y
    assume ih: "\<And>g i s y. F g i s = Some y \<Longrightarrow> quiet g v \<longrightarrow> v (snd y) = v s"
      and y: "attempt (Toggle_GetChildren g i) fail (\<lambda>children.
        attempt (for_each (\<lambda>child. F g (tg_ID child)) children) fail (\<lambda>_. g_Delete g False (\<lambda>t. tg_ID t = i))) s = Some y"
    show "quiet g v \<longrightarrow> v (snd y) = v s"
    proof
      assume q: "quiet g v"
      from ih q have "call_keeps (F g j) v" for j by (auto simp: call_keeps_def)
      then have "call_keeps (attempt (Toggle_GetChildren g i) fail (\<lambda>children.
        attempt (for_each (\<lambda>child. F g (tg_ID child)) children) fail (\<lambda>_. g_Delete g False (\<lambda>t. tg_ID t = i)))) v"
        by (intro keep_intros toggle_repo_keeps quietD q)
      with y show "v (snd y) = v s" by (cases y) (auto dest: call_keepsD)
    qed
  qed
  with assms show ?thesis by (auto simp: call_keeps_def)
qed

lemma key_repo_keeps [keep_intros]:
  assumes "quiet g v"
  shows "call_keeps (Key_Create g k) v" "call_keeps (Key_GetByID g i) v" "call_keeps (Key_GetByApplicationID g a) v"
    "call_keeps (Key_Update g k) v" "call_keeps (Key_Delete g i) v"
  unfolding Key_Create_def Key_GetByID_def Key_GetByApplicationID_def Key_Update_def Key_Delete_def
  by (intro keep_intros quietD assms)+

lemma app_repo_keeps [keep_intros]:
  assumes "quiet (ad_apps db) v"
  shows "call_keeps (App_Create db a) v" "call_keeps (App_GetByID db i) v" "call_keeps (App_Update db a) v"
    "call_keeps (App_Exists db i) v"
  unfolding App_Create_def App_GetByID_def App_Update_def App_Exists_def
  by (intro keep_intros quietD assms)+

lemma audit_repo_keeps [keep_intros]:
  assumes "quiet g v"
  shows "call_keeps (Audit_Create g now newID a) v"
  unfolding Audit_Create_def by (intro keep_intros quietD assms)

lemma settings_repo_keeps [keep_intros]:
  assumes "quiet g v"
  shows "call_keeps (Settings_Get g newID) v" "call_keeps (Settings_Update g settings) v"
    "call_keeps (Settings_RequiresApproval g newID a) v"
  unfolding Settings_RequiresApproval_def Settings_Get_def Settings_Create_def Settings_Update_def Let_def
  by (intro keep_intros quietD assms)+

lemma team_repo_keeps [keep_intros]:
  assumes "quiet (td_teams db) v" "quiet (td_team_apps db) v" "quiet (td_apps db) v" "quiet (td_users db) v"
  shows "call_keeps (Team_GetByID db i) v" "call_keeps (Team_AddApplicationToTeam db i a p) v"
    "call_keeps (Team_RemoveApplicationFromTeam db i a) v" "call_keeps (Team_GetApplicationsByTeamID db i) v"
    "call_keeps (Team_GetTeamsByApplicationID db a) v"
  unfolding Team_GetByID_def Team_AddApplicationToTeam_def Team_RemoveApplicationFromTeam_def
    Team_GetApplicationsByTeamID_def Team_GetTeamsByApplicationID_def
  by (intro keep_intros quietD assms)+

subsection \<open>the use cases\<close>

lemma createToggleHierarchy_keeps [keep_intros]:
  assumes "\<And>p a. call_keeps (tr_GetByPath (tu_toggleRepo uc) p a) v" "\<And>t. call_keeps (tr_Create (tu_toggleRepo uc) t) v"
  shows "call_keeps (createToggleHierarchy uc ulid parts enabled editable appID parentID level) v"
proof (induction "length parts - level" arbitrary: parentID level rule: less_induct)
  case less
  have ih: "level + 1 < length parts \<Longrightarrow>
      call_keeps (createToggleHierarchy uc ulid parts enabled editable appID p (level + 1)) v" for p
    by (intro less) simp
  show ?case
    by (subst createToggleHierarchy.simps) (unfold Let_def, intro keep_intros assms ih)
qed

lemma toggle_usecase_keeps [keep_intros]:
  assumes "\<And>p a. call_keeps (tr_GetByPath (tu_toggleRepo uc) p a) v" "\<And>t. call_keeps (tr_Create (tu_toggleRepo uc) t) v"
    "\<And>i. call_keeps (pr_GetByID (tu_appRepo uc) i) v" "\<And>p a. call_keeps (tr_Exists (tu_toggleRepo uc) p a) v"
    "\<And>i. call_keeps (tr_GetByID (tu_toggleRepo uc) i) v" "\<And>t. call_keeps (tr_Update (tu_toggleRepo uc) t) v"
    "\<And>i by. call_keeps (tr_MarkDeletionMeta (tu_toggleRepo uc) i by) v" "\<And>i. call_keeps (tr_Delete (tu_toggleRepo uc) i) v"
  shows "call_keeps (CreateToggle uc ulid path enabled editable appID) v"
    "call_keeps (UpdateToggleWithRule pf tokens texts uc i b h rule appID) v"
    "call_keeps (BulkUpdateEnabled uc is b appID) v"
    "call_keeps (DeleteToggleByID uc i appID by) v"
  unfolding CreateToggle_def UpdateToggleWithRule_def BulkUpdateEnabled_def UpdateToggleByID_def DeleteToggleByID_def Let_def
  by (intro keep_intros assms)+

lemma key_usecase_keeps [keep_intros]:
  assumes "\<And>k. call_keeps (kr_Create repo k) v" "\<And>i. call_keeps (kr_GetByID repo i) v"
    "\<And>a. call_keeps (kr_GetByApplicationID repo a) v" "\<And>k. call_keeps (kr_Update repo k) v"
    "\<And>i. call_keeps (kr_Delete repo i) v"
  shows "call_keeps (CreatePendingSecretKey repo src name a by) v" "call_keeps (RevokeSecretKey repo i) v"
    "call_keeps (DeleteSecretKey repo i) v" "call_keeps (ActivateAndRotateSecretKey repo i a) v"
  unfolding CreatePendingSecretKey_def createSecretKey_def RevokeSecretKey_def DeleteSecretKey_def
    ActivateAndRotateSecretKey_def rotateExistingKeys_def rotate_one_def Let_def
  by (intro keep_intros assms)+

lemma team_usecase_keeps [keep_intros]:
  assumes "\<And>i. call_keeps (tm_GetByID (te_teamRepo uc) i) v" "\<And>i. call_keeps (pr_GetByID (te_appRepo uc) i) v"
    "\<And>i. call_keeps (tm_GetApplicationsByTeamID (te_teamRepo uc) i) v"
    "\<And>i. call_keeps (tm_GetTeamsByApplicationID (te_teamRepo uc) i) v"
    "\<And>t a p. call_keeps (tm_AddApplicationToTeam (te_teamRepo uc) t a p) v"
    "\<And>t a. call_keeps (tm_RemoveApplicationFromTeam (te_teamRepo uc) t a) v"
  shows "call_keeps (AddApplicationToTeam uc t a p) v" "call_keeps (RemoveApplicationFromAllTeams uc a) v"
  unfolding AddApplicationToTeam_def RemoveApplicationFromAllTeams_def
  by (intro keep_intros assms)+

lemma app_usecase_keeps [keep_intros]:
  assumes "\<And>i. call_keeps (pr_GetByID (au_appRepo uc) i) v" "\<And>a. call_keeps (pr_Update (au_appRepo uc) a) v"
    "\<And>i. call_keeps (pr_Exists (au_appRepo uc) i) v" "\<And>i. call_keeps (pr_Delete (au_appRepo uc) i) v"
    "\<And>a. call_keeps (tr_GetByAppID (au_toggleRepo uc) a) v" "\<And>i. call_keeps (tr_Delete (au_toggleRepo uc) i) v"
  shows "call_keeps (UpdateApplication uc i name) v" "call_keeps (DeleteApplication uc i) v"
  unfolding UpdateApplication_def DeleteApplication_def Let_def
  by (intro keep_intros assms)+

lemma audit_keeps [keep_intros]:
  assumes "\<And>a. call_keeps (lr_Create (ag_repo uc) a) v"
  shows "call_keeps (RecordWithApplication uc ev txt target t a actor) v"
  unfolding RecordWithApplication_def audit_record_def Let_def
  by (intro keep_intros assms)+

text \<open>The tables in memory.\<close>

definition wt_server_db :: "int \<Rightarrow> mem server_db" where
  "wt_server_db now =
     \<lparr> sd_toggles = wt_toggles now, sd_users = wt_users, sd_apps = wt_apps, sd_keys = wt_keys, sd_teams = wt_teams,
       sd_team_users = wt_team_users, sd_team_apps = wt_team_apps, sd_requests = wt_requests,
       sd_settings = wt_settings, sd_audit = wt_audit, sd_user_apps = wt_user_apps, sd_tx = wt_tx \<rparr>"

end
