(* ===== verification/ApprovalSystem.thy ===== *)
theory ApprovalSystem
  imports Wiring
begin

text \<open>
  The approval workflow as a system: the use case of \<open>handler/init.go\<close> over a database, the steps its calls
  make, and what holds in every reachable state. The locale \<open>approval_db\<close> states what the workflow needs of
  the database: GORM's laws for the requests and the memberships, transactions, and that the calls of the
  other tables leave these two alone.
\<close>

text \<open>The parts of the wired use case.\<close>

lemma uc_parts:
  "ax_requestRepo (NewApprovalUseCase db e) = NewApprovalRequestRepository (request_db_of db e) (de_now e)"
  "ax_approverRepo (NewApprovalUseCase db e) = NewTeamApproverRepository (team_db_of db e)"
  "ax_settingsRepo (NewApprovalUseCase db e) = NewApprovalSettingsRepository (sd_settings db) (de_settingsID e)"
  "ax_userRepo (NewApprovalUseCase db e) = NewUserRepository (user_db_of db)"
  "ax_teamRepo (NewApprovalUseCase db e) = NewTeamRepository (team_db_of db e)"
  "ax_appRepo (NewApprovalUseCase db e) = NewApplicationRepository (app_db_of db e)"
  "ax_toggleRepo (NewApprovalUseCase db e) = toggle_repo_impl (sd_toggles db) (sd_users db)"
  "tu_toggleRepo (ax_toggleUseCase (NewApprovalUseCase db e)) = toggle_repo_impl (sd_toggles db) (sd_users db)"
  "tu_appRepo (ax_toggleUseCase (NewApprovalUseCase db e)) = NewApplicationRepository (app_db_of db e)"
  "te_teamRepo (ax_teamUseCase (NewApprovalUseCase db e)) = NewTeamRepository (team_db_of db e)"
  "te_appRepo (ax_teamUseCase (NewApprovalUseCase db e)) = NewApplicationRepository (app_db_of db e)"
  "au_appRepo (ax_appUseCase (NewApprovalUseCase db e)) = NewApplicationRepository (app_db_of db e)"
  "au_toggleRepo (ax_appUseCase (NewApprovalUseCase db e)) = toggle_repo_impl (sd_toggles db) (sd_users db)"
  "ax_keyRepo (NewApprovalUseCase db e) = NewSecretKeyRepository (sd_keys db)"
  "ax_audit (NewApprovalUseCase db e) =
     Some (NewAuditUseCase (NewAuditLogRepository (sd_audit db) (de_now e) (de_auditID e))
       (NewTeamRepository (team_db_of db e)))"
  by (simp_all add: NewApprovalUseCase_def NewApplicationUseCase_def Let_def)

text \<open>The calls of the repositories.\<close>

lemmas repo_fields = toggle_repo_impl_def NewApplicationRepository_def NewTeamRepository_def
  NewSecretKeyRepository_def NewAuditLogRepository_def NewAuditUseCase_def NewUserRepository_def

lemma repo_calls:
  "tr_Create (toggle_repo_impl g us) = Toggle_Create g" "tr_GetByID (toggle_repo_impl g us) = Toggle_GetByID g"
  "tr_GetByPath (toggle_repo_impl g us) = Toggle_GetByPath g" "tr_GetByAppID (toggle_repo_impl g us) = Toggle_GetByAppID g"
  "tr_Update (toggle_repo_impl g us) = Toggle_Update g" "tr_Delete (toggle_repo_impl g us) = Toggle_Delete g"
  "tr_Exists (toggle_repo_impl g us) = Toggle_Exists g"
  "tr_MarkDeletionMeta (toggle_repo_impl g us) = Toggle_MarkDeletionMeta g"
  "pr_Create (NewApplicationRepository a) = App_Create a" "pr_GetByID (NewApplicationRepository a) = App_GetByID a"
  "pr_Update (NewApplicationRepository a) = App_Update a" "pr_Exists (NewApplicationRepository a) = App_Exists a"
  "pr_Delete (NewApplicationRepository a) = App_Delete a"
  "tm_GetByID (NewTeamRepository t) = Team_GetByID t"
  "tm_AddApplicationToTeam (NewTeamRepository t) = Team_AddApplicationToTeam t"
  "tm_RemoveApplicationFromTeam (NewTeamRepository t) = Team_RemoveApplicationFromTeam t"
  "tm_GetApplicationsByTeamID (NewTeamRepository t) = Team_GetApplicationsByTeamID t"
  "tm_GetTeamsByApplicationID (NewTeamRepository t) = Team_GetTeamsByApplicationID t"
  "kr_Create (NewSecretKeyRepository k) = Key_Create k" "kr_GetByID (NewSecretKeyRepository k) = Key_GetByID k"
  "kr_GetByApplicationID (NewSecretKeyRepository k) = Key_GetByApplicationID k"
  "kr_Update (NewSecretKeyRepository k) = Key_Update k" "kr_Delete (NewSecretKeyRepository k) = Key_Delete k"
  "lr_Create (ag_repo (NewAuditUseCase (NewAuditLogRepository l now newID) tm)) = Audit_Create l now newID"
  "ur_GetByID (NewUserRepository u) = User_GetByID u"
  "tm_GetTeamsByUserID (NewTeamRepository t) = Team_GetTeamsByUserID t"
  by (simp_all add: repo_fields)

text \<open>Who may act on a team's requests: a root user, or an approver of the team.\<close>

definition may_act :: "team_user list \<Rightarrow> user \<Rightarrow> string \<Rightarrow> bool" where
  "may_act ms u teamID \<longleftrightarrow> IsRoot u
     \<or> (\<exists>m\<in>set ms. mb_TeamID m = teamID \<and> mb_UserID m = us_ID u \<and> mb_IsApprover m)"

text \<open>A decided request was decided by somebody else than its requester, before it expired.\<close>

definition four_eyes :: "approval_request \<Rightarrow> bool" where
  "four_eyes x \<longleftrightarrow> (if rq_Status x = Approved \<or> rq_Status x = Rejected
     then (\<exists>u t. rq_ActionedBy x = Some u \<and> u \<noteq> rq_RequestedBy x \<and> rq_ActionedAt x = Some t \<and> t \<le> rq_ExpiresAt x)
     else rq_ActionedBy x = None)"

text \<open>The requests and memberships after a call that adds at most one request, a pending one.\<close>

definition opened ::
    "approval_request list \<times> team_user list \<Rightarrow> approval_request list \<times> team_user list \<Rightarrow> bool" where
  "opened v w \<longleftrightarrow> snd w = snd v \<and> (fst w = fst v
     \<or> (\<exists>x. fst w = fst v @ [x] \<and> rq_Status x = Pending \<and> rq_ActionedBy x = None))"

text \<open>The calls of the use case; each with its own clock, identifiers and caller.\<close>

inductive approval_step :: "'d server_db \<Rightarrow> 'd \<Rightarrow> 'd \<Rightarrow> bool" for db where
  step_create: "CreateApprovalRequest (NewApprovalUseCase db e) env a descr by team app toggle data d = Some (r, d')
    \<Longrightarrow> approval_step db d d'"
| step_suggest: "CreateSuggestion (NewApprovalUseCase db e) env a descr by team app toggle data d = Some (r, d')
    \<Longrightarrow> approval_step db d d'"
| step_approve: "ApproveRequest (NewApprovalUseCase db e) env i u d = Some (r', d') \<Longrightarrow> approval_step db d d'"
| step_reject: "RejectRequest (NewApprovalUseCase db e) env i u reason d = Some (r', d') \<Longrightarrow> approval_step db d d'"
| step_withdraw: "WithdrawRequest (NewApprovalUseCase db e) i u d = Some (r', d') \<Longrightarrow> approval_step db d d'"
| step_execute: "ExecuteApprovedAction (NewApprovalUseCase db e) env i u d = Some (r', d') \<Longrightarrow> approval_step db d d'"
| step_expire: "MarkExpiredRequests (NewApprovalUseCase db e) d = Some (r', d') \<Longrightarrow> approval_step db d d'"
| step_approver: "SetTeamApprover (NewApprovalUseCase db e) t i b by d = Some (r', d') \<Longrightarrow> approval_step db d d'"
| step_settings: "UpdateApprovalSettings (NewApprovalUseCase db e) i req d = Some (r2, d') \<Longrightarrow> approval_step db d d'"

inductive_cases approval_stepE: "approval_step db d d'"

locale approval_db =
  requests: gorm_table "sd_requests db" "\<lambda>d. rq (content d)" "\<lambda>_. True" request_columns "\<lambda>r. r" rq_ID
    "\<lambda>x r. rq_ID x = rq_ID r" "\<lambda>_. None" +
  members: gorm_table "sd_team_users db" "\<lambda>d. mb (content d)" "\<lambda>_. True" "\<lambda>m. m" "\<lambda>m. m" member_key
    "\<lambda>x m. member_key x = member_key m" "\<lambda>_. None" +
  transaction "sd_tx db" content saved
  for db :: "'d server_db" and content :: "'d \<Rightarrow> 'c" and saved :: "'d \<Rightarrow> 'c option"
    and rq :: "'c \<Rightarrow> approval_request list" and mb :: "'c \<Rightarrow> team_user list" +
  assumes others: "quiet (sd_toggles db) (\<lambda>d. (rq (content d), mb (content d), saved d))"
      "quiet (sd_users db) (\<lambda>d. (rq (content d), mb (content d), saved d))"
      "quiet (sd_apps db) (\<lambda>d. (rq (content d), mb (content d), saved d))"
      "quiet (sd_keys db) (\<lambda>d. (rq (content d), mb (content d), saved d))"
      "quiet (sd_teams db) (\<lambda>d. (rq (content d), mb (content d), saved d))"
      "quiet (sd_team_apps db) (\<lambda>d. (rq (content d), mb (content d), saved d))"
      "quiet (sd_settings db) (\<lambda>d. (rq (content d), mb (content d), saved d))"
      "quiet (sd_audit db) (\<lambda>d. (rq (content d), mb (content d), saved d))"
    and apart: "keeps (sd_requests db) (\<lambda>d. mb (content d))"
    and members_apart: "keeps (sd_team_users db) (\<lambda>d. rq (content d))"
    and insert: "g_Create (sd_requests db) r d = Some (res, d') \<Longrightarrow>
        rq (content d') = rq (content d) \<or> rq (content d') = rq (content d) @ [request_columns r]"
begin

abbreviation view :: "'d \<Rightarrow> approval_request list \<times> team_user list" where
  "view \<equiv> \<lambda>d. (rq (content d), mb (content d))"

lemma quiet_view [keep_intros]:
  "quiet (sd_toggles db) view" "quiet (sd_users db) view" "quiet (sd_apps db) view" "quiet (sd_keys db) view"
  "quiet (sd_teams db) view" "quiet (sd_team_apps db) view" "quiet (sd_settings db) view" "quiet (sd_audit db) view"
  by (rule quiet_part[OF others(1)] quiet_part[OF others(2)] quiet_part[OF others(3)] quiet_part[OF others(4)]
      quiet_part[OF others(5)] quiet_part[OF others(6)] quiet_part[OF others(7)] quiet_part[OF others(8)], simp)+

text \<open>A rolled back delete gives the requests and the memberships back as they were.\<close>

lemma or_rollback_keeps:
  assumes "call_keeps step (\<lambda>d. (rq (content d), mb (content d), saved d))"
    and "saved d = Some c" "view d = (rq c, mb c)"
    and "\<And>d1. saved d1 = Some c \<Longrightarrow> view d1 = (rq c, mb c) \<Longrightarrow> rest d1 = Some (r, d') \<Longrightarrow> view d' = (rq c, mb c)"
    and "or_rollback (app_db_of db e) step rest d = Some (r, d')"
  shows "view d' = (rq c, mb c)"
  using assms(5) unfolding or_rollback_def
proof (rule attempt_Some)
  fix err d1 assume a: "step d = Some (Inl err, d1)"
    and b: "attempt (tx_Rollback (ad_tx (app_db_of db e))) (\<lambda>_. fail err) (\<lambda>_. fail err) d1 = Some (r, d')"
  from call_keepsD[OF assms(1) a] assms(2) have "saved d1 = Some c" by simp
  from rollback[OF this] obtain r2 d2 where "tx_Rollback (sd_tx db) d1 = Some (r2, d2)" "content d2 = c" by blast
  with b show ?thesis by (cases r2) (auto simp: app_db_of_def fail_def)
next
  fix u d1 assume a: "step d = Some (Inr u, d1)" "rest d1 = Some (r, d')"
  from call_keepsD[OF assms(1) a(1)] assms(2,3) have "saved d1 = Some c" "view d1 = (rq c, mb c)" by auto
  from assms(4)[OF this a(2)] show ?thesis .
qed

lemma App_Delete_keeps [keep_intros]: "call_keeps (App_Delete (app_db_of db e) i) view"
proof -
  have "view d' = view d" if a: "App_Delete (app_db_of db e) i d = Some (r, d')" for d r d'
  proof -
    from begin_tx[of d] obtain r0 d0 where b: "tx_Begin (sd_tx db) d = Some (r0, d0)" "content d0 = content d"
      "r0 = Inr () \<longrightarrow> saved d0 = Some (content d)" by blast
    show ?thesis
    proof (cases r0)
      case (Inl err)
      with a b show ?thesis by (auto simp: App_Delete_def app_db_of_def fail_def)
    next
      case (Inr u)
      with b have s: "saved d0 = Some (content d)" "view d0 = (rq (content d), mb (content d))" by auto
      have commit_view: "view d2 = (rq (content d), mb (content d))"
        if "saved d1 = Some (content d)" "view d1 = (rq (content d), mb (content d))"
          "tx_Commit (sd_tx db) d1 = Some (r, d2)" for d1 d2
        using commit[OF that(1)] that(2,3) by (auto split: if_splits)
      note step = or_rollback_keeps[where e = e and r = r, OF quietD(7)]
      have "view d' = (rq (content d), mb (content d))"
        by (rule step[OF others(1) s step[OF others(6) _ _ step[OF others(4) _ _ step[OF others(3) _ _ commit_view]]]])
           (use a b Inr in \<open>simp_all add: App_Delete_def app_db_of_def\<close>)
      then show ?thesis by simp
    qed
  qed
  then show ?thesis by (auto simp: call_keeps_def)
qed

text \<open>No action of another use case touches the requests or the memberships.\<close>

lemma run_action_keeps: "call_keeps (run_action (NewApprovalUseCase db e) env request caller) view"
proof -
  have q: "quiet (td_teams (team_db_of db e)) view" "quiet (td_team_apps (team_db_of db e)) view"
    "quiet (td_apps (team_db_of db e)) view" "quiet (td_users (team_db_of db e)) view"
    "quiet (ad_apps (app_db_of db e)) view"
    using quiet_view by (simp_all add: team_db_of_def app_db_of_def)
  note rules = keep_intros toggle_repo_keeps[OF quiet_view(1)] Toggle_Delete_keeps[OF quiet_view(1)]
    key_repo_keeps[OF quiet_view(4)] app_repo_keeps[OF q(5)] team_repo_keeps[OF q(1-4)]
  show ?thesis
    unfolding run_action_def executeToggleCreateAction_def executeToggleUpdateAction_def executeBulkToggleAction_def
      executeToggleDeleteAction_def executeApplicationCreateAction_def executeApplicationUpdateAction_def
      executeApplicationDeleteAction_def executeSecretKeyCreateAction_def executeSecretKeyDeleteAction_def Let_def
    by (cases "rq_ActionType request"; simp only: action_type.simps)
       (intro rules | simp only: uc_parts repo_calls)+
qed

text \<open>Reads of the memberships, and everything the workflow records, leave the view alone.\<close>

lemma member_reads: "call_keeps (g_First (sd_team_users db) u P) w" "call_keeps (g_Find (sd_team_users db) u P k) w"
  using members.first[of u P] members.find[of u P k] by (auto simp: call_keeps_def) (metis option.inject prod.inject)+

lemma user_reads [keep_intros]: "call_keeps (User_GetByID (user_db_of db) i) view"
  "call_keeps (Team_GetTeamsByUserID (team_db_of db e) i) view"
  unfolding User_GetByID_def with_teams_def Team_GetTeamsByUserID_def
  by (simp_all add: user_db_of_def team_db_of_def) (intro keep_intros member_reads quietD)+

lemma record_keeps [keep_intros]:
  "call_keeps (record_decision (NewApprovalUseCase db e) ev msg request actor) view"
  "call_keeps (recordAuditWithApplication (NewApprovalUseCase db e) ev msg target t a actor) view"
  "call_keeps (resolveApprovalExecutionAudit (NewApprovalUseCase db e) request) view"
  "call_keeps (approvalRequestTarget (NewApprovalUseCase db e) request) view"
proof -
  have q: "quiet (td_teams (team_db_of db e)) view" "quiet (td_team_apps (team_db_of db e)) view"
    "quiet (td_apps (team_db_of db e)) view" "quiet (td_users (team_db_of db e)) view"
    "quiet (ad_apps (app_db_of db e)) view"
    using quiet_view by (simp_all add: team_db_of_def app_db_of_def)
  note rules = keep_intros toggle_repo_keeps[OF quiet_view(1)] app_repo_keeps[OF q(5)] team_repo_keeps[OF q(1-4)]
    audit_repo_keeps[OF quiet_view(8)]
  have names: "call_keeps (toggle_path_of (NewApprovalUseCase db e) request) view"
    "call_keeps (app_name_of (NewApprovalUseCase db e) request) view"
    "call_keeps (team_name_of (NewApprovalUseCase db e) request) view" for request
    unfolding toggle_path_of_def app_name_of_def team_name_of_def
    by (intro rules | simp only: uc_parts repo_calls)+
  show target: "call_keeps (approvalRequestTarget (NewApprovalUseCase db e) request) view" for request
    unfolding approvalRequestTarget_def Let_def
    by (cases "rq_ActionType request"; simp only: action_type.simps) (intro names keep_intros)+
  show audit: "call_keeps (recordAuditWithApplication (NewApprovalUseCase db e) ev msg target t a actor) view"
    for ev msg target t a actor
    unfolding recordAuditWithApplication_def uc_parts option.case
    by (intro audit_keeps) (simp only: repo_calls, intro rules)
  show "call_keeps (record_decision (NewApprovalUseCase db e) ev msg request actor) view"
    unfolding record_decision_def by (intro keep_intros target audit)
  show "call_keeps (resolveApprovalExecutionAudit (NewApprovalUseCase db e) request) view"
    unfolding resolveApprovalExecutionAudit_def by (intro keep_intros names)
qed

text \<open>Reading and writing a request.\<close>

lemma fetch:
  "(\<exists>x. x \<in> set (rq (content d)) \<and> rq_ID x = i
      \<and> db_call (qr_GetByID (ax_requestRepo (NewApprovalUseCase db e)) i) d = Some (Inr (without_names x), d))
   \<or> (\<exists>err. db_call (qr_GetByID (ax_requestRepo (NewApprovalUseCase db e)) i) d = Some (Inl err, d))"
proof -
  from requests.first[of True "\<lambda>r. rq_ID r = i" d] obtain res where
    "g_First (sd_requests db) True (\<lambda>r. rq_ID r = i) d = Some (res, d)" "found (\<lambda>r. rq_ID r = i) (rq (content d)) res"
    by auto
  then show ?thesis
    by (cases res) (auto simp: uc_parts NewApprovalRequestRepository_def Request_GetByID_def request_db_of_def
        found_def ok_def fail_def)
qed

lemma store:
  assumes "\<exists>x\<in>set (rq (content d)). rq_ID x = rq_ID r"
  shows "\<exists>d'. db_call (qr_Update (ax_requestRepo (NewApprovalUseCase db e)) r) d = Some (Inr (), d')
    \<and> view d' = (map (\<lambda>x. if rq_ID x = rq_ID r then request_columns r else x) (rq (content d)), mb (content d))"
proof -
  from requests.save[of d r] assms obtain d' where "g_Save (sd_requests db) r d = Some (Inr (), d')"
    "rq (content d') = map (\<lambda>x. if True \<and> rq_ID x = rq_ID r then request_columns r else x) (rq (content d))" by auto
  with keepsD(2)[OF apart this(1)] show ?thesis
    by (simp add: uc_parts NewApprovalRequestRepository_def Request_Update_def request_db_of_def)
qed

lemma can_act:
  "\<exists>r. Access_CanAct (NewApprovalUseCase db e) u teamID d = Some (r, d) \<and> (r = Inr True \<longrightarrow> may_act (mb (content d)) u teamID)
     \<and> (distinct (map member_key (mb (content d))) \<longrightarrow> r = Inr (may_act (mb (content d)) u teamID))"
proof (cases "IsRoot u")
  case True
  then show ?thesis by (simp add: Access_CanAct_def may_act_def ok_def)
next
  case False
  let ?P = "\<lambda>m. mb_TeamID m = teamID \<and> mb_UserID m = us_ID u"
  from members.first[of False ?P d] obtain res where r: "g_First (sd_team_users db) False ?P d = Some (res, d)"
    "found ?P (mb (content d)) res" by auto
  show ?thesis
  proof (cases res)
    case (Inl err)
    with r False show ?thesis
      by (auto simp: Access_CanAct_def uc_parts NewTeamApproverRepository_def Approver_IsUserApprover_def team_db_of_def
          found_def ok_def may_act_def)
  next
    case (Inr m)
    from r(2) Inr have m: "m \<in> set (mb (content d))" "?P m" by (auto simp: found_def)
    have "m' = m" if "distinct (map member_key (mb (content d)))" "m' \<in> set (mb (content d))" "?P m'" for m'
      using that m by (auto simp: distinct_map member_key_def inj_on_def)
    then have "distinct (map member_key (mb (content d))) \<Longrightarrow> may_act (mb (content d)) u teamID = mb_IsApprover m"
      using m False unfolding may_act_def by blast
    moreover have "mb_IsApprover m \<Longrightarrow> may_act (mb (content d)) u teamID" using m unfolding may_act_def by blast
    moreover have "Access_CanAct (NewApprovalUseCase db e) u teamID d = Some (Inr (mb_IsApprover m), d)"
      using r(1) Inr False by (simp add: Access_CanAct_def uc_parts NewTeamApproverRepository_def
          Approver_IsUserApprover_def team_db_of_def ok_def)
    ultimately show ?thesis by auto
  qed
qed

subsection \<open>the steps\<close>

text \<open>What a call may do to the requests: nothing, or one of these changes.\<close>

lemma ApproveRequest_effect:
  assumes "ApproveRequest (NewApprovalUseCase db e) env i u d = Some (r, d')"
  shows "view d' = view d \<and> r \<noteq> Inr () \<or>
    (\<exists>x. x \<in> set (rq (content d)) \<and> rq_ID x = i \<and> CanBeApprovedBy (en_now env) x (us_ID u)
      \<and> may_act (mb (content d)) u (rq_TeamID x)
      \<and> view d' = (map (\<lambda>y. if rq_ID y = i then request_columns ((without_names x)\<lparr> rq_Status := Approved,
            rq_ActionedBy := Some (us_ID u), rq_ActionedAt := Some (en_now env) \<rparr>) else y) (rq (content d)), mb (content d)))"
proof -
  from fetch[of d i e] consider
    (x) x where "x \<in> set (rq (content d))" "rq_ID x = i"
      "db_call (qr_GetByID (ax_requestRepo (NewApprovalUseCase db e)) i) d = Some (Inr (without_names x), d)"
  | (err) err where "db_call (qr_GetByID (ax_requestRepo (NewApprovalUseCase db e)) i) d = Some (Inl err, d)" by blast
  then show ?thesis
  proof cases
    case err
    with assms show ?thesis by (auto simp: ApproveRequest_def fail_def simp del: call_results)
  next
    case x
    let ?x = "without_names x"
    have f: "CanBeApprovedBy (en_now env) ?x (us_ID u) = CanBeApprovedBy (en_now env) x (us_ID u)"
      "rq_TeamID ?x = rq_TeamID x" "rq_ID ?x = i"
      using x(2) by (simp_all add: CanBeApprovedBy_def without_names_def Request_IsExpired_def)
    show ?thesis
    proof (cases "CanBeApprovedBy (en_now env) x (us_ID u)")
      case False
      with assms x(3) f(1) show ?thesis
        by (auto simp: ApproveRequest_def text_fail_def fail_def simp del: call_results)
    next
      case True
      then have ap: "Approve (en_now env) (us_ID u) ?x = Inr (?x\<lparr> rq_Status := Approved,
            rq_ActionedBy := Some (us_ID u), rq_ActionedAt := Some (en_now env) \<rparr>)"
        unfolding f(1)[symmetric] by (auto simp: CanBeApprovedBy_def Approve_def split: if_splits)
      from can_act[of e u "rq_TeamID ?x" d] obtain ra where
        ra: "Access_CanAct (NewApprovalUseCase db e) u (rq_TeamID ?x) d = Some (ra, d)"
          "ra = Inr True \<longrightarrow> may_act (mb (content d)) u (rq_TeamID ?x)" by blast
      show ?thesis
      proof (cases "ra = Inr True")
        case False
        with assms x(3) f(1) True ra(1) show ?thesis
          by (cases ra) (auto simp: ApproveRequest_def text_fail_def fail_def simp del: call_results)
      next
        case t: True
        let ?y = "?x\<lparr> rq_Status := Approved, rq_ActionedBy := Some (us_ID u), rq_ActionedAt := Some (en_now env) \<rparr>"
        have "\<exists>z\<in>set (rq (content d)). rq_ID z = rq_ID ?y" using x(1,2) f(3) by auto
        from store[OF this, of e] obtain d1 where
          d1: "db_call (qr_Update (ax_requestRepo (NewApprovalUseCase db e)) ?y) d = Some (Inr (), d1)"
            "view d1 = (map (\<lambda>z. if rq_ID z = i then request_columns ?y else z) (rq (content d)), mb (content d))"
          using f(3) by auto
        from assms x(3) f True ra t ap d1(1) have
          "record_decision (NewApprovalUseCase db e) AuditEventApprovalApproved
             (''Approved '' @ bold (rq_Description ?y) @ '' request'') ?y u d1 = Some (r, d')"
          by (simp add: ApproveRequest_def del: call_results)
        from call_keepsD[OF record_keeps(1) this] d1(2) True ra t x f show ?thesis by auto
      qed
    qed
  qed
qed

lemma delete_pending_key_keeps [keep_intros]:
  "call_keeps (delete_pending_key (NewApprovalUseCase db e) msg request) view"
  unfolding delete_pending_key_def
  by (intro keep_intros quiet_view | simp only: uc_parts repo_calls)+

lemma RejectRequest_effect:
  assumes "RejectRequest (NewApprovalUseCase db e) env i u reason d = Some (r, d')"
  shows "view d' = view d \<and> r \<noteq> Inr () \<or>
    (\<exists>x y. x \<in> set (rq (content d)) \<and> rq_ID x = i \<and> CanBeApprovedBy (en_now env) x (us_ID u)
      \<and> may_act (mb (content d)) u (rq_TeamID x) \<and> Reject (en_now env) (us_ID u) reason (without_names x) = Inr y
      \<and> view d' = (map (\<lambda>z. if rq_ID z = i then request_columns y else z) (rq (content d)), mb (content d)))"
proof -
  from fetch[of d i e] consider
    (x) x where "x \<in> set (rq (content d))" "rq_ID x = i"
      "db_call (qr_GetByID (ax_requestRepo (NewApprovalUseCase db e)) i) d = Some (Inr (without_names x), d)"
  | (err) err where "db_call (qr_GetByID (ax_requestRepo (NewApprovalUseCase db e)) i) d = Some (Inl err, d)" by blast
  then show ?thesis
  proof cases
    case err
    with assms show ?thesis by (auto simp: RejectRequest_def fail_def simp del: call_results)
  next
    case x
    let ?x = "without_names x"
    have f: "CanBeApprovedBy (en_now env) ?x (us_ID u) = CanBeApprovedBy (en_now env) x (us_ID u)"
      "rq_TeamID ?x = rq_TeamID x" "rq_ID ?x = i"
      using x(2) by (simp_all add: CanBeApprovedBy_def without_names_def Request_IsExpired_def)
    show ?thesis
    proof (cases "CanBeApprovedBy (en_now env) x (us_ID u)")
      case False
      with assms x(3) f(1) show ?thesis
        by (auto simp: RejectRequest_def text_fail_def fail_def simp del: call_results)
    next
      case True
      then obtain y where y: "Reject (en_now env) (us_ID u) reason ?x = Inr y" "rq_ID y = i"
        unfolding f(1)[symmetric] using f(3) by (auto simp: CanBeApprovedBy_def Reject_def Let_def split: if_splits)
      from can_act[of e u "rq_TeamID ?x" d] obtain ra where
        ra: "Access_CanAct (NewApprovalUseCase db e) u (rq_TeamID ?x) d = Some (ra, d)"
          "ra = Inr True \<longrightarrow> may_act (mb (content d)) u (rq_TeamID ?x)" by blast
      show ?thesis
      proof (cases "ra = Inr True")
        case False
        with assms x(3) f(1) True ra(1) show ?thesis
          by (cases ra) (auto simp: RejectRequest_def text_fail_def fail_def simp del: call_results)
      next
        case t: True
        have "\<exists>z\<in>set (rq (content d)). rq_ID z = rq_ID y" using x(1,2) y(2) by auto
        from store[OF this, of e] obtain d1 where
          d1: "db_call (qr_Update (ax_requestRepo (NewApprovalUseCase db e)) y) d = Some (Inr (), d1)"
            "view d1 = (map (\<lambda>z. if rq_ID z = i then request_columns y else z) (rq (content d)), mb (content d))"
          using y(2) by auto
        have k: "call_keeps (attempt (delete_pending_key (NewApprovalUseCase db e)
             ''failed to delete rejected pending secret key'' y) fail (\<lambda>_.
           record_decision (NewApprovalUseCase db e) AuditEventApprovalRejected
             (''Rejected '' @ bold (rq_Description y) @ '' request'') y u)) view"
          by (intro keep_intros record_keeps delete_pending_key_keeps)
        from assms x(3) f True ra t y(1) d1(1) have
          "attempt (delete_pending_key (NewApprovalUseCase db e) ''failed to delete rejected pending secret key'' y)
             fail (\<lambda>_. record_decision (NewApprovalUseCase db e) AuditEventApprovalRejected
             (''Rejected '' @ bold (rq_Description y) @ '' request'') y u) d1 = Some (r, d')"
          by (simp add: RejectRequest_def del: call_results)
        from call_keepsD[OF k this] d1(2) True ra t x f y(1) show ?thesis by auto
      qed
    qed
  qed
qed

lemma WithdrawRequest_effect:
  assumes "WithdrawRequest (NewApprovalUseCase db e) i u d = Some (r, d')"
  shows "view d' = view d \<or> view d' = (filter (\<lambda>x. rq_ID x \<noteq> i) (rq (content d)), mb (content d))"
proof -
  have keep: "call_keeps (delete_pending_key (NewApprovalUseCase db e) msg x) view"
    "call_keeps (record_decision (NewApprovalUseCase db e) ev msg x u) view" for msg ev x
    by (intro delete_pending_key_keeps record_keeps)+
  have del: "\<exists>d2. db_call (qr_Delete (ax_requestRepo (NewApprovalUseCase db e)) i) d1 = Some (Inr (), d2)
    \<and> view d2 = (filter (\<lambda>x. rq_ID x \<noteq> i) (rq (content d1)), mb (content d1))" for d1
    using requests.delete[of False "\<lambda>x. rq_ID x = i" d1] keepsD(4)[OF apart]
    by (auto simp: uc_parts NewApprovalRequestRepository_def Request_Delete_def request_db_of_def map_filter_filter)
  have delD: "r2 = Inr () \<and> rq (content d2) = filter (\<lambda>x. rq_ID x \<noteq> i) (rq (content d1)) \<and> mb (content d2) = mb (content d1)"
    if "db_call (qr_Delete (ax_requestRepo (NewApprovalUseCase db e)) i) d1 = Some (r2, d2)" for r2 d1 d2
    using del[of d1] that by (auto simp del: call_results)
  from fetch[of d i e] show ?thesis
  proof (elim disjE exE conjE)
    fix x assume "db_call (qr_GetByID (ax_requestRepo (NewApprovalUseCase db e)) i) d = Some (Inr (without_names x), d)"
    with assms show ?thesis
      unfolding WithdrawRequest_def
      by (auto simp: text_fail_def fail_def simp del: call_results split: if_splits elim!: attempt_Some
         dest!: call_keepsD[OF keep(1)] call_keepsD[OF keep(2)] delD)
  next
    fix err assume "db_call (qr_GetByID (ax_requestRepo (NewApprovalUseCase db e)) i) d = Some (Inl err, d)"
    with assms show ?thesis by (auto simp: WithdrawRequest_def fail_def simp del: call_results)
  qed
qed

text \<open>Everything after the two checks of \<open>ExecuteApprovedAction\<close>.\<close>

lemma execution_keeps:
  "call_keeps (attempt (resolveApprovalExecutionAudit (NewApprovalUseCase db e) x) fail (\<lambda>line.
       attempt (run_action (NewApprovalUseCase db e) env x u) fail (\<lambda>applicationID.
       case line of
         None \<Rightarrow> ok ()
       | Some (eventType, msg, target) \<Rightarrow>
           recordAuditWithApplication (NewApprovalUseCase db e) eventType msg target (Some (rq_TeamID x)) applicationID u))) view"
  by (intro keep_intros record_keeps run_action_keeps)

lemma ExecuteApprovedAction_effect:
  assumes "ExecuteApprovedAction (NewApprovalUseCase db e) env i u d = Some (r, d')"
  shows "view d' = view d \<and>
    (d' = d \<and> r \<noteq> Inr ()
     \<or> (\<exists>x\<in>set (rq (content d)). rq_ID x = i \<and> rq_Status x = Approved \<and> may_act (mb (content d)) u (rq_TeamID x)))"
proof -
  from fetch[of d i e] consider
    (x) x where "x \<in> set (rq (content d))" "rq_ID x = i"
      "db_call (qr_GetByID (ax_requestRepo (NewApprovalUseCase db e)) i) d = Some (Inr (without_names x), d)"
  | (err) err where "db_call (qr_GetByID (ax_requestRepo (NewApprovalUseCase db e)) i) d = Some (Inl err, d)" by blast
  then show ?thesis
  proof cases
    case err
    with assms show ?thesis by (auto simp: ExecuteApprovedAction_def fail_def simp del: call_results)
  next
    case x
    let ?x = "without_names x"
    have f: "rq_TeamID ?x = rq_TeamID x" "rq_Status ?x = rq_Status x" by (simp_all add: without_names_def)
    from can_act[of e u "rq_TeamID ?x" d] obtain ra where
      ra: "Access_CanAct (NewApprovalUseCase db e) u (rq_TeamID ?x) d = Some (ra, d)"
        "ra = Inr True \<longrightarrow> may_act (mb (content d)) u (rq_TeamID ?x)" by blast
    show ?thesis
    proof (cases "ra = Inr True \<and> rq_Status x = Approved")
      case False
      with assms x(3) f(2) ra(1) show ?thesis
        by (cases ra) (auto simp: ExecuteApprovedAction_def text_fail_def fail_def simp del: call_results split: if_splits)
    next
      case True
      with assms x(3) f(2) ra(1) have
        "attempt (resolveApprovalExecutionAudit (NewApprovalUseCase db e) ?x) fail (\<lambda>line.
           attempt (run_action (NewApprovalUseCase db e) env ?x u) fail (\<lambda>applicationID.
           case line of
             None \<Rightarrow> ok ()
           | Some (eventType, msg, target) \<Rightarrow>
               recordAuditWithApplication (NewApprovalUseCase db e) eventType msg target (Some (rq_TeamID ?x))
                 applicationID u)) d = Some (r, d')"
        by (simp add: ExecuteApprovedAction_def del: call_results)
      from call_keepsD[OF execution_keeps this] True ra(2) x f show ?thesis by auto
    qed
  qed
qed

definition opens :: "('d, 'e, 'a) io \<Rightarrow> bool" where
  "opens c \<longleftrightarrow> (\<forall>d r d'. c d = Some (r, d') \<longrightarrow> opened (view d) (view d'))"

lemma opens_keep: "call_keeps c view \<Longrightarrow> opens c"
  unfolding opens_def call_keeps_def opened_def by metis

lemma opens_after:
  assumes "call_keeps m view" "\<And>e. opens (h e)" "\<And>a. opens (k a)"
  shows "opens (attempt m h k)"
  unfolding opens_def
proof (intro allI impI)
  fix d r d' assume "attempt m h k d = Some (r, d')"
  then show "opened (view d) (view d')"
  proof (rule attempt_Some)
    fix e d1 assume "m d = Some (Inl e, d1)" "h e d1 = Some (r, d')"
    with assms(2)[unfolded opens_def] call_keepsD[OF assms(1)] show ?thesis by metis
  next
    fix a d1 assume "m d = Some (Inr a, d1)" "k a d1 = Some (r, d')"
    with assms(3)[unfolded opens_def] call_keepsD[OF assms(1)] show ?thesis by metis
  qed
qed

lemma opens_before:
  assumes "opens m" "\<And>e. call_keeps (h e) view" "\<And>a. call_keeps (k a) view"
  shows "opens (attempt m h k)"
  unfolding opens_def
proof (intro allI impI)
  fix d r d' assume "attempt m h k d = Some (r, d')"
  then show "opened (view d) (view d')"
  proof (rule attempt_Some)
    fix e d1 assume "m d = Some (Inl e, d1)" "h e d1 = Some (r, d')"
    with assms(1)[unfolded opens_def] call_keepsD[OF assms(2)] show ?thesis by metis
  next
    fix a d1 assume "m d = Some (Inr a, d1)" "k a d1 = Some (r, d')"
    with assms(1)[unfolded opens_def] call_keepsD[OF assms(3)] show ?thesis by metis
  qed
qed

lemma opens_cases:
  "opens (fail err)" "opens (text_fail msg)" "(b \<Longrightarrow> opens c) \<Longrightarrow> (\<not> b \<Longrightarrow> opens c') \<Longrightarrow> opens (if b then c else c')"
  by (auto intro: opens_keep keep_intros)

lemma Create_opens:
  assumes "rq_Status x = Pending" "rq_ActionedBy x = None"
  shows "opens (db_call (qr_Create (ax_requestRepo (NewApprovalUseCase db e)) x))"
proof -
  have "opened (view d) (view d')" if "g_Create (sd_requests db) x d = Some (r, d')" for d r d'
    using insert[OF that] keepsD(1)[OF apart that] assms by (auto simp: opened_def request_columns_def)
  then show ?thesis
    by (auto simp: opens_def uc_parts NewApprovalRequestRepository_def Request_Create_def request_db_of_def
        attempt_def ok_def fail_def simp del: attempt_simps attempt_bool split: option.splits sum.splits)
qed

lemma open_request_opens: "opens (open_request (NewApprovalUseCase db e) env a descr u tm by ao app toggle keyed)"
proof -
  obtain key data where "keyed = (key, data)" by (cases keyed)
  then show ?thesis
    unfolding open_request_def Let_def
    by simp (intro opens_before Create_opens record_keeps keep_intros; simp add: NewApprovalRequest_def)
qed

lemma create_opens:
  "opens (createApprovalRequestUnchecked (NewApprovalUseCase db e) env a descr who team app toggle data)"
proof -
  let ?U = "NewApprovalUseCase db e"
  have q: "quiet (td_teams (team_db_of db e)) view" "quiet (td_team_apps (team_db_of db e)) view"
    "quiet (td_apps (team_db_of db e)) view" "quiet (td_users (team_db_of db e)) view"
    "quiet (ad_apps (app_db_of db e)) view"
    using quiet_view by (simp_all add: team_db_of_def app_db_of_def)
  note rules = keep_intros user_reads toggle_repo_keeps[OF quiet_view(1)] app_repo_keeps[OF q(5)]
    team_repo_keeps[OF q(1-4)] key_repo_keeps[OF quiet_view(4)]
  have read: "call_keeps (db_call (ur_GetByID (ax_userRepo ?U) i)) view"
    "call_keeps (db_call (tm_GetByID (ax_teamRepo ?U) i)) view"
    "call_keeps (db_call (pr_GetByID (ax_appRepo ?U) i)) view"
    "call_keeps (db_call (tr_GetByID (ax_toggleRepo ?U) i)) view"
    "call_keeps (Access_CanRead ?U u i) view"
    "call_keeps (key_call (CreatePendingSecretKey (ax_keyRepo ?U) src name i who)) view" for i u src name who
    unfolding Access_CanRead_def by (intro rules | simp only: uc_parts repo_calls)+
  show ?thesis
    unfolding createApprovalRequestUnchecked_def
    by (intro opens_after opens_cases open_request_opens) (intro read keep_intros)+
qed

lemma expire_effect:
  assumes "MarkExpiredRequests (NewApprovalUseCase db e) d = Some (r, d')"
  shows "rq (content d') = map (\<lambda>x. if rq_Status x = Pending \<and> rq_ExpiresAt x \<le> de_now e
    then x\<lparr> rq_Status := Expired \<rparr> else x) (rq (content d))"
  using requests.updates[of False "\<lambda>r. rq_Status r = Pending \<and> rq_ExpiresAt r \<le> de_now e"
      "\<lambda>r. r\<lparr> rq_Status := Expired \<rparr>" d] assms
  by (auto simp: MarkExpiredRequests_def uc_parts NewApprovalRequestRepository_def Request_MarkExpiredRequests_def
      request_db_of_def)

lemma settings_keeps: "call_keeps (UpdateApprovalSettings (NewApprovalUseCase db e) i req) view"
proof -
  have g: "call_keeps (gs_Get (ax_settingsRepo (NewApprovalUseCase db e))) view"
    "call_keeps (gs_Update (ax_settingsRepo (NewApprovalUseCase db e)) x) view" for x
    by (simp_all add: uc_parts NewApprovalSettingsRepository_def settings_repo_keeps[OF quiet_view(7)])
  have u: "call_keeps (ur_GetByID (ax_userRepo (NewApprovalUseCase db e)) i) view"
    by (simp only: uc_parts repo_calls user_reads)
  show ?thesis
    unfolding UpdateApprovalSettings_def Let_def
    by (intro keep_intros g u record_keeps)
qed

lemma approver_keeps: "call_keeps (SetTeamApprover (NewApprovalUseCase db e) t i b by) (\<lambda>d. rq (content d))"
proof -
  have part: "call_keeps c view \<Longrightarrow> call_keeps c (\<lambda>d. rq (content d))" for c :: "('d, 'x, 'y) io"
    by (erule call_keeps_part) auto
  have q: "quiet (sd_settings db) (\<lambda>d. rq (content d))" "quiet (sd_teams db) (\<lambda>d. rq (content d))"
    by (rule quiet_part[OF quiet_view(7)] quiet_part[OF quiet_view(5)], simp)+
  have g: "call_keeps (gs_Get (ax_settingsRepo (NewApprovalUseCase db e))) (\<lambda>d. rq (content d))"
    by (simp add: uc_parts NewApprovalSettingsRepository_def settings_repo_keeps[OF q(1)])
  have u: "call_keeps (ur_GetByID (ax_userRepo (NewApprovalUseCase db e)) j) (\<lambda>d. rq (content d))" for j
    by (simp only: uc_parts repo_calls) (intro part user_reads)
  have t: "call_keeps (tm_GetByID (ax_teamRepo (NewApprovalUseCase db e)) j) (\<lambda>d. rq (content d))" for j
    by (simp add: uc_parts repo_calls Team_GetByID_def team_db_of_def) (intro quietD q)
  have a: "call_keeps (ar_SetUserAsApprover (ax_approverRepo (NewApprovalUseCase db e)) t i b) (\<lambda>d. rq (content d))"
    by (simp add: uc_parts NewTeamApproverRepository_def Approver_SetUserAsApprover_def team_db_of_def)
      (intro keep_intros member_reads call_keeps_table[OF members_apart])
  show ?thesis
    unfolding SetTeamApprover_def by (intro keep_intros g u t a)
qed

lemma RequiresApproval_keeps: "call_keeps (gs_RequiresApproval (ax_settingsRepo (NewApprovalUseCase db e)) a) view"
  by (simp add: uc_parts NewApprovalSettingsRepository_def settings_repo_keeps[OF quiet_view(7)])

subsection \<open>the invariant\<close>

lemma four_eyes_step:
  assumes "approval_step db d d'" "\<forall>x\<in>set (rq (content d)). four_eyes x"
  shows "\<forall>x\<in>set (rq (content d')). four_eyes x"
proof -
  have opened: "\<forall>x\<in>set (rq (content d')). four_eyes x" if "opens c" "c d = Some (r, d')" for c :: "('d, 'x, 'y) io" and r
  proof -
    from that have "opened (view d) (view d')" by (auto simp: opens_def)
    moreover have "four_eyes x" if "rq_Status x = Pending" "rq_ActionedBy x = None" for x
      using that by (simp add: four_eyes_def)
    ultimately show ?thesis using assms(2) by (auto simp: opened_def)
  qed
  have kept: "\<forall>x\<in>set (rq (content d')). four_eyes x" if "rq (content d') = rq (content d)"
    using assms(2) that by simp
  from assms(1) show ?thesis
  proof (cases rule: approval_step.cases)
    case (step_create e env a descr who team app toggle data r)
    have "opens (CreateApprovalRequest (NewApprovalUseCase db e) env a descr who team app toggle data)"
      unfolding CreateApprovalRequest_def
      by (intro opens_after opens_cases create_opens keep_intros RequiresApproval_keeps)
    from opened[OF this step_create] show ?thesis .
  next
    case (step_suggest e env a descr who team app toggle data r)
    then show ?thesis unfolding CreateSuggestion_def by (rule opened[OF create_opens])
  next
    case (step_approve e env i u r')
    from ApproveRequest_effect[OF this] kept show ?thesis
    proof (elim disjE exE conjE)
      fix x assume "CanBeApprovedBy (en_now env) x (us_ID u)"
        "view d' = (map (\<lambda>y. if rq_ID y = i then request_columns ((without_names x)\<lparr> rq_Status := Approved,
            rq_ActionedBy := Some (us_ID u), rq_ActionedAt := Some (en_now env) \<rparr>) else y) (rq (content d)), mb (content d))"
      with assms(2) show ?thesis
        by (auto simp: CanBeApprovedBy_def Request_IsExpired_def four_eyes_def request_columns_def without_names_def
            split: if_splits)
    qed auto
  next
    case (step_reject e env i u reason r')
    from RejectRequest_effect[OF this] kept show ?thesis
    proof (elim disjE exE conjE)
      fix x y assume "CanBeApprovedBy (en_now env) x (us_ID u)"
        "Reject (en_now env) (us_ID u) reason (without_names x) = Inr y"
        "view d' = (map (\<lambda>z. if rq_ID z = i then request_columns y else z) (rq (content d)), mb (content d))"
      with assms(2) show ?thesis
        by (auto simp: CanBeApprovedBy_def Reject_def Request_IsExpired_def four_eyes_def request_columns_def
            without_names_def Let_def split: if_splits)
    qed auto
  next
    case (step_withdraw e i u r')
    from WithdrawRequest_effect[OF this] assms(2) show ?thesis by auto
  next
    case (step_execute e env i u r')
    from ExecuteApprovedAction_effect[OF this] kept show ?thesis by auto
  next
    case (step_expire e r')
    from expire_effect[OF this] assms(2) show ?thesis by (auto simp: four_eyes_def split: if_splits)
  next
    case (step_approver e t i b who r')
    from call_keepsD[OF approver_keeps this] kept show ?thesis by simp
  next
    case (step_settings e i req r2)
    from call_keepsD[OF settings_keeps this] kept show ?thesis by simp
  qed
qed

lemma four_eyes_reachable:
  assumes "(approval_step db)\<^sup>*\<^sup>* d d'" "\<forall>x\<in>set (rq (content d)). four_eyes x"
  shows "\<forall>x\<in>set (rq (content d')). four_eyes x"
  using assms by (induction rule: rtranclp_induct) (auto dest: four_eyes_step)

end

section \<open>the database in memory\<close>

lemma mem_table_insert:
  assumes "g_Create (mem_table get put live columns defaults key clash erase) r d = Some (res, d')"
    and "\<And>xs d. get (put xs d) = xs"
  shows "get d' = get d \<or> get d' = get d @ [columns (defaults r)]"
  using assms by (auto simp: mem_table_def ok_def fail_def split: if_splits)

lemma wt_approval_db: "approval_db (wt_server_db now) fst snd w_requests w_team_users"
proof (intro approval_db.intro approval_db_axioms.intro)
  show "gorm_table (sd_requests (wt_server_db now)) (\<lambda>d. w_requests (fst d)) (\<lambda>_. True) request_columns (\<lambda>r. r) rq_ID
      (\<lambda>x r. rq_ID x = rq_ID r) (\<lambda>_. None)"
    using wt_requests.gorm_table_axioms by (simp add: wt_server_db_def)
  show "gorm_table (sd_team_users (wt_server_db now)) (\<lambda>d. w_team_users (fst d)) (\<lambda>_. True) (\<lambda>m. m) (\<lambda>m. m) member_key
      (\<lambda>x m. member_key x = member_key m) (\<lambda>_. None)"
    using wt_team_users.gorm_table_axioms by (simp add: wt_server_db_def)
  show "transaction (sd_tx (wt_server_db now)) fst snd"
    using wt_tx.transaction_axioms by (simp add: wt_server_db_def)
  let ?v = "\<lambda>d::mem. (w_requests (fst d), w_team_users (fst d), snd d)"
  show "quiet (sd_toggles (wt_server_db now)) ?v"
    by (simp add: wt_server_db_def) (rule quietI[OF wt_toggles.gorm_table_axioms keeps_part[OF wt_keeps(1)]], simp)
  show "quiet (sd_users (wt_server_db now)) ?v"
    by (simp add: wt_server_db_def) (rule quietI[OF wt_users.gorm_table_axioms keeps_part[OF wt_keeps(9)]], simp)
  show "quiet (sd_apps (wt_server_db now)) ?v"
    by (simp add: wt_server_db_def) (rule quietI[OF wt_apps.gorm_table_axioms keeps_part[OF wt_keeps(2)]], simp)
  show "quiet (sd_keys (wt_server_db now)) ?v"
    by (simp add: wt_server_db_def) (rule quietI[OF wt_keys.gorm_table_axioms keeps_part[OF wt_keeps(3)]], simp)
  show "quiet (sd_teams (wt_server_db now)) ?v"
    by (simp add: wt_server_db_def) (rule quietI[OF wt_teams.gorm_table_axioms keeps_part[OF wt_keeps(10)]], simp)
  show "quiet (sd_team_apps (wt_server_db now)) ?v"
    by (simp add: wt_server_db_def) (rule quietI[OF wt_team_apps.gorm_table_axioms keeps_part[OF wt_keeps(4)]], simp)
  show "quiet (sd_settings (wt_server_db now)) ?v"
    by (simp add: wt_server_db_def) (rule quietI[OF wt_settings.gorm_table_axioms keeps_part[OF wt_keeps(7)]], simp)
  show "quiet (sd_audit (wt_server_db now)) ?v"
    by (simp add: wt_server_db_def) (rule quietI[OF wt_audit.gorm_table_axioms keeps_part[OF wt_keeps(8)]], simp)
  show "keeps (sd_requests (wt_server_db now)) (\<lambda>d. w_team_users (fst d))"
    by (simp add: wt_server_db_def) (rule keeps_part[OF wt_keeps(6)], simp)
  show "keeps (sd_team_users (wt_server_db now)) (\<lambda>d. w_requests (fst d))"
    by (simp add: wt_server_db_def) (rule keeps_part[OF wt_keeps(5)], simp)
  show "w_requests (fst d') = w_requests (fst d) \<or> w_requests (fst d') = w_requests (fst d) @ [request_columns r]"
    if "g_Create (sd_requests (wt_server_db now)) r d = Some (res, d')" for r d res d'
    using mem_table_insert[OF that[unfolded wt_server_db_def server_db.simps wt_requests_def]] by simp
qed

interpretation wt_approval: approval_db "wt_server_db now" fst snd w_requests w_team_users for now
  by (rule wt_approval_db)

end
