(* ===== verification/ApprovalProps.thy ===== *)
theory ApprovalProps
  imports ApprovalSystem
begin

text \<open>
  What the approval workflow guarantees, for every database that keeps the laws of \<open>approval_db\<close> and for
  every sequence of calls. The witnesses run the workflow in the database in memory.
\<close>

section \<open>an example run\<close>

text \<open>Ann asks for a key of the application to be revoked; Bob, an approver of the team, approves and executes.\<close>

definition demo_user :: "string \<Rightarrow> user" where
  "demo_user i = \<lparr> us_ID = i, us_Name = i, us_Username = i, us_Password = [], us_Role = UserRoleUser,
     us_MustChangePassword = False, us_Active = True, us_Status = StatusActive, us_Teams = [] \<rparr>"

definition demo_world :: world where
  "demo_world = empty_world\<lparr>
     w_users := [demo_user ''ann'', demo_user ''bob''],
     w_teams := [\<lparr> te_ID = ''t'', te_Name = ''team'', te_Description = [] \<rparr>],
     w_team_users := [\<lparr> mb_TeamID = ''t'', mb_UserID = ''ann'', mb_IsApprover = False \<rparr>,
                      \<lparr> mb_TeamID = ''t'', mb_UserID = ''bob'', mb_IsApprover = True \<rparr>] \<rparr>"

definition demo_db_env :: db_env where
  "demo_db_env = \<lparr> de_now = 0, de_auditID = ''l'', de_settingsID = ''s'', de_request_created = (\<lambda>_. 0),
     de_team_created = (\<lambda>_. 0), de_app_created = (\<lambda>_. 0) \<rparr>"

definition demo_env :: call_env where
  "demo_env = \<lparr> en_now = 0, en_requestID = ''r'', en_appID = ''a'', en_toggleIDs = (\<lambda>_. []),
     en_keys = \<lparr> ks_ulid = ''k'', ks_random = None, ks_sha256 = (\<lambda>s. s) \<rparr>, en_ParseFloat = (\<lambda>_. None),
     en_tokens = (\<lambda>_. []), en_rule_text = (\<lambda>_. []) \<rparr>"

abbreviation demo_db :: "mem server_db" where "demo_db \<equiv> wt_server_db 0"
abbreviation demo_uc :: "mem approval_usecase" where "demo_uc \<equiv> NewApprovalUseCase demo_db demo_db_env"

lemma demo_run:
  "case CreateSuggestion demo_uc demo_env SecretKeyDelete ''revoke'' ''ann'' ''t'' None None
     (GoMap [(''secret_key_id'', JStr ''k'')]) (demo_world, None) of
     Some (Inr _, d1) \<Rightarrow>
       (case ApproveRequest demo_uc demo_env ''r'' (demo_user ''bob'') d1 of
          Some (Inr _, d2) \<Rightarrow>
            (case ExecuteApprovedAction demo_uc demo_env ''r'' (demo_user ''bob'') d2 of
               Some (Inr _, d3) \<Rightarrow> w_requests (fst d3) \<noteq> [] | _ \<Rightarrow> False)
        | _ \<Rightarrow> False)
   | _ \<Rightarrow> False"
  by code_simp

text \<open>The run, call by call.\<close>

lemma succeeded:
  assumes "case m of Some (Inr a, d) \<Rightarrow> P a d | _ \<Rightarrow> False"
  obtains a d where "m = Some (Inr a, d)" "P a d"
proof (cases m)
  case None
  with assms show thesis by simp
next
  case (Some p)
  obtain r d where "p = (r, d)" by (cases p)
  with assms Some show thesis by (cases r) (auto intro: that)
qed

lemma demo_calls:
  obtains x d1 d2 d3 where
    "CreateSuggestion demo_uc demo_env SecretKeyDelete ''revoke'' ''ann'' ''t'' None None
       (GoMap [(''secret_key_id'', JStr ''k'')]) (demo_world, None) = Some (Inr x, d1)"
    "ApproveRequest demo_uc demo_env ''r'' (demo_user ''bob'') d1 = Some (Inr (), d2)"
    "ExecuteApprovedAction demo_uc demo_env ''r'' (demo_user ''bob'') d2 = Some (Inr (), d3)"
  using demo_run by (elim succeeded) (simp add: that)

section \<open>properties\<close>

text \<open>C1. Four eyes. However the calls of the workflow were interleaved, with whatever clocks and callers: when
  \<open>ExecuteApprovedAction\<close> does anything at all, the request it executes was approved before its expiry by
  somebody other than its requester, and the caller is a root user or an approver of the request's team;
  otherwise it returns an error and the database is as before. The execution never changes a request or a
  membership.\<close>

theorem ExecuteApprovedAction_four_eyes:
  assumes "approval_db db content saved rq mb" and "rq (content d0) = []" and "(approval_step db)\<^sup>*\<^sup>* d0 d"
    and "ExecuteApprovedAction (NewApprovalUseCase db e) env i u d = Some (r, d')"
  shows "rq (content d') = rq (content d) \<and> mb (content d') = mb (content d)
    \<and> (d' = d \<and> r \<noteq> Inr ()
       \<or> (\<exists>x\<in>set (rq (content d)). rq_ID x = i \<and> rq_Status x = Approved \<and> may_act (mb (content d)) u (rq_TeamID x)
            \<and> (\<exists>w t. rq_ActionedBy x = Some w \<and> w \<noteq> rq_RequestedBy x
                 \<and> rq_ActionedAt x = Some t \<and> t \<le> rq_ExpiresAt x)))"
proof -
  have "\<forall>x\<in>set (rq (content d)). four_eyes x"
    by (rule approval_db.four_eyes_reachable[OF assms(1,3)]) (simp add: assms(2))
  with approval_db.ExecuteApprovedAction_effect[OF assms(1,4)] show ?thesis
    by (fastforce simp: four_eyes_def)
qed

theorem ExecuteApprovedAction_four_eyes_witness:
  "\<exists>d d'. (approval_step demo_db)\<^sup>*\<^sup>* (demo_world, None) d
     \<and> ExecuteApprovedAction demo_uc demo_env ''r'' (demo_user ''bob'') d = Some (Inr (), d')
     \<and> w_requests (fst d') = w_requests (fst d) \<and> (\<exists>x\<in>set (w_requests (fst d)). rq_ActionedBy x \<noteq> None)"
proof (rule demo_calls)
  fix x d1 d2 d3
  assume c: "CreateSuggestion demo_uc demo_env SecretKeyDelete ''revoke'' ''ann'' ''t'' None None
       (GoMap [(''secret_key_id'', JStr ''k'')]) (demo_world, None) = Some (Inr x, d1)"
    "ApproveRequest demo_uc demo_env ''r'' (demo_user ''bob'') d1 = Some (Inr (), d2)"
    "ExecuteApprovedAction demo_uc demo_env ''r'' (demo_user ''bob'') d2 = Some (Inr (), d3)"
  have r: "(approval_step demo_db)\<^sup>*\<^sup>* (demo_world, None) d2"
    by (rule rtranclp.rtrancl_into_rtrancl[OF r_into_rtranclp[of "approval_step demo_db"]])
      (rule step_suggest[OF c(1)], rule step_approve[OF c(2)])
  have "w_requests (fst (demo_world, None :: world option)) = []" by (simp add: demo_world_def empty_world_def)
  from ExecuteApprovedAction_four_eyes[OF wt_approval_db this r c(3)] r c(3) show ?thesis
    by (intro exI[of _ d2] exI[of _ d3]) auto
qed

text \<open>C14. A request is approved only while it is pending and not expired, by a user who did not ask for it and
  who is root or an approver of the request's team; then exactly its row becomes approved, with the user and
  the time. A failed call may have recorded an audit entry, but leaves requests and memberships alone unless the
  row was written.\<close>

theorem ApproveRequest_authorised:
  assumes "approval_db db content saved rq mb"
    and "ApproveRequest (NewApprovalUseCase db e) env i u d = Some (r, d')"
  shows "mb (content d') = mb (content d)
    \<and> (rq (content d') = rq (content d) \<and> r \<noteq> Inr ()
       \<or> (\<exists>x\<in>set (rq (content d)). rq_ID x = i \<and> rq_Status x = Pending \<and> en_now env \<le> rq_ExpiresAt x
            \<and> rq_RequestedBy x \<noteq> us_ID u \<and> may_act (mb (content d)) u (rq_TeamID x)
            \<and> rq (content d') = map (\<lambda>y. if rq_ID y = i then request_columns ((without_names x)
                \<lparr> rq_Status := Approved, rq_ActionedBy := Some (us_ID u), rq_ActionedAt := Some (en_now env) \<rparr>) else y)
                (rq (content d))))"
  using approval_db.ApproveRequest_effect[OF assms]
  by (fastforce simp: CanBeApprovedBy_def Request_IsExpired_def split: if_splits)

theorem ApproveRequest_authorised_witness:
  "\<exists>d d'. ApproveRequest demo_uc demo_env ''r'' (demo_user ''bob'') d = Some (Inr (), d')
     \<and> w_team_users (fst d') = w_team_users (fst d)"
proof (rule demo_calls)
  fix x d1 d2 d3
  assume c: "ApproveRequest demo_uc demo_env ''r'' (demo_user ''bob'') d1 = Some (Inr (), d2)"
  from ApproveRequest_authorised[OF wt_approval_db c] c show ?thesis by (intro exI[of _ d1] exI[of _ d2]) auto
qed

end
