(* ===== verification/NetText.thy ===== *)
theory NetText
  imports Net
begin

text \<open>
  The texts of network addresses the Go client reads and writes: \<open>net.IP.String\<close>, \<open>net.SplitHostPort\<close> and
  \<open>strconv.Unquote\<close> on a string in double quotes. The lemmas show that \<open>ParseIP\<close> reads the text of an address
  back to the address, for IPv4 and for the shortened form of IPv6.
\<close>

section \<open>IP.String\<close>

definition hex_char :: "nat \<Rightarrow> char" where
  "hex_char n = char_of (if n < 10 then 48 + n else 87 + n)"

definition hex_digits :: "nat \<Rightarrow> nat list" where
  "hex_digits v =
     (if v \<ge> 0x1000 then [v div 0x1000] else []) @ (if v \<ge> 0x100 then [v div 0x100 mod 16] else [])
     @ (if v \<ge> 0x10 then [v div 0x10 mod 16] else []) @ [v mod 16]"

definition appendHex :: "nat \<Rightarrow> string" where
  "appendHex v = map hex_char (hex_digits v)"

text \<open>The eight groups of a sixteen-byte address.\<close>

fun v6u16s :: "ip \<Rightarrow> nat list" where
  "v6u16s (a # b # bs) = (unat a * 256 + unat b) # v6u16s bs"
| "v6u16s _ = []"

text \<open>The first longest run of at least two zero groups, from its start to behind its end.\<close>

definition zero_end :: "nat list \<Rightarrow> nat \<Rightarrow> nat" where
  "zero_end gs i = i + length (takeWhile (\<lambda>v. v = 0) (drop i gs))"

definition longer_run :: "nat list \<Rightarrow> nat \<times> nat \<Rightarrow> nat \<Rightarrow> nat \<times> nat" where
  "longer_run gs run i =
     (let j = zero_end gs i in if 2 \<le> j - i \<and> snd run - fst run < j - i then (i, j) else run)"

definition zero_run :: "nat list \<Rightarrow> nat \<times> nat" where
  "zero_run gs = foldl (longer_run gs) (255, 255) [0..<8]"

definition groups_text :: "nat list \<Rightarrow> string" where
  "groups_text gs = Join CHR '':'' (map appendHex gs)"

definition string6 :: "nat list \<Rightarrow> string" where
  "string6 gs =
     (case zero_run gs of (zeroStart, zeroEnd) \<Rightarrow>
        if zeroStart = 255 then groups_text gs
        else groups_text (take zeroStart gs) @ ''::'' @ groups_text (drop zeroEnd gs))"

definition string4 :: "ip \<Rightarrow> string" where
  "string4 bs = Join CHR ''.'' (map (\<lambda>b. Itoa (unat b)) bs)"

definition IP_String :: "ip \<Rightarrow> string" where
  "IP_String a =
     (if a = [] then ''<nil>''
      else
        (case To4 a of
           Some b \<Rightarrow> string4 b
         | None \<Rightarrow>
             if length a = 16 then string6 (v6u16s a)
             else CHR ''?'' # concat (map (\<lambda>b. [hex_char (unat b div 16), hex_char (unat b mod 16)]) a)))"

section \<open>SplitHostPort\<close>

text \<open>The host; the port is not used. The colon in front of the port is the last one.\<close>

definition SplitHost :: "string \<Rightarrow> string option" where
  "SplitHost hostport =
     (if CHR '':'' \<notin> set hostport then None
      else if hd hostport = CHR ''['' then
        (case dropWhile (\<lambda>c. c \<noteq> CHR '']'') hostport of
           _ # c # port \<Rightarrow>
             if c = CHR '':'' \<and> CHR '':'' \<notin> set port \<and> CHR ''['' \<notin> set (tl hostport) \<and> CHR '']'' \<notin> set port
             then Some (takeWhile (\<lambda>c. c \<noteq> CHR '']'') (tl hostport)) else None
         | _ \<Rightarrow> None)
      else if CHR '':'' \<in> set (tl (dropWhile (\<lambda>c. c \<noteq> CHR '':'') hostport)) \<or> CHR ''['' \<in> set hostport
              \<or> CHR '']'' \<in> set hostport then None
      else Some (takeWhile (\<lambda>c. c \<noteq> CHR '':'') hostport))"

section \<open>Unquote\<close>

text \<open>\<open>utf8.AppendRune\<close> for a valid rune, and the length of the valid encoding at the head of a string (0 if none).\<close>

definition AppendRune :: "nat \<Rightarrow> string" where
  "AppendRune r =
     map char_of
       (if r < 0x80 then [r]
        else if r < 0x800 then [0xC0 + r div 64, 0x80 + r mod 64]
        else if r < 0x10000 then [0xE0 + r div 4096, 0x80 + r div 64 mod 64, 0x80 + r mod 64]
        else [0xF0 + r div 262144, 0x80 + r div 4096 mod 64, 0x80 + r div 64 mod 64, 0x80 + r mod 64])"

definition ValidRune :: "nat \<Rightarrow> bool" where
  "ValidRune r \<longleftrightarrow> r < 0xD800 \<or> 0xDFFF < r \<and> r \<le> 0x10FFFF"

definition rune_length :: "string \<Rightarrow> nat" where
  "rune_length s =
     (let b = (\<lambda>i. if i < length s then of_char (s ! i) else 0 :: nat);
          cont = (\<lambda>i. 0x80 \<le> b i \<and> b i \<le> 0xBF)
      in
      if b 0 < 0x80 then 1
      else if 0xC2 \<le> b 0 \<and> b 0 \<le> 0xDF then (if cont 1 then 2 else 0)
      else if 0xE0 \<le> b 0 \<and> b 0 \<le> 0xEF then
        (if cont 1 \<and> cont 2 \<and> (b 0 = 0xE0 \<longrightarrow> 0xA0 \<le> b 1) \<and> (b 0 = 0xED \<longrightarrow> b 1 \<le> 0x9F) then 3 else 0)
      else if 0xF0 \<le> b 0 \<and> b 0 \<le> 0xF4 then
        (if cont 1 \<and> cont 2 \<and> cont 3 \<and> (b 0 = 0xF0 \<longrightarrow> 0x90 \<le> b 1) \<and> (b 0 = 0xF4 \<longrightarrow> b 1 \<le> 0x8F) then 4 else 0)
      else 0)"

text \<open>The fixed number of digits of an escape, in a base.\<close>

fun digits_value :: "(char \<Rightarrow> nat option) \<Rightarrow> nat \<Rightarrow> nat \<Rightarrow> nat \<Rightarrow> string \<Rightarrow> (nat \<times> string) option" where
  "digits_value dig base 0 v s = Some (v, s)"
| "digits_value dig base (Suc n) v [] = None"
| "digits_value dig base (Suc n) v (c # cs) =
     (case dig c of None \<Rightarrow> None | Some d \<Rightarrow> digits_value dig base n (v * base + d) cs)"

definition octal_digit :: "char \<Rightarrow> nat option" where
  "octal_digit c = (let n = of_char c :: nat in if 48 \<le> n \<and> n \<le> 55 then Some (n - 48) else None)"

text \<open>The bytes an escape stands for and the rest behind it; \<open>s\<close> is what follows the backslash.\<close>

definition escape :: "string \<Rightarrow> (string \<times> string) option" where
  "escape s =
     (case s of
        [] \<Rightarrow> None
      | c # cs \<Rightarrow>
          (case map_of [(CHR ''a'', 7), (CHR ''b'', 8), (CHR ''f'', 12), (CHR ''n'', 10), (CHR ''r'', 13), (CHR ''t'', 9),
               (CHR ''v'', 11), (CHR 0x5C, 0x5C), (CHR 0x22, 0x22 :: nat)] c of
             Some n \<Rightarrow> Some ([char_of n], cs)
           | None \<Rightarrow>
               if c = CHR ''x'' then map_option (\<lambda>(v, r). ([char_of v], r)) (digits_value hex_digit 16 2 0 cs)
               else if c = CHR ''u'' \<or> c = CHR ''U'' then
                 (case digits_value hex_digit 16 (if c = CHR ''u'' then 4 else 8) 0 cs of
                    Some (v, r) \<Rightarrow> if ValidRune v then Some (AppendRune v, r) else None
                  | None \<Rightarrow> None)
               else if octal_digit c \<noteq> None then
                 (case digits_value octal_digit 8 3 0 s of
                    Some (v, r) \<Rightarrow> if v \<le> 255 then Some ([char_of v], r) else None
                  | None \<Rightarrow> None)
               else None))"

text \<open>
  The loop of \<open>unquote\<close> behind the opening quote, up to the closing one. Every round reads a byte at least, so the
  length of the string is fuel enough. An invalid byte becomes the replacement rune.
\<close>

fun unquote_loop :: "nat \<Rightarrow> string \<Rightarrow> string option" where
  "unquote_loop 0 s = None"
| "unquote_loop (Suc n) s =
     (case s of
        [] \<Rightarrow> None
      | c # cs \<Rightarrow>
          if c = CHR 0x22 then (if cs = [] then Some [] else None)
          else if c = CHR 0x0A then None
          else if c = CHR 0x5C then
            (case escape cs of None \<Rightarrow> None | Some (bs, r) \<Rightarrow> map_option ((@) bs) (unquote_loop n r))
          else
            let k = rune_length s in
            if k = 0 then map_option ((@) (AppendRune 0xFFFD)) (unquote_loop n cs)
            else map_option ((@) (take k s)) (unquote_loop n (drop k s)))"

text \<open>\<open>strconv.Unquote\<close> of a string that starts with a double quote.\<close>

definition Unquote :: "string \<Rightarrow> string option" where
  "Unquote s = unquote_loop (length s) (tl s)"

section \<open>reading the text of an address back\<close>

text \<open>One octet, one group: the parsers read the digits up to a separator.\<close>

lemma digit_char:
  assumes "d < 10"
  shows "is_digit (char_of (48 + d))" "digit_val (char_of (48 + d)) = d"
  using assms by (simp_all add: is_digit_def digit_val_def)

lemma Itoa_digits: "c \<in> set (Itoa n) \<Longrightarrow> is_digit c"
proof (induction n rule: Itoa.induct)
  case (1 n)
  then show ?case by (cases "n < 10") (auto simp: Itoa.simps[of n] digit_char)
qed

lemma no_digits: "\<not> is_digit CHR ''.''" "\<not> is_digit CHR '':''" "\<not> is_digit CHR ''%''"
  by (simp_all add: is_digit_def)

lemma octet_text:
  assumes "n < 256"
  shows "octet_loop 0 0 (Itoa n) = Some n"
proof -
  consider "n < 10" | "10 \<le> n" "n < 100" | "100 \<le> n" by linarith
  then show ?thesis
  proof cases
    case 1
    then show ?thesis by (simp add: Itoa.simps digit_char)
  next
    case 2
    then have "Itoa n = [char_of (48 + n div 10), char_of (48 + n mod 10)]" "n div 10 < 10" "0 < n div 10"
      by (simp_all add: Itoa.simps[of n] Itoa.simps[of "n div 10"] less_mult_imp_div_less div_greater_zero_iff)
    with 2 show ?thesis by (simp add: digit_char)
  next
    case 3
    with assms have r: "n div 10 \<le> 25" "10 \<le> n div 10" "n div 10 div 10 < 10" "0 < n div 10 div 10" by linarith+
    with 3 have "Itoa n = [char_of (48 + n div 10 div 10), char_of (48 + n div 10 mod 10), char_of (48 + n mod 10)]"
      by (simp only: Itoa.simps[of n] Itoa.simps[of "n div 10"] Itoa.simps[of "n div 10 div 10"]) simp
    moreover have "n div 10 div 10 * 10 + n div 10 mod 10 = n div 10" "n div 10 * 10 + n mod 10 = n" by simp_all
    ultimately show ?thesis using assms r by (simp add: digit_char)
  qed
qed

lemma unat_byte: "unat (b :: 8 word) < 256"
  using unsigned_less[of b, where 'a = nat] by simp

lemma octets_text: "octets (map (\<lambda>b. Itoa (unat b)) bs) = Some bs"
  by (induction bs) (simp_all add: octet_text unat_byte)

lemma hex_digit_char: "n < 16 \<Longrightarrow> hex_digit (hex_char n) = Some n"
  by (simp add: hex_digit_def hex_char_def Let_def)

lemma no_hex_digits: "hex_digit CHR ''.'' = None" "hex_digit CHR '':'' = None" "hex_digit CHR ''%'' = None"
  by (simp_all add: hex_digit_def)

lemma hex_run_digits:
  "\<forall>d\<in>set ds. d < 16 \<Longrightarrow> rest = [] \<or> hex_digit (hd rest) = None \<Longrightarrow>
   hex_run off acc (map hex_char ds @ rest) = (off + length ds, foldl (\<lambda>a d. a * 16 + d) acc ds, rest)"
proof (induction ds arbitrary: off acc)
  case Nil
  then show ?case by (cases rest) auto
next
  case (Cons d ds)
  then show ?case by (simp add: hex_digit_char)
qed

lemma hex_digits_range: "v < 65536 \<Longrightarrow> d \<in> set (hex_digits v) \<Longrightarrow> d < 16"
  by (auto simp: hex_digits_def split: if_splits)

lemma hex_digits_length: "0 < length (hex_digits v)" "length (hex_digits v) \<le> 4"
  by (simp_all add: hex_digits_def)

lemma hex_digits_value:
  assumes "v < 65536"
  shows "foldl (\<lambda>a d. a * 16 + d) 0 (hex_digits v) = v"
proof -
  have "v div 16 div 16 = v div 256" "v div 256 div 16 = v div 4096" by (simp_all add: div_mult2_eq[symmetric])
  then have parts: "v div 4096 * 16 + v div 256 mod 16 = v div 256" "v div 256 * 16 + v div 16 mod 16 = v div 16"
    "v div 16 * 16 + v mod 16 = v" by (metis div_mult_mod_eq)+
  consider "v < 16" | "16 \<le> v" "v < 256" | "256 \<le> v" "v < 4096" | "4096 \<le> v" by linarith
  then show ?thesis
  proof cases
    case 2
    then have "hex_digits v = [v div 16 mod 16, v mod 16]" "v div 256 = 0" by (simp_all add: hex_digits_def)
    with parts show ?thesis by simp
  next
    case 3
    then have "hex_digits v = [v div 256 mod 16, v div 16 mod 16, v mod 16]" "v div 4096 = 0" by (simp_all add: hex_digits_def)
    then show ?thesis using parts by simp
  next
    case 4
    then have "hex_digits v = [v div 4096, v div 256 mod 16, v div 16 mod 16, v mod 16]" by (simp add: hex_digits_def)
    then have "foldl (\<lambda>a d. a * 16 + d) 0 (hex_digits v)
        = ((v div 4096 * 16 + v div 256 mod 16) * 16 + v div 16 mod 16) * 16 + v mod 16" by simp
    with parts show ?thesis by metis
  qed (simp add: hex_digits_def)
qed

lemma appendHex_run:
  assumes "v < 65536" "rest = [] \<or> hex_digit (hd rest) = None"
  shows "\<exists>k. hex_run 0 0 (appendHex v @ rest) = (k, v, rest) \<and> 0 < k \<and> k \<le> 4"
  using hex_run_digits[of "hex_digits v" rest 0 0] assms hex_digits_range[OF assms(1)] hex_digits_length[of v]
    hex_digits_value[OF assms(1)]
  by (simp add: appendHex_def)

lemma appendHex_chars:
  assumes "v < 65536"
  shows "appendHex v \<noteq> []" "hd (appendHex v) \<noteq> CHR '':''" "CHR ''.'' \<notin> set (appendHex v)" "CHR ''%'' \<notin> set (appendHex v)"
proof -
  have "\<forall>c\<in>set (appendHex v). hex_digit c \<noteq> None"
    using hex_digits_range[OF assms] by (auto simp: appendHex_def hex_digit_char)
  then have c: "\<forall>c\<in>set (appendHex v). c \<noteq> CHR ''.'' \<and> c \<noteq> CHR '':'' \<and> c \<noteq> CHR ''%''"
    using no_hex_digits by metis
  show n: "appendHex v \<noteq> []" using hex_digits_length(1)[of v] by (simp add: appendHex_def)
  show "hd (appendHex v) \<noteq> CHR '':''" using c hd_in_set[OF n] by blast
  show "CHR ''.'' \<notin> set (appendHex v)" "CHR ''%'' \<notin> set (appendHex v)" using c by blast+
qed

text \<open>A list of groups: after the last group the string ends, between two groups there is a colon.\<close>

definition group_bytes :: "nat list \<Rightarrow> ip" where
  "group_bytes gs = concat (map (\<lambda>v. [word_of_nat (v div 256), word_of_nat v]) gs)"

lemma group_bytes_simps [simp]:
  "group_bytes [] = []"
  "group_bytes (v # gs) = [word_of_nat (v div 256), word_of_nat v] @ group_bytes gs"
  "group_bytes (gs @ hs) = group_bytes gs @ group_bytes hs"
  "length (group_bytes gs) = 2 * length gs"
  by (simp_all add: group_bytes_def) (induction gs, simp_all)

lemma low_byte: "word_of_nat (x * 256 + y) = (word_of_nat y :: 8 word)"
  by (simp only: word_of_nat_eq_iff) (simp add: take_bit_eq_mod)

lemma word_of_nat_unat_eq: "word_of_nat (unat b) = b"
  by simp

lemma group_bytes_v6u16s: "even (length a) \<Longrightarrow> group_bytes (v6u16s a) = a"
proof (induction a rule: v6u16s.induct)
  case (1 a b bs)
  have "(unat a * 256 + unat b) div 256 = unat a" using unat_byte[of b] by simp
  moreover have "word_of_nat (unat a * 256 + unat b) = b" by (simp only: low_byte word_of_nat_unat_eq)
  ultimately show ?case using 1 by simp
qed auto

lemma v6u16s_range: "v \<in> set (v6u16s a) \<Longrightarrow> v < 65536"
proof (induction a rule: v6u16s.induct)
  case (1 a b bs)
  then show ?case using unat_byte[of a] unat_byte[of b] by auto
qed auto

lemma v6u16s_length: "length (v6u16s a) = length a div 2"
  by (induction a rule: v6u16s.induct) auto

lemma groups_text_simps:
  "groups_text [] = []"
  "groups_text [v] = appendHex v"
  "gs \<noteq> [] \<Longrightarrow> groups_text (v # gs) = appendHex v @ CHR '':'' # groups_text gs"
  by (simp_all add: groups_text_def Join_Cons)

lemma groups_text_start:
  assumes "gs \<noteq> []" "\<forall>v\<in>set gs. v < 65536"
  shows "groups_text gs \<noteq> []" "hd (groups_text gs) \<noteq> CHR '':''"
proof -
  obtain v gs' where "gs = v # gs'" using assms(1) by (cases gs) auto
  with assms show "groups_text gs \<noteq> []" "hd (groups_text gs) \<noteq> CHR '':''"
    using appendHex_chars(1,2)[of v] by (cases "gs' = []"; simp add: groups_text_simps)+
qed

lemma groups_reads:
  "gs \<noteq> [] \<Longrightarrow> length gs \<le> n \<Longrightarrow> \<forall>v\<in>set gs. v < 65536 \<Longrightarrow>
   groups n acc ell (groups_text gs) = Some (acc @ group_bytes gs, ell, [])"
proof (induction gs arbitrary: n acc)
  case (Cons v gs)
  then obtain m where n: "n = Suc m" by (cases n) auto
  show ?case
  proof (cases "gs = []")
    case True
    from appendHex_run[of v "[]"] Cons.prems obtain k where "hex_run 0 0 (appendHex v) = (k, v, [])" "0 < k" "k \<le> 4" by auto
    with True n show ?thesis by (simp add: groups_text_simps Let_def)
  next
    case False
    from appendHex_run[of v "CHR '':'' # groups_text gs"] Cons.prems obtain k where
      "hex_run 0 0 (appendHex v @ CHR '':'' # groups_text gs) = (k, v, CHR '':'' # groups_text gs)" "0 < k" "k \<le> 4"
      by (auto simp: no_hex_digits)
    moreover have "groups m (acc @ [word_of_nat (v div 256), word_of_nat v]) ell (groups_text gs)
        = Some ((acc @ [word_of_nat (v div 256), word_of_nat v]) @ group_bytes gs, ell, [])"
      using Cons False n by simp
    ultimately show ?thesis using False n groups_text_start[OF False] Cons.prems by (simp add: groups_text_simps Let_def)
  qed
qed simp

lemma groups_reads_ellipsis:
  "pre \<noteq> [] \<Longrightarrow> length pre + length post \<le> n \<Longrightarrow> \<forall>v\<in>set (pre @ post). v < 65536 \<Longrightarrow>
   groups n acc None (groups_text pre @ ''::'' @ groups_text post)
   = Some (acc @ group_bytes pre @ group_bytes post, Some (length acc + 2 * length pre), [])"
proof (induction pre arbitrary: n acc)
  case (Cons v pre)
  then obtain m where n: "n = Suc m" by (cases n) auto
  let ?acc = "acc @ [word_of_nat (v div 256), word_of_nat v]"
  show ?case
  proof (cases "pre = []")
    case True
    from appendHex_run[of v "''::'' @ groups_text post"] Cons.prems obtain k where
      run: "hex_run 0 0 (appendHex v @ ''::'' @ groups_text post) = (k, v, ''::'' @ groups_text post)" "0 < k" "k \<le> 4"
      by (auto simp: no_hex_digits)
    show ?thesis
    proof (cases "post = []")
      case True
      with \<open>pre = []\<close> run n show ?thesis by (simp add: groups_text_simps Let_def)
    next
      case False
      then have "groups m ?acc (Some (length ?acc)) (groups_text post) = Some (?acc @ group_bytes post, Some (length ?acc), [])"
        using Cons.prems n True by (intro groups_reads) auto
      with True run n False groups_text_start[OF False] Cons.prems show ?thesis by (simp add: groups_text_simps Let_def)
    qed
  next
    case False
    from appendHex_run[of v "CHR '':'' # groups_text pre @ ''::'' @ groups_text post"] Cons.prems obtain k where
      "hex_run 0 0 (appendHex v @ CHR '':'' # groups_text pre @ ''::'' @ groups_text post)
        = (k, v, CHR '':'' # groups_text pre @ ''::'' @ groups_text post)" "0 < k" "k \<le> 4" by (auto simp: no_hex_digits)
    moreover have "groups m ?acc None (groups_text pre @ ''::'' @ groups_text post)
        = Some (?acc @ group_bytes pre @ group_bytes post, Some (length ?acc + 2 * length pre), [])"
      using Cons.prems n False by (intro Cons.IH) auto
    ultimately show ?thesis using False n groups_text_start[OF False] Cons.prems by (simp add: groups_text_simps Let_def)
  qed
qed simp

text \<open>The run that is left out consists of zeros.\<close>

definition zeros_between :: "nat list \<Rightarrow> nat \<times> nat \<Rightarrow> bool" where
  "zeros_between gs run \<longleftrightarrow> fst run + 2 \<le> snd run \<and> snd run \<le> length gs \<and> (\<forall>i. fst run \<le> i \<and> i < snd run \<longrightarrow> gs ! i = 0)"

lemma zero_end_zeros:
  assumes "i \<le> length gs"
  shows "zero_end gs i \<le> length gs" "i \<le> k \<Longrightarrow> k < zero_end gs i \<Longrightarrow> gs ! k = 0"
proof -
  let ?t = "takeWhile (\<lambda>v. v = 0) (drop i gs)"
  have "length ?t \<le> length (drop i gs)" by (rule length_takeWhile_le)
  with assms show "zero_end gs i \<le> length gs" by (simp add: zero_end_def)
  assume k: "i \<le> k" "k < zero_end gs i"
  then have "k - i < length ?t" by (simp add: zero_end_def)
  then have "?t ! (k - i) = 0" "?t ! (k - i) = drop i gs ! (k - i)"
    using set_takeWhileD[OF nth_mem] by (blast, simp add: takeWhile_nth)
  with k assms show "gs ! k = 0" by simp
qed

lemma zero_run_zeros:
  assumes "length gs = 8"
  shows "zero_run gs = (255, 255) \<or> zeros_between gs (zero_run gs)"
proof -
  have "foldl (longer_run gs) run is = run \<or> zeros_between gs (foldl (longer_run gs) run is)"
    if "\<forall>i\<in>set is. i < 8" for run "is"
    using that
  proof (induction "is" arbitrary: run)
    case (Cons i js)
    have "longer_run gs run i = run \<or> zeros_between gs (longer_run gs run i)"
      using zero_end_zeros[of i gs] Cons.prems assms by (auto simp: longer_run_def zeros_between_def Let_def)
    with Cons show ?case by (metis foldl_Cons list.set_intros(2))
  qed simp
  from this[of "[0..<8]" "(255, 255)"] show ?thesis by (simp add: zero_run_def)
qed

lemma zeros_between_split:
  assumes "zeros_between gs (s, e)"
  shows "gs = take s gs @ replicate (e - s) 0 @ drop e gs"
proof -
  have "take (e - s) (drop s gs) = replicate (e - s) 0"
    using assms by (intro nth_equalityI) (auto simp: zeros_between_def)
  moreover have "gs = take s gs @ take (e - s) (drop s gs) @ drop e gs"
    using assms by (metis add_leE append_take_drop_id drop_drop le_add_diff_inverse2 fst_conv snd_conv zeros_between_def)
  ultimately show ?thesis by simp
qed

lemma group_bytes_zeros: "group_bytes (replicate n 0) = replicate (2 * n) 0"
  by (induction n) (simp_all add: group_bytes_def)

lemma groups_text_chars:
  assumes "\<forall>v\<in>set gs. v < 65536"
  shows "CHR ''.'' \<notin> set (groups_text gs)" "CHR ''%'' \<notin> set (groups_text gs)"
proof -
  have "CHR ''.'' \<notin> set (groups_text gs) \<and> CHR ''%'' \<notin> set (groups_text gs)"
    using assms
  proof (induction gs)
    case (Cons v gs)
    then show ?case by (cases "gs = []") (simp_all add: groups_text_simps appendHex_chars)
  qed (simp add: groups_text_simps)
  then show "CHR ''.'' \<notin> set (groups_text gs)" "CHR ''%'' \<notin> set (groups_text gs)" by simp_all
qed

lemma parseIPv6_ellipsis:
  "\<not> HasPrefix t ''::'' \<Longrightarrow> groups 8 [] None t = Some (bs, Some e, []) \<Longrightarrow> length bs < 16 \<Longrightarrow>
   parseIPv6 t = Some (take e bs @ replicate (16 - length bs) 0 @ drop e bs)"
  by (simp add: parseIPv6_def)

lemma parseIPv6_string6:
  assumes "length gs = 8" "\<forall>v\<in>set gs. v < 65536"
  shows "parseIPv6 (string6 gs) = Some (group_bytes gs)"
proof (cases "zero_run gs = (255, 255)")
  case True
  have ne: "gs \<noteq> []" using assms by auto
  have "HasPrefix (groups_text gs) ''::'' = False"
    using groups_text_start[OF ne assms(2)] by (cases "groups_text gs") (auto simp: HasPrefix_def)
  with True groups_reads[OF ne _ assms(2), of 8 "[]" None] assms(1) show ?thesis
    by (simp add: string6_def parseIPv6_def Let_def)
next
  case False
  obtain s e where run: "zero_run gs = (s, e)" by (cases "zero_run gs") auto
  with False zero_run_zeros[OF assms(1)] have z: "zeros_between gs (s, e)" by auto
  then have b: "s + 2 \<le> e" "e \<le> 8" using assms(1) by (auto simp: zeros_between_def)
  let ?pre = "take s gs" and ?post = "drop e gs"
  have shown: "string6 gs = groups_text ?pre @ ''::'' @ groups_text ?post" using run b by (simp add: string6_def)
  have bytes: "group_bytes gs = group_bytes ?pre @ replicate (2 * (e - s)) 0 @ group_bytes ?post"
    by (subst zeros_between_split[OF z]) (simp add: group_bytes_zeros)
  have range: "\<forall>v\<in>set (?pre @ ?post). v < 65536" using assms(2) by (auto dest: in_set_takeD in_set_dropD)
  have len: "length ?pre = s" "length ?post = 8 - e" using assms(1) b by auto
  show ?thesis
  proof (cases "s = 0")
    case True
    show ?thesis
    proof (cases "?post = []")
      case True
      with len b \<open>s = 0\<close> have "e = 8" by simp
      with shown bytes \<open>s = 0\<close> True show ?thesis by (simp add: parseIPv6_def HasPrefix_def groups_text_simps Let_def)
    next
      case False
      have "groups 8 [] (Some 0) (groups_text ?post) = Some ([] @ group_bytes ?post, Some 0, [])"
        using len False range by (intro groups_reads) auto
      with shown bytes \<open>s = 0\<close> len b groups_text_start(1)[OF False] range show ?thesis
        by (simp add: parseIPv6_def HasPrefix_def groups_text_simps Let_def)
    qed
  next
    case False
    then have ne: "?pre \<noteq> []" using len by auto
    then have "\<not> HasPrefix (groups_text ?pre @ ''::'' @ groups_text ?post) ''::''"
      using groups_text_start[OF ne] range by (cases "groups_text ?pre") (auto simp: HasPrefix_def)
    moreover have "groups 8 [] None (groups_text ?pre @ ''::'' @ groups_text ?post)
        = Some (group_bytes ?pre @ group_bytes ?post, Some (2 * s), [])"
      using groups_reads_ellipsis[OF ne _ range, of 8 "[]"] len b by simp
    moreover have "16 - length (group_bytes ?pre @ group_bytes ?post) = 2 * (e - s)" using len b by simp
    ultimately show ?thesis
      unfolding shown bytes using len b by (subst parseIPv6_ellipsis) auto
  qed
qed

lemma first_separator:
  "CHR '':'' \<notin> set s \<Longrightarrow> CHR ''.'' \<in> set s \<Longrightarrow> find (\<lambda>c. c = CHR ''.'' \<or> c = CHR '':'') s = Some CHR ''.''"
  "CHR ''.'' \<notin> set s \<Longrightarrow> CHR '':'' \<in> set s \<Longrightarrow> find (\<lambda>c. c = CHR ''.'' \<or> c = CHR '':'') s = Some CHR '':''"
  by (induction s) auto

lemma parseIPv4Fields_text:
  assumes "length b = 4"
  shows "parseIPv4Fields (string4 b) = Some b" "CHR ''.'' \<in> set (string4 b)" "CHR '':'' \<notin> set (string4 b)"
    "CHR ''%'' \<notin> set (string4 b)"
proof -
  let ?fs = "map (\<lambda>b. Itoa (unat b)) b"
  have "?fs \<noteq> []" "\<forall>f\<in>set ?fs. CHR ''.'' \<notin> set f" using assms Itoa_digits no_digits by auto
  with assms show "parseIPv4Fields (string4 b) = Some b"
    by (simp add: parseIPv4Fields_def string4_def Split_Join octets_text)
  obtain w x y z where b: "b = [w, x, y, z]" using assms by (auto simp: length_Suc_conv eval_nat_numeral)
  show "CHR ''.'' \<in> set (string4 b)" by (simp add: b string4_def)
  show "CHR '':'' \<notin> set (string4 b)" "CHR ''%'' \<notin> set (string4 b)"
    using Itoa_digits no_digits by (auto simp: b string4_def)
qed

lemma string6_chars:
  assumes "length gs = 8" "\<forall>v\<in>set gs. v < 65536"
  shows "CHR '':'' \<in> set (string6 gs)" "CHR ''.'' \<notin> set (string6 gs)" "CHR ''%'' \<notin> set (string6 gs)"
proof -
  obtain s e where run: "zero_run gs = (s, e)" by (cases "zero_run gs") auto
  obtain v w vs where gs: "gs = v # w # vs" using assms(1) by (auto simp: length_Suc_conv eval_nat_numeral)
  show "CHR '':'' \<in> set (string6 gs)" by (simp add: string6_def run) (simp add: gs groups_text_simps)
  have "\<forall>v\<in>set (take s gs). v < 65536" "\<forall>v\<in>set (drop e gs). v < 65536"
    using assms(2) by (auto dest: in_set_takeD in_set_dropD)
  with assms(2) show "CHR ''.'' \<notin> set (string6 gs)" "CHR ''%'' \<notin> set (string6 gs)"
    by (simp_all add: string6_def run groups_text_chars)
qed

theorem ParseIP_IP_String:
  assumes "length a = 16"
  shows "ParseIP (IP_String a) = Some a"
proof (cases "To4 a")
  case (Some b)
  then have b: "a = v4InV6Prefix @ b" "length b = 4" using assms
    by (auto simp: To4_def split: if_splits) (metis append_take_drop_id)
  have "b \<noteq> []" using b(2) by auto
  with Some b parseIPv4Fields_text[OF b(2)] show ?thesis
    by (simp add: ParseIP_def parseAddr_def IP_String_def first_separator)
next
  case None
  have gs: "length (v6u16s a) = 8" "\<forall>v\<in>set (v6u16s a). v < 65536"
    using assms by (simp_all add: v6u16s_length v6u16s_range)
  have "a \<noteq> []" using assms by auto
  with None assms string6_chars[OF gs] parseIPv6_string6[OF gs] group_bytes_v6u16s[of a] show ?thesis
    by (simp add: ParseIP_def parseAddr_def IP_String_def first_separator)
qed

text \<open>A text that \<open>ParseIP\<close> reads as \<open>a\<close> can be replaced by the text of \<open>a\<close>.\<close>

corollary ParseIP_canonical: "ParseIP t = Some a \<Longrightarrow> ParseIP (IP_String a) = Some a"
  by (simp add: ParseIP_IP_String ParseIP_length)

end
