(* ===== verification/HttpContext.thy ===== *)
theory HttpContext
  imports NetText SdkClient
begin

text \<open>
  \<open>totoggle_go/httpcontext/resolver.go\<close>: the context values of an HTTP request. The address comes from the peer
  or, behind a trusted proxy, from the forwarding headers; the country from a header of a trusted proxy or from
  a resolver of the application; the rest from the application. The lemmas show that the headers of an untrusted
  peer decide nothing, and that the client's rules see the address itself.
\<close>

section \<open>options and requests\<close>

text \<open>
  \<open>Attributes\<close> is a map, given by its entries. The application's functions may panic (\<^const>\<open>None\<close>). A header is
  read by its canonical name, the empty string when it is absent.
\<close>

record application_values =
  av_UserID :: string
  av_RolloutKey :: string
  av_Cohort :: string
  av_Attributes :: "(string \<times> string) list"

record http_message =
  ht_RemoteAddr :: string
  ht_Header :: "string \<Rightarrow> string"

record resolver_options =
  op_TrustedProxyAddresses :: "string list"
  op_CountryHeader :: string
  op_CountryResolver :: "(ip \<Rightarrow> (string \<times> bool) option) option"
  op_ApplicationValues :: "(http_message \<Rightarrow> application_values option) option"

definition New_resolver :: "resolver_options \<Rightarrow> resolver_options" where
  "New_resolver opts =
     (if op_CountryHeader opts = [] then opts\<lparr> op_CountryHeader := ''CF-IPCountry'' \<rparr> else opts)"

section \<open>addresses and countries\<close>

definition normalizeCountry :: "string \<Rightarrow> string option" where
  "normalizeCountry v =
     (let v = TrimSpace v in
      if length v \<noteq> 2 then None
      else if \<not> list_all (\<lambda>c. is_upper c \<or> is_lower c) v then None
      else Some (map to_upper v))"

definition remoteAddress :: "string \<Rightarrow> string" where
  "remoteAddress address = (case SplitHost address of Some host \<Rightarrow> host | None \<Rightarrow> address)"

text \<open>\<open>strings.TrimSuffix\<close> of the closing bracket\<close>

definition without_bracket :: "string \<Rightarrow> string" where
  "without_bracket w = (if HasSuffix w '']'' then butlast w else w)"

definition parseForwardedAddress :: "string \<Rightarrow> string option" where
  "parseForwardedAddress v =
     (if v = [] \<or> HasPrefix v ''_'' then None
      else
        (case ParseIP v of
           Some a \<Rightarrow> Some (IP_String a)
         | None \<Rightarrow>
             (case (case SplitHost v of None \<Rightarrow> None | Some host \<Rightarrow> ParseIP host) of
                Some a \<Rightarrow> Some (IP_String a)
              | None \<Rightarrow>
                  if HasPrefix v ''['' \<and> HasSuffix v '']''
                  then map_option IP_String (ParseIP (without_bracket (TrimPrefix v ''['')))
                  else None)))"

text \<open>The first \<open>for\<close> among the directives of an element decides; \<open>strings.Cut\<close> cuts at the first sign.\<close>

fun for_directive :: "string list \<Rightarrow> string option" where
  "for_directive [] = None"
| "for_directive (directive # ds) =
     (case SplitN2 CHR ''='' directive of
        [name, v] \<Rightarrow>
          if map to_lower (TrimSpace name) \<noteq> ''for'' then for_directive ds
          else
            let v = TrimSpace v in
            if HasPrefix v [CHR 0x22] then
              (case Unquote v of None \<Rightarrow> None | Some u \<Rightarrow> parseForwardedAddress u)
            else parseForwardedAddress v
      | _ \<Rightarrow> for_directive ds)"

definition first_element :: "string \<Rightarrow> string" where
  "first_element header = TrimSpace (hd (SplitN2 CHR '','' header))"

definition forwardedIP :: "string \<Rightarrow> string option" where
  "forwardedIP header = (if header = [] then None else for_directive (Split CHR '';'' (first_element header)))"

definition xForwardedForIP :: "string \<Rightarrow> ip option" where
  "xForwardedForIP header = ParseIP (first_element header)"

definition trusted :: "resolver_options \<Rightarrow> string \<Rightarrow> bool" where
  "trusted opts remote =
     (case ParseIP remote of
        None \<Rightarrow> False
      | Some peer \<Rightarrow>
          list_ex (\<lambda>t. (case ParseIP t of Some a \<Rightarrow> IP_Equal peer a | None \<Rightarrow> False)
                     \<or> (case ParseCIDR t of Some network \<Rightarrow> Contains_IP network peer | None \<Rightarrow> False))
            (op_TrustedProxyAddresses opts))"

section \<open>the values of a request\<close>

definition setApplicationValue :: "string \<Rightarrow> string \<Rightarrow> (string \<rightharpoonup> string) \<Rightarrow> (string \<rightharpoonup> string)" where
  "setApplicationValue key v vs = (if v \<noteq> [] then vs(key \<mapsto> v) else vs)"

text \<open>A panic is recovered from: no values.\<close>

definition applicationValues :: "(http_message \<Rightarrow> application_values option) \<Rightarrow> http_message \<Rightarrow> application_values" where
  "applicationValues f q =
     (case f q of
        Some v \<Rightarrow> v
      | None \<Rightarrow> \<lparr> av_UserID = [], av_RolloutKey = [], av_Cohort = [], av_Attributes = [] \<rparr>)"

definition resolveCountry :: "(ip \<Rightarrow> (string \<times> bool) option) \<Rightarrow> ip \<Rightarrow> string option" where
  "resolveCountry f a =
     (case f a of
        Some (country, found) \<Rightarrow> if found then normalizeCountry country else None
      | None \<Rightarrow> None)"

text \<open>The method \<open>String\<close> of an address that may be nil.\<close>

definition ip_text :: "ip option \<Rightarrow> string" where
  "ip_text a = IP_String (case a of None \<Rightarrow> [] | Some x \<Rightarrow> x)"

text \<open>The address the forwarding headers give; \<open>Forwarded\<close> goes first, and its text is parsed once more.\<close>

definition forwarded :: "http_message \<Rightarrow> ip option option" where
  "forwarded q =
     (case forwardedIP (ht_Header q ''Forwarded'') of
        Some t \<Rightarrow> Some (ParseIP t)
      | None \<Rightarrow>
          (case xForwardedForIP (ht_Header q ''X-Forwarded-For'') of
             Some a \<Rightarrow> Some (Some a)
           | None \<Rightarrow> None))"

text \<open>The three steps of \<open>values\<close>: the address, the country of the header, the country of the resolver.\<close>

definition address_values :: "resolver_options \<Rightarrow> http_message \<Rightarrow> (string \<rightharpoonup> string) \<times> ip option" where
  "address_values opts q =
     (let remote = remoteAddress (ht_RemoteAddr q);
          clientIP = ParseIP remote;
          vs = (if clientIP \<noteq> None then [''ip'' \<mapsto> ip_text clientIP] else Map.empty)
      in
      if trusted opts remote then
        (case forwarded q of Some a \<Rightarrow> (vs(''ip'' \<mapsto> ip_text a), a) | None \<Rightarrow> (vs, clientIP))
      else (vs, clientIP))"

definition header_country :: "resolver_options \<Rightarrow> http_message \<Rightarrow> string option" where
  "header_country opts q =
     (if trusted opts (remoteAddress (ht_RemoteAddr q)) then normalizeCountry (ht_Header q (op_CountryHeader opts)) else None)"

definition network_values :: "resolver_options \<Rightarrow> http_message \<Rightarrow> (string \<rightharpoonup> string)" where
  "network_values opts q =
     (case address_values opts q of (vs, clientIP) \<Rightarrow>
        (case header_country opts q of
           Some country \<Rightarrow> vs(''country'' \<mapsto> country)
         | None \<Rightarrow>
             (case (op_CountryResolver opts, clientIP) of
                (Some f, Some a) \<Rightarrow>
                  (case resolveCountry f a of Some country \<Rightarrow> vs(''country'' \<mapsto> country) | None \<Rightarrow> vs)
              | _ \<Rightarrow> vs)))"

definition set_attribute :: "string \<times> string \<Rightarrow> (string \<rightharpoonup> string) \<Rightarrow> (string \<rightharpoonup> string)" where
  "set_attribute entry vs =
     (if fst entry \<noteq> [] then setApplicationValue (''attributes.'' @ fst entry) (snd entry) vs else vs)"

definition application_context :: "application_values \<Rightarrow> (string \<rightharpoonup> string) \<Rightarrow> (string \<rightharpoonup> string)" where
  "application_context av vs =
     fold set_attribute (av_Attributes av)
       (setApplicationValue ''cohort'' (av_Cohort av)
         (setApplicationValue ''rollout_key'' (av_RolloutKey av)
           (setApplicationValue ''user_id'' (av_UserID av) vs)))"

definition resolver_values :: "resolver_options \<Rightarrow> http_message \<Rightarrow> (string \<rightharpoonup> string)" where
  "resolver_values opts q =
     (case op_ApplicationValues opts of
        None \<Rightarrow> network_values opts q
      | Some f \<Rightarrow> application_context (applicationValues f q) (network_values opts q))"

section \<open>Middleware, Resolve\<close>

text \<open>The context of a request: the values the middleware put there, or none.\<close>

type_synonym request_context = "(string \<rightharpoonup> string) option"

definition resolver_middleware :: "resolver_options \<Rightarrow> http_message \<Rightarrow> request_context" where
  "resolver_middleware opts q = Some (resolver_values opts q)"

definition Resolve :: "request_context \<Rightarrow> string \<Rightarrow> string \<times> bool" where
  "Resolve ctx key =
     (case ctx of
        None \<Rightarrow> ([], False)
      | Some vs \<Rightarrow> (case vs key of Some v \<Rightarrow> (v, v \<noteq> []) | None \<Rightarrow> ([], False)))"

text \<open>As the resolver of the client.\<close>

definition http_resolver :: "request_context resolver" where
  "http_resolver ctx key = (case Resolve ctx key of (v, found) \<Rightarrow> Resolved v found)"

section \<open>lemmas\<close>

text \<open>The application has no say in the address and the country.\<close>

lemma application_context_network:
  assumes "key = ''ip'' \<or> key = ''country''"
  shows "application_context av vs key = vs key"
proof -
  have "set_attribute entry m key = m key" for entry m
    using assms by (auto simp: set_attribute_def setApplicationValue_def)
  then have "fold set_attribute entries m key = m key" for entries m
    by (induction entries arbitrary: m) simp_all
  with assms show ?thesis by (auto simp: application_context_def setApplicationValue_def)
qed

lemma resolver_values_network:
  "key = ''ip'' \<or> key = ''country'' \<Longrightarrow> resolver_values opts q key = network_values opts q key"
  by (auto simp: resolver_values_def application_context_network split: option.splits)

text \<open>A text from the headers is the text of an address, which \<open>ParseIP\<close> reads back.\<close>

lemma parseForwardedAddress_text:
  "parseForwardedAddress v = Some t \<Longrightarrow> \<exists>a. t = IP_String a \<and> length a = 16"
  by (auto simp: parseForwardedAddress_def dest: ParseIP_length split: if_splits option.splits)

lemma for_directive_text: "for_directive ds = Some t \<Longrightarrow> \<exists>a. t = IP_String a \<and> length a = 16"
  by (induction ds rule: for_directive.induct)
    (auto simp: Let_def dest: parseForwardedAddress_text split: list.splits if_splits option.splits)

lemma forwarded_address:
  assumes "forwarded q = Some x"
  obtains a where "x = Some a" "length a = 16"
proof (cases "forwardedIP (ht_Header q ''Forwarded'')")
  case (Some t)
  then obtain a where "t = IP_String a" "length a = 16"
    by (auto simp: forwardedIP_def dest: for_directive_text split: if_splits)
  moreover from this Some assms have "x = Some a" by (simp add: forwarded_def ParseIP_IP_String)
  ultimately show ?thesis using that by blast
next
  case None
  with assms obtain a where "ParseIP (first_element (ht_Header q ''X-Forwarded-For'')) = Some a" "x = Some a"
    by (auto simp: forwarded_def xForwardedForIP_def split: option.splits)
  with that ParseIP_length show ?thesis by blast
qed

lemma address_values_ip:
  "fst (address_values opts q) ''ip'' = map_option IP_String (snd (address_values opts q))
   \<and> (\<forall>a. snd (address_values opts q) = Some a \<longrightarrow> length a = 16)"
  by (auto simp: address_values_def Let_def ip_text_def dest: ParseIP_length split: option.splits elim!: forwarded_address)

lemma network_values_ip: "network_values opts q ''ip'' = fst (address_values opts q) ''ip''"
  by (auto simp: network_values_def split: prod.splits option.splits)

lemma untrusted_address:
  "\<not> trusted opts (remoteAddress (ht_RemoteAddr q)) \<Longrightarrow>
   snd (address_values opts q) = ParseIP (remoteAddress (ht_RemoteAddr q))"
  by (simp add: address_values_def Let_def)

text \<open>A rule on the address reads it back from the text.\<close>

lemma IPEvaluator_text:
  assumes "length a = 16" "TrimSpace (sr_Value rule) \<noteq> []"
  shows "IPEvaluator_Evaluate rule (IP_String a) True = some_ip_entry a (Split CHR '','' (sr_Value rule))"
  using assms by (simp add: IPEvaluator_Evaluate_def ParseIP_IP_String)

lemma IP_String_not_Nil: "length a = 16 \<Longrightarrow> IP_String a \<noteq> []"
  using ParseIP_IP_String[of a] by (auto simp: ParseIP_def parseAddr_def)

lemma Resolve_ip:
  "Resolve (resolver_middleware opts q) ''ip'' =
     (case snd (address_values opts q) of Some a \<Rightarrow> (IP_String a, True) | None \<Rightarrow> ([], False))"
  using address_values_ip[of opts q] IP_String_not_Nil
  by (auto simp: Resolve_def resolver_middleware_def resolver_values_network network_values_ip split: option.splits)

lemma ip_rule:
  assumes "cf_ContextResolver (cl_cfg c) = Some http_resolver" "cl_registry c = newStrategyRegistry"
    and "st_HasActivationRule tg" "st_ActivationRule tg = Some rule"
    and "sr_Type rule = RuleTypeIP" "ContextKey rule = (''ip'', True)" "TrimSpace (sr_Value rule) \<noteq> []"
  shows "evaluateRule env c tg (resolver_middleware opts q) = Some (case snd (address_values opts q) of
      Some a \<Rightarrow> some_ip_entry a (Split CHR '','' (sr_Value rule)) | None \<Rightarrow> False)"
proof (cases "snd (address_values opts q)")
  case None
  with assms show ?thesis
    by (simp add: evaluateRule_def contextKey_def http_resolver_def Resolve_ip RuleTypeIP_def RuleTypeTime_def)
next
  case (Some a)
  with address_values_ip[of opts q] have "length a = 16" by simp
  with Some assms IP_String_not_Nil show ?thesis
    by (simp add: evaluateRule_def contextKey_def http_resolver_def Resolve_ip RuleTypeIP_def RuleTypePercentage_def RuleTypeTime_def
        Registry_Evaluate_def newStrategyRegistry_def Register_def IPEvaluator_text Let_def)
qed

lemma SplitN2_single: "d \<notin> set p \<Longrightarrow> SplitN2 d p = [p]"
  by (induction p) auto

section \<open>properties\<close>

text \<open>C11. The headers of a peer that is no trusted proxy decide nothing. Whatever they say, and whatever values the
  application gives, a rule on the address holds for the request exactly when the peer's own address matches an
  entry of the rule (never, when the peer has no address), and the country is the one the local resolver gives for
  that address, or none.\<close>

theorem untrusted_headers_ignored:
  assumes "\<not> trusted opts (remoteAddress (ht_RemoteAddr q))"
    and "cf_ContextResolver (cl_cfg c) = Some http_resolver" "cl_registry c = newStrategyRegistry"
    and "st_HasActivationRule tg" "st_ActivationRule tg = Some rule"
    and "sr_Type rule = RuleTypeIP" "ContextKey rule = (''ip'', True)" "TrimSpace (sr_Value rule) \<noteq> []"
  shows "evaluateRule env c tg (resolver_middleware opts q) = Some (case ParseIP (remoteAddress (ht_RemoteAddr q)) of
      Some a \<Rightarrow> some_ip_entry a (Split CHR '','' (sr_Value rule)) | None \<Rightarrow> False)
    \<and> resolver_values opts q ''country'' = (case (op_CountryResolver opts, ParseIP (remoteAddress (ht_RemoteAddr q))) of
      (Some f, Some a) \<Rightarrow> resolveCountry f a | _ \<Rightarrow> None)"
proof
  show "evaluateRule env c tg (resolver_middleware opts q) = Some (case ParseIP (remoteAddress (ht_RemoteAddr q)) of
      Some a \<Rightarrow> some_ip_entry a (Split CHR '','' (sr_Value rule)) | None \<Rightarrow> False)"
    using ip_rule[OF assms(2-8)] untrusted_address[OF assms(1)] by simp
  have "address_values opts q = ((if ParseIP (remoteAddress (ht_RemoteAddr q)) \<noteq> None
      then [''ip'' \<mapsto> ip_text (ParseIP (remoteAddress (ht_RemoteAddr q)))] else Map.empty), ParseIP (remoteAddress (ht_RemoteAddr q)))"
    using assms(1) by (simp add: address_values_def Let_def)
  with assms(1) show "resolver_values opts q ''country''
      = (case (op_CountryResolver opts, ParseIP (remoteAddress (ht_RemoteAddr q))) of
          (Some f, Some a) \<Rightarrow> resolveCountry f a | _ \<Rightarrow> None)"
    by (simp add: resolver_values_network network_values_def header_country_def split: option.splits)
qed

lemma forwardedIP_no_directive: "for_directive (Split CHR '';'' (first_element [])) = None"
  by (simp add: first_element_def TrimSpace_def)

text \<open>C24. The address in the context of a request, from the peer or from a trusted proxy's headers, in IPv4 or IPv6, is
  the text of an address, and parsing the text gives that address back: the rules see the address the resolver
  meant, and the second parse of a forwarded address in \<open>values\<close> never fails. A trusted proxy's \<open>Forwarded\<close>
  header goes before its \<open>X-Forwarded-For\<close>, and of each only the first element counts.\<close>

theorem context_address_roundtrip:
  "(\<forall>t. resolver_values opts q ''ip'' = Some t \<longrightarrow> (\<exists>a. ParseIP t = Some a \<and> IP_String a = t))
   \<and> (trusted opts (remoteAddress (ht_RemoteAddr q)) \<longrightarrow>
        resolver_values opts q ''ip'' = (case forwardedIP (ht_Header q ''Forwarded'') of
          Some t \<Rightarrow> Some t
        | None \<Rightarrow> map_option IP_String (case xForwardedForIP (ht_Header q ''X-Forwarded-For'') of
            Some a \<Rightarrow> Some a | None \<Rightarrow> ParseIP (remoteAddress (ht_RemoteAddr q)))))
   \<and> (CHR '','' \<notin> set x \<longrightarrow> xForwardedForIP (x @ CHR '','' # rest) = xForwardedForIP x
        \<and> forwardedIP (x @ CHR '','' # rest) = forwardedIP x)"
proof (intro conjI allI impI)
  fix t assume "resolver_values opts q ''ip'' = Some t"
  with address_values_ip[of opts q] show "\<exists>a. ParseIP t = Some a \<and> IP_String a = t"
    by (auto simp: resolver_values_network network_values_ip intro: ParseIP_IP_String)
next
  have reparse: "\<exists>a. ParseIP t = Some a \<and> IP_String a = t" if "forwardedIP h = Some t" for h t
    using that for_directive_text by (fastforce simp: forwardedIP_def ParseIP_IP_String split: if_splits)
  assume "trusted opts (remoteAddress (ht_RemoteAddr q))"
  then show "resolver_values opts q ''ip'' = (case forwardedIP (ht_Header q ''Forwarded'') of
          Some t \<Rightarrow> Some t
        | None \<Rightarrow> map_option IP_String (case xForwardedForIP (ht_Header q ''X-Forwarded-For'') of
            Some a \<Rightarrow> Some a | None \<Rightarrow> ParseIP (remoteAddress (ht_RemoteAddr q))))"
    by (auto simp: resolver_values_network network_values_ip address_values_def Let_def forwarded_def ip_text_def
        dest!: reparse split: option.splits)
next
  assume "CHR '','' \<notin> set x"
  from SplitN2_sep[OF this] SplitN2_single[OF this] have "first_element (x @ CHR '','' # rest) = first_element x"
    by (simp add: first_element_def)
  then show "xForwardedForIP (x @ CHR '','' # rest) = xForwardedForIP x"
    "forwardedIP (x @ CHR '','' # rest) = forwardedIP x"
    using forwardedIP_no_directive by (auto simp: xForwardedForIP_def forwardedIP_def first_element_def)
qed

text \<open>The witnesses: a peer that claims another address, and a trusted proxy.\<close>

definition spoofed_request :: http_message where
  "spoofed_request = \<lparr> ht_RemoteAddr = ''203.0.113.4:443'',
     ht_Header = (\<lambda>k. if k = ''X-Forwarded-For'' then ''10.1.2.3'' else []) \<rparr>"

definition proxied_request :: http_message where
  "proxied_request = \<lparr> ht_RemoteAddr = ''10.0.0.1:443'',
     ht_Header = (\<lambda>k. if k = ''Forwarded'' then ''for=203.0.113.4'' else []) \<rparr>"

definition proxy_options :: resolver_options where
  "proxy_options = New_resolver \<lparr> op_TrustedProxyAddresses = [''10.0.0.1''], op_CountryHeader = [], op_CountryResolver = None,
     op_ApplicationValues = None \<rparr>"

definition intranet_rule :: sdk_rule where
  "intranet_rule = \<lparr> sr_Type = ''ip'', sr_Value = ''10.1.2.3'',
     sr_Config = RawJSON (JObj [(''context_key'', JStr ''ip'')]) \<rparr>"

definition intranet_client :: "request_context client" where
  "intranet_client = New \<lparr> cf_ApplicationName = ''a'', cf_ServerURL = ''u'', cf_SecretKey = ''sk_'',
     cf_RefreshInterval = 100, cf_RefreshBackoffMax = 1600, cf_HTTPTimeout = 1, cf_EnableOfflineMode = True,
     cf_ContextResolver = Some http_resolver \<rparr>"

definition intranet_toggle :: sdk_toggle where
  "intranet_toggle = zero_toggle\<lparr> st_Path := Path ''a'', st_Enabled := True, st_HasActivationRule := True,
     st_ActivationRule := Some intranet_rule \<rparr>"

lemma example_addresses:
  "remoteAddress ''203.0.113.4:443'' = ''203.0.113.4''" "remoteAddress ''10.0.0.1:443'' = ''10.0.0.1''"
  "ParseIP ''203.0.113.4'' = Some (v4InV6Prefix @ [203, 0, 113, 4])" "ParseIP ''10.0.0.1'' = Some (v4InV6Prefix @ [10, 0, 0, 1])"
  "ParseIP ''10.1.2.3'' = Some (v4InV6Prefix @ [10, 1, 2, 3])" "ParseCIDR ''10.0.0.1'' = None"
  by (simp_all add: remoteAddress_def SplitHost_def ParseIP_def ParseCIDR_def parseAddr_def parseIPv4Fields_def Let_def
      is_digit_def digit_val_def)

lemma example_trim: "TrimSpace ''10.1.2.3'' = ''10.1.2.3''" "TrimSpace ''for=203.0.113.4'' = ''for=203.0.113.4''"
  "TrimSpace ''for'' = ''for''" "TrimSpace ''203.0.113.4'' = ''203.0.113.4''"
  by (rule TrimSpace_id, rule printable_unspaced; simp add: printable_def)+

theorem untrusted_headers_ignored_witness:
  "evaluateRule example_env intranet_client intranet_toggle (resolver_middleware proxy_options spoofed_request) = Some False"
proof -
  have "\<not> trusted proxy_options (remoteAddress (ht_RemoteAddr spoofed_request))"
    by (simp add: trusted_def proxy_options_def New_resolver_def spoofed_request_def example_addresses IP_Equal_def)
  moreover have "ContextKey intranet_rule = (''ip'', True)" by code_simp
  ultimately show ?thesis
    using untrusted_headers_ignored[of proxy_options spoofed_request intranet_client intranet_toggle intranet_rule example_env]
    by (simp add: intranet_client_def New_def intranet_toggle_def intranet_rule_def RuleTypeIP_def example_trim spoofed_request_def
        example_addresses matchesIPEntry_def IP_Equal_def)
qed

theorem context_address_roundtrip_witness:
  "resolver_values proxy_options proxied_request ''ip'' = Some ''203.0.113.4''"
proof -
  have "trusted proxy_options (remoteAddress (ht_RemoteAddr proxied_request))"
    by (simp add: trusted_def proxy_options_def New_resolver_def proxied_request_def example_addresses IP_Equal_def)
  moreover have "forwardedIP ''for=203.0.113.4'' = Some ''203.0.113.4''"
    by (simp add: forwardedIP_def first_element_def example_trim parseForwardedAddress_def HasPrefix_def example_addresses
        IP_String_def To4_def string4_def Itoa.simps to_lower_def is_upper_def v4InV6Prefix_def Let_def) code_simp
  ultimately show ?thesis
    using context_address_roundtrip[of proxy_options proxied_request] by (simp add: proxied_request_def)
qed

end
