(* ===== verification/RateLimiter.thy ===== *)
theory RateLimiter
  imports Main
begin

text \<open>
  \<open>middleware/rate_limiter.go\<close> with its instances for logins, password resets and the kill switch. The
  attempts are counted per key in a window that starts at the first attempt and is replaced when an
  attempt comes after its end; a reset (a successful login) forgets the key. The lemmas bound what a key is let
  through in a run of attempts and resets: at most \<open>limit\<close> attempts per window, and so one less than twice
  the limit around the end of a window, and \<open>limit\<close> more for every reset.
\<close>

section \<open>rate_limiter.go\<close>

record window_attempt =
  wa_count :: int
  wa_windowFrom :: int

record limiter =
  rl_attempts :: "string \<rightharpoonup> window_attempt"
  rl_limit :: int
  rl_window :: int

definition newSlidingWindowLimiter :: "int \<Rightarrow> int \<Rightarrow> limiter" where
  "newSlidingWindowLimiter limit window = \<lparr> rl_attempts = Map.empty, rl_limit = limit, rl_window = window \<rparr>"

text \<open>\<open>now.Sub(a.windowFrom) > l.window\<close>: times are nanoseconds of the monotonic clock.\<close>

definition allow :: "int \<Rightarrow> string \<Rightarrow> limiter \<Rightarrow> bool \<times> limiter" where
  "allow now key l =
     (let fresh = l\<lparr> rl_attempts := (rl_attempts l)(key \<mapsto> \<lparr> wa_count = 1, wa_windowFrom = now \<rparr>) \<rparr> in
      case rl_attempts l key of
        None \<Rightarrow> (True, fresh)
      | Some a \<Rightarrow>
          if now - wa_windowFrom a > rl_window l then (True, fresh)
          else if wa_count a \<ge> rl_limit l then (False, l)
          else (True, l\<lparr> rl_attempts := (rl_attempts l)(key \<mapsto> a\<lparr> wa_count := wa_count a + 1 \<rparr>) \<rparr>))"

definition reset :: "string \<Rightarrow> limiter \<Rightarrow> limiter" where
  "reset key l = l\<lparr> rl_attempts := (rl_attempts l)(key := None) \<rparr>"

section \<open>login_rate_limiter.go, killswitch_rate_limiter.go\<close>

definition minutes :: "int \<Rightarrow> int" where
  "minutes n = n * 60 * 1000000000"

definition defaultLoginRateLimiter :: limiter where
  "defaultLoginRateLimiter = newSlidingWindowLimiter 10 (minutes 15)"

definition defaultForgotPasswordRateLimiter :: limiter where
  "defaultForgotPasswordRateLimiter = newSlidingWindowLimiter 10 (minutes 15)"

definition defaultKillSwitchRateLimiter :: limiter where
  "defaultKillSwitchRateLimiter = newSlidingWindowLimiter 30 (minutes 5)"

definition AllowKillSwitchRequest :: "int \<Rightarrow> string \<Rightarrow> limiter \<Rightarrow> bool \<times> limiter" where
  "AllowKillSwitchRequest now secretKeyID l = allow now secretKeyID l"

text \<open>The middleware: a refused attempt is answered 429 and the handler does not run.\<close>

definition rate_limited :: "int \<Rightarrow> string \<Rightarrow> (limiter \<Rightarrow> 'r \<times> limiter) \<Rightarrow> 'r \<Rightarrow> limiter \<Rightarrow> 'r \<times> limiter" where
  "rate_limited now clientIP next refusal l =
     (case allow now clientIP l of (ok, l) \<Rightarrow> if \<not> ok then (refusal, l) else next l)"

section \<open>runs\<close>

text \<open>What happens to a limiter over time, in order: the attempts of several keys, and the resets of a key
  (\<open>ResetLoginRateLimit\<close>, after a successful login).\<close>

datatype limiter_event = Attempt (event_time: int) (event_key: string) | Reset (event_time: int) (event_key: string)

fun limiter_step :: "limiter_event \<Rightarrow> limiter \<Rightarrow> limiter" where
  "limiter_step (Attempt now key) l = snd (allow now key l)"
| "limiter_step (Reset now key) l = reset key l"

text \<open>The times at which a key was let through.\<close>

fun let_through :: "string \<Rightarrow> limiter \<Rightarrow> limiter_event list \<Rightarrow> int list" where
  "let_through key l [] = []"
| "let_through key l (e # es) =
     (case e of Attempt now k \<Rightarrow> if k = key \<and> fst (allow now k l) then [now] else [] | Reset _ _ \<Rightarrow> [])
     @ let_through key (limiter_step e l) es"

text \<open>The number of times in an interval, and the number of resets of a key in it.\<close>

definition count_within :: "int \<Rightarrow> int \<Rightarrow> int list \<Rightarrow> int" where
  "count_within a b ts = int (length (filter (\<lambda>t. a \<le> t \<and> t \<le> b) ts))"

definition resets_within :: "string \<Rightarrow> int \<Rightarrow> int \<Rightarrow> limiter_event list \<Rightarrow> int" where
  "resets_within key a b es = count_within a b (map event_time (filter (\<lambda>e. e = Reset (event_time e) key) es))"

lemma count_within_simps [simp]:
  "count_within a b [] = 0"
  "count_within a b (t # ts) = (if a \<le> t \<and> t \<le> b then 1 else 0) + count_within a b ts"
  by (auto simp: count_within_def)

lemma count_within_nonneg [simp]: "0 \<le> count_within a b ts"
  by (simp add: count_within_def)

lemma count_within_none: "\<forall>t\<in>set ts. b < t \<Longrightarrow> count_within a b ts = 0"
  by (induction ts) auto

lemma resets_within_simps [simp]:
  "resets_within key a b [] = 0"
  "resets_within key a b (Attempt t k # es) = resets_within key a b es"
  "resets_within key a b (Reset t k # es) =
     (if k = key \<and> a \<le> t \<and> t \<le> b then 1 else 0) + resets_within key a b es"
  by (auto simp: resets_within_def)

lemma resets_within_nonneg [simp]: "0 \<le> resets_within key a b es"
  by (simp add: resets_within_def)

lemma let_through_times: "set (let_through key l es) \<subseteq> event_time ` set es"
proof (induction es arbitrary: l)
  case (Cons e es)
  have "set (let_through key l (e # es)) \<subseteq> {event_time e} \<union> set (let_through key (limiter_step e l) es)"
    by (cases e) auto
  with Cons.IH[of "limiter_step e l"] show ?case by auto
qed simp

lemma let_through_late:
  assumes "\<forall>e\<in>set es. b < event_time e"
  shows "count_within a b (let_through key l es) = 0"
  using let_through_times[of key l es] assms by (intro count_within_none) auto

lemma step_other: "event_key e \<noteq> key \<Longrightarrow> rl_attempts (limiter_step e l) key = rl_attempts l key"
  by (cases e) (auto simp: allow_def reset_def Let_def split: option.splits)

lemma step_config [simp]:
  "rl_limit (limiter_step e l) = rl_limit l" "rl_window (limiter_step e l) = rl_window l"
  by (cases e; auto simp: allow_def reset_def Let_def split: option.splits)+

lemma allow_config [simp]: "rl_limit (snd (allow now k l)) = rl_limit l" "rl_window (snd (allow now k l)) = rl_window l"
  using step_config[of "Attempt now k" l] by simp_all

text \<open>What the limiter knows of a key: nothing, with nothing used, or a window opened at \<open>f\<close> with \<open>c\<close> used.\<close>

definition used_of :: "limiter \<Rightarrow> string \<Rightarrow> int \<Rightarrow> int \<Rightarrow> bool" where
  "used_of l key c f \<longleftrightarrow> (case rl_attempts l key of None \<Rightarrow> c = 0
     | Some w \<Rightarrow> w = \<lparr> wa_count = c, wa_windowFrom = f \<rparr> \<and> 1 \<le> c) \<and> c \<le> rl_limit l"

lemma used_of_other: "event_key e \<noteq> key \<Longrightarrow> used_of (limiter_step e l) key c f = used_of l key c f"
  by (simp add: used_of_def step_other)

lemma used_of_reset: "0 \<le> rl_limit l \<Longrightarrow> used_of (reset key l) key 0 f"
  by (simp add: used_of_def reset_def)

lemma used_of_first: "used_of l key 0 f \<Longrightarrow> used_of l key 0 f'"
  by (simp add: used_of_def split: option.splits)

text \<open>An attempt is refused, counted in the open window, or opens a window.\<close>

lemma attempt_cases:
  assumes "used_of l key c f" "1 \<le> rl_limit l"
  obtains (refused) "allow now key l = (False, l)"
  | (counted) "fst (allow now key l)" "1 \<le> c" "c < rl_limit l" "used_of (snd (allow now key l)) key (c + 1) f"
  | (opens) "fst (allow now key l)" "c = 0 \<or> f + rl_window l < now" "used_of (snd (allow now key l)) key 1 now"
proof (cases "rl_attempts l key")
  case None
  with assms that(3) show thesis by (simp add: used_of_def allow_def)
next
  case (Some w)
  with assms have w: "w = \<lparr> wa_count = c, wa_windowFrom = f \<rparr>" "1 \<le> c" "c \<le> rl_limit l" by (simp_all add: used_of_def)
  consider "now - f > rl_window l" | "now - f \<le> rl_window l" "c \<ge> rl_limit l" | "now - f \<le> rl_window l" "c < rl_limit l"
    by linarith
  then show thesis
  proof cases
    case 1
    with assms(2) Some w show thesis by (intro that(3)) (auto simp: used_of_def allow_def)
  next
    case 2
    with Some w show thesis by (intro that(1)) (auto simp: allow_def)
  next
    case 3
    with Some w show thesis by (intro that(2)) (auto simp: used_of_def allow_def)
  qed
qed

lemma used_of_step:
  assumes "used_of l key c f" "1 \<le> rl_limit l"
  shows "\<exists>c f. used_of (limiter_step e l) key c f"
proof (cases "event_key e = key")
  case True
  show ?thesis
  proof (cases e)
    case (Attempt now k)
    with True attempt_cases[OF assms, of now] assms(1) show ?thesis
      by (metis limiter_event.sel(3) limiter_step.simps(1) snd_conv)
  next
    case (Reset t k)
    with True used_of_reset[of l key] assms(2) show ?thesis by auto
  qed
qed (use assms(1) used_of_other in blast)

lemma used_of_run:
  assumes "used_of l key c f" "1 \<le> rl_limit l"
  shows "\<exists>c f. used_of (fold limiter_step es l) key c f"
  using assms
proof (induction es arbitrary: l c f)
  case (Cons e es)
  with used_of_step[OF Cons.prems, of e] show ?case by auto
qed auto

text \<open>The rest of an open window lets through what is left of its limit, and one limit more after every reset.\<close>

lemma rest_of_window:
  assumes "used_of l key c f" "1 \<le> rl_limit l" "sorted (map event_time es)" "\<forall>e\<in>set es. f \<le> event_time e"
    and "a \<le> f" "b \<le> f + rl_window l"
  shows "count_within a b (let_through key l es) \<le> rl_limit l - c + rl_limit l * resets_within key a b es"
  using assms
proof (induction es arbitrary: l c f)
  case Nil
  then show ?case by (simp add: used_of_def)
next
  case (Cons e es)
  from Cons.prems have es: "sorted (map event_time es)" "\<forall>e'\<in>set es. event_time e \<le> event_time e'" "f \<le> event_time e"
    "\<forall>e\<in>set es. f \<le> event_time e" "c \<le> rl_limit l" by (auto simp: used_of_def)
  have nn: "0 \<le> rl_limit l * resets_within key a b es" using Cons.prems(2) by simp
  have late: "count_within a b (let_through key l' es) = 0" if "b < event_time e" for l'
    using that es(2) by (intro let_through_late) force
  show ?case
  proof (cases "event_key e = key")
    case False
    have "count_within a b (let_through key (limiter_step e l) es)
        \<le> rl_limit l - c + rl_limit l * resets_within key a b es"
      using Cons.IH[of "limiter_step e l" c f] Cons.prems es False by (simp add: used_of_other)
    with False show ?thesis by (cases e) auto
  next
    case key: True
    show ?thesis
    proof (cases e)
      case e: (Attempt now k)
      with key have k: "k = key" by simp
      from Cons.prems(1,2) show ?thesis
      proof (cases rule: attempt_cases[where now = now])
        case refused
        with Cons.IH[of l c f] Cons.prems es show ?thesis by (simp add: e k)
      next
        case counted
        with Cons.IH[of "snd (allow now key l)" "c + 1" f] Cons.prems es show ?thesis by (simp add: e k)
      next
        case opens
        show ?thesis
        proof (cases "now \<le> b")
          case True
          with opens(2) Cons.prems(6) have "c = 0" by auto
          moreover have "count_within a b (let_through key (snd (allow now key l)) es)
              \<le> rl_limit l - 1 + rl_limit l * resets_within key a b es"
            using Cons.IH[of "snd (allow now key l)" 1 now] opens Cons.prems es by (simp add: e)
          ultimately show ?thesis by (simp add: e k)
        next
          case False
          with late[of "snd (allow now key l)"] nn es(5) show ?thesis by (simp add: e k)
        qed
      qed
    next
      case e: (Reset t k)
      with key have k: "k = key" by simp
      show ?thesis
      proof (cases "t \<le> b")
        case True
        have "count_within a b (let_through key (reset key l) es) \<le> rl_limit l + rl_limit l * resets_within key a b es"
          using Cons.IH[of "reset key l" 0 f] Cons.prems es used_of_reset[of l key f] by (simp add: reset_def)
        with True es Cons.prems(5) show ?thesis by (simp add: e k distrib_left)
      next
        case False
        with late[of "reset key l"] nn es(5) show ?thesis by (simp add: e k)
      qed
    qed
  qed
qed

text \<open>The rest of an open window and the window after it, when the interval is no longer than a window.\<close>

lemma rest_and_next_window:
  assumes "used_of l key c f" "1 \<le> rl_limit l" "sorted (map event_time es)" "\<forall>e\<in>set es. a \<le> event_time e"
    and "b \<le> a + rl_window l"
  shows "count_within a b (let_through key l es) \<le> 2 * rl_limit l - c + rl_limit l * resets_within key a b es"
  using assms
proof (induction es arbitrary: l c f)
  case Nil
  then show ?case by (simp add: used_of_def)
next
  case (Cons e es)
  from Cons.prems have es: "sorted (map event_time es)" "\<forall>e'\<in>set es. event_time e \<le> event_time e'" "a \<le> event_time e"
    "\<forall>e\<in>set es. a \<le> event_time e" "c \<le> rl_limit l" by (auto simp: used_of_def)
  have nn: "0 \<le> rl_limit l * resets_within key a b es" using Cons.prems(2) by simp
  show ?case
  proof (cases "event_key e = key")
    case False
    have "count_within a b (let_through key (limiter_step e l) es)
        \<le> 2 * rl_limit l - c + rl_limit l * resets_within key a b es"
      using Cons.IH[of "limiter_step e l" c f] Cons.prems es False by (simp add: used_of_other)
    with False show ?thesis by (cases e) auto
  next
    case key: True
    show ?thesis
    proof (cases e)
      case e: (Attempt now k)
      with key have k: "k = key" by simp
      from Cons.prems(1,2) show ?thesis
      proof (cases rule: attempt_cases[where now = now])
        case refused
        with Cons.IH[of l c f] Cons.prems es show ?thesis by (simp add: e k)
      next
        case counted
        with Cons.IH[of "snd (allow now key l)" "c + 1" f] Cons.prems es show ?thesis by (simp add: e k)
      next
        case opens
        have "count_within a b (let_through key (snd (allow now key l)) es)
            \<le> rl_limit l - 1 + rl_limit l * resets_within key a b es"
          using rest_of_window[OF opens(3), of es a b] Cons.prems es by (simp add: e)
        with opens es(5) show ?thesis by (simp add: e k)
      qed
    next
      case e: (Reset t k)
      with key have k: "k = key" by simp
      show ?thesis
      proof (cases "t \<le> b")
        case True
        have "count_within a b (let_through key (reset key l) es) \<le> rl_limit l + rl_limit l * resets_within key a b es"
          using rest_of_window[of "reset key l" key 0 t es a b] Cons.prems es used_of_reset[of l key t]
          by (simp add: reset_def e)
        with True es Cons.prems(2) show ?thesis by (simp add: e k distrib_left)
      next
        case False
        then have "\<forall>e\<in>set es. b < event_time e" using es(2) e by force
        with let_through_late nn es(5) Cons.prems(2) False show ?thesis by (simp add: e k)
      qed
    qed
  qed
qed

text \<open>Any interval as long as a window, after any events before it.\<close>

lemma interval_bound:
  assumes "used_of l key c f" "1 \<le> rl_limit l" "sorted (map event_time es)" "b \<le> a + rl_window l"
  shows "count_within a b (let_through key l es) \<le> 2 * rl_limit l - 1 + rl_limit l * resets_within key a b es"
  using assms
proof (induction es arbitrary: l c f)
  case Nil
  then show ?case by simp
next
  case (Cons e es)
  show ?case
  proof (cases "a \<le> event_time e")
    case True
    with Cons.prems(3) have all: "\<forall>e'\<in>set (e # es). a \<le> event_time e'" by auto
    show ?thesis
    proof (cases "c = 0")
      case True
      with used_of_first Cons.prems(1) have "used_of l key 0 a" by blast
      from rest_of_window[OF this Cons.prems(2,3) all order.refl Cons.prems(4)] Cons.prems(2) show ?thesis by linarith
    next
      case False
      with Cons.prems(1) have "1 \<le> c" by (auto simp: used_of_def split: option.splits)
      with rest_and_next_window[OF Cons.prems(1-3) all Cons.prems(4)] show ?thesis by linarith
    qed
  next
    case False
    from used_of_step[OF Cons.prems(1,2)] obtain c' f' where "used_of (limiter_step e l) key c' f'" by blast
    from Cons.IH[OF this] Cons.prems have
      "count_within a b (let_through key (limiter_step e l) es)
        \<le> 2 * rl_limit l - 1 + rl_limit l * resets_within key a b es" by simp
    with False show ?thesis by (cases e) auto
  qed
qed

lemma run_config [simp]:
  "rl_limit (fold limiter_step es l) = rl_limit l" "rl_window (fold limiter_step es l) = rl_window l"
  by (induction es arbitrary: l) simp_all


text \<open>C30. In any interval as long as the window a key is let through fewer than twice the limit, and the limit
  more for every reset of the key in the interval, whatever the other keys do and however the attempts fall
  around the ends of the windows; counted from an attempt that opens a window, it is at most the limit and the
  limit more for every reset.\<close>

theorem allow_bounded:
  assumes "1 \<le> limit" "0 \<le> window" "sorted (map event_time es)" "b \<le> a + window"
  shows "count_within a b (let_through key (newSlidingWindowLimiter limit window) es)
      \<le> 2 * limit - 1 + limit * resets_within key a b es
    \<and> (\<forall>before now after l. es = before @ Attempt now key # after \<and>
         l = fold limiter_step before (newSlidingWindowLimiter limit window) \<and>
         rl_attempts (snd (allow now key l)) key = Some \<lparr> wa_count = 1, wa_windowFrom = now \<rparr> \<longrightarrow>
         count_within now (now + window) (let_through key l (Attempt now key # after))
           \<le> limit + limit * resets_within key now (now + window) after)"
proof
  let ?l = "newSlidingWindowLimiter limit window"
  have start: "used_of ?l key 0 0" "rl_limit ?l = limit" "rl_window ?l = window"
    using assms(1) by (simp_all add: used_of_def newSlidingWindowLimiter_def)
  show "count_within a b (let_through key ?l es) \<le> 2 * limit - 1 + limit * resets_within key a b es"
    using interval_bound[of ?l key 0 0 es b a] assms start by simp
  show "\<forall>before now after l. es = before @ Attempt now key # after \<and> l = fold limiter_step before ?l \<and>
         rl_attempts (snd (allow now key l)) key = Some \<lparr> wa_count = 1, wa_windowFrom = now \<rparr> \<longrightarrow>
         count_within now (now + window) (let_through key l (Attempt now key # after))
           \<le> limit + limit * resets_within key now (now + window) after"
  proof (intro allI impI, elim conjE)
    fix before now after and l :: limiter
    assume l: "l = fold limiter_step before ?l" and es: "es = before @ Attempt now key # after"
      and opened: "rl_attempts (snd (allow now key l)) key = Some \<lparr> wa_count = 1, wa_windowFrom = now \<rparr>"
    let ?l' = "snd (allow now key l)"
    have u: "used_of ?l' key 1 now" using opened assms(1) start(2) by (simp add: used_of_def l)
    have after: "sorted (map event_time after)" "\<forall>e\<in>set after. now \<le> event_time e"
      using assms(3) es by (auto simp: sorted_append)
    from rest_of_window[OF u, of after now "now + window"] after assms(1) start
    have "count_within now (now + window) (let_through key ?l' after)
        \<le> limit - 1 + limit * resets_within key now (now + window) after" by (simp add: l)
    with assms(2) show "count_within now (now + window) (let_through key l (Attempt now key # after))
        \<le> limit + limit * resets_within key now (now + window) after" by auto
  qed
qed

text \<open>The bound is reached: one attempt opens a window, the rest of its limit comes at its end and the limit of
  the next window right after it; a reset gives the limit once more.\<close>

theorem allow_bounded_witness:
  "let es = [Attempt 0 ''ip'', Attempt 100 ''ip'', Attempt 100 ''other'', Attempt 101 ''ip'', Attempt 101 ''ip'',
       Attempt 102 ''ip'', Attempt 150 ''ip'', Attempt 201 ''ip'', Attempt 201 ''ip'', Reset 201 ''ip'',
       Attempt 201 ''ip'', Attempt 201 ''ip'', Attempt 201 ''ip'', Attempt 201 ''ip''] in
   count_within 100 201 (let_through ''ip'' (newSlidingWindowLimiter 3 101) es) = 2 * 3 - 1 + 3
   \<and> resets_within ''ip'' 100 201 es = 1
   \<and> count_within 100 201 (let_through ''ip'' (newSlidingWindowLimiter 3 101) es)
      \<le> 2 * 3 - 1 + 3 * resets_within ''ip'' 100 201 es"
  using allow_bounded[of 3 101 "[Attempt 0 ''ip'', Attempt 100 ''ip'', Attempt 100 ''other'', Attempt 101 ''ip'', Attempt 101 ''ip'',
       Attempt 102 ''ip'', Attempt 150 ''ip'', Attempt 201 ''ip'', Attempt 201 ''ip'', Reset 201 ''ip'',
       Attempt 201 ''ip'', Attempt 201 ''ip'', Attempt 201 ''ip'', Attempt 201 ''ip'']" 201 100 "''ip''",
    THEN conjunct1]
  by (simp add: newSlidingWindowLimiter_def allow_def reset_def)

end
