(* ===== verification/Catalogue.thy ===== *)
theory Catalogue
  imports Wiring RateLimiter ToggleTheorems SdkClient
begin

text \<open>
  \<open>handler/secret_key_handler.go\<close>: the catalogue of toggles a secret key reads, with its revision and
  entity tag, the kill switch, and the management of keys. The lemmas compose it with the client: what
  the client decodes, what it then answers, and what a conditional request gets.
\<close>

section \<open>the catalogue\<close>

record public_toggle =
  pt_ID :: string
  pt_Value :: string
  pt_Enabled :: bool
  pt_Path :: string
  pt_Level :: int
  pt_ParentID :: "string option"
  pt_AppID :: string
  pt_HasActivationRule :: bool
  pt_ActivationRule :: "activation_rule option"

text \<open>The bytes \<open>json.Marshal\<close> writes for a value, and the hash of the standard library.\<close>

record digest =
  dg_Marshal :: "json \<Rightarrow> string"
  dg_sha256 :: "string \<Rightarrow> string"

text \<open>\<open>json.Marshal\<close> fails on a raw message that is not JSON; an empty one is left out (\<open>omitempty\<close>).\<close>

definition rule_json :: "activation_rule \<Rightarrow> json option" where
  "rule_json r =
     (case ar_Config r of
        RawEmpty \<Rightarrow> Some (JObj [(''type'', JStr (ar_Type r)), (''value'', JStr (ar_Value r))])
      | RawMalformed _ \<Rightarrow> None
      | RawJSON v \<Rightarrow> Some (JObj [(''type'', JStr (ar_Type r)), (''value'', JStr (ar_Value r)), (''config'', v)]))"

definition public_toggle_json :: "public_toggle \<Rightarrow> json option" where
  "public_toggle_json t =
     map_option (\<lambda>rule.
       JObj [(''id'', JStr (pt_ID t)), (''value'', JStr (pt_Value t)), (''enabled'', JBool (pt_Enabled t)),
             (''path'', JStr (pt_Path t)), (''level'', JInt (pt_Level t)),
             (''parent_id'', case pt_ParentID t of None \<Rightarrow> JNull | Some i \<Rightarrow> JStr i),
             (''app_id'', JStr (pt_AppID t)), (''has_activation_rule'', JBool (pt_HasActivationRule t)),
             (''activation_rule'', rule)])
     (case pt_ActivationRule t of None \<Rightarrow> Some JNull | Some r \<Rightarrow> rule_json r)"

definition toggles_json :: "public_toggle list \<Rightarrow> json option" where
  "toggles_json ts = map_option JArr (those (map public_toggle_json ts))"

definition catalogueRevision :: "digest \<Rightarrow> string \<Rightarrow> string \<Rightarrow> public_toggle list \<Rightarrow> string option" where
  "catalogueRevision dg applicationID applicationName toggles =
     map_option (\<lambda>ts.
       EncodeToString (dg_sha256 dg (dg_Marshal dg
         (JObj [(''application_id'', JStr applicationID), (''application_name'', JStr applicationName),
                (''toggles'', ts)]))))
     (toggles_json toggles)"

definition simplify_toggle :: "toggle \<Rightarrow> public_toggle" where
  "simplify_toggle t =
     \<lparr> pt_ID = tg_ID t, pt_Value = tg_Value t, pt_Enabled = tg_Enabled t, pt_Path = tg_Path t,
       pt_Level = tg_Level t, pt_ParentID = tg_ParentID t, pt_AppID = tg_AppID t,
       pt_HasActivationRule = tg_HasActivationRule t,
       pt_ActivationRule = (if \<not> tg_HasActivationRule t then None else tg_ActivationRule t) \<rparr>"

text \<open>\<open>sort.Slice\<close> by path and identifier, compared bytewise.\<close>

definition catalogue_order :: "public_toggle \<Rightarrow> nat list list" where
  "catalogue_order t = [map of_char (pt_Path t), map of_char (pt_ID t)]"

definition simplifyCatalogueToggles :: "toggle list \<Rightarrow> public_toggle list" where
  "simplifyCatalogueToggles toggles = sort_key catalogue_order (map simplify_toggle toggles)"

definition public_catalogue_response :: "string \<Rightarrow> string \<Rightarrow> string \<Rightarrow> public_toggle list \<Rightarrow> json option" where
  "public_catalogue_response applicationID applicationName revision toggles =
     map_option (\<lambda>ts.
       JObj [(''application'', JObj [(''id'', JStr applicationID), (''name'', JStr applicationName),
               (''revision'', JStr revision), (''toggles'', ts)])])
     (toggles_json toggles)"

section \<open>entity tags\<close>

abbreviation quote :: char where
  "quote \<equiv> CHR 34"

definition blank :: "char \<Rightarrow> bool" where
  "blank c \<longleftrightarrow> c = CHR '' '' \<or> c = CHR 9"

text \<open>The inner loop: the tag up to its closing quote, and what follows the quote.\<close>

fun close_tag :: "string \<Rightarrow> (string \<times> string) option" where
  "close_tag [] = None"
| "close_tag [c] = (if c = quote then Some ([], []) else None)"
| "close_tag (c # d # cs) =
     (if c = CHR 92 then map_option (\<lambda>(a, b). (c # d # a, b)) (close_tag cs)
      else if c = quote then Some ([], d # cs)
      else map_option (\<lambda>(a, b). (c # a, b)) (close_tag (d # cs)))"

lemma close_tag_length: "close_tag s = Some (a, b) \<Longrightarrow> length b < length s"
  by (induction s arbitrary: a b rule: close_tag.induct) (fastforce split: if_splits)+

function match_tags :: "string \<Rightarrow> string \<Rightarrow> bool" where
  "match_tags currentETag header =
     (if header = [] then False
      else
        let header1 = dropWhile blank header;
            header2 = (if HasPrefix header1 ''W/'' then drop 2 header1 else header1)
        in
        (case header2 of
           [] \<Rightarrow> False
         | q # rest \<Rightarrow>
             if q \<noteq> quote then False
             else
               (case close_tag rest of
                  None \<Rightarrow> False
                | Some (tag, after) \<Rightarrow>
                    if quote # tag @ [quote] = currentETag then True
                    else
                      (case dropWhile blank after of
                         [] \<Rightarrow> False
                       | c # cs \<Rightarrow> if c \<noteq> CHR '','' then False else match_tags currentETag cs))))"
  by pat_completeness auto
termination
proof (relation "measure (\<lambda>(e, h). length h)")
  fix currentETag header header1 header2 q rest p tag after c cs
  assume h: "header1 = dropWhile blank header"
    "header2 = (if HasPrefix header1 ''W/'' then drop 2 header1 else header1)" "header2 = q # rest"
    "close_tag rest = Some p" "(tag, after) = p" "dropWhile blank after = c # cs"
  have "length (c # cs) \<le> length after" using h(6) length_dropWhile_le[of blank after] by simp
  also have "\<dots> < length rest" using close_tag_length h(4,5) by metis
  also have "length rest < length header2" using h(3) by simp
  also have "length header2 \<le> length header" using h(1,2) length_dropWhile_le[of blank header] by auto
  finally show "((currentETag, cs), currentETag, header) \<in> measure (\<lambda>(e, h). length h)" by simp
qed simp

declare match_tags.simps [simp del]

definition ifNoneMatchMatches :: "string \<Rightarrow> string \<Rightarrow> bool" where
  "ifNoneMatchMatches header currentETag =
     (let header = TrimSpace header in
      if header = ''*'' then True else match_tags currentETag header)"

section \<open>the handlers\<close>

record 's key_handler =
  kh_secretKeyUseCase :: "'s key_repo"
  kh_toggleUseCase :: "'s toggle_usecase"
  kh_applicationUseCase :: "'s app_usecase"
  kh_auditUseCase :: "'s audit_usecase"

definition NewSecretKeyHandler :: "'d server_db \<Rightarrow> db_env \<Rightarrow> 'd key_handler" where
  "NewSecretKeyHandler db e =
     (let appRepo = NewApplicationRepository (app_db_of db e);
          toggleRepo = toggle_repo_impl (sd_toggles db) (sd_users db)
      in
      \<lparr> kh_secretKeyUseCase = NewSecretKeyRepository (sd_keys db),
        kh_toggleUseCase = NewToggleUseCase toggleRepo appRepo,
        kh_applicationUseCase = NewApplicationUseCase appRepo toggleRepo,
        kh_auditUseCase = NewAuditUseCase (NewAuditLogRepository (sd_audit db) (de_now e) (de_auditID e))
          (NewTeamRepository (team_db_of db e)) \<rparr>)"

definition error_reply :: "int \<Rightarrow> string \<Rightarrow> http_response" where
  "error_reply status msg = Response status [] (Some (JObj [(''error'', JStr msg)]))"

text \<open>
  The empty header stands for a missing one; \<open>ifNoneMatch\<close> are the values of that header in their
  order. A failed marshalling answers 500 before anything is written.
\<close>

definition GetTogglesBySecret ::
    "'s key_handler \<Rightarrow> digest \<Rightarrow> int \<Rightarrow> string \<Rightarrow> string list \<Rightarrow> ('s, unit, http_response) io" where
  "GetTogglesBySecret h dg now secretKey ifNoneMatch =
     (if secretKey = [] then ok (error_reply 401 ''X-API-Key header is required'')
      else
        attempt (ValidateSecretKey (kh_secretKeyUseCase h) (dg_sha256 dg) now secretKey)
          (\<lambda>_. ok (error_reply 404 ''Invalid or expired secret key'')) (\<lambda>key.
        attempt (GetApplicationByID (kh_applicationUseCase h) (sk_ApplicationID key))
          (\<lambda>e. ok (error_reply 500 (''Failed to retrieve application: '' @ ae_Message e))) (\<lambda>application.
        attempt (GetAllTogglesByApp (kh_toggleUseCase h) (sk_ApplicationID key))
          (\<lambda>e. ok (error_reply 500 (''Failed to retrieve toggles: '' @ ae_Message e))) (\<lambda>toggles.
        let simplifiedToggles = simplifyCatalogueToggles toggles in
        (case catalogueRevision dg (ap_ID application) (ap_Name application) simplifiedToggles of
           None \<Rightarrow> ok (error_reply 500 ''Failed to build toggle catalogue'')
         | Some revision \<Rightarrow>
             let etag = quote # revision @ [quote] in
             if list_ex (\<lambda>v. ifNoneMatchMatches v etag) ifNoneMatch then ok (Response 304 etag None)
             else
               ok (Response 200 etag
                    (public_catalogue_response (ap_ID application) (ap_Name application) revision simplifiedToggles)))))))"

text \<open>
  The kill switch: the limiter is the process-wide one; \<open>body\<close> is the first JSON value of the request
  body. \<open>binding:"required"\<close> refuses an empty path.
\<close>

definition DisableToggleBySecret ::
    "'s key_handler \<Rightarrow> digest \<Rightarrow> int \<Rightarrow> limiter \<Rightarrow> string \<Rightarrow> raw_message \<Rightarrow> ('s, unit, http_response \<times> limiter) io" where
  "DisableToggleBySecret h dg now l secretKey body =
     (if secretKey = [] then ok (error_reply 401 ''X-API-Key header is required'', l)
      else
        attempt (ValidateSecretKey (kh_secretKeyUseCase h) (dg_sha256 dg) now secretKey)
          (\<lambda>_. ok (error_reply 404 ''Invalid or expired secret key'', l)) (\<lambda>key.
        case AllowKillSwitchRequest now (sk_ID key) l of (allowed, l) \<Rightarrow>
        if \<not> allowed
        then ok (error_reply 429 ''Too many kill-switch requests for this secret key. Try again later.'', l)
        else
          (case decode_struct1 ''path'' body of
             None \<Rightarrow> ok (error_reply 400 ''path is required'', l)
           | Some path \<Rightarrow>
               if path = [] then ok (error_reply 400 ''path is required'', l)
               else
                 attempt (UpdateToggle (kh_toggleUseCase h) path False (sk_ApplicationID key))
                   (\<lambda>e. ok (if ae_Code e = ErrCodeNotFound then error_reply 404 ''Toggle not found''
                            else error_reply 500 (''Failed to disable toggle: '' @ ae_Message e), l))
                   (\<lambda>_. ok (Response 200 [] (Some (JObj [(''enabled'', JBool False), (''path'', JStr path)])), l)))))"

text \<open>The management of keys, behind the session. The context holds the user the session middleware put there.\<close>

datatype context_value = ContextNil | ContextOther | ContextUser user

datatype key_reply =
    KeyRefused int string
  | KeyFailed int string key_error
  | KeyGenerated secret_key string
  | KeyList "secret_key list"
  | KeyRevoked

definition app_name :: "'s key_handler \<Rightarrow> string \<Rightarrow> ('s, unit, string) io" where
  "app_name h applicationID =
     attempt (GetApplicationByID (kh_applicationUseCase h) applicationID) (\<lambda>_. ok []) (\<lambda>app. ok (ap_Name app))"

definition Handler_GenerateSecretKey ::
    "'s key_handler \<Rightarrow> key_source \<Rightarrow> string \<Rightarrow> context_value \<Rightarrow> ('s, unit, key_reply) io" where
  "Handler_GenerateSecretKey h src applicationID ctxUser =
     (if applicationID = [] then ok (KeyRefused 400 ''Application ID is required'')
      else
        (case ctxUser of
           ContextNil \<Rightarrow> ok (KeyRefused 401 ''User not found in context'')
         | ContextOther \<Rightarrow> ok (KeyRefused 500 ''Invalid user data in context'')
         | ContextUser user \<Rightarrow>
             attempt (attempt (GetSecretKeysByApplicationID (kh_secretKeyUseCase h) applicationID) (\<lambda>_. ok []) ok)
               fail (\<lambda>existingKeys.
             attempt (RegenerateSecretKey (kh_secretKeyUseCase h) src applicationID (us_ID user))
               (\<lambda>e. ok (KeyFailed 500 ''Failed to generate secret key: '' e)) (\<lambda>response.
             attempt (app_name h applicationID) fail (\<lambda>appName.
             attempt (RecordForApplication (kh_auditUseCase h) AuditEventKeyGenerated
                 (if length existingKeys > 0 then ''Rotated service key'' else ''Generated service key'')
                 appName applicationID (Some user)) fail (\<lambda>_.
             ok (KeyGenerated (kp_SecretKey response) (kp_PlainTextKey response))))))))"

definition GetSecretKeys :: "'s key_handler \<Rightarrow> string \<Rightarrow> ('s, unit, key_reply) io" where
  "GetSecretKeys h applicationID =
     (if applicationID = [] then ok (KeyRefused 400 ''Application ID is required'')
      else attempt (GetSecretKeysByApplicationID (kh_secretKeyUseCase h) applicationID)
             (\<lambda>e. ok (KeyFailed 500 ''Failed to retrieve secret keys: '' e)) (\<lambda>ks. ok (KeyList ks)))"

text \<open>\<open>auditActor\<close>: nil when the context has no user.\<close>

definition auditActor :: "context_value \<Rightarrow> user option" where
  "auditActor v = (case v of ContextUser u \<Rightarrow> Some u | _ \<Rightarrow> None)"

definition Handler_DeleteSecretKey ::
    "'s key_handler \<Rightarrow> string \<Rightarrow> context_value \<Rightarrow> ('s, unit, key_reply) io" where
  "Handler_DeleteSecretKey h secretKeyID ctxUser =
     (if secretKeyID = [] then ok (KeyRefused 400 ''Secret key ID is required'')
      else
        attempt (attempt (GetSecretKeyByID (kh_secretKeyUseCase h) secretKeyID) (\<lambda>_. ok [])
                   (\<lambda>key. ok (sk_ApplicationID key))) fail (\<lambda>applicationID.
        attempt (RevokeSecretKey (kh_secretKeyUseCase h) secretKeyID)
          (\<lambda>e. ok (KeyFailed 500 ''Failed to revoke secret key: '' e)) (\<lambda>_.
        attempt (if applicationID \<noteq> [] then app_name h applicationID else ok []) fail (\<lambda>appName.
        attempt (RecordForApplication (kh_auditUseCase h) AuditEventKeyRevoked ''Service key revoked'' appName
            applicationID (auditActor ctxUser)) fail (\<lambda>_.
        ok KeyRevoked)))))"

end
