(* ===== verification/CatalogueSdk.thy ===== *)
theory CatalogueSdk
  imports Catalogue
begin

text \<open>
  The server's catalogue and the client composed: what is served decodes to the live rows of the key's
  application, a client that polls answers with the server's own status as of its last poll, and a conditional
  request gets a 304 exactly if the document it names is the current one.
\<close>

section \<open>the decoded catalogue\<close>

definition sdk_toggle_of :: "toggle \<Rightarrow> sdk_toggle" where
  "sdk_toggle_of t =
     \<lparr> st_ID = tg_ID t, st_Path = Path (tg_Path t), st_Value = tg_Value t, st_Enabled = tg_Enabled t,
       st_Level = tg_Level t, st_ParentID = tg_ParentID t, st_AppID = tg_AppID t,
       st_HasActivationRule = tg_HasActivationRule t,
       st_ActivationRule = (if tg_HasActivationRule t then map_option sdk_rule_of (tg_ActivationRule t) else None) \<rparr>"

text \<open>A rule whose stored configuration is not JSON cannot be marshalled; a path with an empty segment is
  marshalled, but the client refuses it. A level is a Go int.\<close>

definition malformed_rule :: "toggle \<Rightarrow> bool" where
  "malformed_rule t \<longleftrightarrow> tg_HasActivationRule t \<and>
     (case tg_ActivationRule t of None \<Rightarrow> False
      | Some r \<Rightarrow> (case ar_Config r of RawMalformed _ \<Rightarrow> True | _ \<Rightarrow> False))"

definition go_level :: "toggle \<Rightarrow> bool" where
  "go_level t \<longleftrightarrow> - (2 ^ 63) \<le> tg_Level t \<and> tg_Level t \<le> max_int64"

definition publishable :: "toggle \<Rightarrow> bool" where
  "publishable t \<longleftrightarrow> wf_segments (Split dot (tg_Path t)) \<and> \<not> malformed_rule t"

lemma member_names:
  "plain_name ''id''" "plain_name ''value''" "plain_name ''enabled''" "plain_name ''path''" "plain_name ''level''"
  "plain_name ''parent_id''" "plain_name ''app_id''" "plain_name ''has_activation_rule''"
  "plain_name ''activation_rule''" "plain_name ''type''" "plain_name ''config''" "plain_name ''application''"
  "plain_name ''revision''" "plain_name ''toggles''" "plain_name ''name''"
  by (simp_all add: plain_name_def is_lower_def)

lemmas member_match = member_names field_matches_plain

lemma rule_json_decodes:
  assumes "\<And>b. ar_Config r \<noteq> RawMalformed b"
  obtains j where "rule_json r = Some j" "decode_rule_ptr None j = Some (Some (sdk_rule_of r))"
proof (cases "ar_Config r")
  case RawEmpty
  then show ?thesis
    by (intro that, simp add: rule_json_def) (simp add: rule_member_def member_match sdk_rule_of_def zero_rule_def)
next
  case (RawMalformed b)
  with assms[of b] show ?thesis by simp
next
  case (RawJSON v)
  then show ?thesis
    by (intro that, simp add: rule_json_def) (simp add: rule_member_def member_match sdk_rule_of_def zero_rule_def)
qed

lemma toggle_json_malformed: "public_toggle_json (simplify_toggle t) = None \<longleftrightarrow> malformed_rule t"
  by (auto simp: public_toggle_json_def simplify_toggle_def malformed_rule_def rule_json_def
      split: option.splits raw_message.splits)

lemma toggle_json_decodes:
  assumes "\<not> malformed_rule t" "go_level t"
  obtains j where "public_toggle_json (simplify_toggle t) = Some j"
    "decode_toggle j = (if wf_segments (Split dot (tg_Path t)) then Some (sdk_toggle_of t) else None)"
proof -
  have good: "Path_UnmarshalJSON (JStr (tg_Path t)) = Inr (Path (tg_Path t))" if "wf_segments (Split dot (tg_Path t))"
    using that NewPath_Inr[of "tg_Path t" "Path (tg_Path t)"] by (simp add: Path_UnmarshalJSON_def)
  have bad: "\<exists>e. Path_UnmarshalJSON (JStr (tg_Path t)) = Inl e" if "\<not> wf_segments (Split dot (tg_Path t))"
    using that NewPath_Inr[of "tg_Path t"] by (cases "NewPath (tg_Path t)") (auto simp: Path_UnmarshalJSON_def)
  have lev: "- 9223372036854775808 \<le> tg_Level t" "tg_Level t \<le> max_int64" using assms(2) by (simp_all add: go_level_def)
  have ptr: "decode_string_ptr None (case p of None \<Rightarrow> JNull | Some i \<Rightarrow> JStr i) = Some p" for p
    by (cases p) simp_all
  obtain rj where rj: "(case pt_ActivationRule (simplify_toggle t) of None \<Rightarrow> Some JNull | Some r \<Rightarrow> rule_json r) = Some rj"
    "decode_rule_ptr None rj = Some (st_ActivationRule (sdk_toggle_of t))"
  proof (cases "pt_ActivationRule (simplify_toggle t)")
    case None
    with that show ?thesis by (auto simp: simplify_toggle_def sdk_toggle_of_def split: if_splits)
  next
    case (Some r)
    then have r: "tg_HasActivationRule t" "tg_ActivationRule t = Some r"
      by (auto simp: simplify_toggle_def split: if_splits)
    with assms(1) have "\<And>b. ar_Config r \<noteq> RawMalformed b" by (auto simp: malformed_rule_def)
    then obtain j where "rule_json r = Some j" "decode_rule_ptr None j = Some (Some (sdk_rule_of r))"
      by (rule rule_json_decodes)
    with that Some r show ?thesis by (simp add: sdk_toggle_of_def)
  qed
  note decode = toggle_member_def member_match zero_toggle_def lev ptr rj(2) simplify_toggle_def sdk_toggle_of_def
  show ?thesis
  proof (cases "wf_segments (Split dot (tg_Path t))")
    case True
    show ?thesis by (rule that, simp add: public_toggle_json_def rj(1)) (simp add: decode good[OF True] True)
  next
    case False
    from bad[OF False] obtain e where "Path_UnmarshalJSON (JStr (tg_Path t)) = Inl e" by blast
    then show ?thesis by (intro that, simp add: public_toggle_json_def rj(1)) (simp add: decode False)
  qed
qed

lemma toggles_json_malformed: "toggles_json (map simplify_toggle ts) = None \<longleftrightarrow> (\<exists>t\<in>set ts. malformed_rule t)"
proof -
  have "those (map public_toggle_json (map simplify_toggle ts)) = None \<longleftrightarrow> (\<exists>t\<in>set ts. malformed_rule t)"
    by (induction ts) (auto split: option.splits simp: toggle_json_malformed, metis option.distinct(1) toggle_json_malformed)
  then show ?thesis by (simp add: toggles_json_def)
qed

text \<open>The list decodes if every path does; then it is the list of the rows.\<close>

lemma toggles_json_decodes:
  assumes "\<forall>t\<in>set ts. \<not> malformed_rule t \<and> go_level t"
  obtains js where "toggles_json (map simplify_toggle ts) = Some (JArr js)"
    "decode_toggles js = (if \<forall>t\<in>set ts. wf_segments (Split dot (tg_Path t)) then Some (map sdk_toggle_of ts) else None)"
proof -
  have "\<exists>js. those (map public_toggle_json (map simplify_toggle ts)) = Some js \<and> decode_toggles js =
      (if \<forall>t\<in>set ts. wf_segments (Split dot (tg_Path t)) then Some (map sdk_toggle_of ts) else None)"
    using assms
  proof (induction ts)
    case (Cons t ts)
    then obtain js where "those (map public_toggle_json (map simplify_toggle ts)) = Some js" "decode_toggles js =
      (if \<forall>t\<in>set ts. wf_segments (Split dot (tg_Path t)) then Some (map sdk_toggle_of ts) else None)" by auto
    moreover obtain j where "public_toggle_json (simplify_toggle t) = Some j"
      "decode_toggle j = (if wf_segments (Split dot (tg_Path t)) then Some (sdk_toggle_of t) else None)"
      using Cons.prems toggle_json_decodes[of t] by auto
    ultimately show ?case by simp
  qed simp
  with that show ?thesis by (auto simp: toggles_json_def)
qed

text \<open>The served order: the rows themselves, sorted by path and identifier.\<close>

definition catalogue_rows :: "toggle list \<Rightarrow> toggle list" where
  "catalogue_rows ts = sort_key (\<lambda>t. catalogue_order (simplify_toggle t)) ts"

lemma insort_key_map: "insort_key f (h x) (map h xs) = map h (insort_key (\<lambda>x. f (h x)) x xs)"
  by (induction xs) auto

lemma simplifyCatalogueToggles_rows: "simplifyCatalogueToggles ts = map simplify_toggle (catalogue_rows ts)"
proof -
  have "sort_key f (map h xs) = map h (sort_key (\<lambda>x. f (h x)) xs)" for f :: "public_toggle \<Rightarrow> nat list list" and h xs
    by (induction xs) (simp_all add: insort_key_map)
  then show ?thesis by (simp add: simplifyCatalogueToggles_def catalogue_rows_def)
qed

lemma set_catalogue_rows [simp]: "set (catalogue_rows ts) = set ts"
  by (simp add: catalogue_rows_def)

text \<open>The order is total on rows with different identifiers, so the query's own order does not show.\<close>

lemma catalogue_rows_unique:
  assumes "set xs = set ys" "distinct (map tg_ID xs)" "distinct (map tg_ID ys)"
  shows "catalogue_rows xs = catalogue_rows ys"
proof -
  let ?f = "\<lambda>t. catalogue_order (simplify_toggle t)"
  have "distinct xs" "distinct ys" using assms(2,3) by (simp_all add: distinct_map)
  then have "mset xs = mset ys" using assms(1) set_eq_iff_mset_eq_distinct by blast
  moreover have "inj_on ?f (set xs)"
  proof (rule inj_onI)
    fix x y assume "x \<in> set xs" "y \<in> set xs" "?f x = ?f y"
    moreover have "map of_char s = (map of_char s' :: nat list) \<Longrightarrow> s = s'" for s s' :: string
      by (erule map_injective) (simp add: inj_on_def)
    ultimately have "tg_ID x = tg_ID y" by (simp add: catalogue_order_def simplify_toggle_def)
    with assms(2) \<open>x \<in> set xs\<close> \<open>y \<in> set xs\<close> show "x = y" by (auto simp: distinct_map inj_on_def)
  qed
  ultimately have "sort_key ?f xs = sort_key ?f ys"
    by (intro sort_key_inj_key_eq) (simp_all add: sorted_sort_key)
  then show ?thesis by (simp add: catalogue_rows_def)
qed

text \<open>What the handler serves, from the rows it reads: the document the revision is the hash of, the tag and the body.\<close>

definition revision_document :: "application \<Rightarrow> toggle list \<Rightarrow> json option" where
  "revision_document a ts =
     map_option (\<lambda>j. JObj [(''application_id'', JStr (ap_ID a)), (''application_name'', JStr (ap_Name a)), (''toggles'', j)])
       (toggles_json (simplifyCatalogueToggles ts))"

definition served_revision :: "digest \<Rightarrow> application \<Rightarrow> toggle list \<Rightarrow> string" where
  "served_revision dg a ts = the (catalogueRevision dg (ap_ID a) (ap_Name a) (simplifyCatalogueToggles ts))"

definition served_etag :: "digest \<Rightarrow> application \<Rightarrow> toggle list \<Rightarrow> string" where
  "served_etag dg a ts = quote # served_revision dg a ts @ [quote]"

definition served_body :: "digest \<Rightarrow> application \<Rightarrow> toggle list \<Rightarrow> json option" where
  "served_body dg a ts =
     public_catalogue_response (ap_ID a) (ap_Name a) (served_revision dg a ts) (simplifyCatalogueToggles ts)"

lemma revision_of_document:
  "catalogueRevision dg (ap_ID a) (ap_Name a) (simplifyCatalogueToggles ts)
     = map_option (\<lambda>j. EncodeToString (dg_sha256 dg (dg_Marshal dg j))) (revision_document a ts)"
  by (cases "toggles_json (simplifyCatalogueToggles ts)") (simp_all add: catalogueRevision_def revision_document_def)

lemma revision_document_malformed: "revision_document a ts = None \<longleftrightarrow> (\<exists>t\<in>set ts. malformed_rule t)"
  by (simp add: revision_document_def simplifyCatalogueToggles_rows toggles_json_malformed)

lemma served_decodes:
  assumes "\<forall>t\<in>set ts. \<not> malformed_rule t \<and> go_level t"
  obtains x where "revision_document a ts = Some x"
    "catalogueRevision dg (ap_ID a) (ap_Name a) (simplifyCatalogueToggles ts) = Some (served_revision dg a ts)"
    "served_revision dg a ts = EncodeToString (dg_sha256 dg (dg_Marshal dg x))"
    "\<exists>j. served_body dg a ts = Some j \<and> decode_response j =
       (if \<forall>t\<in>set ts. wf_segments (Split dot (tg_Path t))
        then Some \<lparr> fr_Revision = served_revision dg a ts, fr_Toggles = map sdk_toggle_of (catalogue_rows ts) \<rparr> else None)"
proof -
  from assms have "\<forall>t\<in>set (catalogue_rows ts). \<not> malformed_rule t \<and> go_level t" by simp
  then obtain js where
    js: "toggles_json (map simplify_toggle (catalogue_rows ts)) = Some (JArr js)"
      "decode_toggles js = (if \<forall>t\<in>set ts. wf_segments (Split dot (tg_Path t))
        then Some (map sdk_toggle_of (catalogue_rows ts)) else None)"
    by (rule toggles_json_decodes) simp
  then obtain x where x: "revision_document a ts = Some x"
    by (simp add: revision_document_def simplifyCatalogueToggles_rows)
  show ?thesis
  proof (rule that)
    show "catalogueRevision dg (ap_ID a) (ap_Name a) (simplifyCatalogueToggles ts) = Some (served_revision dg a ts)"
      "served_revision dg a ts = EncodeToString (dg_sha256 dg (dg_Marshal dg x))"
      by (simp_all add: served_revision_def revision_of_document x)
    show "\<exists>j. served_body dg a ts = Some j \<and> decode_response j =
       (if \<forall>t\<in>set ts. wf_segments (Split dot (tg_Path t))
        then Some \<lparr> fr_Revision = served_revision dg a ts, fr_Toggles = map sdk_toggle_of (catalogue_rows ts) \<rparr> else None)"
      by (simp add: served_body_def public_catalogue_response_def js(1) simplifyCatalogueToggles_rows
          response_member_def application_member_def member_match js(2))
  qed (rule x)
qed

text \<open>The document determines what the client decodes.\<close>

lemma revision_document_rows:
  assumes "revision_document a ts = Some x" "revision_document b us = Some x"
    and "\<forall>t\<in>set ts. publishable t \<and> go_level t" "\<forall>t\<in>set us. publishable t \<and> go_level t"
  shows "map sdk_toggle_of (catalogue_rows ts) = map sdk_toggle_of (catalogue_rows us)"
proof -
  have "\<exists>js. toggles_json (simplifyCatalogueToggles ws) = Some (JArr js)
      \<and> decode_toggles js = Some (map sdk_toggle_of (catalogue_rows ws))"
    if "\<forall>t\<in>set ws. publishable t \<and> go_level t" for ws
    using that toggles_json_decodes[of "catalogue_rows ws"] by (auto simp: publishable_def simplifyCatalogueToggles_rows)
  from this[OF assms(3)] this[OF assms(4)] assms(1,2) show ?thesis by (auto simp: revision_document_def)
qed

section \<open>the client's answers\<close>

lemma ByPath_snapshot:
  assumes "toggle_inv R" "set ts = {t \<in> set R. toggle_live t \<and> tg_AppID t = app}"
  shows "ByPath (NewApplication (map sdk_toggle_of ts)) p = Some u \<longleftrightarrow>
    (\<exists>t. live_at R app (path_value p) t \<and> u = sdk_toggle_of t)"
proof -
  let ?P = "\<lambda>tg. st_Path tg = p" and ?xs = "rev (map sdk_toggle_of ts)"
  have path: "st_Path (sdk_toggle_of t) = p \<longleftrightarrow> tg_Path t = path_value p" for t
    by (cases p) (auto simp: sdk_toggle_of_def)
  have found: "\<exists>t. live_at R app (path_value p) t \<and> u = sdk_toggle_of t" if "find ?P ?xs = Some u" for u
  proof -
    from that obtain i where "i < length ?xs" "?P (?xs ! i)" "u = ?xs ! i" unfolding find_Some_iff by blast
    then have "u \<in> set ?xs" "?P u" using nth_mem by blast+
    then obtain t where t: "t \<in> set ts" "u = sdk_toggle_of t" "tg_Path t = path_value p" using path by auto
    then have "live_at R app (path_value p) t" using assms(2) unfolding live_at_def by blast
    with t(2) show ?thesis by blast
  qed
  have "find ?P ?xs = Some (sdk_toggle_of t)" if t: "live_at R app (path_value p) t" for t
  proof (cases "find ?P ?xs")
    case None
    have "t \<in> set ts" "st_Path (sdk_toggle_of t) = p" using t assms(2) path unfolding live_at_def by blast+
    with None show ?thesis by (auto simp: find_None_iff)
  next
    case (Some u)
    then obtain x where x: "live_at R app (path_value p) x" "u = sdk_toggle_of x" using found by blast
    with live_at_unique[OF assms(1) x(1) t] Some show ?thesis by simp
  qed
  with found show ?thesis unfolding ByPath_NewApplication by blast
qed

lemma prefixes_ancestors: "set (path_prefixes path) = insert path (path_value ` set (AncestorPaths (Path path)))"
proof -
  let ?n = "length (Split dot path)"
  have "{..<?n} = insert (?n - 1) ((\<lambda>j. j - 1) ` {1..<?n})"
  proof (intro equalityI subsetI)
    fix k assume "k \<in> {..<?n}"
    then show "k \<in> insert (?n - 1) ((\<lambda>j. j - 1) ` {1..<?n})"
      by (cases "k = ?n - 1") (auto intro!: image_eqI[of _ _ "k + 1"])
  qed (use length_Split_pos[of dot path] in auto)
  then have "set (path_prefixes path) = prefix_path path ` insert (?n - 1) ((\<lambda>j. j - 1) ` {1..<?n})"
    by (simp add: path_prefixes_def atLeast0LessThan)
  also have "\<dots> = insert path ((\<lambda>j. prefix_path path (j - 1)) ` {1..<?n})"
    using prefix_path_last[of path] by (simp add: image_image)
  also have "(\<lambda>j. prefix_path path (j - 1)) ` {1..<?n} = path_value ` set (AncestorPaths (Path path))"
    by (auto simp: AncestorPaths_eq Segments_def prefix_path_def image_image intro!: image_cong)
  finally show ?thesis .
qed

text \<open>A client that holds the catalogue answers with the status of the server and the rule of the row.\<close>

lemma snapshot_status:
  assumes inv: "toggle_inv R" and ts: "set ts = {t \<in> set R. toggle_live t \<and> tg_AppID t = app}"
    and pub: "\<forall>t\<in>set ts. publishable t"
    and c: "ca_app (cl_cache c) = NewApplication (map sdk_toggle_of ts)" "cl_started c" "\<not> cl_shutdown c"
  shows "IsActiveContext env c ctx path \<longleftrightarrow>
    (\<exists>t. live_at R app path t \<and> effective R app path \<and> evaluateRule env c (sdk_toggle_of t) ctx = Some True)"
proof -
  note by_path = ByPath_snapshot[OF inv ts]
  have anc: "(\<forall>tg\<in>set (AncestorsOf (NewApplication (map sdk_toggle_of ts)) (Path path)). st_Enabled tg) \<longleftrightarrow>
      (\<forall>q\<in>set (AncestorPaths (Path path)). enabled_at R app (path_value q))" if live: "live_at R app path t" for t
  proof -
    have "enabled_at R app (path_value q) \<longleftrightarrow> (\<forall>tg. (\<exists>x. live_at R app (path_value q) x \<and> tg = sdk_toggle_of x) \<longrightarrow> st_Enabled tg)"
      if q: "q \<in> set (AncestorPaths (Path path))" for q
    proof -
      have "path_value q \<in> set (path_prefixes path)" using q prefixes_ancestors by auto
      then obtain k where "k < length (Split dot path)" "path_value q = prefix_path path k"
        by (auto simp: path_prefixes_def)
      with live_prefixes[OF inv live] obtain x where x: "live_at R app (path_value q) x" by metis
      then have "(\<exists>y. live_at R app (path_value q) y \<and> tg = sdk_toggle_of y) \<longleftrightarrow> tg = sdk_toggle_of x" for tg
        using live_at_unique[OF inv x] by blast
      with enabled_at_live[OF inv x] show ?thesis by (simp add: sdk_toggle_of_def)
    qed
    then have "(\<forall>q\<in>set (AncestorPaths (Path path)). enabled_at R app (path_value q)) \<longleftrightarrow>
        (\<forall>q\<in>set (AncestorPaths (Path path)). \<forall>tg. ByPath (NewApplication (map sdk_toggle_of ts)) q = Some tg \<longrightarrow> st_Enabled tg)"
      unfolding by_path by (rule ball_cong[OF refl])
    then show ?thesis unfolding AncestorsOf_def set_present_toggles by blast
  qed
  have wf: "NewPath path = Inr (Path path)" if "live_at R app path t" for t
    using that ts pub by (auto simp: live_at_def publishable_def NewPath_Inr)
  have eff: "effective R app path \<longleftrightarrow> enabled_at R app path
      \<and> (\<forall>q\<in>set (AncestorPaths (Path path)). enabled_at R app (path_value q))"
    by (simp add: effective_def prefixes_ancestors)
  show ?thesis
  proof
    assume "IsActiveContext env c ctx path"
    then obtain p target where
      t: "NewPath path = Inr p" "ByPath (ca_app (cl_cache c)) p = Some target"
        "\<forall>tg\<in>set (AncestorsOf (ca_app (cl_cache c)) p). st_Enabled tg" "st_Enabled target"
        "evaluateRule env c target ctx = Some True"
      unfolding evaluate_result_iff by blast
    then have p: "p = Path path" by (simp add: NewPath_Inr)
    with t(2) c(1) by_path obtain x where x: "live_at R app path x" "target = sdk_toggle_of x" by auto
    with t p c(1) anc[OF x(1)] eff enabled_at_live[OF inv x(1)]
    show "\<exists>t. live_at R app path t \<and> effective R app path \<and> evaluateRule env c (sdk_toggle_of t) ctx = Some True"
      by (auto simp: sdk_toggle_of_def)
  next
    assume "\<exists>t. live_at R app path t \<and> effective R app path \<and> evaluateRule env c (sdk_toggle_of t) ctx = Some True"
    then obtain x where x: "live_at R app path x" "effective R app path" "evaluateRule env c (sdk_toggle_of x) ctx = Some True"
      by blast
    have "ByPath (ca_app (cl_cache c)) (Path path) = Some (sdk_toggle_of x)" using x(1) by_path c(1) by auto
    moreover have "st_Enabled (sdk_toggle_of x)" using x(1,2) eff enabled_at_live[OF inv x(1)] by (simp add: sdk_toggle_of_def)
    ultimately show "IsActiveContext env c ctx path"
      unfolding evaluate_result_iff using c wf[OF x(1)] x(3) anc[OF x(1)] eff x(2) by auto
  qed
qed

section \<open>conditional requests\<close>

lemma close_tag_plain:
  assumes "\<forall>c\<in>set s. c \<noteq> CHR 92 \<and> c \<noteq> quote"
  shows "close_tag (s @ [quote]) = Some (s, [])"
  using assms
proof (induction s)
  case (Cons c s)
  then show ?case by (cases "s @ [quote]") auto
qed simp

text \<open>A client that replays a tag is told that nothing changed exactly if it is the current one.\<close>

lemma same_tag_matches:
  assumes "\<forall>c\<in>set s. c \<noteq> CHR 92 \<and> c \<noteq> quote \<and> printable c"
  shows "ifNoneMatchMatches (quote # s @ [quote]) (quote # s' @ [quote]) \<longleftrightarrow> s = s'"
proof -
  have "TrimSpace (quote # s @ [quote]) = quote # s @ [quote]"
    using assms by (intro TrimSpace_printable) (auto simp: printable_def)
  moreover have "close_tag (s @ [quote]) = Some (s, [])" using assms by (intro close_tag_plain) auto
  ultimately show ?thesis
    by (subst ifNoneMatchMatches_def, subst match_tags.simps) (simp add: Let_def blank_def HasPrefix_def)
qed

lemma hex_chars: "c \<in> set (EncodeToString s) \<Longrightarrow> \<exists>n<16. c = SecretKey.hex_digit n"
proof -
  assume "c \<in> set (EncodeToString s)"
  then obtain b where "c = SecretKey.hex_digit (of_char b div 16) \<or> c = SecretKey.hex_digit (of_char b mod 16)"
    by (auto simp: EncodeToString_def)
  moreover have "(of_char b :: nat) div 16 < 16" "(of_char b :: nat) mod 16 < 16"
    using nat_of_char_less_256[of b] by (simp_all add: less_mult_imp_div_less)
  ultimately show ?thesis by blast
qed

lemma hex_plain:
  assumes "c \<in> set (EncodeToString s)"
  shows "c \<noteq> CHR 92" "c \<noteq> quote" "printable c" "(of_char c :: nat) > 31" "(of_char c :: nat) \<noteq> 127"
proof -
  from hex_chars[OF assms] obtain n where n: "n < 16" "c = SecretKey.hex_digit n" by blast
  have v: "(of_char c :: nat) = (if n < 10 then 48 + n else 87 + n)" using n by (simp add: SecretKey.hex_digit_def)
  have "(of_char (CHR 92) :: nat) = 92" "(of_char quote :: nat) = 34" by simp_all
  with v n(1) show "c \<noteq> CHR 92" "c \<noteq> quote" by (auto split: if_splits)
  show "printable c" "(of_char c :: nat) > 31" "(of_char c :: nat) \<noteq> 127"
    using v n(1) by (auto simp: printable_def)
qed

lemma length_hex: "length (EncodeToString s) = 2 * length s"
  by (induction s) (simp_all add: EncodeToString_def)

lemma hex_digit_inj:
  assumes "m < 16" "n < 16" "SecretKey.hex_digit m = SecretKey.hex_digit n"
  shows "m = n"
proof -
  have v: "(of_char (SecretKey.hex_digit k) :: nat) = (if k < 10 then 48 + k else 87 + k)" if "k < 16" for k
    using that by (simp add: SecretKey.hex_digit_def)
  from arg_cong[OF assms(3), of "of_char :: char \<Rightarrow> nat"] v[OF assms(1)] v[OF assms(2)] assms(1,2) show ?thesis
    by (auto split: if_splits)
qed

lemma EncodeToString_inj: "EncodeToString s = EncodeToString s' \<longleftrightarrow> s = s'"
proof (induction s arbitrary: s')
  case Nil
  then show ?case using length_hex[of s'] by (cases s') (auto simp: EncodeToString_def)
next
  case (Cons b s)
  show ?case
  proof (cases s')
    case Nil
    then show ?thesis by (simp add: EncodeToString_def)
  next
    case (Cons b' t)
    have lt: "(of_char x :: nat) div 16 < 16" "(of_char x :: nat) mod 16 < 16" for x :: char
      using nat_of_char_less_256[of x] by (simp_all add: less_mult_imp_div_less)
    have "b = b'" if "SecretKey.hex_digit (of_char b div 16) = SecretKey.hex_digit (of_char b' div 16)"
      "SecretKey.hex_digit (of_char b mod 16) = SecretKey.hex_digit (of_char b' mod 16)"
      using hex_digit_inj[OF lt(1) lt(1) that(1)] hex_digit_inj[OF lt(2) lt(2) that(2)]
      by (metis of_char_eq_iff div_mult_mod_eq)
    with Cons Cons.IH[of t] show ?thesis by (auto simp: EncodeToString_def)
  qed
qed

lemma served_etag_safe:
  assumes "length s \<le> 511"
  shows "safeETag (quote # EncodeToString s @ [quote])"
  using assms hex_plain(4,5)[of _ s] by (fastforce simp: safeETag_def length_hex list_ex_iff)

section \<open>a refresh against the handler\<close>

text \<open>The answer to a client's request; a request that gets no answer is a transport error.\<close>

definition answer :: "'s key_handler \<Rightarrow> digest \<Rightarrow> int \<Rightarrow> 's \<Rightarrow> fetch_request \<Rightarrow> http_response" where
  "answer h dg t d rq =
     (case GetTogglesBySecret h dg t (rq_XAPIKey rq) (case rq_IfNoneMatch rq of None \<Rightarrow> [] | Some v \<Rightarrow> [v]) d of
        Some (Inr r, _) \<Rightarrow> r
      | _ \<Rightarrow> RequestFailed)"

abbreviation client_request :: "'c client \<Rightarrow> fetch_request" where
  "client_request c \<equiv>
     build_request (apiURL (cl_cfg c)) (cf_SecretKey (cl_cfg c)) (cs_ETag (ca_stats (cl_cache c)))"

lemma refreshOnce_200:
  assumes "\<not> cl_shutdown c" "send (client_request c) = Response 200 et (Some j)" "decode_response j = Some res"
  shows "refreshOnce t send c =
    (c\<lparr> cl_cache := UpdateCatalog t (NewApplication (fr_Toggles res)) (if \<not> safeETag et then [] else et) (fr_Revision res) (cl_cache c),
        cl_events := cl_events c @ notifyRefreshSuccess (cl_metrics c) (length (fr_Toggles res)) \<rparr>, None)"
  using assms by (simp add: refreshOnce_def Fetch_def refresh_apply_def NewApplication_def Let_def)

definition same_client :: "'c client \<Rightarrow> 'c client \<Rightarrow> bool" where
  "same_client c c' \<longleftrightarrow> cl_cfg c' = cl_cfg c \<and> cl_registry c' = cl_registry c \<and> cl_started c' = cl_started c
     \<and> cl_shutdown c' = cl_shutdown c"

lemma refreshOnce_304:
  assumes "\<not> cl_shutdown c" "send (client_request c) = Response 304 et body" "ca_hasCatalog (cl_cache c)"
  obtains c' where "refreshOnce t send c = (c', None)" "ca_app (cl_cache c') = ca_app (cl_cache c)"
    "ca_hasCatalog (cl_cache c')" "cl_cfg c' = cl_cfg c" "cl_registry c' = cl_registry c" "cl_started c' = cl_started c"
    "cl_shutdown c' = cl_shutdown c"
    "cs_ETag (ca_stats (cl_cache c')) = (if safeETag et \<and> et \<noteq> [] then et else cs_ETag (ca_stats (cl_cache c)))"
  by (rule that[of "fst (refreshOnce t send c)"])
     (use assms in \<open>simp_all add: refreshOnce_def Fetch_def refresh_apply_def RecordFreshness_def Let_def\<close>)

lemma refreshOnce_error:
  assumes "\<not> cl_shutdown c" "handle_response r = Inl err"
  obtains c' where "refreshOnce t (\<lambda>_. r) c = (c', Some err)" "ca_app (cl_cache c') = ca_app (cl_cache c)"
    "ca_hasCatalog (cl_cache c') = ca_hasCatalog (cl_cache c)" "same_client c c'"
    "cs_ETag (ca_stats (cl_cache c')) = cs_ETag (ca_stats (cl_cache c))"
  by (rule that[of "fst (refreshOnce t (\<lambda>_. r) c)"])
     (use assms in \<open>simp_all add: refreshOnce_def Fetch_def refresh_apply_def RecordFailure_def Let_def same_client_def\<close>)

text \<open>A client that polls: a request answered by the handler from the database as it is then, at a time of the
  client's and of the server's clock; or one that gets some other answer, or none.\<close>

datatype 'd poll = Polled int int 'd | Failed int http_response

fun polling :: "'d key_handler \<Rightarrow> digest \<Rightarrow> 'd poll list \<Rightarrow> 'c client \<Rightarrow> 'c client" where
  "polling h dg [] c = c"
| "polling h dg (Polled t u d # ps) c = polling h dg ps (fst (refreshOnce t (answer h dg u d) c))"
| "polling h dg (Failed t r # ps) c = polling h dg ps (fst (refreshOnce t (\<lambda>_. r) c))"

text \<open>The rows of an application, and a client that holds their catalogue.\<close>

definition app_rows :: "application \<Rightarrow> toggle list \<Rightarrow> toggle list" where
  "app_rows a R = filter (\<lambda>x. toggle_live x \<and> tg_AppID x = ap_ID a) R"

definition holds_catalogue :: "digest \<Rightarrow> application \<Rightarrow> toggle list \<Rightarrow> 'c client \<Rightarrow> bool" where
  "holds_catalogue dg a ts c \<longleftrightarrow>
     cs_ETag (ca_stats (cl_cache c)) = served_etag dg a ts \<and> ca_hasCatalog (cl_cache c)
     \<and> ca_app (cl_cache c) = NewApplication (map sdk_toggle_of (catalogue_rows ts))"

section \<open>the handler over the database\<close>

locale catalogue_db =
  key_table "sd_keys db" keys +
  apps: gorm_table "sd_apps db" apps "\<lambda>_. True" "\<lambda>a. a" "\<lambda>a. a" ap_ID "\<lambda>x a. ap_ID x = ap_ID a" "\<lambda>_. None" +
  toggles: toggle_table "sd_toggles db" toggles now "sd_users db"
  for db :: "'d server_db" and keys apps toggles now +
  assumes keys_apart: "keeps (sd_keys db) (\<lambda>d. (toggles d, apps d))"
    and toggles_apart: "keeps (sd_toggles db) (\<lambda>d. (keys d, apps d))"

text \<open>A key that authenticates the presented string for an existing application, over a well-formed table of
  toggles whose levels are Go ints. Nothing is asked of the paths and rules of the rows.\<close>

definition catalogue_key :: "digest \<Rightarrow> string \<Rightarrow> secret_key list \<Rightarrow> application list \<Rightarrow> toggle list \<Rightarrow> secret_key \<Rightarrow> application \<Rightarrow> bool" where
  "catalogue_key dg presented ks as R k a \<longleftrightarrow>
     presented \<noteq> [] \<and> keys_unique ks \<and> k \<in> set ks \<and> sk_Active k \<and> sk_KeyHash k = EncodeToString (dg_sha256 dg presented)
     \<and> distinct (map ap_ID as) \<and> a \<in> set as \<and> ap_ID a = sk_ApplicationID k \<and> ap_ID a \<noteq> [] \<and> toggle_inv R
     \<and> (\<forall>t\<in>set R. go_level t)"

definition key_used :: "int \<Rightarrow> secret_key \<Rightarrow> secret_key list \<Rightarrow> secret_key list" where
  "key_used now k ks = map (\<lambda>x. if sk_ID x = sk_ID k then k\<lparr> sk_LastUsedAt := Some now \<rparr> else x) ks"

context catalogue_db
begin

lemma validate_keeps:
  "call_keeps (ValidateSecretKey (NewSecretKeyRepository (sd_keys db)) sha t presented) (\<lambda>d. (toggles d, apps d))"
  unfolding ValidateSecretKey_def NewSecretKeyRepository_def Key_GetByHash_def Key_Update_def Let_def
  using quietD[OF quietI[OF gorm_table_axioms keys_apart]] by (auto intro!: keep_intros)

lemma validated:
  assumes "catalogue_key dg presented (keys d) (apps d) (toggles d) k a"
  obtains d' where "ValidateSecretKey (NewSecretKeyRepository (sd_keys db)) (dg_sha256 dg) t presented d
      = Some (Inr (k\<lparr> sk_LastUsedAt := Some t \<rparr>), d')"
    "keys d' = key_used t k (keys d)" "toggles d' = toggles d" "apps d' = apps d"
proof -
  note c = assms[unfolded catalogue_key_def]
  have u: "keys_unique (keys d)" using c by blast
  have "authenticates (keys d) (dg_sha256 dg) presented" using c by (auto simp: authenticates_def)
  with ValidateSecretKey_outcome[OF key_table_axioms u, of "dg_sha256 dg" t presented] obtain k' d' where
    v: "ValidateSecretKey (NewSecretKeyRepository (sd_keys db)) (dg_sha256 dg) t presented d
        = Some (Inr (k'\<lparr> sk_LastUsedAt := Some t \<rparr>), d')"
      "k' \<in> set (keys d)" "sk_KeyHash k' = EncodeToString (dg_sha256 dg presented)"
      "keys d' = map (\<lambda>x. if sk_ID x = sk_ID k' then k'\<lparr> sk_LastUsedAt := Some t \<rparr> else x) (keys d)" by auto
  have "k' = k" using keys_unique_eq(2)[OF u v(2)] c v(3) by auto
  moreover have "(toggles d', apps d') = (toggles d, apps d)" using call_keepsD[OF validate_keeps v(1)] .
  ultimately show ?thesis using v that by (simp add: key_used_def)
qed

lemma served:
  assumes "catalogue_key dg presented (keys d) (apps d) (toggles d) k a"
  obtains ts d' where "set ts = {x \<in> set (toggles d). toggle_live x \<and> tg_AppID x = ap_ID a}" "distinct (map tg_ID ts)"
    "GetTogglesBySecret (NewSecretKeyHandler db e) dg t presented ifNoneMatch d = Some (Inr
       (if \<exists>x\<in>set ts. malformed_rule x then error_reply 500 ''Failed to build toggle catalogue''
        else if list_ex (\<lambda>v. ifNoneMatchMatches v (served_etag dg a ts)) ifNoneMatch
        then Response 304 (served_etag dg a ts) None
        else Response 200 (served_etag dg a ts) (served_body dg a ts)), d')"
    "keys d' = key_used t k (keys d)" "toggles d' = toggles d" "apps d' = apps d"
proof -
  note c = assms[unfolded catalogue_key_def]
  from validated[OF assms, of t] obtain d' where
    d': "ValidateSecretKey (NewSecretKeyRepository (sd_keys db)) (dg_sha256 dg) t presented d
        = Some (Inr (k\<lparr> sk_LastUsedAt := Some t \<rparr>), d')"
      "keys d' = key_used t k (keys d)" "toggles d' = toggles d" "apps d' = apps d" .
  have fit: "presented \<noteq> []" "ap_ID a = sk_ApplicationID k" "sk_ApplicationID k \<noteq> []" using c by metis+
  obtain r where r: "g_First (sd_apps db) False (\<lambda>x. ap_ID x = ap_ID a) d' = Some (r, d')"
    "found (\<lambda>x. ap_ID x = ap_ID a) (apps d') r"
    using apps.first[of False "\<lambda>x. ap_ID x = ap_ID a" d'] by auto
  then obtain b where b: "r = Inr b" "b \<in> set (apps d)" "ap_ID b = ap_ID a"
    using c d'(4) by (cases r) (auto simp: found_def)
  have "b = a" using c b(2,3) by (auto simp: distinct_map inj_on_def)
  with r b have app: "App_GetByID (app_db_of db e) (sk_ApplicationID k) d' = Some (Inr a, d')"
    using c by (simp add: App_GetByID_def app_db_of_def)
  obtain ts where ts: "tr_GetHierarchyByAppID (toggle_repo_impl (sd_toggles db) (sd_users db)) (ap_ID a) d' = Some (Inr ts, d')"
    "set ts = {x \<in> set (toggles d). toggle_live x \<and> tg_AppID x = ap_ID a}"
    "distinct (map tg_ID (toggles d)) \<longrightarrow> distinct (map tg_ID ts)"
    using toggle_repository.GetHierarchyByAppID[OF toggles.contract, of "ap_ID a" d'] d'(3) by auto
  have "distinct (map tg_ID (toggles d))" using c toggle_inv_forest by (auto simp: forest_def)
  moreover have "catalogueRevision dg (ap_ID a) (ap_Name a) (simplifyCatalogueToggles ts)
      = (if \<exists>x\<in>set ts. malformed_rule x then None else Some (served_revision dg a ts))"
  proof (cases "revision_document a ts")
    case None
    with revision_document_malformed[of a ts] show ?thesis by (simp add: revision_of_document)
  next
    case (Some x)
    with revision_document_malformed[of a ts] show ?thesis by (simp add: revision_of_document served_revision_def)
  qed
  then have "GetTogglesBySecret (NewSecretKeyHandler db e) dg t presented ifNoneMatch d = Some (Inr
       (if \<exists>x\<in>set ts. malformed_rule x then error_reply 500 ''Failed to build toggle catalogue''
        else if list_ex (\<lambda>v. ifNoneMatchMatches v (served_etag dg a ts)) ifNoneMatch
        then Response 304 (served_etag dg a ts) None
        else Response 200 (served_etag dg a ts) (served_body dg a ts)), d')"
    using fit d'(1) app ts(1)
    by (simp add: GetTogglesBySecret_def NewSecretKeyHandler_def GetApplicationByID_def GetAllTogglesByApp_def
        NewApplicationUseCase_def NewApplicationRepository_def ok_def served_etag_def served_body_def Let_def)
  ultimately show ?thesis using that ts d' by blast
qed

lemma rows_distinct: "toggle_inv R \<Longrightarrow> distinct (map tg_ID (app_rows a R))"
  unfolding app_rows_def using toggle_inv_forest by (intro distinct_map_filter) (auto simp: forest_def)

lemma answer_good:
  assumes key: "catalogue_key dg (cf_SecretKey (cl_cfg c)) (keys d) (apps d) (toggles d) k a"
    and good: "\<forall>x\<in>set (app_rows a (toggles d)). publishable x"
  defines "v \<equiv> cs_ETag (ca_stats (cl_cache c))" and "et \<equiv> served_etag dg a (app_rows a (toggles d))"
  shows "answer (NewSecretKeyHandler db e) dg u d (client_request c) =
    (if v \<noteq> [] \<and> ifNoneMatchMatches v et then Response 304 et None
     else Response 200 et (served_body dg a (app_rows a (toggles d))))"
proof -
  let ?rows = "app_rows a (toggles d)" and ?sent = "if v \<noteq> [] then [v] else []"
  obtain ts d' where
    ts: "set ts = {x \<in> set (toggles d). toggle_live x \<and> tg_AppID x = ap_ID a}" "distinct (map tg_ID ts)"
    and r: "GetTogglesBySecret (NewSecretKeyHandler db e) dg u (cf_SecretKey (cl_cfg c)) ?sent d = Some (Inr
       (if \<exists>x\<in>set ts. malformed_rule x then error_reply 500 ''Failed to build toggle catalogue''
        else if list_ex (\<lambda>v. ifNoneMatchMatches v (served_etag dg a ts)) ?sent
        then Response 304 (served_etag dg a ts) None
        else Response 200 (served_etag dg a ts) (served_body dg a ts)), d')"
    by (rule served[OF key, where e = e and t = u and ifNoneMatch = ?sent])
  have rows: "set ts = set ?rows" using ts(1) by (auto simp: app_rows_def)
  have "distinct (map tg_ID ?rows)" using key by (intro rows_distinct) (simp add: catalogue_key_def)
  from catalogue_rows_unique[OF rows ts(2) this] have same: "catalogue_rows ts = catalogue_rows ?rows" .
  have et: "served_etag dg a ts = et" "served_body dg a ts = served_body dg a ?rows"
    by (simp_all add: et_def served_etag_def served_body_def served_revision_def simplifyCatalogueToggles_rows same)
  show ?thesis using r good rows by (auto simp: answer_def build_request_def et v_def publishable_def)
qed

text \<open>One poll of a client that holds no catalogue, or the one of some rows whose document the hash tells from the
  current one: afterwards it holds the current one.\<close>

lemma poll_step:
  assumes key: "catalogue_key dg (cf_SecretKey (cl_cfg c)) (keys d) (apps d) (toggles d) k a"
    and good: "\<forall>x\<in>set (app_rows a (toggles d)). publishable x"
    and sha: "\<forall>x. length (dg_sha256 dg x) = 32" and up: "\<not> cl_shutdown c"
    and held: "cs_ETag (ca_stats (cl_cache c)) = [] \<or> (\<exists>b us. holds_catalogue dg b us c
      \<and> (\<forall>x\<in>set us. publishable x \<and> go_level x)
      \<and> (\<forall>x y. revision_document b us = Some x \<and> revision_document a (app_rows a (toggles d)) = Some y
           \<and> dg_sha256 dg (dg_Marshal dg x) = dg_sha256 dg (dg_Marshal dg y) \<longrightarrow> x = y))"
  obtains c' where "refreshOnce t (answer (NewSecretKeyHandler db e) dg u d) c = (c', None)"
    "holds_catalogue dg a (app_rows a (toggles d)) c'" "same_client c c'"
proof -
  let ?h = "NewSecretKeyHandler db e" and ?v = "cs_ETag (ca_stats (cl_cache c))" and ?rows = "app_rows a (toggles d)"
  let ?et = "served_etag dg a ?rows"
  have lev: "\<forall>x\<in>set ?rows. go_level x" using key by (auto simp: catalogue_key_def app_rows_def)
  with good have ok: "\<forall>x\<in>set ?rows. \<not> malformed_rule x \<and> go_level x" by (auto simp: publishable_def)
  note ans = answer_good[OF key good, of e u]
  have paths: "(\<forall>t\<in>set ?rows. wf_segments (Split dot (tg_Path t))) = True" using good by (auto simp: publishable_def)
  from served_decodes[OF ok, of a dg, unfolded paths if_True] obtain x j where
    x: "revision_document a ?rows = Some x" "served_revision dg a ?rows = EncodeToString (dg_sha256 dg (dg_Marshal dg x))"
      "served_body dg a ?rows = Some j"
      "decode_response j = Some \<lparr> fr_Revision = served_revision dg a ?rows, fr_Toggles = map sdk_toggle_of (catalogue_rows ?rows) \<rparr>"
    by metis
  have safe: "safeETag ?et" "?et \<noteq> []"
    unfolding served_etag_def x(2) using sha by (intro served_etag_safe) simp_all
  show ?thesis
  proof (cases "?v \<noteq> [] \<and> ifNoneMatchMatches ?v ?et")
    case False
    with ans x(3) have "answer ?h dg u d (client_request c) = Response 200 ?et (Some j)" by auto
    from that[OF refreshOnce_200[of c "answer ?h dg u d", OF up this x(4)]] safe show ?thesis
      by (simp add: holds_catalogue_def same_client_def UpdateCatalog_def)
  next
    case True
    with held obtain b us where b: "holds_catalogue dg b us c" "\<forall>x\<in>set us. publishable x \<and> go_level x"
      "\<And>x y. revision_document b us = Some x \<Longrightarrow> revision_document a ?rows = Some y
         \<Longrightarrow> dg_sha256 dg (dg_Marshal dg x) = dg_sha256 dg (dg_Marshal dg y) \<Longrightarrow> x = y" by blast
    from b(2) have "\<forall>x\<in>set us. \<not> malformed_rule x \<and> go_level x" by (auto simp: publishable_def)
    from served_decodes[OF this, of b dg] obtain y where
      y: "revision_document b us = Some y" "served_revision dg b us = EncodeToString (dg_sha256 dg (dg_Marshal dg y))" by blast
    have "?v = quote # served_revision dg b us @ [quote]" using b(1) by (simp add: holds_catalogue_def served_etag_def)
    with True have "ifNoneMatchMatches (quote # EncodeToString (dg_sha256 dg (dg_Marshal dg y)) @ [quote])
        (quote # EncodeToString (dg_sha256 dg (dg_Marshal dg x)) @ [quote])" by (simp add: served_etag_def x(2) y(2))
    then have "dg_sha256 dg (dg_Marshal dg y) = dg_sha256 dg (dg_Marshal dg x)"
      by (subst (asm) same_tag_matches) (use hex_plain EncodeToString_inj in blast)+
    from b(3)[OF y(1) x(1) this] y(1) have "revision_document b us = Some x" by simp
    from revision_document_rows[OF this x(1) b(2)] good lev
    have snap: "map sdk_toggle_of (catalogue_rows us) = map sdk_toggle_of (catalogue_rows ?rows)" by blast
    have a304: "answer ?h dg u d (client_request c) = Response 304 ?et None" using ans True by simp
    have has: "ca_hasCatalog (cl_cache c)" using b(1) by (simp add: holds_catalogue_def)
    obtain c' where c': "refreshOnce t (answer ?h dg u d) c = (c', None)" "ca_app (cl_cache c') = ca_app (cl_cache c)"
      "ca_hasCatalog (cl_cache c')" "cl_cfg c' = cl_cfg c" "cl_registry c' = cl_registry c" "cl_started c' = cl_started c"
      "cl_shutdown c' = cl_shutdown c" "cs_ETag (ca_stats (cl_cache c')) = (if safeETag ?et \<and> ?et \<noteq> [] then ?et else ?v)"
      by (rule refreshOnce_304[of c "answer ?h dg u d", OF up a304 has])
    with safe b(1) snap show ?thesis by (intro that[OF c'(1)]) (auto simp: holds_catalogue_def same_client_def)
  qed
qed

text \<open>A state the client can follow: its key authenticates and all rows of the application can be served.\<close>

definition followed :: "digest \<Rightarrow> string \<Rightarrow> 'd \<Rightarrow> application \<Rightarrow> bool" where
  "followed dg presented d a \<longleftrightarrow>
     (\<exists>k. catalogue_key dg presented (keys d) (apps d) (toggles d) k a) \<and> (\<forall>x\<in>set (app_rows a (toggles d)). publishable x)"

lemma polling_holds:
  assumes "\<forall>x. length (dg_sha256 dg x) = 32" "\<not> cl_shutdown c"
    and "\<forall>t u d. Polled t u d \<in> set ps \<longrightarrow> (\<exists>a. followed dg (cf_SecretKey (cl_cfg c)) d a \<and> revision_document a (app_rows a (toggles d)) \<in> Some ` D)"
    and "\<forall>t r. Failed t r \<in> set ps \<longrightarrow> (\<exists>err. handle_response r = Inl err)"
    and "inj_on (\<lambda>j. dg_sha256 dg (dg_Marshal dg j)) D"
    and "cs_ETag (ca_stats (cl_cache c)) = [] \<or> (\<exists>b us. holds_catalogue dg b us c
      \<and> (\<forall>x\<in>set us. publishable x \<and> go_level x) \<and> revision_document b us \<in> Some ` D)"
  shows "same_client c (polling (NewSecretKeyHandler db e) dg ps c)
    \<and> (cs_ETag (ca_stats (cl_cache (polling (NewSecretKeyHandler db e) dg ps c))) = []
       \<or> (\<exists>b us. holds_catalogue dg b us (polling (NewSecretKeyHandler db e) dg ps c)
          \<and> (\<forall>x\<in>set us. publishable x \<and> go_level x) \<and> revision_document b us \<in> Some ` D))"
  using assms
proof (induction ps arbitrary: c)
  case Nil
  then show ?case by (auto simp: same_client_def)
next
  case (Cons p ps)
  let ?h = "NewSecretKeyHandler db e" and ?I = "\<lambda>c. cs_ETag (ca_stats (cl_cache c)) = [] \<or> (\<exists>b us.
    holds_catalogue dg b us c \<and> (\<forall>x\<in>set us. publishable x \<and> go_level x) \<and> revision_document b us \<in> Some ` D)"
  have tr: "same_client c c' \<Longrightarrow> same_client c' c'' \<Longrightarrow> same_client c c''" for c' c'' by (simp add: same_client_def)
  have next_polls: "same_client c' (polling ?h dg ps c') \<and> ?I (polling ?h dg ps c')" if c': "same_client c c'" "?I c'" for c'
  proof (rule Cons.IH[OF Cons.prems(1) _ _ _ Cons.prems(5) c'(2)])
    have cfg: "cl_cfg c' = cl_cfg c" using c'(1) by (simp add: same_client_def)
    show "\<not> cl_shutdown c'" using c'(1) Cons.prems(2) by (simp add: same_client_def)
    show "\<forall>t u d. Polled t u d \<in> set ps \<longrightarrow> (\<exists>a. followed dg (cf_SecretKey (cl_cfg c')) d a
        \<and> revision_document a (app_rows a (toggles d)) \<in> Some ` D)"
      unfolding cfg using Cons.prems(3) by (meson list.set_intros(2))
    show "\<forall>t r. Failed t r \<in> set ps \<longrightarrow> (\<exists>err. handle_response r = Inl err)"
      using Cons.prems(4) by (meson list.set_intros(2))
  qed
  show ?case
  proof (cases p)
    case (Polled t u d)
    with Cons.prems(3) obtain k a where a: "catalogue_key dg (cf_SecretKey (cl_cfg c)) (keys d) (apps d) (toggles d) k a"
      "\<forall>x\<in>set (app_rows a (toggles d)). publishable x" "revision_document a (app_rows a (toggles d)) \<in> Some ` D"
      by (fastforce simp: followed_def)
    have "cs_ETag (ca_stats (cl_cache c)) = [] \<or> (\<exists>b us. holds_catalogue dg b us c
      \<and> (\<forall>x\<in>set us. publishable x \<and> go_level x)
      \<and> (\<forall>x y. revision_document b us = Some x \<and> revision_document a (app_rows a (toggles d)) = Some y
           \<and> dg_sha256 dg (dg_Marshal dg x) = dg_sha256 dg (dg_Marshal dg y) \<longrightarrow> x = y))"
      using Cons.prems(6)
    proof
      assume "\<exists>b us. holds_catalogue dg b us c \<and> (\<forall>x\<in>set us. publishable x \<and> go_level x) \<and> revision_document b us \<in> Some ` D"
      then obtain b us where b: "holds_catalogue dg b us c" "\<forall>x\<in>set us. publishable x \<and> go_level x"
        "revision_document b us \<in> Some ` D" by blast
      have "x = y" if "revision_document b us = Some x" "revision_document a (app_rows a (toggles d)) = Some y"
        "dg_sha256 dg (dg_Marshal dg x) = dg_sha256 dg (dg_Marshal dg y)" for x y
        using that b(3) a(3) Cons.prems(5) by (auto simp: inj_on_def)
      with b(1,2) show ?thesis by blast
    qed blast
    from poll_step[OF a(1,2) Cons.prems(1,2) this] obtain c' where
      c': "refreshOnce t (answer ?h dg u d) c = (c', None)" "holds_catalogue dg a (app_rows a (toggles d)) c'" "same_client c c'" .
    have lev: "\<forall>x\<in>set (app_rows a (toggles d)). publishable x \<and> go_level x"
      using a(1,2) by (auto simp: catalogue_key_def app_rows_def)
    have "?I c'" using c'(2) a(3) lev by blast
    from next_polls[OF c'(3) this] have "same_client c' (polling ?h dg ps c') \<and> ?I (polling ?h dg ps c')" .
    with tr[OF c'(3)] show ?thesis by (simp add: Polled c'(1))
  next
    case (Failed t r)
    with Cons.prems(4) obtain err where "handle_response r = Inl err" by auto
    then obtain c' where c': "refreshOnce t (\<lambda>_. r) c = (c', Some err)"
      "ca_app (cl_cache c') = ca_app (cl_cache c)"
      "ca_hasCatalog (cl_cache c') = ca_hasCatalog (cl_cache c)" "same_client c c'"
      "cs_ETag (ca_stats (cl_cache c')) = cs_ETag (ca_stats (cl_cache c))" by (rule refreshOnce_error[OF Cons.prems(2)])
    have "holds_catalogue dg b us c' = holds_catalogue dg b us c" for b us
      using c' by (simp add: holds_catalogue_def)
    then have "?I c'" using Cons.prems(6) c'(5) by simp
    from next_polls[OF c'(4) this] have "same_client c' (polling ?h dg ps c') \<and> ?I (polling ?h dg ps c')" .
    with tr[OF c'(4)] show ?thesis by (simp add: Failed c'(1))
  qed
qed

end

text \<open>The instance.\<close>

lemma wt_catalogue_db: "catalogue_db (wt_server_db now) (\<lambda>d. w_keys (fst d)) (\<lambda>d. w_apps (fst d)) (\<lambda>d. w_toggles (fst d)) now"
proof (intro catalogue_db.intro catalogue_db_axioms.intro)
  show "key_table (sd_keys (wt_server_db now)) (\<lambda>d. w_keys (fst d))"
    using wt_key_table by (simp add: wt_server_db_def)
  show "gorm_table (sd_apps (wt_server_db now)) (\<lambda>d. w_apps (fst d)) (\<lambda>_. True) (\<lambda>a. a) (\<lambda>a. a) ap_ID
      (\<lambda>x a. ap_ID x = ap_ID a) (\<lambda>_. None)"
    using wt_apps.gorm_table_axioms by (simp add: wt_server_db_def)
  show "toggle_table (sd_toggles (wt_server_db now)) (\<lambda>d. w_toggles (fst d)) now (sd_users (wt_server_db now))"
    using wt_toggle_table by (simp add: wt_server_db_def)
  show "keeps (sd_keys (wt_server_db now)) (\<lambda>d. (w_toggles (fst d), w_apps (fst d)))"
    by (simp add: wt_server_db_def) (rule keeps_part[OF wt_keeps(3)], simp)
  show "keeps (sd_toggles (wt_server_db now)) (\<lambda>d. (w_keys (fst d), w_apps (fst d)))"
    by (simp add: wt_server_db_def) (rule keeps_part[OF wt_keeps(1)], simp)
qed

interpretation wt_catalogue: catalogue_db "wt_server_db now" "\<lambda>d. w_keys (fst d)" "\<lambda>d. w_apps (fst d)"
  "\<lambda>d. w_toggles (fst d)" now for now
  by (rule wt_catalogue_db)

section \<open>properties\<close>


lemma distinct_catalogue_rows [simp]: "distinct (map tg_ID (catalogue_rows ts)) \<longleftrightarrow> distinct (map tg_ID ts)"
proof -
  have "mset (catalogue_rows ts) = mset ts" by (simp add: catalogue_rows_def)
  then have "mset (map tg_ID (catalogue_rows ts)) = mset (map tg_ID ts)" by (simp only: mset_map)
  then show ?thesis by (rule mset_eq_imp_distinct_iff)
qed


definition padded :: "string \<Rightarrow> string" where
  "padded s = take 32 (s @ replicate 32 CHR ''x'')"

definition demo_digest :: digest where
  "demo_digest = \<lparr> dg_Marshal = (\<lambda>_. ''json''), dg_sha256 = padded \<rparr>"

definition demo_key :: secret_key where
  "demo_key = (sample_key ''1'' ''sk_1'' True)\<lparr> sk_KeyHash := EncodeToString (padded ''sk_1'') \<rparr>"

definition demo_app :: application where
  "demo_app = \<lparr> ap_ID = ''a'', ap_Name = ''app'' \<rparr>"

definition demo_mem :: mem where
  "demo_mem = (empty_world\<lparr> w_toggles := [row_p, row_c\<lparr> tg_Enabled := False \<rparr>], w_apps := [demo_app], w_keys := [demo_key] \<rparr>, None)"

lemma demo_catalogue:
  "catalogue_key demo_digest ''sk_1'' (w_keys (fst demo_mem)) (w_apps (fst demo_mem)) (w_toggles (fst demo_mem)) demo_key demo_app"
proof -
  have "toggle_inv [row_p, row_c\<lparr> tg_Enabled := False \<rparr>]"
    by (simp add: toggle_inv_def forest_def well_placed_def live_at_def small_defs toggle_live_def split_p split_pc)
  moreover have "go_level row_p" "go_level (row_c\<lparr> tg_Enabled := False \<rparr>)"
    by (simp_all add: go_level_def small_defs max_int64_def)
  ultimately show ?thesis
    by (simp add: catalogue_key_def demo_mem_def keys_unique_def demo_key_def demo_app_def demo_digest_def sample_key_def)
qed

lemma length_padded: "length (dg_sha256 demo_digest x) = 32"
  by (simp add: demo_digest_def padded_def)


lemma demo_publishable: "publishable row_p" "publishable (row_c\<lparr> tg_Enabled := b \<rparr>)"
  by (simp_all add: publishable_def malformed_rule_def wf_segments_def small_defs split_p split_pc)



text \<open>C2. A client that polls. Whatever it polled before (catalogues as the table was then, failures of any kind), after
  a poll that the handler answers from the current table it answers, for every path and context, as that
  table says: active exactly if the path is a live toggle whose whole path is enabled and whose rule, if any,
  holds; so a 304 is only given when the snapshot is still the table's. When it polls again while the rows of
  the application are the same, whatever else happened to the database, it is told 304 and keeps its
  snapshot. Assumed: in the polled states the key authenticates and no live row of its application has a
  malformed path or rule, and the hash tells the documents of those states apart.\<close>

theorem client_follows_server:
  assumes "catalogue_db db keys apps toggles now" "\<forall>x. length (dg_sha256 dg x) = 32"
    and "cl_started c" "\<not> cl_shutdown c" "cs_ETag (ca_stats (cl_cache c)) = []"
    and "\<forall>t u d. Polled t u d \<in> set ps \<longrightarrow> (\<exists>k a. catalogue_key dg (cf_SecretKey (cl_cfg c)) (keys d) (apps d) (toggles d) k a
      \<and> (\<forall>x\<in>set (app_rows a (toggles d)). publishable x))"
    and "\<forall>t r. Failed t r \<in> set ps \<longrightarrow> (\<exists>err. handle_response r = Inl err)"
    and "catalogue_key dg (cf_SecretKey (cl_cfg c)) (keys d) (apps d) (toggles d) k a"
      "\<forall>x\<in>set (app_rows a (toggles d)). publishable x"
    and "inj_on (\<lambda>j. dg_sha256 dg (dg_Marshal dg j))
      {j. \<exists>t' u' d' b. Polled t' u' d' \<in> set (ps @ [Polled t u d]) \<and> b \<in> set (apps d') \<and> revision_document b (app_rows b (toggles d')) = Some j}"
  shows "\<exists>c'. refreshOnce t (answer (NewSecretKeyHandler db e) dg u d) (polling (NewSecretKeyHandler db e) dg ps c) = (c', None)
    \<and> (\<forall>env ctx path. IsActiveContext env c' ctx path \<longleftrightarrow>
         (\<exists>x. live_at (toggles d) (ap_ID a) path x \<and> effective (toggles d) (ap_ID a) path
            \<and> evaluateRule env c (sdk_toggle_of x) ctx = Some True))
    \<and> (\<forall>d2 k2 t2 u2. catalogue_key dg (cf_SecretKey (cl_cfg c)) (keys d2) (apps d2) (toggles d2) k2 a
         \<and> (\<forall>path x. live_at (toggles d2) (ap_ID a) path x = live_at (toggles d) (ap_ID a) path x) \<longrightarrow>
         (\<exists>c2 etag. answer (NewSecretKeyHandler db e) dg u2 d2 (client_request c') = Response 304 etag None
            \<and> refreshOnce t2 (answer (NewSecretKeyHandler db e) dg u2 d2) c' = (c2, None)
            \<and> ca_app (cl_cache c2) = ca_app (cl_cache c')))"
proof -
  let ?h = "NewSecretKeyHandler db e" and ?key = "cf_SecretKey (cl_cfg c)" and ?rows = "app_rows a (toggles d)"
  let ?c = "polling ?h dg ps c" and ?D = "{j. \<exists>t' u' d' b. Polled t' u' d' \<in> set (ps @ [Polled t u d])
    \<and> b \<in> set (apps d') \<and> revision_document b (app_rows b (toggles d')) = Some j}"
  let ?P = "\<lambda>d'. \<exists>a. catalogue_db.followed keys apps toggles dg ?key d' a
    \<and> revision_document a (app_rows a (toggles d')) \<in> Some ` ?D"
  note followed = catalogue_db.followed_def[OF assms(1)]
  have doc: "revision_document b (app_rows b (toggles d')) \<in> Some ` ?D"
    if "Polled t' u' d' \<in> set (ps @ [Polled t u d])" "b \<in> set (apps d')" "\<forall>x\<in>set (app_rows b (toggles d')). publishable x" for t' u' d' b
  proof -
    from that(3) revision_document_malformed[of b "app_rows b (toggles d')"] obtain j where
      "revision_document b (app_rows b (toggles d')) = Some j" by (auto simp: publishable_def)
    with that(1,2) show ?thesis by blast
  qed
  have polled: "?P d'" if p: "Polled t' u' d' \<in> set ps" for t' u' d'
  proof -
    from p assms(6) obtain k' b where b: "catalogue_key dg ?key (keys d') (apps d') (toggles d') k' b"
      "\<forall>x\<in>set (app_rows b (toggles d')). publishable x" by blast
    have "b \<in> set (apps d')" "Polled t' u' d' \<in> set (ps @ [Polled t u d])" using b(1) p by (simp_all add: catalogue_key_def)
    from doc[OF this(2,1) b(2)] b show ?thesis unfolding followed by blast
  qed
  from catalogue_db.polling_holds[OF assms(1,2,4) _ assms(7,10), of e] polled assms(5)
  have before: "same_client c ?c" "cs_ETag (ca_stats (cl_cache ?c)) = [] \<or> (\<exists>b us. holds_catalogue dg b us ?c
      \<and> (\<forall>x\<in>set us. publishable x \<and> go_level x) \<and> revision_document b us \<in> Some ` ?D)" by blast+
  have a: "a \<in> set (apps d)" and inv: "toggle_inv (toggles d)" using assms(8) by (simp_all add: catalogue_key_def)
  have "cs_ETag (ca_stats (cl_cache ?c)) = [] \<or> (\<exists>b us. holds_catalogue dg b us ?c
      \<and> (\<forall>x\<in>set us. publishable x \<and> go_level x)
      \<and> (\<forall>x y. revision_document b us = Some x \<and> revision_document a ?rows = Some y
           \<and> dg_sha256 dg (dg_Marshal dg x) = dg_sha256 dg (dg_Marshal dg y) \<longrightarrow> x = y))"
    using before(2)
  proof
    assume "\<exists>b us. holds_catalogue dg b us ?c \<and> (\<forall>x\<in>set us. publishable x \<and> go_level x) \<and> revision_document b us \<in> Some ` ?D"
    then obtain b us where b: "holds_catalogue dg b us ?c" "\<forall>x\<in>set us. publishable x \<and> go_level x"
      "revision_document b us \<in> Some ` ?D" by blast
    have "revision_document a ?rows \<in> Some ` ?D" using doc[of t u d a] a assms(9) by simp
    then have "x = y" if "revision_document b us = Some x" "revision_document a ?rows = Some y"
      "dg_sha256 dg (dg_Marshal dg x) = dg_sha256 dg (dg_Marshal dg y)" for x y
      using inj_onD[OF assms(10) that(3)] that(1,2) b(3) by (metis (no_types, lifting) image_iff option.inject)
    with b(1,2) show ?thesis by blast
  qed blast
  moreover have cfg: "cl_cfg ?c = cl_cfg c" "\<not> cl_shutdown ?c" using before(1) assms(4) by (simp_all add: same_client_def)
  moreover have "catalogue_key dg (cf_SecretKey (cl_cfg ?c)) (keys d) (apps d) (toggles d) k a" using cfg assms(8) by simp
  ultimately obtain c' where c': "refreshOnce t (answer ?h dg u d) ?c = (c', None)" "holds_catalogue dg a ?rows c'"
      "same_client ?c c'"
    using catalogue_db.poll_step[OF assms(1) _ assms(9,2) cfg(2), where k = k and e = e and u = u and t = t] by metis
  have eq: "cl_cfg c' = cl_cfg c" "cl_registry c' = cl_registry c" "cl_started c'" "\<not> cl_shutdown c'"
    using before(1) c'(3) assms(3,4) by (simp_all add: same_client_def)
  have rows: "set (catalogue_rows ?rows) = {x \<in> set (toggles d). toggle_live x \<and> tg_AppID x = ap_ID a}"
    by (auto simp: app_rows_def)
  have "IsActiveContext env c' ctx path \<longleftrightarrow>
       (\<exists>x. live_at (toggles d) (ap_ID a) path x \<and> effective (toggles d) (ap_ID a) path
          \<and> evaluateRule env c (sdk_toggle_of x) ctx = Some True)" for env ctx path
    using snapshot_status[OF inv rows, of c' env ctx path] assms(9) c'(2) eq(3,4) evaluateRule_cong[OF eq(1,2)]
    by (simp add: holds_catalogue_def)
  moreover have "\<exists>c2 etag. answer ?h dg u2 d2 (client_request c') = Response 304 etag None
      \<and> refreshOnce t2 (answer ?h dg u2 d2) c' = (c2, None) \<and> ca_app (cl_cache c2) = ca_app (cl_cache c')"
    if key2: "catalogue_key dg ?key (keys d2) (apps d2) (toggles d2) k2 a"
      and same: "\<forall>path x. live_at (toggles d2) (ap_ID a) path x = live_at (toggles d) (ap_ID a) path x" for d2 k2 t2 u2
  proof -
    have set: "set (app_rows a (toggles d2)) = set ?rows" using same by (auto simp: live_at_def app_rows_def)
    have "catalogue_rows (app_rows a (toggles d2)) = catalogue_rows ?rows"
      using key2 inv by (intro catalogue_rows_unique[OF set] catalogue_db.rows_distinct[OF assms(1)]) (simp add: catalogue_key_def)
    then have et: "served_etag dg a (app_rows a (toggles d2)) = served_etag dg a ?rows"
      by (simp add: served_etag_def served_revision_def simplifyCatalogueToggles_rows)
    have "\<forall>x\<in>set ?rows. \<not> malformed_rule x \<and> go_level x"
      using assms(8,9) by (auto simp: publishable_def catalogue_key_def app_rows_def)
    from served_decodes[OF this, of a dg] have "\<exists>x. served_revision dg a ?rows = EncodeToString (dg_sha256 dg (dg_Marshal dg x))" by blast
    then have "ifNoneMatchMatches (served_etag dg a ?rows) (served_etag dg a ?rows)"
      unfolding served_etag_def using hex_plain same_tag_matches by metis
    moreover have tag: "served_etag dg a ?rows \<noteq> []" by (simp add: served_etag_def)
    ultimately have "answer ?h dg u2 d2 (client_request c') = Response 304 (served_etag dg a ?rows) None"
      using catalogue_db.answer_good[OF assms(1), of dg c' d2 k2 a e u2] key2 assms(9) set eq(1) c'(2)
      tag by (simp add: holds_catalogue_def et)
    moreover from refreshOnce_304[of c' "answer ?h dg u2 d2", OF eq(4) this] c'(2) obtain c2 where
      "refreshOnce t2 (answer ?h dg u2 d2) c' = (c2, None)" "ca_app (cl_cache c2) = ca_app (cl_cache c')"
      by (metis holds_catalogue_def)
    ultimately show ?thesis by blast
  qed
  ultimately show ?thesis using c'(1) by blast
qed

definition demo_client :: "unit client" where
  "demo_client = (New (example_config\<lparr> cf_SecretKey := ''sk_1'' \<rparr>))\<lparr> cl_started := True \<rparr>"

text \<open>The client polls while \<open>p.c\<close> is off, then gets an error, then polls when it is on.\<close>

definition demo_mem2 :: mem where
  "demo_mem2 = (empty_world\<lparr> w_toggles := [row_p, row_c\<lparr> tg_Enabled := True \<rparr>], w_apps := [demo_app], w_keys := [demo_key] \<rparr>, None)"

definition polling_digest :: digest where
  "polling_digest = demo_digest\<lparr> dg_Marshal := (\<lambda>j.
     if revision_document demo_app (app_rows demo_app (w_toggles (fst demo_mem))) = Some j then ''1'' else ''2'') \<rparr>"

lemma demo_catalogues:
  "catalogue_key polling_digest ''sk_1'' (w_keys (fst demo_mem)) (w_apps (fst demo_mem)) (w_toggles (fst demo_mem)) demo_key demo_app"
  "catalogue_key polling_digest ''sk_1'' (w_keys (fst demo_mem2)) (w_apps (fst demo_mem2)) (w_toggles (fst demo_mem2)) demo_key demo_app"
proof -
  show "catalogue_key polling_digest ''sk_1'' (w_keys (fst demo_mem)) (w_apps (fst demo_mem)) (w_toggles (fst demo_mem)) demo_key demo_app"
    using demo_catalogue[unfolded catalogue_key_def] unfolding catalogue_key_def by (auto simp: polling_digest_def)
  have "toggle_inv [row_p, row_c\<lparr> tg_Enabled := True \<rparr>]"
    by (simp add: toggle_inv_def forest_def well_placed_def live_at_def small_defs toggle_live_def split_p split_pc)
  moreover have "go_level row_p" "go_level (row_c\<lparr> tg_Enabled := True \<rparr>)"
    by (simp_all add: go_level_def small_defs max_int64_def)
  ultimately show "catalogue_key polling_digest ''sk_1'' (w_keys (fst demo_mem2)) (w_apps (fst demo_mem2)) (w_toggles (fst demo_mem2)) demo_key demo_app"
    by (simp add: catalogue_key_def demo_mem2_def keys_unique_def demo_key_def demo_app_def demo_digest_def sample_key_def polling_digest_def)
qed

lemma demo_documents:
  "inj_on (\<lambda>j. dg_sha256 polling_digest (dg_Marshal polling_digest j))
     {j. \<exists>t' u' d' b. Polled t' u' d' \<in> set ([Polled 7 7 demo_mem, Failed 8 (Response 503 [] None)] @ [Polled 9 9 demo_mem2])
       \<and> b \<in> set (w_apps (fst d')) \<and> revision_document b (app_rows b (w_toggles (fst d'))) = Some j}"
proof (rule inj_onI)
  have apps: "set (w_apps (fst demo_mem)) = {demo_app}" "set (w_apps (fst demo_mem2)) = {demo_app}"
    by (simp_all add: demo_mem_def demo_mem2_def)
  have ne: "padded ''1'' \<noteq> padded ''2''" by (simp add: padded_def)
  let ?doc = "\<lambda>d. revision_document demo_app (app_rows demo_app (w_toggles (fst d)))"
  have doc: "?doc demo_mem = Some j \<or> ?doc demo_mem2 = Some j" if "j \<in>
     {j. \<exists>t' u' d' b. Polled t' u' d' \<in> set ([Polled 7 7 demo_mem, Failed 8 (Response 503 [] None)] @ [Polled 9 9 demo_mem2])
       \<and> b \<in> set (w_apps (fst d')) \<and> revision_document b (app_rows b (w_toggles (fst d'))) = Some j}" for j
  proof -
    from that obtain t' u' d' b where p:
      "Polled t' u' d' \<in> set ([Polled 7 7 demo_mem, Failed 8 (Response 503 [] None)] @ [Polled 9 9 demo_mem2])"
      "b \<in> set (w_apps (fst d'))" "revision_document b (app_rows b (w_toggles (fst d'))) = Some j" by (elim CollectE exE conjE)
    from p(1) have "d' = demo_mem \<or> d' = demo_mem2" by (simp, blast)
    with p(2,3) apps show ?thesis by (elim disjE) simp_all
  qed
  fix x y
  assume "dg_sha256 polling_digest (dg_Marshal polling_digest x) = dg_sha256 polling_digest (dg_Marshal polling_digest y)"
    and "x \<in> {j. \<exists>t' u' d' b. Polled t' u' d' \<in> set ([Polled 7 7 demo_mem, Failed 8 (Response 503 [] None)] @ [Polled 9 9 demo_mem2])
       \<and> b \<in> set (w_apps (fst d')) \<and> revision_document b (app_rows b (w_toggles (fst d'))) = Some j}"
      "y \<in> {j. \<exists>t' u' d' b. Polled t' u' d' \<in> set ([Polled 7 7 demo_mem, Failed 8 (Response 503 [] None)] @ [Polled 9 9 demo_mem2])
       \<and> b \<in> set (w_apps (fst d')) \<and> revision_document b (app_rows b (w_toggles (fst d'))) = Some j}"
  with doc[of x] doc[of y] ne show "x = y"
    by (auto simp: polling_digest_def demo_digest_def split: if_splits)
qed

theorem client_follows_server_witness:
  "\<forall>e env. \<exists>c'. refreshOnce 9 (answer (NewSecretKeyHandler (wt_server_db 0) e) polling_digest 9 demo_mem2)
        (polling (NewSecretKeyHandler (wt_server_db 0) e) polling_digest
          [Polled 7 7 demo_mem, Failed 8 (Response 503 [] None)] demo_client) = (c', None)
     \<and> IsActiveContext env c' () ''p.c''
     \<and> \<not> IsActiveContext env (fst (refreshOnce 7 (answer (NewSecretKeyHandler (wt_server_db 0) e) polling_digest 7 demo_mem)
           demo_client)) () ''p.c''"
proof (intro allI)
  fix e env
  let ?h = "NewSecretKeyHandler (wt_server_db 0) e" and ?ps = "[Polled 7 7 demo_mem, Failed 8 (Response 503 [] None)]"
  let ?R = "w_toggles (fst demo_mem)" and ?R2 = "w_toggles (fst demo_mem2)"
  have key: "cf_SecretKey (cl_cfg demo_client) = ''sk_1''" by (simp add: demo_client_def New_def)
  have sha: "\<forall>x. length (dg_sha256 polling_digest x) = 32" using length_padded by (simp add: polling_digest_def)
  have client: "cl_started demo_client" "\<not> cl_shutdown demo_client" "cs_ETag (ca_stats (cl_cache demo_client)) = []"
    by (simp_all add: demo_client_def New_def cache_New_def empty_stats_def)
  have good: "\<forall>x\<in>set (app_rows demo_app ?R). publishable x" "\<forall>x\<in>set (app_rows demo_app ?R2). publishable x"
    using demo_publishable by (auto simp: app_rows_def demo_mem_def demo_mem2_def)
  have polled: "\<forall>t u d. Polled t u d \<in> set ?ps \<longrightarrow>
      (\<exists>k a. catalogue_key polling_digest (cf_SecretKey (cl_cfg demo_client)) (w_keys (fst d)) (w_apps (fst d)) (w_toggles (fst d)) k a
        \<and> (\<forall>x\<in>set (app_rows a (w_toggles (fst d))). publishable x))"
    unfolding key using demo_catalogues(1) good(1) by auto
  have failed: "\<forall>t r. Failed t r \<in> set ?ps \<longrightarrow> (\<exists>err. handle_response r = Inl err)" by simp
  have app: "ap_ID demo_app = ''a''" by (simp add: demo_app_def)
  from client_follows_server[OF wt_catalogue_db[of 0] sha client polled failed demo_catalogues(2)[folded key] good(2) demo_documents,
      where e = e] obtain c' where
    c': "refreshOnce 9 (answer ?h polling_digest 9 demo_mem2) (polling ?h polling_digest ?ps demo_client) = (c', None)"
      "IsActiveContext env c' () ''p.c'' \<longleftrightarrow> (\<exists>x. live_at ?R2 ''a'' ''p.c'' x \<and> effective ?R2 ''a'' ''p.c''
         \<and> evaluateRule env demo_client (sdk_toggle_of x) () = Some True)"
    unfolding app by blast
  have "inj_on (\<lambda>j. dg_sha256 polling_digest (dg_Marshal polling_digest j))
     {j. \<exists>t' u' d' b. Polled t' u' d' \<in> set ([] @ [Polled 7 7 demo_mem])
       \<and> b \<in> set (w_apps (fst d')) \<and> revision_document b (app_rows b (w_toggles (fst d'))) = Some j}"
  proof (rule inj_on_subset[OF demo_documents], intro subsetI CollectI, elim CollectE exE conjE)
    fix j t' u' b and d' :: mem
    assume "Polled t' u' d' \<in> set ([] @ [Polled 7 7 demo_mem])" "b \<in> set (w_apps (fst d'))"
      "revision_document b (app_rows b (w_toggles (fst d'))) = Some j"
    moreover from this(1) have "Polled t' u' d' \<in> set (?ps @ [Polled 9 9 demo_mem2])" by simp
    ultimately show "\<exists>t' u' d' b. Polled t' u' d' \<in> set (?ps @ [Polled 9 9 demo_mem2])
       \<and> b \<in> set (w_apps (fst d')) \<and> revision_document b (app_rows b (w_toggles (fst d'))) = Some j" by blast
  qed
  from client_follows_server[OF wt_catalogue_db[of 0] sha client _ _ demo_catalogues(1)[folded key] good(1) this, where e = e]
  obtain c1 where
    c1: "refreshOnce 7 (answer ?h polling_digest 7 demo_mem) demo_client = (c1, None)"
      "IsActiveContext env c1 () ''p.c'' \<longleftrightarrow> (\<exists>x. live_at ?R ''a'' ''p.c'' x \<and> effective ?R ''a'' ''p.c''
         \<and> evaluateRule env demo_client (sdk_toggle_of x) () = Some True)"
    unfolding app by auto
  let ?c = "row_c\<lparr> tg_Enabled := True \<rparr>"
  have "live_at ?R2 ''a'' ''p.c'' ?c" by (simp add: live_at_def demo_mem2_def small_defs toggle_live_def)
  moreover have "effective ?R2 ''a'' ''p.c''"
    by (simp add: effective_def path_prefixes_def prefix_path_def split_pc enabled_at_def live_at_def demo_mem2_def
        small_defs toggle_live_def)
  moreover have "evaluateRule env demo_client (sdk_toggle_of ?c) () = Some True"
    by (simp add: evaluateRule_def sdk_toggle_of_def small_defs)
  ultimately have "IsActiveContext env c' () ''p.c''" using c'(2) by blast
  moreover have "\<not> effective ?R ''a'' ''p.c''"
    by (simp add: effective_def path_prefixes_def prefix_path_def split_pc enabled_at_def live_at_def demo_mem_def small_defs)
  then have "\<not> IsActiveContext env (fst (refreshOnce 7 (answer ?h polling_digest 7 demo_mem) demo_client)) () ''p.c''"
    using c1 by simp
  ultimately show "\<exists>c'. refreshOnce 9 (answer ?h polling_digest 9 demo_mem2) (polling ?h polling_digest ?ps demo_client) = (c', None)
     \<and> IsActiveContext env c' () ''p.c''
     \<and> \<not> IsActiveContext env (fst (refreshOnce 7 (answer ?h polling_digest 7 demo_mem) demo_client)) () ''p.c''"
    using c'(1) by blast
qed

end
