(* ===== verification/KillSwitch.thy ===== *)
theory KillSwitch
  imports CatalogueSdk
begin

text \<open>
  What the kill switch \<open>DisableToggleBySecret\<close> of \<open>handler/secret_key_handler.go\<close> can do to the table of
  toggles: turn off the one row the key names in its own application, and nothing else.
\<close>

section \<open>the kill switch\<close>

definition switched_off :: "string \<Rightarrow> string \<Rightarrow> toggle list \<Rightarrow> toggle list" where
  "switched_off app path R =
     map (\<lambda>x. if toggle_live x \<and> tg_AppID x = app \<and> tg_Path x = path then toggle_columns (x\<lparr> tg_Enabled := False \<rparr>) else x) R"

lemma switched_off_node:
  assumes inv: "toggle_inv R" and x: "live_at R app path x"
  shows "at_node toggle_live (tg_ID x) (\<lambda>_. toggle_columns (x\<lparr> tg_Enabled := False \<rparr>)) R = switched_off app path R"
  unfolding at_node_def switched_off_def
proof (rule map_cong[OF refl])
  fix y assume y: "y \<in> set R"
  have "toggle_live y \<and> tg_ID y = tg_ID x \<longleftrightarrow> y = x" using forest_unique[OF toggle_inv_forest[OF inv] y] x
    by (auto simp: live_at_def)
  moreover have "toggle_live y \<and> tg_AppID y = app \<and> tg_Path y = path \<longleftrightarrow> y = x"
    using live_at_unique[OF inv _ x, of y] x y by (auto simp: live_at_def)
  ultimately show "(if toggle_live y \<and> tg_ID y = tg_ID x then toggle_columns (x\<lparr> tg_Enabled := False \<rparr>) else y)
      = (if toggle_live y \<and> tg_AppID y = app \<and> tg_Path y = path then toggle_columns (y\<lparr> tg_Enabled := False \<rparr>) else y)"
    by simp
qed

lemma switched_off_enabled:
  "enabled_at (switched_off app path R) app' p \<longleftrightarrow> enabled_at R app' p \<and> \<not> (app' = app \<and> p = path)"
  by (auto simp: enabled_at_def switched_off_def live_at_def toggle_columns_def toggle_live_def)

lemma switched_off_effective:
  "effective (switched_off app path R) app' p \<longleftrightarrow>
     effective R app' p \<and> \<not> (app' = app \<and> path \<in> set (path_prefixes p))"
  by (auto simp: effective_def switched_off_enabled)

lemma switched_off_inv: "toggle_inv R \<Longrightarrow> toggle_inv (switched_off app path R)"
proof -
  have "same_place x x" for x by (simp add: same_place_def same_node_def)
  then show "toggle_inv R \<Longrightarrow> toggle_inv (switched_off app path R)"
    unfolding switched_off_def by (intro toggle_inv_map) (simp_all add: columns_place)
qed

context catalogue_db
begin

lemma key_outcome:
  assumes "keys_unique (keys d)"
  obtains (valid) k d' where "k \<in> set (keys d)" "sk_Active k" "sk_KeyHash k = EncodeToString (dg_sha256 dg presented)"
      "ValidateSecretKey (NewSecretKeyRepository (sd_keys db)) (dg_sha256 dg) t presented d
       = Some (Inr (k\<lparr> sk_LastUsedAt := Some t \<rparr>), d')" "toggles d' = toggles d" "apps d' = apps d"
  | (invalid) e where "ValidateSecretKey (NewSecretKeyRepository (sd_keys db)) (dg_sha256 dg) t presented d = Some (Inl e, d)"
      "\<forall>k\<in>set (keys d). sk_Active k \<longrightarrow> sk_KeyHash k \<noteq> EncodeToString (dg_sha256 dg presented)"
proof -
  show thesis
  proof (cases "authenticates (keys d) (dg_sha256 dg) presented")
    case True
    with ValidateSecretKey_outcome[OF key_table_axioms assms, of "dg_sha256 dg" t presented] obtain k d' where
      k: "k \<in> set (keys d)" "sk_Active k" "sk_KeyHash k = EncodeToString (dg_sha256 dg presented)"
        "ValidateSecretKey (NewSecretKeyRepository (sd_keys db)) (dg_sha256 dg) t presented d
         = Some (Inr (k\<lparr> sk_LastUsedAt := Some t \<rparr>), d')" by auto
    with call_keepsD[OF validate_keeps k(4)] valid show thesis by simp
  next
    case False
    with ValidateSecretKey_outcome[OF key_table_axioms assms, of "dg_sha256 dg" t presented] obtain e where
      "ValidateSecretKey (NewSecretKeyRepository (sd_keys db)) (dg_sha256 dg) t presented d = Some (Inl e, d)" by auto
    from invalid[OF this] False show thesis by (auto simp: authenticates_def)
  qed
qed

lemma UpdateToggle_off:
  assumes "toggle_inv (toggles d)" "path \<noteq> []" "app \<noteq> []"
    and uc: "uc = NewToggleUseCase (toggle_repo_impl (sd_toggles db) (sd_users db)) ar"
  obtains (absent) "missing (toggles d) app path" "UpdateToggle uc path False app d = Some (Inl (NewAppError ErrCodeNotFound ''toggle not found''), d)"
  | (present) d' where "\<not> missing (toggles d) app path" "UpdateToggle uc path False app d = Some (Inr (), d')"
      "toggles d' = switched_off app path (toggles d)" "apps d' = apps d"
proof -
  note repo = toggles.contract
  show thesis
  proof (cases rule: toggle_repository.GetByPath_cases[OF repo assms(1), of app path])
    case 1
    with absent assms show ?thesis by (simp add: UpdateToggle_def app_fail_def fail_def)
  next
    case (2 x)
    then have x: "\<exists>y\<in>set (toggles d). toggle_live y \<and> tg_ID y = tg_ID (x\<lparr> tg_Enabled := False \<rparr>)"
      by (auto simp: live_at_def)
    from toggle_repository.Update[OF repo x] obtain d' where
      d': "tr_Update (toggle_repo_impl (sd_toggles db) (sd_users db)) (x\<lparr> tg_Enabled := False \<rparr>) d = Some (Inr (), d')"
        "toggles d' = at_node toggle_live (tg_ID x) (\<lambda>_. toggle_columns (x\<lparr> tg_Enabled := False \<rparr>)) (toggles d)" by auto
    have "apps d' = apps d"
      using d'(1) keepsD(2)[OF toggles_apart] by (auto simp: toggle_repo_impl_def Toggle_Update_def)
    moreover have "\<not> missing (toggles d) app path" using 2(1) by (auto simp: missing_def)
    ultimately show ?thesis using present[of d'] d' 2 assms switched_off_node[OF assms(1) 2(1)]
      by (simp add: UpdateToggle_def ok_def)
  qed
qed

end

text \<open>When a request is granted: the key authenticates, is within its budget and names a live toggle of its application.\<close>

definition may_disable ::
    "digest \<Rightarrow> string \<Rightarrow> int \<Rightarrow> limiter \<Rightarrow> raw_message \<Rightarrow> secret_key list \<Rightarrow> toggle list \<Rightarrow> secret_key \<Rightarrow> string \<Rightarrow> bool" where
  "may_disable dg presented t l body ks R k path \<longleftrightarrow>
     presented \<noteq> [] \<and> k \<in> set ks \<and> sk_Active k \<and> sk_KeyHash k = EncodeToString (dg_sha256 dg presented)
     \<and> sk_ApplicationID k \<noteq> [] \<and> fst (AllowKillSwitchRequest t (sk_ID k) l)
     \<and> decode_struct1 ''path'' body = Some path \<and> path \<noteq> [] \<and> \<not> missing R (sk_ApplicationID k) path"

text \<open>The two outcomes of a request.\<close>

context catalogue_db
begin

definition refusal :: "digest \<Rightarrow> string \<Rightarrow> int \<Rightarrow> limiter \<Rightarrow> raw_message \<Rightarrow> db_env \<Rightarrow> 'd \<Rightarrow> bool" where
  "refusal dg presented t l body e d \<longleftrightarrow>
     (\<exists>resp l' d'. DisableToggleBySecret (NewSecretKeyHandler db e) dg t l presented body d = Some (Inr (resp, l'), d')
        \<and> rs_status resp \<noteq> 200 \<and> toggles d' = toggles d)
     \<and> (\<forall>k path. \<not> may_disable dg presented t l body (keys d) (toggles d) k path)"

definition granted :: "digest \<Rightarrow> string \<Rightarrow> int \<Rightarrow> limiter \<Rightarrow> raw_message \<Rightarrow> db_env \<Rightarrow> 'd \<Rightarrow> secret_key \<Rightarrow> string \<Rightarrow> bool" where
  "granted dg presented t l body e d k path \<longleftrightarrow>
     (\<exists>resp l' d'. DisableToggleBySecret (NewSecretKeyHandler db e) dg t l presented body d = Some (Inr (resp, l'), d')
        \<and> rs_status resp = 200 \<and> toggles d' = switched_off (sk_ApplicationID k) path (toggles d))
     \<and> may_disable dg presented t l body (keys d) (toggles d) k path
     \<and> (\<forall>k' path'. may_disable dg presented t l body (keys d) (toggles d) k' path' \<longrightarrow> k' = k \<and> path' = path)"

lemma refusalI:
  assumes "DisableToggleBySecret (NewSecretKeyHandler db e) dg t l presented body d = Some (Inr (error_reply status msg, l'), d')"
    and "status \<noteq> 200" "toggles d' = toggles d"
    and "\<And>k path. may_disable dg presented t l body (keys d) (toggles d) k path \<Longrightarrow> False"
  shows "refusal dg presented t l body e d"
  unfolding refusal_def
proof (intro conjI exI)
  show "rs_status (error_reply status msg) \<noteq> 200" using assms(2) by (simp add: error_reply_def)
qed (use assms in blast)+

lemma may_only:
  assumes "keys_unique (keys d)" "k \<in> set (keys d)" "sk_KeyHash k = EncodeToString (dg_sha256 dg presented)"
    and "may_disable dg presented t l body (keys d) R k' path"
  shows "k' = k"
  using keys_unique_eq(2)[OF assms(1) _ assms(2), of k'] assms(3,4) by (simp add: may_disable_def)

text \<open>A refusal of a request whose key is \<open>k\<close>.\<close>

lemma refusalI_key:
  assumes "keys_unique (keys d)" "k \<in> set (keys d)" "sk_KeyHash k = EncodeToString (dg_sha256 dg presented)"
    and "DisableToggleBySecret (NewSecretKeyHandler db e) dg t l presented body d = Some (Inr (error_reply status msg, l'), d')"
    and "status \<noteq> 200" "toggles d' = toggles d"
    and "\<And>path. \<not> may_disable dg presented t l body (keys d) (toggles d) k path"
  shows "refusal dg presented t l body e d"
  using may_only[OF assms(1-3)] assms(7) by (intro refusalI[OF assms(4-6)]) blast

lemma disable_authenticated:
  assumes u: "keys_unique (keys d)" and inv: "toggle_inv (toggles d)" and ne: "presented \<noteq> []"
    and k: "k \<in> set (keys d)" "sk_Active k" "sk_KeyHash k = EncodeToString (dg_sha256 dg presented)"
    and v: "ValidateSecretKey (NewSecretKeyRepository (sd_keys db)) (dg_sha256 dg) t presented d
       = Some (Inr (k\<lparr> sk_LastUsedAt := Some t \<rparr>), d1)" "toggles d1 = toggles d"
    and path: "fst (AllowKillSwitchRequest t (sk_ID k) l)" "decode_struct1 ''path'' body = Some path" "path \<noteq> []"
      "sk_ApplicationID k \<noteq> []"
  shows "refusal dg presented t l body e d \<or> granted dg presented t l body e d k path"
proof -
  have only: "k' = k \<and> path' = path" if "may_disable dg presented t l body (keys d) (toggles d) k' path'" for k' path'
    using may_only[OF u k(1,3) that] that path(2) by (simp add: may_disable_def)
  obtain l1 where al: "AllowKillSwitchRequest t (sk_ID k) l = (True, l1)" using path(1) by (metis prod.collapse)
  note run = DisableToggleBySecret_def NewSecretKeyHandler_def Let_def ok_def al
  have inv1: "toggle_inv (toggles d1)" using v(2) inv by simp
  show ?thesis
  proof (cases rule: UpdateToggle_off[OF inv1 path(3,4) refl, of "NewApplicationRepository (app_db_of db e)"])
    case b: 1
    have "DisableToggleBySecret (NewSecretKeyHandler db e) dg t l presented body d
        = Some (Inr (error_reply 404 ''Toggle not found'', l1), d1)"
      using ne v(1) path(2,3) b(2) by (simp add: run NewAppError_def)
    then have "refusal dg presented t l body e d"
      by (rule refusalI_key[OF u k(1,3)]) (use v(2) b(1) path(2) in \<open>auto simp: may_disable_def\<close>)
    then show ?thesis ..
  next
    case b: (2 d2)
    have run: "DisableToggleBySecret (NewSecretKeyHandler db e) dg t l presented body d
        = Some (Inr (Response 200 [] (Some (JObj [(''enabled'', JBool False), (''path'', JStr path)])), l1), d2)"
      using ne v(1) path(2,3) b(2) by (simp add: run)
    have off: "toggles d2 = switched_off (sk_ApplicationID k) path (toggles d)" using b(3) v(2) by simp
    have may: "may_disable dg presented t l body (keys d) (toggles d) k path"
      using ne k path b(1) v(2) by (simp add: may_disable_def)
    have "\<exists>resp l' d'. DisableToggleBySecret (NewSecretKeyHandler db e) dg t l presented body d = Some (Inr (resp, l'), d')
        \<and> rs_status resp = 200 \<and> toggles d' = switched_off (sk_ApplicationID k) path (toggles d)"
      by (intro exI conjI, rule run) (simp_all add: off)
    then have "granted dg presented t l body e d k path"
      unfolding granted_def using may only by (intro conjI) blast+
    then show ?thesis ..
  qed
qed

lemma disable_outcome:
  assumes u: "keys_unique (keys d)" and inv: "toggle_inv (toggles d)"
  shows "refusal dg presented t l body e d \<or> (\<exists>k path. granted dg presented t l body e d k path)"
proof (cases "presented = []")
  case True
  have "refusal dg presented t l body e d"
    by (rule refusalI[of _ _ _ _ _ _ _ 401 "''X-API-Key header is required''" l d])
       (use True in \<open>auto simp: DisableToggleBySecret_def ok_def may_disable_def\<close>)
  then show ?thesis ..
next
  case ne: False
  show ?thesis
  proof (cases rule: key_outcome[OF u, where dg = dg and presented = presented and t = t])
    case (2 err)
    have "refusal dg presented t l body e d"
      by (rule refusalI[of _ _ _ _ _ _ _ 404 "''Invalid or expired secret key''" l d])
         (use ne 2 in \<open>auto simp: DisableToggleBySecret_def NewSecretKeyHandler_def Let_def ok_def may_disable_def\<close>)
    then show ?thesis ..
  next
    case (1 k d1)
    note refuse = refusalI_key[OF u 1(1,3)]
    obtain al l1 where al: "AllowKillSwitchRequest t (sk_ID k) l = (al, l1)" by force
    note run = DisableToggleBySecret_def NewSecretKeyHandler_def Let_def ok_def al
    consider "\<not> al" | "al" "decode_struct1 ''path'' body = None \<or> decode_struct1 ''path'' body = Some []"
      | path where "al" "decode_struct1 ''path'' body = Some path" "path \<noteq> []" "sk_ApplicationID k = []"
      | path where "al" "decode_struct1 ''path'' body = Some path" "path \<noteq> []" "sk_ApplicationID k \<noteq> []"
      by (cases "decode_struct1 ''path'' body") blast+
    then show ?thesis
    proof cases
      case a: 1
      have "refusal dg presented t l body e d"
        by (rule refuse[of e t l body 429 "''Too many kill-switch requests for this secret key. Try again later.''" l1 d1])
           (use ne 1(4,5) a in \<open>simp_all add: run may_disable_def\<close>)
      then show ?thesis ..
    next
      case a: 2
      have "refusal dg presented t l body e d"
        by (rule refuse[of e t l body 400 "''path is required''" l1 d1])
           (use ne 1(4,5) a in \<open>auto simp: run may_disable_def\<close>)
      then show ?thesis ..
    next
      case a: (3 path)
      have "refusal dg presented t l body e d"
        by (rule refuse[of e t l body 500 "''Failed to disable toggle: '' @ ''application ID is required''" l1 d1])
           (use ne 1(4,5) a in \<open>simp_all add: run may_disable_def UpdateToggle_def app_fail_def fail_def NewAppError_def\<close>)
      then show ?thesis ..
    next
      case a: (4 path)
      with disable_authenticated[OF u inv ne 1(1-5), of l body path e] al show ?thesis by auto
    qed
  qed
qed

end

text \<open>C4. The kill switch disables the one row that an authenticated key, within its budget, names in its own
  application; then the whole subtree of that path is off. In any other case it does not answer 200 and no
  toggle changes. It never turns anything on, in any application, and keeps the table well formed.\<close>

theorem kill_switch_only_disables:
  assumes "catalogue_db db keys apps toggles now" "keys_unique (keys d)" "toggle_inv (toggles d)"
  shows "\<exists>resp l' d'. DisableToggleBySecret (NewSecretKeyHandler db e) dg t l presented body d = Some (Inr (resp, l'), d')
    \<and> (\<forall>k path. may_disable dg presented t l body (keys d) (toggles d) k path \<longrightarrow>
          rs_status resp = 200 \<and> toggles d' = switched_off (sk_ApplicationID k) path (toggles d)
          \<and> (\<forall>p. path \<in> set (path_prefixes p) \<longrightarrow> \<not> effective (toggles d') (sk_ApplicationID k) p))
    \<and> ((\<nexists>k path. may_disable dg presented t l body (keys d) (toggles d) k path) \<longrightarrow>
          rs_status resp \<noteq> 200 \<and> toggles d' = toggles d)
    \<and> toggle_inv (toggles d') \<and> (\<forall>app p. effective (toggles d') app p \<longrightarrow> effective (toggles d) app p)"
proof -
  note db = assms(1)
  have off: "toggle_inv (switched_off app path (toggles d))" for app path by (rule switched_off_inv[OF assms(3)])
  from catalogue_db.disable_outcome[OF db assms(2,3), of dg presented t l body e] show ?thesis
  proof
    assume "catalogue_db.refusal db keys toggles dg presented t l body e d"
    then obtain resp l' d' where
      "DisableToggleBySecret (NewSecretKeyHandler db e) dg t l presented body d = Some (Inr (resp, l'), d')"
      "rs_status resp \<noteq> 200" and same: "toggles d' = toggles d"
      "\<forall>k path. \<not> may_disable dg presented t l body (keys d) (toggles d) k path"
      unfolding catalogue_db.refusal_def[OF db] by blast
    with assms(3) show ?thesis unfolding same(1)[symmetric] using same(1)
      by (intro exI[of _ resp] exI[of _ l'] exI[of _ d'] conjI) simp_all
  next
    assume "\<exists>k path. catalogue_db.granted db keys toggles dg presented t l body e d k path"
    then obtain k path resp l' d' where
      run: "DisableToggleBySecret (NewSecretKeyHandler db e) dg t l presented body d = Some (Inr (resp, l'), d')"
        "rs_status resp = 200" "toggles d' = switched_off (sk_ApplicationID k) path (toggles d)"
      and may: "may_disable dg presented t l body (keys d) (toggles d) k path"
        "\<forall>k' path'. may_disable dg presented t l body (keys d) (toggles d) k' path' \<longrightarrow> k' = k \<and> path' = path"
      unfolding catalogue_db.granted_def[OF db] by blast
    have "(\<forall>k' path'. may_disable dg presented t l body (keys d) (toggles d) k' path' \<longrightarrow>
          rs_status resp = 200 \<and> toggles d' = switched_off (sk_ApplicationID k') path' (toggles d)
          \<and> (\<forall>p. path' \<in> set (path_prefixes p) \<longrightarrow> \<not> effective (toggles d') (sk_ApplicationID k') p))"
    proof (intro allI impI)
      fix k' path' assume "may_disable dg presented t l body (keys d) (toggles d) k' path'"
      with may(2) have same: "k' = k" "path' = path" by blast+
      show "rs_status resp = 200 \<and> toggles d' = switched_off (sk_ApplicationID k') path' (toggles d)
          \<and> (\<forall>p. path' \<in> set (path_prefixes p) \<longrightarrow> \<not> effective (toggles d') (sk_ApplicationID k') p)"
        unfolding same using run(2) by (simp add: run(3) switched_off_effective)
    qed
    moreover have "\<forall>app p. effective (toggles d') app p \<longrightarrow> effective (toggles d) app p"
      unfolding run(3) switched_off_effective by blast
    moreover have "toggle_inv (toggles d')" unfolding run(3) by (rule off)
    moreover have "(\<nexists>k path. may_disable dg presented t l body (keys d) (toggles d) k path) \<longrightarrow>
          rs_status resp \<noteq> 200 \<and> toggles d' = toggles d" using may(1) by blast
    ultimately show ?thesis using run(1) by (intro exI[of _ resp] exI[of _ l'] exI[of _ d'] conjI)
  qed
qed

theorem kill_switch_only_disables_witness:
  "\<forall>e. \<exists>resp l' d'. DisableToggleBySecret (NewSecretKeyHandler (wt_server_db 0) e) demo_digest 7 defaultKillSwitchRateLimiter
       ''sk_1'' (RawJSON (JObj [(''path'', JStr ''p'')])) demo_mem = Some (Inr (resp, l'), d')
     \<and> rs_status resp = 200 \<and> \<not> effective (w_toggles (fst d')) ''a'' ''p''"
proof (intro allI)
  fix e
  have ok: "keys_unique (w_keys (fst demo_mem))" "toggle_inv (w_toggles (fst demo_mem))"
    using demo_catalogue by (simp_all add: catalogue_key_def)
  have "live_at (w_toggles (fst demo_mem)) ''a'' ''p'' row_p"
    by (simp add: live_at_def demo_mem_def small_defs toggle_live_def)
  then have "\<not> missing (w_toggles (fst demo_mem)) ''a'' ''p''" by (auto simp: missing_def)
  then have "may_disable demo_digest ''sk_1'' 7 defaultKillSwitchRateLimiter (RawJSON (JObj [(''path'', JStr ''p'')]))
      (w_keys (fst demo_mem)) (w_toggles (fst demo_mem)) demo_key ''p''"
    by (simp add: may_disable_def demo_mem_def demo_key_def sample_key_def demo_digest_def AllowKillSwitchRequest_def
        defaultKillSwitchRateLimiter_def newSlidingWindowLimiter_def allow_def Let_def)
  moreover have "''p'' \<in> set (path_prefixes ''p'')" by (simp add: path_prefixes_def prefix_path_def split_p)
  moreover have "sk_ApplicationID demo_key = ''a''" by (simp add: demo_key_def sample_key_def)
  ultimately show "\<exists>resp l' d'. DisableToggleBySecret (NewSecretKeyHandler (wt_server_db 0) e) demo_digest 7 defaultKillSwitchRateLimiter
       ''sk_1'' (RawJSON (JObj [(''path'', JStr ''p'')])) demo_mem = Some (Inr (resp, l'), d')
     \<and> rs_status resp = 200 \<and> \<not> effective (w_toggles (fst d')) ''a'' ''p''"
    using kill_switch_only_disables[OF wt_catalogue_db[of 0] ok, where e = e and dg = demo_digest and t = 7
      and l = defaultKillSwitchRateLimiter and presented = "''sk_1''" and body = "RawJSON (JObj [(''path'', JStr ''p'')])"]
    by metis
qed

end
