(* ===== verification/Middleware.thy ===== *)
theory Middleware
  imports Catalogue
begin

text \<open>
  \<open>middleware/approval.go\<close>: the gate in front of the handlers that change toggles, applications and keys,
  the classification of a request by method, path and body, and the request it files instead. The lemmas
  say when the gate lets a handler run, and where its reading of the body differs from the handler's.
\<close>

section \<open>requests\<close>

text \<open>
  The bytes of a body are a first JSON value (or something that is none) and perhaps more after it:
  \<open>json.Unmarshal\<close> wants a single value, the decoder behind \<open>ShouldBindJSON\<close> reads the first one only.
\<close>

record body =
  bd_first :: raw_message
  bd_more :: bool

definition whole :: "body \<Rightarrow> raw_message" where
  "whole b = (if bd_more b then RawMalformed [] else bd_first b)"

text \<open>The method, the path and the route parameters; a missing parameter is empty.\<close>

record api_request =
  hr_Method :: string
  hr_Path :: string
  hr_id :: string
  hr_toggleId :: string
  hr_Body :: body

definition hasRequiredRole :: "user_role \<Rightarrow> user_role \<Rightarrow> bool" where
  "hasRequiredRole userRole requiredRole =
     (case requiredRole of
        UserRoleRoot \<Rightarrow> userRole = UserRoleRoot
      | UserRoleAdmin \<Rightarrow> userRole = UserRoleRoot \<or> userRole = UserRoleAdmin
      | UserRoleUser \<Rightarrow> True
      | OtherRole _ \<Rightarrow> False)"

text \<open>A body that is no object, or \<open>null\<close>, gives a nil map, in which every look-up fails.\<close>

definition peekJSONBody :: "api_request \<Rightarrow> string \<rightharpoonup> json" where
  "peekJSONBody c = (case decode_map (whole (hr_Body c)) of None \<Rightarrow> Map.empty | Some m \<Rightarrow> m)"

definition getActionType :: "api_request \<Rightarrow> action_type" where
  "getActionType c =
     (let verb = hr_Method c; path = hr_Path c; m = peekJSONBody c in
      if verb = ''POST'' \<and> Contains path ''/generate-secret'' then SecretKeyCreate
      else if verb = ''DELETE'' \<and> Contains path ''/secret-keys/'' then SecretKeyDelete
      else if verb = ''POST'' \<and> Contains path ''/applications'' \<and> \<not> Contains path ''/toggles'' then ApplicationCreate
      else if verb = ''DELETE'' \<and> Contains path ''/applications'' \<and> \<not> Contains path ''/toggles'' then ApplicationDelete
      else if verb = ''PUT'' \<and> Contains path ''/applications'' \<and> \<not> Contains path ''/toggle'' then ApplicationUpdate
      else if verb = ''POST'' \<and> Contains path ''/toggles'' then ToggleCreate
      else if verb = ''DELETE'' \<and> Contains path ''/toggles'' then ToggleDelete
      else if verb = ''PUT'' \<and> HasSuffix path ''/toggles/bulk'' then
        (if m ''enabled'' = Some (JBool True) then ToggleEnable else ToggleDisable)
      else if verb = ''PUT'' \<and> Contains path ''/toggles'' then
        (if m ''has_activation_rule'' = Some (JBool True) then ToggleRule
         else if m ''activation_rule'' \<noteq> None \<and> m ''activation_rule'' \<noteq> Some JNull then ToggleRule
         else ToggleUpdate)
      else if verb = ''PUT'' \<and> Contains path ''/toggle/'' then
        (case m ''enabled'' of
           Some (JBool b) \<Rightarrow> if b then ToggleEnable else ToggleDisable
         | _ \<Rightarrow> ToggleUpdate)
      else OtherAction ''unknown'')"

section \<open>filing a request\<close>

text \<open>
  A JSON value that went through \<open>interface{}\<close> and back: the last of equal members stays, the members are
  sorted by name, and numbers are written as \<open>float64\<close> prints them (\<open>num\<close>).
\<close>

definition map_members :: "(string \<times> json) list \<Rightarrow> (string \<times> json) list" where
  "map_members kvs = sort_key (\<lambda>(k, v). map of_char k :: nat list) (AList.clearjunk (rev kvs))"

fun remarshal :: "(json \<Rightarrow> json) \<Rightarrow> json \<Rightarrow> json" where
  "remarshal num (JInt i) = num (JInt i)"
| "remarshal num (JDec q) = num (JDec q)"
| "remarshal num (JArr js) = JArr (map (remarshal num) js)"
| "remarshal num (JObj kvs) = JObj (map_members (map (\<lambda>(k, v). (k, remarshal num v)) kvs))"
| "remarshal num j = j"

text \<open>\<open>json.Unmarshal(body, &m)\<close> into a nil map, as a value; \<^const>\<open>None\<close> is its error.\<close>

definition unmarshal_map :: "(json \<Rightarrow> json) \<Rightarrow> body \<Rightarrow> go_value option" where
  "unmarshal_map num b =
     (case whole b of
        RawJSON (JObj kvs) \<Rightarrow> Some (GoMap (map_members (map (\<lambda>(k, v). (k, remarshal num v)) kvs)))
      | RawJSON JNull \<Rightarrow> Some (GoOther JNull)
      | _ \<Rightarrow> None)"

definition nil_if_empty :: "string \<Rightarrow> string option" where
  "nil_if_empty s = (if s \<noteq> [] then Some s else None)"

definition bulkToggleCount :: "go_value option \<Rightarrow> string" where
  "bulkToggleCount m =
     (case m of
        Some (GoMap kvs) \<Rightarrow> (case map_of kvs ''toggle_ids'' of Some (JArr js) \<Rightarrow> Itoa (length js) | _ \<Rightarrow> ''0'')
      | _ \<Rightarrow> ''0'')"

text \<open>The description and the action data; a body that does not decode leaves both empty.\<close>

definition action_details :: "(json \<Rightarrow> json) \<Rightarrow> api_request \<Rightarrow> action_type \<Rightarrow> string \<times> go_value" where
  "action_details num c actionType =
     (let data = unmarshal_map num (hr_Body c);
          decoded = (\<lambda>descr. case data of Some m \<Rightarrow> (descr, m) | None \<Rightarrow> ([], GoOther JNull));
          kept = (case data of Some m \<Rightarrow> m | None \<Rightarrow> GoOther JNull);
          isBulk = HasSuffix (hr_Path c) ''/toggles/bulk''
      in
      (case actionType of
         ToggleCreate \<Rightarrow>
           (case decode_struct1 ''toggle'' (whole (hr_Body c)) of
              Some t \<Rightarrow> (''Create toggle'', GoOther (JObj [(''toggle'', JStr t)]))
            | None \<Rightarrow> ([], GoOther JNull))
       | ToggleUpdate \<Rightarrow> decoded ''Update toggle''
       | ToggleDelete \<Rightarrow> (''Delete toggle'', GoOther JNull)
       | ApplicationCreate \<Rightarrow> decoded ''Create application''
       | ApplicationUpdate \<Rightarrow> decoded ''Update application''
       | ApplicationDelete \<Rightarrow> (''Delete application'', GoOther JNull)
       | ToggleEnable \<Rightarrow> (if isBulk then ''Enable '' @ bulkToggleCount data @ '' toggles'' else ''Enable toggle'', kept)
       | ToggleDisable \<Rightarrow> (if isBulk then ''Disable '' @ bulkToggleCount data @ '' toggles'' else ''Disable toggle'', kept)
       | ToggleRule \<Rightarrow> (''Configure activation rule'', kept)
       | SecretKeyCreate \<Rightarrow> (''Generate secret key'', GoMap [(''application_id'', JStr (hr_id c))])
       | SecretKeyDelete \<Rightarrow> (''Delete secret key'', GoMap [(''secret_key_id'', JStr (hr_id c))])
       | OtherAction _ \<Rightarrow> (''Unknown action'', GoOther JNull)))"

text \<open>The application and the toggle the request names.\<close>

definition action_scope ::
    "'s approval_usecase \<Rightarrow> api_request \<Rightarrow> action_type \<Rightarrow> ('s, go_error, string option \<times> string option) io" where
  "action_scope uc c actionType =
     (case actionType of
        ApplicationCreate \<Rightarrow> ok (None, None)
      | OtherAction _ \<Rightarrow> ok (None, None)
      | SecretKeyDelete \<Rightarrow>
          attempt (GetApplicationIDForSecretKey uc (hr_id c)) (\<lambda>_. ok (None, None))
            (\<lambda>appID. ok (nil_if_empty appID, None))
      | ToggleCreate \<Rightarrow> ok (nil_if_empty (hr_id c), None)
      | ApplicationUpdate \<Rightarrow> ok (nil_if_empty (hr_id c), None)
      | ApplicationDelete \<Rightarrow> ok (nil_if_empty (hr_id c), None)
      | SecretKeyCreate \<Rightarrow> ok (nil_if_empty (hr_id c), None)
      | _ \<Rightarrow> ok (nil_if_empty (hr_id c), nil_if_empty (hr_toggleId c)))"

definition team_of_app :: "'s approval_usecase \<Rightarrow> string \<Rightarrow> string option \<Rightarrow> string \<Rightarrow> ('s, go_error, string) io" where
  "team_of_app uc userID applicationID msg =
     (case applicationID of
        None \<Rightarrow> fail (ErrApp (NewAppError ErrCodeValidation msg))
      | Some i \<Rightarrow> GetUserTeamForApplication uc userID i)"

definition determineTeamID ::
    "'s approval_usecase \<Rightarrow> api_request \<Rightarrow> action_type \<Rightarrow> string option \<Rightarrow> string \<Rightarrow> ('s, go_error, string) io" where
  "determineTeamID uc c actionType applicationID userID =
     (case actionType of
        ApplicationUpdate \<Rightarrow> team_of_app uc userID applicationID ''application ID is required''
      | ApplicationDelete \<Rightarrow> team_of_app uc userID applicationID ''application ID is required''
      | ApplicationCreate \<Rightarrow>
          (case peekJSONBody c ''team_id'' of
             Some (JStr t) \<Rightarrow>
               if t \<noteq> [] then ok t
               else fail (ErrApp (NewAppError ErrCodeValidation ''team_id is required to create an application''))
           | _ \<Rightarrow> fail (ErrApp (NewAppError ErrCodeValidation ''team_id is required to create an application'')))
      | SecretKeyCreate \<Rightarrow> team_of_app uc userID applicationID ''application ID is required for secret key actions''
      | SecretKeyDelete \<Rightarrow> team_of_app uc userID applicationID ''application ID is required for secret key actions''
      | OtherAction _ \<Rightarrow>
          fail (ErrApp (NewAppError ErrCodeValidation ''unknown action type for team determination''))
      | _ \<Rightarrow> team_of_app uc userID applicationID ''application ID is required for toggle actions'')"

definition createApprovalRequest ::
    "'s approval_usecase \<Rightarrow> call_env \<Rightarrow> (json \<Rightarrow> json) \<Rightarrow> api_request \<Rightarrow> user \<Rightarrow> action_type
     \<Rightarrow> ('s, go_error, approval_request) io" where
  "createApprovalRequest uc env num c user actionType =
     attempt (action_scope uc c actionType) fail (\<lambda>(applicationID, toggleID).
     case action_details num c actionType of (description, actionData) \<Rightarrow>
     attempt (determineTeamID uc c actionType applicationID (us_ID user)) fail (\<lambda>teamID.
     CreateApprovalRequest uc env actionType description (us_ID user) teamID applicationID toggleID actionData))"

section \<open>the gate\<close>

text \<open>What the middleware does: pass on to the handler, refuse, fail, or answer 202 with the filed request's action and key.\<close>

datatype gate = GateNext | GateRefused int app_error | GateFailed int string go_error | GateFiled action_type string

definition role_gate :: "user \<Rightarrow> user_role \<Rightarrow> gate" where
  "role_gate user requiredRole =
     (if \<not> hasRequiredRole (us_Role user) requiredRole
      then GateRefused 403 (NewAppError ErrCodeValidation ''insufficient permissions'') else GateNext)"

definition ApprovalAware ::
    "'s approval_usecase \<Rightarrow> call_env \<Rightarrow> (json \<Rightarrow> json) \<Rightarrow> context_value \<Rightarrow> user_role \<Rightarrow> api_request
     \<Rightarrow> ('s, unit, gate) io" where
  "ApprovalAware uc env num ctxUser requiredRole c =
     (case ctxUser of
        ContextNil \<Rightarrow> ok (GateRefused 401 (NewAppError ErrCodeValidation ''user not authenticated''))
      | ContextOther \<Rightarrow> ok (GateRefused 500 (NewAppError ErrCodeInternal ''invalid user context''))
      | ContextUser user \<Rightarrow>
          if us_Role user = UserRoleRoot then ok GateNext
          else
            attempt (attempt (Uc_IsApprovalEnabled uc) (\<lambda>_. ok False) ok) fail (\<lambda>enabled.
            if \<not> enabled then ok (role_gate user requiredRole)
            else
              let actionType = getActionType c in
              attempt (Uc_RequiresApproval uc actionType)
                (\<lambda>_. ok (GateRefused 500 (NewAppError ErrCodeInternal ''error checking approval requirements'')))
                (\<lambda>required.
              if \<not> required then ok (role_gate user requiredRole)
              else
                attempt (createApprovalRequest uc env num c user actionType)
                  (\<lambda>err. ok (GateFailed 500 ''failed to create approval request: '' err))
                  (\<lambda>request. ok (GateFiled actionType (rq_PlainSecretKey request))))))"

text \<open>The handler behind the gate.\<close>

definition gated ::
    "'s approval_usecase \<Rightarrow> call_env \<Rightarrow> (json \<Rightarrow> json) \<Rightarrow> context_value \<Rightarrow> user_role \<Rightarrow> api_request
     \<Rightarrow> ('s, unit, 'a) io \<Rightarrow> ('s, unit, gate + 'a) io" where
  "gated uc env num ctxUser requiredRole c handler =
     attempt (ApprovalAware uc env num ctxUser requiredRole c) fail (\<lambda>g.
     if g = GateNext then attempt handler fail (\<lambda>a. ok (Inr a)) else ok (Inl g))"

end
