(* ===== verification/ToggleHandler.thy ===== *)
theory ToggleHandler
  imports Middleware
begin

text \<open>
  \<open>handler/toggle_handler.go\<close>: validation, the calls of the use case, the audit trail and the replies. The
  error branches for errors of another type than \<open>AppError\<close> are left out: the use case returns no others.
  The lemmas compare what a handler does with the action the gate in front of it checks.
\<close>

record 's toggle_handler =
  th_toggleUseCase :: "'s toggle_usecase"
  th_applicationUseCase :: "'s app_usecase"
  th_auditUseCase :: "'s audit_usecase"

text \<open>The status and the body of a reply.\<close>

datatype toggle_reply =
    HError int app_error
  | HCreated string
  | HToggle toggle
  | HDeleted string
  | HRestored string
  | HArchived "archived_toggle list"
  | HToggles "toggle list"
  | HHierarchy string "toggle_node list"
  | HBulk "string list" bool

definition describeActivationRule :: "bool \<Rightarrow> activation_rule option \<Rightarrow> string" where
  "describeActivationRule hasRule rule =
     (case rule of
        None \<Rightarrow> ''No rule''
      | Some r \<Rightarrow>
          if \<not> hasRule \<or> ar_Type r = [] then ''No rule''
          else if ar_Type r = ''percentage'' then ar_Type r @ '': '' @ ar_Value r @ ''%''
          else ar_Type r @ '': '' @ ar_Value r)"

definition applicationName :: "'s toggle_handler \<Rightarrow> string \<Rightarrow> ('s, unit, string) io" where
  "applicationName h appID =
     attempt (GetApplicationByID (th_applicationUseCase h) appID) (\<lambda>_. ok []) (\<lambda>app. ok (ap_Name app))"

text \<open>The middle dot between the application and the path, in UTF-8.\<close>

definition dotted :: "string \<Rightarrow> string \<Rightarrow> string" where
  "dotted name path = name @ '' '' @ [CHR 0xC2, CHR 0xB7] @ '' '' @ path"

definition no_effect :: "string \<Rightarrow> string" where
  "no_effect who = '' <i>(no effect '' @ [CHR 0xE2, CHR 0x80, CHR 0x94] @ '' '' @ who @ '' is off)</i>''"

section \<open>requests and errors\<close>

text \<open>\<open>ShouldBindJSON\<close>: the first value of the body, decoded into a struct.\<close>

definition bind_json :: "('r \<Rightarrow> string \<Rightarrow> json \<Rightarrow> 'r option) \<Rightarrow> 'r \<Rightarrow> body \<Rightarrow> 'r option" where
  "bind_json f zero b =
     (case bd_first b of
        RawJSON (JObj kvs) \<Rightarrow> decode_members f zero kvs
      | RawJSON JNull \<Rightarrow> Some zero
      | _ \<Rightarrow> None)"

definition create_request :: "body \<Rightarrow> string option" where
  "create_request b =
     (case bind_json (string_member ''toggle'') [] b of None \<Rightarrow> None | Some t \<Rightarrow> if t = [] then None else Some t)"

definition update_request :: "body \<Rightarrow> update_data option" where
  "update_request b = bind_json (update_member decode_activation_rule) zero_update b"

definition enabled_request :: "body \<Rightarrow> bool option" where
  "enabled_request b = bind_json (bool_member ''enabled'') False b"

text \<open>A nil slice fails \<open>binding:"required"\<close>, an empty one does not.\<close>

definition bulk_request_member :: "string list option \<times> bool \<Rightarrow> string \<Rightarrow> json \<Rightarrow> (string list option \<times> bool) option" where
  "bulk_request_member r k v =
     (if field_matches ''toggle_ids'' k
      then (if v = JNull then Some (None, snd r) else map_option (\<lambda>is. (Some is, snd r)) (decode_strings [] v))
      else if field_matches ''enabled'' k then map_option (\<lambda>b. (fst r, b)) (decode_bool (snd r) v)
      else Some r)"

definition bulk_request :: "body \<Rightarrow> (string list \<times> bool) option" where
  "bulk_request b =
     (case bind_json bulk_request_member (None, False) b of
        Some (Some is, enabled) \<Rightarrow> Some (is, enabled)
      | _ \<Rightarrow> None)"

definition validation_failed :: app_error where
  "validation_failed = NewAppError ErrCodeValidation ''validation failed''"

definition missing_app :: toggle_reply where
  "missing_app = HError 400 (AddDetail ''appID'' (Msg ''Application ID is required'') validation_failed)"

text \<open>The check of both route parameters.\<close>

definition with_ids :: "string \<Rightarrow> string \<Rightarrow> ('s, unit, toggle_reply) io \<Rightarrow> ('s, unit, toggle_reply) io" where
  "with_ids appID toggleID k =
     (if appID = [] \<or> toggleID = [] then
        let e = (if appID = [] then AddDetail ''appID'' (Msg ''Application ID is required'') validation_failed
                 else validation_failed)
        in ok (HError 400 (if toggleID = [] then AddDetail ''toggleID'' (Msg ''Toggle ID is required'') e else e))
      else k)"

definition invalid_body :: toggle_reply where
  "invalid_body = HError 400 (AddDetail ''request'' (Msg ''Invalid request body'') validation_failed)"

definition usecase_error :: "app_error \<Rightarrow> toggle_reply" where
  "usecase_error e = HError (if ae_Code e = ErrCodeNotFound then 404 else 400) e"

definition record_for :: "'s toggle_handler \<Rightarrow> audit_event \<Rightarrow> string \<Rightarrow> string \<Rightarrow> string \<Rightarrow> context_value \<Rightarrow> ('s, unit, unit) io" where
  "record_for h ev txt target appID ctxUser =
     RecordForApplication (th_auditUseCase h) ev txt target appID (auditActor ctxUser)"

definition enabled_event :: "bool \<Rightarrow> audit_event" where
  "enabled_event b = (if b then AuditEventToggleEnabled else AuditEventToggleDisabled)"

definition enabled_verb :: "bool \<Rightarrow> string" where
  "enabled_verb b = (if b then ''Enabled'' else ''Disabled'')"

section \<open>the handlers\<close>

definition Handler_CreateToggle ::
    "'s toggle_handler \<Rightarrow> (nat \<Rightarrow> string) \<Rightarrow> context_value \<Rightarrow> api_request \<Rightarrow> ('s, unit, toggle_reply) io" where
  "Handler_CreateToggle h ulid ctxUser c =
     (let appID = hr_id c in
      if appID = [] then ok missing_app
      else
        (case ToAppError (ValidateApplicationID appID) of
           Some e \<Rightarrow> ok (HError 400 e)
         | None \<Rightarrow>
             (case create_request (hr_Body c) of
                None \<Rightarrow> ok invalid_body
              | Some path \<Rightarrow>
                  (case ToAppError (ValidateTogglePath path) of
                     Some e \<Rightarrow> ok (HError 400 e)
                   | None \<Rightarrow>
                       attempt (CreateToggle (th_toggleUseCase h) ulid path True True appID)
                         (\<lambda>e. ok (usecase_error e)) (\<lambda>_.
                       attempt (applicationName h appID) fail (\<lambda>name.
                       attempt (record_for h AuditEventToggleCreated (''Created toggle '' @ bold path) name appID ctxUser)
                         fail (\<lambda>_. ok (HCreated path))))))))"

definition Handler_GetToggleStatus :: "'s toggle_handler \<Rightarrow> api_request \<Rightarrow> ('s, unit, toggle_reply) io" where
  "Handler_GetToggleStatus h c =
     with_ids (hr_id c) (hr_toggleId c)
       (let appValidation = ValidateApplicationID (hr_id c); toggleValidation = ValidateToggleID (hr_toggleId c) in
        if \<not> vr_IsValid appValidation \<or> \<not> vr_IsValid toggleValidation
        then ok (HError 400 (validation_failed\<lparr> ae_Details := vr_Errors appValidation @ vr_Errors toggleValidation \<rparr>))
        else attempt (GetToggleByID (th_toggleUseCase h) (hr_toggleId c) (hr_id c))
               (\<lambda>e. ok (usecase_error e)) (\<lambda>t. ok (HToggle t)))"

definition before_update :: "'s toggle_handler \<Rightarrow> string \<Rightarrow> string \<Rightarrow> ('s, unit, string) io" where
  "before_update h toggleID appID =
     attempt (GetToggleByID (th_toggleUseCase h) toggleID appID) (\<lambda>_. ok ''No rule'')
       (\<lambda>t. ok (describeActivationRule (tg_HasActivationRule t) (tg_ActivationRule t)))"

definition rule_text :: "activation_rule \<Rightarrow> string" where
  "rule_text r =
     ''Set '' @ bold (ar_Type r) @ '' rule'' @ (if ar_Type r = ''percentage'' then '' to '' @ bold (ar_Value r @ ''%'') else [])"

definition Handler_UpdateToggle ::
    "'s toggle_handler \<Rightarrow> call_env \<Rightarrow> context_value \<Rightarrow> api_request \<Rightarrow> ('s, unit, toggle_reply) io" where
  "Handler_UpdateToggle h env ctxUser c =
     (let appID = hr_id c; toggleID = hr_toggleId c in
      with_ids appID toggleID
        (case update_request (hr_Body c) of
           None \<Rightarrow> ok invalid_body
         | Some req \<Rightarrow>
             let newRule = (if ud_HasActivationRule req then ud_ActivationRule req else None) in
             attempt (if newRule \<noteq> None then before_update h toggleID appID else ok ''No rule'') fail (\<lambda>bef.
             attempt (UpdateToggleWithRule (en_ParseFloat env) (en_tokens env) (en_rule_text env) (th_toggleUseCase h)
                 toggleID (ud_Enabled req) (ud_HasActivationRule req) (ud_ActivationRule req) appID)
               (\<lambda>e. ok (usecase_error e)) (\<lambda>updatedToggle.
             attempt
               (case newRule of
                  Some r \<Rightarrow>
                    RecordRuleChange (th_auditUseCase h) (rule_text r) (tg_Path updatedToggle) appID bef
                      (describeActivationRule True (Some r)) (auditActor ctxUser)
                | None \<Rightarrow>
                    attempt (if ud_Enabled req then AncestorBlocker (th_toggleUseCase h) updatedToggle else ok (True, []))
                      (\<lambda>_. fail ()) (\<lambda>(on, who).
                    attempt (applicationName h appID) fail (\<lambda>name.
                    record_for h (enabled_event (ud_Enabled req))
                      (enabled_verb (ud_Enabled req) @ '' '' @ bold (tg_Value updatedToggle)
                         @ (if \<not> on then no_effect who else []))
                      (dotted name (tg_Path updatedToggle)) appID ctxUser)))
               fail (\<lambda>_. ok (HToggle updatedToggle))))))"

definition Handler_DeleteToggle ::
    "'s toggle_handler \<Rightarrow> context_value \<Rightarrow> api_request \<Rightarrow> ('s, unit, toggle_reply) io" where
  "Handler_DeleteToggle h ctxUser c =
     (let appID = hr_id c; toggleID = hr_toggleId c in
      with_ids appID toggleID
        (attempt (attempt (GetToggleByID (th_toggleUseCase h) toggleID appID) (\<lambda>_. ok []) (\<lambda>t. ok (tg_Value t)))
           fail (\<lambda>lastSegment.
         attempt (DeleteToggleByID (th_toggleUseCase h) toggleID appID
             (case auditActor ctxUser of None \<Rightarrow> [] | Some u \<Rightarrow> us_ID u))
           (\<lambda>e. ok (usecase_error e)) (\<lambda>_.
         attempt (applicationName h appID) fail (\<lambda>name.
         attempt (record_for h AuditEventToggleDeleted (''Deleted toggle '' @ bold lastSegment) name appID ctxUser)
           fail (\<lambda>_. ok (HDeleted toggleID)))))))"

definition Handler_RestoreToggle ::
    "'s toggle_handler \<Rightarrow> context_value \<Rightarrow> api_request \<Rightarrow> ('s, unit, toggle_reply) io" where
  "Handler_RestoreToggle h ctxUser c =
     (let appID = hr_id c; toggleID = hr_toggleId c in
      with_ids appID toggleID
        (attempt (RestoreToggle (th_toggleUseCase h) toggleID appID)
           (\<lambda>e. ok (HError (if ae_Code e = ErrCodeNotFound then 404
                            else if ae_Code e = ErrCodeAlreadyExists then 409 else 400) e)) (\<lambda>_.
         attempt (attempt (GetToggleByID (th_toggleUseCase h) toggleID appID) (\<lambda>_. ok []) (\<lambda>t. ok (tg_Value t)))
           fail (\<lambda>lastSegment.
         attempt (applicationName h appID) fail (\<lambda>name.
         attempt (record_for h AuditEventToggleRestored (''Restored toggle '' @ bold lastSegment) name appID ctxUser)
           fail (\<lambda>_. ok (HRestored toggleID)))))))"

definition Handler_GetArchivedToggles :: "'s toggle_handler \<Rightarrow> api_request \<Rightarrow> ('s, unit, toggle_reply) io" where
  "Handler_GetArchivedToggles h c =
     (if hr_id c = [] then ok missing_app
      else attempt (GetArchivedToggles (th_toggleUseCase h) (hr_id c)) (\<lambda>e. ok (HError 400 e))
             (\<lambda>archived. ok (HArchived archived)))"

text \<open>\<open>hierarchy\<close> is the query parameter.\<close>

definition Handler_GetAllToggles :: "'s toggle_handler \<Rightarrow> string \<Rightarrow> api_request \<Rightarrow> ('s, unit, toggle_reply) io" where
  "Handler_GetAllToggles h hierarchy c =
     (if hr_id c = [] then ok missing_app
      else if hierarchy = ''true''
      then attempt (GetToggleHierarchy (th_toggleUseCase h) (hr_id c)) (\<lambda>e. ok (usecase_error e))
             (\<lambda>ns. ok (HHierarchy (hr_id c) ns))
      else attempt (GetAllTogglesByApp (th_toggleUseCase h) (hr_id c)) (\<lambda>e. ok (usecase_error e))
             (\<lambda>ts. ok (HToggles ts)))"

definition Handler_UpdateEnabled ::
    "'s toggle_handler \<Rightarrow> context_value \<Rightarrow> api_request \<Rightarrow> ('s, unit, toggle_reply) io" where
  "Handler_UpdateEnabled h ctxUser c =
     (let appID = hr_id c; toggleID = hr_toggleId c in
      with_ids appID toggleID
        (case enabled_request (hr_Body c) of
           None \<Rightarrow> ok invalid_body
         | Some enabled \<Rightarrow>
             attempt (UpdateEnabledRecursively (th_toggleUseCase h) toggleID enabled appID)
               (\<lambda>e. ok (usecase_error e)) (\<lambda>_.
             attempt (GetToggleByID (th_toggleUseCase h) toggleID appID)
               (\<lambda>_. ok (HError 500 (NewAppError ErrCodeInternal ''error fetching updated toggle''))) (\<lambda>updatedToggle.
             attempt (applicationName h appID) fail (\<lambda>name.
             attempt (record_for h (enabled_event enabled) (enabled_verb enabled @ '' '' @ bold (tg_Value updatedToggle))
                 (dotted name (tg_Path updatedToggle)) appID ctxUser) fail (\<lambda>_.
             ok (HToggle updatedToggle)))))))"

definition Handler_BulkUpdateEnabled ::
    "'s toggle_handler \<Rightarrow> context_value \<Rightarrow> api_request \<Rightarrow> ('s, unit, toggle_reply) io" where
  "Handler_BulkUpdateEnabled h ctxUser c =
     (let appID = hr_id c in
      if appID = [] then ok missing_app
      else
        (case bulk_request (hr_Body c) of
           None \<Rightarrow> ok invalid_body
         | Some (toggleIDs, enabled) \<Rightarrow>
             attempt (BulkUpdateEnabled (th_toggleUseCase h) toggleIDs enabled appID)
               (\<lambda>e. ok (usecase_error e)) (\<lambda>_.
             attempt (applicationName h appID) fail (\<lambda>name.
             attempt (record_for h (enabled_event enabled)
                 (enabled_verb enabled @ '' '' @ bold (Itoa (length toggleIDs)) @ '' toggles in bulk'') name appID ctxUser)
               fail (\<lambda>_. ok (HBulk toggleIDs enabled))))))"

definition NewToggleHandler :: "'d server_db \<Rightarrow> db_env \<Rightarrow> 'd toggle_handler" where
  "NewToggleHandler db e =
     (let appRepo = NewApplicationRepository (app_db_of db e);
          toggleRepo = toggle_repo_impl (sd_toggles db) (sd_users db)
      in
      \<lparr> th_toggleUseCase = NewToggleUseCase toggleRepo appRepo,
        th_applicationUseCase = NewApplicationUseCase appRepo toggleRepo,
        th_auditUseCase = NewAuditUseCase (NewAuditLogRepository (sd_audit db) (de_now e) (de_auditID e))
          (NewTeamRepository (team_db_of db e)) \<rparr>)"

end
