(* ===== verification/Http.thy ===== *)
theory Http
  imports ToggleHandler Sessions
begin

text \<open>
  What the remaining handlers share: their replies, the bodies made of strings they bind, the user the session
  middleware left in the context, and the texts of the errors the replies carry.
\<close>

section \<open>replies\<close>

text \<open>
  \<open>Refused\<close> carries an error text, \<open>RefusedApp\<close> an application error. \<open>Panicked\<close> stands for a failed type
  assertion or a nil dereference, which the server's recovery answers with 500.
\<close>

datatype 'a reply = Reply int 'a | Refused int string | RefusedApp int app_error | Panicked

definition refused_app :: "int \<Rightarrow> err_code \<Rightarrow> string \<Rightarrow> 'a reply" where
  "refused_app status code msg = RefusedApp status (NewAppError code msg)"

text \<open>\<open>c.Get("user").(*entity.User)\<close>, and the same without a panic.\<close>

definition with_user :: "context_value \<Rightarrow> (user \<Rightarrow> ('s, unit, 'a reply) io) \<Rightarrow> ('s, unit, 'a reply) io" where
  "with_user ctxUser k = (case ctxUser of ContextUser u \<Rightarrow> k u | _ \<Rightarrow> ok Panicked)"

definition getUserFromSession :: "context_value \<Rightarrow> user option" where
  "getUserFromSession ctxUser = (case ctxUser of ContextUser u \<Rightarrow> Some u | _ \<Rightarrow> None)"

definition getUserIDFromSession :: "context_value \<Rightarrow> string" where
  "getUserIDFromSession ctxUser = (case getUserFromSession ctxUser of Some u \<Rightarrow> us_ID u | None \<Rightarrow> [])"

section \<open>bodies\<close>

text \<open>A struct of string fields, as the values of its fields; \<open>binding:"required"\<close> refuses the empty string.\<close>

definition strings_member :: "string list \<Rightarrow> (string \<Rightarrow> string) \<Rightarrow> string \<Rightarrow> json \<Rightarrow> (string \<Rightarrow> string) option" where
  "strings_member names r k v =
     (case find (\<lambda>n. field_matches n k) names of
        None \<Rightarrow> Some r
      | Some n \<Rightarrow> map_option (\<lambda>s. r(n := s)) (decode_string (r n) v))"

definition bind_strings :: "string list \<Rightarrow> string list \<Rightarrow> body \<Rightarrow> (string \<Rightarrow> string) option" where
  "bind_strings needed optional b =
     (case bind_json (strings_member (needed @ optional)) (\<lambda>_. []) b of
        None \<Rightarrow> None
      | Some r \<Rightarrow> if list_all (\<lambda>n. r n \<noteq> []) needed then Some r else None)"

lemma bind_strings_required: "bind_strings needed optional b = Some r \<Longrightarrow> n \<in> set needed \<Longrightarrow> r n \<noteq> []"
  by (auto simp: bind_strings_def list_all_iff split: option.splits if_splits)

section \<open>error texts\<close>

text \<open>\<open>err.Error()\<close>. The texts of the database driver, of bcrypt, of the random source and of \<open>encoding/json\<close> are \<open>lib\<close>.\<close>

fun key_invalid_text :: "key_invalid \<Rightarrow> string" where
  "key_invalid_text KeyNameRequired = ''secret key name is required''"
| "key_invalid_text KeyNameTooShort = ''secret key name must be at least 3 characters long''"
| "key_invalid_text KeyApplicationRequired = ''application ID is required''"
| "key_invalid_text KeyCreatedByRequired = ''created by user ID is required''"

fun err_text :: "(go_error \<Rightarrow> string) \<Rightarrow> go_error \<Rightarrow> string" where
  "err_text lib (ErrText s) = s"
| "err_text lib (ErrWrap m e) = m @ '': '' @ err_text lib e"
| "err_text lib (ErrApp e) = ae_Message e"
| "err_text lib (ErrGorm ErrRecordNotFound) = ''record not found''"
| "err_text lib (ErrGorm ErrDB) = lib (ErrGorm ErrDB)"
| "err_text lib (ErrKey (KeyInvalid k)) = key_invalid_text k"
| "err_text lib (ErrKey KeyNotFound) = ''secret key not found''"
| "err_text lib (ErrKey KeyRandom) = lib (ErrKey KeyRandom)"
| "err_text lib (ErrKey (KeyDB ErrRecordNotFound)) = ''record not found''"
| "err_text lib (ErrKey (KeyDB ErrDB)) = lib (ErrGorm ErrDB)"
| "err_text lib (go_error.ErrRequest RequestNotPending) = ''approval request is not pending''"
| "err_text lib (go_error.ErrRequest RequestHasExpired) = ''approval request has expired''"
| "err_text lib (ErrSettings ExpirationDaysRange) = ''expiration days must be between 1 and 30''"
| "err_text lib (ErrSettings InvalidRequiredActions) = ''invalid required_actions format''"
| "err_text lib (ErrTeam TeamNameRequired) = ''team name is required''"
| "err_text lib (ErrTeam TeamNameTooShort) = ''team name must be at least 2 characters long''"
| "err_text lib (ErrTeam TeamNameTooLong) = ''team name must be at most 100 characters long''"
| "err_text lib (ErrTeam TeamDescriptionTooLong) = ''team description must be at most 500 characters long''"
| "err_text lib (ErrUser UserNameRequired) = ''name is required''"
| "err_text lib (ErrUser UsernameRequired) = ''username is required''"
| "err_text lib (ErrUser UsernameTooShort) = ''username must be at least 3 characters long''"
| "err_text lib (ErrUser InvalidUserRole) = ''invalid user role''"
| "err_text lib (ErrPassword PasswordTooShort) = ''password must be at least 4 characters long''"
| "err_text lib (ErrPassword PasswordHashFailed) = lib (ErrPassword PasswordHashFailed)"
| "err_text lib ErrJSON = lib ErrJSON"
| "err_text lib ErrApprovalAccessDenied = ''user does not have access to this team's approval requests''"

end
