(* ===== verification/AuthHandler.thy ===== *)
theory AuthHandler
  imports Http RateLimiter
begin

text \<open>
  \<open>handler/auth_handler.go\<close>: logging in and out, the first password, and the middleware in front of the other
  handlers. The lemmas say exactly which requests the session middleware lets through, that the reply to a
  forgotten password does not depend on the accounts, and what the page of the first password does to the
  token it is reached with.
\<close>

section \<open>requests and replies\<close>

record auth_request =
  cr_Path :: string
  cr_auth :: "string option"
  cr_change :: "string option"
  cr_ClientIP :: string
  cr_Body :: body

text \<open>Name, value and maximal age; a negative age deletes the cookie.\<close>

datatype cookie = Cookie string string int

datatype auth_body =
    LoggedIn string string user_role bool
  | MustChange string string
  | AuthDone
  | FirstAccess nat
  | RedirectTo string

type_synonym auth_reply = "auth_body reply \<times> cookie list"

record 's auth_handler =
  ah_authUseCase :: "'s auth_usecase"
  ah_auditUseCase :: "'s audit_usecase"

section \<open>logging in and out\<close>

definition Handler_Login ::
    "'s auth_handler \<Rightarrow> auth_env \<Rightarrow> auth_request \<Rightarrow> limiter \<Rightarrow> ('s, unit, auth_reply \<times> limiter) io" where
  "Handler_Login h env q l =
     (case bind_strings [''username'', ''password''] [] (cr_Body q) of
        None \<Rightarrow> ok ((Refused 400 ''Invalid request format'', []), l)
      | Some r \<Rightarrow>
          attempt (Login (ah_authUseCase h) env (r ''username'') (r ''password''))
            (\<lambda>_. ok ((Refused 500 ''Internal server error'', []), l)) (\<lambda>result.
          if \<not> rs_Success result then ok ((Refused 401 (rs_Error result), []), l)
          else
            let l = reset (cr_ClientIP q) l in
            (case rs_User result of
               None \<Rightarrow> ok ((Panicked, []), l)
             | Some user \<Rightarrow>
                 if us_MustChangePassword user then
                   attempt (GeneratePasswordChangeToken (ah_authUseCase h) env (us_ID user) (us_Username user))
                     (\<lambda>_. ok ((Refused 500 ''Failed to generate password change token'', []), l)) (\<lambda>tempToken.
                   ok ((Reply 200 (MustChange (us_ID user) (us_Username user)),
                        [Cookie ''password_change_token'' tempToken 3600]), l))
                 else
                   ok ((Reply 200 (LoggedIn (us_ID user) (us_Username user) (us_Role user) (us_MustChangePassword user)),
                        [Cookie ''auth_token'' (rs_Token result) (3600 * 24 * 7)]), l))))"

definition Handler_ForgotPassword :: "'s auth_handler \<Rightarrow> auth_request \<Rightarrow> ('s, unit, auth_reply) io" where
  "Handler_ForgotPassword h q =
     (case bind_strings [''username''] [] (cr_Body q) of
        None \<Rightarrow> ok (Refused 400 ''username is required'', [])
      | Some r \<Rightarrow>
          attempt (attempt (GetUserByUsername (ah_authUseCase h) (r ''username'')) (\<lambda>_. ok ()) (\<lambda>user.
              RecordSystem (ah_auditUseCase h) AuditEventPasswordResetRequested
                (''Password reset requested for '' @ bold (''@'' @ us_Username user)) ''Self-service (login screen)''))
            fail (\<lambda>_. ok (Reply 200 AuthDone, [])))"

definition Handler_Logout :: "'s auth_handler \<Rightarrow> auth_env \<Rightarrow> auth_request \<Rightarrow> ('s, unit, auth_reply) io" where
  "Handler_Logout h env q =
     attempt (case cr_auth q of
                None \<Rightarrow> ok ()
              | Some token \<Rightarrow>
                  if token \<noteq> [] then attempt (Logout (ah_authUseCase h) env token) (\<lambda>_. ok ()) ok else ok ())
       fail (\<lambda>_. ok (Reply 200 AuthDone, [Cookie ''auth_token'' [] (- 1)]))"

text \<open>The account is named by the body or, when it does not name both, by the temporary token.\<close>

definition first_time_account ::
    "'s auth_handler \<Rightarrow> auth_env \<Rightarrow> auth_request \<Rightarrow> (string \<Rightarrow> string) \<Rightarrow> ('s, string, string \<times> string) io" where
  "first_time_account h env q r =
     (if r ''user_id'' = [] \<or> r ''username'' = []
      then (case cr_change q of
              None \<Rightarrow> fail ''No authentication information provided''
            | Some tempToken \<Rightarrow>
                attempt (ValidatePasswordChangeToken (ah_authUseCase h) env tempToken)
                  (\<lambda>_. fail ''Invalid or expired session'') ok)
      else ok (r ''user_id'', r ''username''))"

text \<open>A wrong password is a result without user and no error: reading the user's identifier then panics.\<close>

definition Handler_ChangePasswordFirstTime ::
    "'s auth_handler \<Rightarrow> auth_env \<Rightarrow> auth_request \<Rightarrow> ('s, unit, auth_reply) io" where
  "Handler_ChangePasswordFirstTime h env q =
     (case bind_strings [''current_password'', ''new_password''] [''user_id'', ''username''] (cr_Body q) of
        None \<Rightarrow> ok (Refused 400 ''Invalid request data'', [])
      | Some r \<Rightarrow>
          attempt (first_time_account h env q r) (\<lambda>msg. ok (Refused 401 msg, [])) (\<lambda>(userID, username).
          attempt (Authenticate (ah_authUseCase h) username (r ''current_password''))
            (\<lambda>_. ok (Refused 401 ''Invalid current password'', [])) (\<lambda>result.
          case rs_User result of
            None \<Rightarrow> ok (Panicked, [])
          | Some user \<Rightarrow>
              if us_ID user \<noteq> userID then ok (Refused 401 ''Invalid user data'', [])
              else if \<not> us_MustChangePassword user
              then ok (Refused 400 ''Password change not required for this user'', [])
              else
                attempt (ChangePasswordFirstTime (ah_authUseCase h) env userID (r ''new_password''))
                  (\<lambda>_. ok (Refused 500 ''Failed to update password'', []))
                  (\<lambda>_. ok (Reply 200 AuthDone, [Cookie ''password_change_token'' [] (- 1)])))))"

definition Handler_CheckFirstAccess :: "'s auth_handler \<Rightarrow> ('s, unit, auth_reply) io" where
  "Handler_CheckFirstAccess h =
     attempt (GetUserCount (ah_authUseCase h)) (\<lambda>_. ok (Refused 500 ''Failed to check system status'', []))
       (\<lambda>userCount. ok (Reply 200 (FirstAccess userCount), []))"

section \<open>the middleware\<close>

datatype auth_gate = AuthNext user | AuthStop "auth_body reply" "cookie list"

definition unauthenticated :: "string \<Rightarrow> string \<Rightarrow> auth_gate" where
  "unauthenticated path msg =
     AuthStop (if path = ''/'' then Reply 307 (RedirectTo ''/login'') else Refused 401 msg) [Cookie ''auth_token'' [] (- 1)]"

definition Handler_ValidateToken :: "'s auth_handler \<Rightarrow> auth_env \<Rightarrow> auth_request \<Rightarrow> ('s, unit, auth_gate) io" where
  "Handler_ValidateToken h env q =
     (case cr_auth q of
        None \<Rightarrow> ok (unauthenticated (cr_Path q) ''Authorization token required'')
      | Some token \<Rightarrow>
          if token = [] then ok (unauthenticated (cr_Path q) ''Authorization token required'')
          else
            attempt (ValidateToken (ah_authUseCase h) env token)
              (\<lambda>_. ok (unauthenticated (cr_Path q) ''Invalid token'')) (\<lambda>user.
            if us_MustChangePassword user \<and> cr_Path q \<noteq> ''/api/auth/change-password'' \<and> cr_Path q \<noteq> ''/change-password''
            then
              ok (AuthStop (if cr_Path q = ''/'' \<or> cr_Path q = ''/dashboard'' then Reply 307 (RedirectTo ''/change-password'')
                            else Refused 428 ''Password change required'') [])
            else ok (AuthNext user)))"

text \<open>The page of the first password: reached with a session, with a temporary token, or not.\<close>

datatype page_access = PageNext "(string \<times> string) option" | PageRedirect string

definition Handler_ValidatePasswordChangeAccess ::
    "'s auth_handler \<Rightarrow> auth_env \<Rightarrow> auth_request \<Rightarrow> ('s, unit, page_access) io" where
  "Handler_ValidatePasswordChangeAccess h env q =
     attempt (case cr_auth q of
                None \<Rightarrow> ok None
              | Some token \<Rightarrow>
                  attempt (ValidateToken (ah_authUseCase h) env token) (\<lambda>_. ok None)
                    (\<lambda>user. ok (Some (us_MustChangePassword user))))
       fail (\<lambda>session.
     case session of
       Some must \<Rightarrow> if must then ok (PageNext None) else ok (PageRedirect ''/'')
     | None \<Rightarrow>
         (case cr_change q of
            None \<Rightarrow> ok (PageRedirect ''/login'')
          | Some tempToken \<Rightarrow>
              attempt (ValidatePasswordChangeToken (ah_authUseCase h) env tempToken)
                (\<lambda>_. ok (PageRedirect ''/login'')) (\<lambda>account. ok (PageNext (Some account)))))"

text \<open>The checks of the role; \<^const>\<open>None\<close> passes on.\<close>

definition require_user :: "(user \<Rightarrow> bool) \<Rightarrow> string \<Rightarrow> context_value \<Rightarrow> auth_body reply option" where
  "require_user allowed msg ctxUser =
     (case ctxUser of
        ContextNil \<Rightarrow> Some (Refused 401 ''User not authenticated'')
      | ContextOther \<Rightarrow> Some (Refused 403 msg)
      | ContextUser u \<Rightarrow> if allowed u then None else Some (Refused 403 msg))"

definition RequireRoot :: "context_value \<Rightarrow> auth_body reply option" where
  "RequireRoot = require_user IsRoot ''Root privileges required''"

definition RequireAdmin :: "context_value \<Rightarrow> auth_body reply option" where
  "RequireAdmin = require_user (\<lambda>u. IsAdmin u \<or> IsRoot u) ''Admin privileges required''"

definition RequireModifyPermission :: "context_value \<Rightarrow> auth_body reply option" where
  "RequireModifyPermission = require_user CanModifyData ''Modification privileges required''"

text \<open>\<open>i\<close> and \<open>app_id\<close> are the route parameters.\<close>

definition RequireApplicationAccess ::
    "permission \<Rightarrow> context_value \<Rightarrow> string \<Rightarrow> string \<Rightarrow> auth_body reply option" where
  "RequireApplicationAccess permission ctxUser i app_id =
     (case ctxUser of
        ContextNil \<Rightarrow> Some (Refused 401 ''User not authenticated'')
      | ContextOther \<Rightarrow> Some (Refused 500 ''Invalid user data in context'')
      | ContextUser u \<Rightarrow>
          if IsRoot u then None
          else if (if i = [] then app_id else i) = [] then Some (Refused 400 ''Application ID is required'')
          else if permission = PermissionWrite \<and> \<not> CanModifyData u then Some (Refused 403 ''Write permission required'')
          else None)"

section \<open>lemmas\<close>

text \<open>The reply to a forgotten password is the same for every account and for none.\<close>

lemma ForgotPassword_reply:
  assumes "Handler_ForgotPassword h q d = Some (Inr r, d')"
  shows "r = (if bind_strings [''username''] [] (cr_Body q) = None then Refused 400 ''username is required''
              else Reply 200 AuthDone, [])"
  using assms
  by (auto simp: Handler_ForgotPassword_def attempt_def ok_def fail_def simp del: attempt_simps attempt_bool
      split: option.splits sum.splits)

text \<open>Setting the first password with a wrong current password panics.\<close>

lemma FirstTime_wrong_password:
  assumes "bind_strings [''current_password'', ''new_password''] [''user_id'', ''username''] (cr_Body q) = Some r"
    and "r ''user_id'' \<noteq> []" "r ''username'' \<noteq> []"
    and "Authenticate (ah_authUseCase h) (r ''username'') (r ''current_password'') d = Some (Inr (refused msg), d')"
  shows "Handler_ChangePasswordFirstTime h env q d = Some (Inr (Panicked, []), d')"
  using assms by (simp add: Handler_ChangePasswordFirstTime_def first_time_account_def refused_def ok_def)

context account_db
begin

text \<open>Which token validates, and as whom.\<close>

lemma ValidateToken_outcome:
  assumes "distinct (map se_TokenHash (srows d))" "distinct (map us_ID (urows d))"
  shows "(\<exists>x v ts. token \<noteq> [] \<and> live_session (srows d) env token x \<and> v \<in> set (urows d) \<and> us_ID v = se_UserID x
      \<and> us_Active v
      \<and> ValidateToken (auth_over db sg newID now am pf) env token d = Some (Inr ((RefreshStatus v)\<lparr> us_Teams := ts \<rparr>), d))
    \<or> (\<nexists>x v. token \<noteq> [] \<and> live_session (srows d) env token x \<and> v \<in> set (urows d) \<and> us_ID v = se_UserID x \<and> us_Active v)
      \<and> (\<exists>e d'. ValidateToken (auth_over db sg newID now am pf) env token d = Some (Inl e, d'))"
proof -
  note parts = ValidateToken_def auth_over_def NewSessionRepository_def NewUserRepository_def text_fail_def fail_def ok_def
  obtain r where g: "Session_GetByTokenHash sg (HashSessionToken (he_sha256 env) token) d = Some (r, d)"
    "found (\<lambda>s. se_TokenHash s = HashSessionToken (he_sha256 env) token) (srows d) r"
    using GetByTokenHash by blast
  show ?thesis
  proof (cases "token = []")
    case True
    then show ?thesis by (simp add: parts)
  next
    case False
    show ?thesis
    proof (cases r)
      case (Inl e)
      with g False show ?thesis by (auto simp: parts found_def live_session_def)
    next
      case (Inr x)
      with g(2) have x: "x \<in> set (srows d)" "se_TokenHash x = HashSessionToken (he_sha256 env) token"
        by (auto simp: found_def)
      with assms(1) have only: "live_session (srows d) env token y \<Longrightarrow> y = x" for y
        by (auto simp: live_session_def distinct_map inj_on_def)
      show ?thesis
      proof (cases "live_session (srows d) env token x")
        case False
        then have "\<nexists>y v. token \<noteq> [] \<and> live_session (srows d) env token y \<and> v \<in> set (urows d) \<and> us_ID v = se_UserID y \<and> us_Active v"
          using only by blast
        moreover from False x have "se_Purpose x \<noteq> SessionPurposeAuth \<or> Session_IsExpired (he_now env) x"
          by (auto simp: live_session_def Session_IsExpired_def not_less)
        then have "\<exists>e d'. ValidateToken (auth_over db sg newID now am pf) env token d = Some (Inl e, d')"
          using g(1) Inr \<open>token \<noteq> []\<close> DeleteByID[of "se_ID x" d] by (auto simp: parts)
        ultimately show ?thesis by blast
      next
        case True
        then have valid: "se_Purpose x = SessionPurposeAuth" "\<not> Session_IsExpired (he_now env) x"
          by (auto simp: live_session_def Session_IsExpired_def)
        have one: "v' = v" if "v \<in> set (urows d)" "v' \<in> set (urows d)" "us_ID v' = us_ID v" for v v'
          using assms(2) that by (auto simp: distinct_map inj_on_def)
        from GetByID[of d "se_UserID x"] show ?thesis
        proof (elim disjE exE conjE)
          fix v ts assume v: "v \<in> set (urows d)" "us_ID v = se_UserID x"
            and f: "User_GetByID db (se_UserID x) d = Some (Inr ((RefreshStatus v)\<lparr> us_Teams := ts \<rparr>), d)"
          have run: "ValidateToken (auth_over db sg newID now am pf) env token d =
              (if us_Active v then Some (Inr ((RefreshStatus v)\<lparr> us_Teams := ts \<rparr>), d)
               else Some (Inl (ErrText ''account disabled''), d))"
            using g(1) Inr \<open>token \<noteq> []\<close> valid f by (simp add: parts RefreshStatus_def)
          show ?thesis
          proof (cases "us_Active v")
            case True
            with run v \<open>token \<noteq> []\<close> \<open>live_session (srows d) env token x\<close> show ?thesis
              by (intro disjI1 exI[of _ x] exI[of _ v] exI[of _ ts]) simp
          next
            case False
            then have "\<nexists>y v'. token \<noteq> [] \<and> live_session (srows d) env token y \<and> v' \<in> set (urows d)
                \<and> us_ID v' = se_UserID y \<and> us_Active v'"
              using only one[OF v(1)] v(2) by metis
            with run False show ?thesis by simp
          qed
        next
          assume "\<forall>u\<in>set (urows d). us_ID u \<noteq> se_UserID x" and f: "User_GetByID db (se_UserID x) d = Some (Inl ErrRecordNotFound, d)"
          then have "\<nexists>y v. token \<noteq> [] \<and> live_session (srows d) env token y \<and> v \<in> set (urows d) \<and> us_ID v = se_UserID y \<and> us_Active v"
            using only by blast
          moreover have "\<exists>e d'. ValidateToken (auth_over db sg newID now am pf) env token d = Some (Inl e, d')"
            using g(1) Inr \<open>token \<noteq> []\<close> valid f by (simp add: parts)
          ultimately show ?thesis by blast
        qed
      qed
    qed
  qed
qed

text \<open>A token that does not validate costs at most its own expired session.\<close>

lemma ValidateToken_sessions:
  assumes "ValidateToken (auth_over db sg newID now am pf) env token d = Some (Inl e, d')"
  shows "\<exists>P. srows d' = filter P (srows d)"
proof -
  note parts = ValidateToken_def auth_over_def NewSessionRepository_def NewUserRepository_def text_fail_def fail_def ok_def
  have same: "\<exists>P. srows d = filter P (srows d)" by (rule exI[of _ "\<lambda>_. True"]) simp
  obtain r where g: "Session_GetByTokenHash sg (HashSessionToken (he_sha256 env) token) d = Some (r, d)"
    using GetByTokenHash by blast
  show ?thesis
  proof (cases r)
    case (Inl err)
    with assms g same show ?thesis by (auto simp: parts split: if_splits)
  next
    case (Inr x)
    from DeleteByID[of "se_ID x" d] obtain d2 where
      d2: "Session_DeleteByID sg (se_ID x) d = Some (Inr (), d2)" "srows d2 = filter (\<lambda>s. se_ID s \<noteq> se_ID x) (srows d)" by blast
    then have "\<exists>P. srows d2 = filter P (srows d)" by blast
    with GetByID[of d "se_UserID x"] assms g Inr d2(1) same show ?thesis
      by (elim disjE exE conjE) (auto simp: parts split: if_splits)
  qed
qed

text \<open>A temporary token that validates is gone, whatever its page does next.\<close>

lemma PasswordChangeToken_used:
  assumes "ValidatePasswordChangeToken (auth_over db sg newID now am pf) env token d = Some (Inr account, d1)"
    and "distinct (map se_TokenHash (srows d))"
  shows "\<forall>x\<in>set (srows d1). se_TokenHash x \<noteq> HashSessionToken (he_sha256 env) token"
proof -
  note parts = ValidatePasswordChangeToken_def auth_over_def NewSessionRepository_def NewUserRepository_def
    text_fail_def fail_def ok_def
  obtain r where g: "Session_GetByTokenHash sg (HashSessionToken (he_sha256 env) token) d = Some (r, d)"
    "found (\<lambda>s. se_TokenHash s = HashSessionToken (he_sha256 env) token) (srows d) r"
    using GetByTokenHash by blast
  show ?thesis
  proof (cases r)
    case (Inl e)
    with assms(1) g(1) show ?thesis by (simp add: parts split: if_splits)
  next
    case (Inr x)
    with g(2) assms(2) have x: "y = x" if "y \<in> set (srows d)" "se_TokenHash y = HashSessionToken (he_sha256 env) token" for y
      using that by (auto simp: found_def distinct_map inj_on_def)
    from DeleteByID[of "se_ID x" d] obtain d2 where
      d2: "Session_DeleteByID sg (se_ID x) d = Some (Inr (), d2)" "srows d2 = filter (\<lambda>s. se_ID s \<noteq> se_ID x) (srows d)" by blast
    from GetByID[of d "se_UserID x"] assms(1) g(1) Inr d2(1) have "d1 = d2"
      by (elim disjE exE conjE) (auto simp: parts split: if_splits)
    with d2(2) x show ?thesis by auto
  qed
qed

lemma PasswordChangeToken_missing:
  assumes "\<forall>x\<in>set (srows d). se_TokenHash x \<noteq> HashSessionToken (he_sha256 env) token"
  shows "\<exists>msg. ValidatePasswordChangeToken (auth_over db sg newID now am pf) env token d = Some (Inl (ErrText msg), d)"
proof -
  obtain r where "Session_GetByTokenHash sg (HashSessionToken (he_sha256 env) token) d = Some (r, d)"
    "found (\<lambda>s. se_TokenHash s = HashSessionToken (he_sha256 env) token) (srows d) r"
    using GetByTokenHash by blast
  with assms show ?thesis
    by (cases r) (auto simp: ValidatePasswordChangeToken_def auth_over_def NewSessionRepository_def found_def
        text_fail_def fail_def)
qed

end

section \<open>properties\<close>

text \<open>The account a request is let in as.\<close>

definition admitted :: "user list \<Rightarrow> session list \<Rightarrow> auth_env \<Rightarrow> auth_request \<Rightarrow> user \<Rightarrow> bool" where
  "admitted us ss env q v \<longleftrightarrow>
     (\<exists>token x. cr_auth q = Some token \<and> token \<noteq> [] \<and> live_session ss env token x \<and> v \<in> set us \<and> us_ID v = se_UserID x
        \<and> us_Active v
        \<and> (us_MustChangePassword v \<longrightarrow> cr_Path q = ''/api/auth/change-password'' \<or> cr_Path q = ''/change-password''))"

text \<open>C8. The session middleware always answers. It lets a request through exactly when its cookie is the token of
  a session that has not expired and is no password-change session, of a user that exists and is active, and
  who need not change the password or is about to; then the context holds that user's row and nothing has
  changed. Every other request is stopped.\<close>

theorem session_gate:
  assumes "account_db db urows sg srows" "ah_authUseCase h = auth_over db sg newID now am pf"
    and "distinct (map se_TokenHash (srows d))" "distinct (map us_ID (urows d))"
  shows "\<exists>g d'. Handler_ValidateToken h env q d = Some (Inr g, d')
    \<and> (\<forall>u. g = AuthNext u \<longrightarrow> d' = d
          \<and> (\<exists>v ts. admitted (urows d) (srows d) env q v \<and> u = (RefreshStatus v)\<lparr> us_Teams := ts \<rparr>))
    \<and> ((\<exists>v. admitted (urows d) (srows d) env q v) \<longrightarrow> (\<exists>u. g = AuthNext u))"
proof (cases "cr_auth q")
  case None
  then show ?thesis by (simp add: Handler_ValidateToken_def unauthenticated_def ok_def admitted_def)
next
  case (Some token)
  show ?thesis
    using account_db.ValidateToken_outcome[OF assms(1,3,4), of token env newID now am pf]
  proof (elim disjE exE conjE)
    fix x v ts assume v: "token \<noteq> []" "live_session (srows d) env token x" "v \<in> set (urows d)" "us_ID v = se_UserID x" "us_Active v"
      and run: "ValidateToken (auth_over db sg newID now am pf) env token d = Some (Inr ((RefreshStatus v)\<lparr> us_Teams := ts \<rparr>), d)"
    show ?thesis
    proof (cases "us_MustChangePassword v \<and> cr_Path q \<noteq> ''/api/auth/change-password'' \<and> cr_Path q \<noteq> ''/change-password''")
      case True
      have "\<not> admitted (urows d) (srows d) env q v'" for v'
      proof
        assume a: "admitted (urows d) (srows d) env q v'"
        then obtain x' where "live_session (srows d) env token x'" "v' \<in> set (urows d)" "us_ID v' = se_UserID x'"
          unfolding admitted_def using Some by auto
        moreover from this(1) v(2) assms(3) have "x' = x" by (auto simp: live_session_def distinct_map inj_on_def)
        ultimately have "v' = v" using v(3,4) assms(4) by (auto simp: distinct_map inj_on_def)
        with a True show False by (simp add: admitted_def)
      qed
      then have "\<nexists>v. admitted (urows d) (srows d) env q v" by blast
      with Some v(1) run True assms(2) show ?thesis
        by (simp add: Handler_ValidateToken_def ok_def RefreshStatus_def)
    next
      case False
      with Some v have "admitted (urows d) (srows d) env q v" unfolding admitted_def by blast
      with Some v(1) run False assms(2) show ?thesis
        by (auto simp: Handler_ValidateToken_def ok_def RefreshStatus_def)
    qed
  next
    fix e d' assume none: "\<nexists>x v. token \<noteq> [] \<and> live_session (srows d) env token x \<and> v \<in> set (urows d)
        \<and> us_ID v = se_UserID x \<and> us_Active v"
      and run: "ValidateToken (auth_over db sg newID now am pf) env token d = Some (Inl e, d')"
    from none Some have "\<nexists>v. admitted (urows d) (srows d) env q v" by (auto simp: admitted_def)
    with Some run assms(2) show ?thesis
      by (cases "token = []") (simp_all add: Handler_ValidateToken_def unauthenticated_def ok_def)
  qed
qed

text \<open>C32. The page of the first password, reached with the cookie of the log-in, uses the token up: a later change that
  leaves user_id or username out and relies on that cookie is refused with 401, whatever the passwords. The frontend
  (web/src/api/auth.ts) posts both members, and then the token is not asked for; what never works once the page has
  been loaded is the fall-back to the cookie.\<close>

theorem password_page_uses_token:
  assumes "account_db db urows sg srows" "ah_authUseCase h = auth_over db sg newID now am pf"
    and "distinct (map se_TokenHash (srows d))"
    and "Handler_ValidatePasswordChangeAccess h env q d = Some (Inr (PageNext (Some account)), d1)"
    and "bind_strings [''current_password'', ''new_password''] [''user_id'', ''username''] (cr_Body q') = Some r"
    and "r ''user_id'' = [] \<or> r ''username'' = []" "cr_change q' = cr_change q"
  shows "Handler_ChangePasswordFirstTime h env q' d1 = Some (Inr (Refused 401 ''Invalid or expired session'', []), d1)"
proof -
  let ?U = "ah_authUseCase h"
  from assms(4)[unfolded Handler_ValidatePasswordChangeAccess_def] obtain d2 session where
    s: "(case cr_auth q of None \<Rightarrow> ok None
         | Some tok \<Rightarrow> attempt (ValidateToken ?U env tok) (\<lambda>_. ok None) (\<lambda>user. ok (Some (us_MustChangePassword user)))) d
        = Some (Inr session :: unit + bool option, d2)"
    and k: "(case session of
        Some must \<Rightarrow> if must then ok (PageNext None) else ok (PageRedirect ''/'')
      | None \<Rightarrow> (case cr_change q of
            None \<Rightarrow> ok (PageRedirect ''/login'')
          | Some tempToken \<Rightarrow> attempt (ValidatePasswordChangeToken ?U env tempToken)
                (\<lambda>_. ok (PageRedirect ''/login'')) (\<lambda>account. ok (PageNext (Some account))))) d2
        = Some (Inr (PageNext (Some account)) :: unit + page_access, d1)"
    by (rule attempt_Some) (simp add: fail_def, erule (1) that)
  have none: "session = None" using k by (cases session) (auto simp: ok_def split: if_splits)
  obtain token where t1: "cr_change q = Some token" using k none by (cases "cr_change q") (auto simp: ok_def)
  from k[unfolded none t1 option.case] have t2: "ValidatePasswordChangeToken ?U env token d2 = Some (Inr account, d1)"
    by (rule attempt_Some) (simp_all add: ok_def)
  from s none have d2: "d2 = d \<or> (\<exists>tok e. ValidateToken ?U env tok d = Some (Inl e, d2))"
    by (cases "cr_auth q") (simp add: ok_def, simp, erule attempt_Some, simp_all add: ok_def, blast)
  from d2 have "\<exists>P. srows d2 = filter P (srows d)"
  proof
    assume "d2 = d"
    then show ?thesis by (intro exI[of _ "\<lambda>_. True"]) simp
  next
    assume "\<exists>tok e. ValidateToken ?U env tok d = Some (Inl e, d2)"
    then obtain tok e where "ValidateToken (auth_over db sg newID now am pf) env tok d = Some (Inl e, d2)"
      unfolding assms(2) by blast
    then show ?thesis by (rule account_db.ValidateToken_sessions[OF assms(1)])
  qed
  with assms(3) have "distinct (map se_TokenHash (srows d2))" by (auto simp: distinct_map_filter)
  with t2[unfolded assms(2)] have "\<forall>x\<in>set (srows d1). se_TokenHash x \<noteq> HashSessionToken (he_sha256 env) token"
    by (rule account_db.PasswordChangeToken_used[OF assms(1)])
  from account_db.PasswordChangeToken_missing[OF assms(1) this]
  obtain msg where "ValidatePasswordChangeToken ?U env token d1 = Some (Inl (ErrText msg), d1)"
    unfolding assms(2) by blast
  with assms(5-7) t1 show ?thesis
    by (simp add: Handler_ChangePasswordFirstTime_def first_time_account_def ok_def fail_def)
qed

text \<open>The witnesses: Ann, logged in, and Bob, who has to set his first password.\<close>

definition auth_world :: mem where
  "auth_world = (empty_world\<lparr>
     w_users := [\<lparr> us_ID = ''u'', us_Name = ''Ann'', us_Username = ''ann'', us_Password = ''old1'',
         us_Role = UserRoleUser, us_MustChangePassword = False, us_Active = True, us_Status = StatusActive, us_Teams = [] \<rparr>,
       \<lparr> us_ID = ''v'', us_Name = ''Bob'', us_Username = ''bob'', us_Password = ''old2'',
         us_Role = UserRoleUser, us_MustChangePassword = True, us_Active = True, us_Status = StatusActive, us_Teams = [] \<rparr>],
     w_sessions := [\<lparr> se_ID = ''s'', se_TokenHash = EncodeToString ''x'', se_UserID = ''u'', se_Purpose = SessionPurposeAuth,
         se_ExpiresAt = 9 \<rparr>,
       \<lparr> se_ID = ''t'', se_TokenHash = EncodeToString ''y'', se_UserID = ''v'', se_Purpose = SessionPurposePasswordChange,
         se_ExpiresAt = 9 \<rparr>] \<rparr>, None)"

definition auth_example_env :: auth_env where
  "auth_example_env = \<lparr> he_now = 0, he_sha256 = (\<lambda>s. s), he_random = None, he_bcrypt = plain_bcrypt, he_index = (\<lambda>_. None) \<rparr>"

definition auth_example :: "mem auth_handler" where
  "auth_example = \<lparr> ah_authUseCase = auth_over wt_user_db wt_sessions ''n'' 0 NewAuthManager None,
     ah_auditUseCase = NewAuditUseCase (NewAuditLogRepository wt_audit 0 []) (NewTeamRepository (team_db_of (wt_server_db 0)
       \<lparr> de_now = 0, de_auditID = [], de_settingsID = [], de_request_created = (\<lambda>_. 0), de_team_created = (\<lambda>_. 0),
         de_app_created = (\<lambda>_. 0) \<rparr>)) \<rparr>"

definition auth_example_request :: "string option \<Rightarrow> string option \<Rightarrow> (string \<times> json) list \<Rightarrow> auth_request" where
  "auth_example_request token temp kvs = \<lparr> cr_Path = ''/api/teams'', cr_auth = token, cr_change = temp, cr_ClientIP = ''1'',
     cr_Body = \<lparr> bd_first = RawJSON (JObj kvs), bd_more = False \<rparr> \<rparr>"

lemma auth_example_distinct:
  "distinct (map se_TokenHash (w_sessions (fst auth_world)))" "distinct (map us_ID (w_users (fst auth_world)))"
  by code_simp+

theorem session_gate_witness:
  "\<exists>u. Handler_ValidateToken auth_example auth_example_env (auth_example_request (Some ''x'') None []) auth_world
    = Some (Inr (AuthNext u), auth_world) \<and> us_Username u = ''ann''"
proof -
  let ?q = "auth_example_request (Some ''x'') None []"
  let ?ann = "hd (w_users (fst auth_world))"
  have h: "ah_authUseCase auth_example = auth_over wt_user_db wt_sessions ''n'' 0 NewAuthManager None"
    by (simp add: auth_example_def)
  have x: "live_session (w_sessions (fst auth_world)) auth_example_env ''x'' (hd (w_sessions (fst auth_world)))"
    by (simp add: live_session_def auth_world_def auth_example_env_def HashSessionToken_def)
  have in_as: "admitted (w_users (fst auth_world)) (w_sessions (fst auth_world)) auth_example_env ?q v \<Longrightarrow> v = ?ann" for v
    by (auto simp: admitted_def auth_example_request_def auth_world_def live_session_def)
  have "admitted (w_users (fst auth_world)) (w_sessions (fst auth_world)) auth_example_env ?q ?ann"
    unfolding admitted_def using x by (intro exI[of _ "''x''"] exI[of _ "hd (w_sessions (fst auth_world))"])
      (simp add: auth_example_request_def auth_world_def)
  with session_gate[OF wt_account_db h auth_example_distinct, of auth_example_env ?q]
  obtain u v ts where u: "Handler_ValidateToken auth_example auth_example_env ?q auth_world = Some (Inr (AuthNext u), auth_world)"
    "admitted (w_users (fst auth_world)) (w_sessions (fst auth_world)) auth_example_env ?q v" "u = (RefreshStatus v)\<lparr> us_Teams := ts \<rparr>"
    by blast
  then have "us_Username u = ''ann''" using in_as[OF u(2)] by (simp add: RefreshStatus_def auth_world_def)
  with u(1) show ?thesis by blast
qed

theorem password_page_uses_token_witness:
  "\<exists>d1. Handler_ValidatePasswordChangeAccess auth_example auth_example_env (auth_example_request None (Some ''y'') []) auth_world
      = Some (Inr (PageNext (Some (''v'', ''bob''))), d1)
    \<and> Handler_ChangePasswordFirstTime auth_example auth_example_env (auth_example_request None (Some ''y'')
        [(''current_password'', JStr ''old2''), (''new_password'', JStr ''new2'')]) d1
      = Some (Inr (Refused 401 ''Invalid or expired session'', []), d1)"
proof -
  let ?q = "auth_example_request None (Some ''y'') []"
  let ?q' = "auth_example_request None (Some ''y'') [(''current_password'', JStr ''old2''), (''new_password'', JStr ''new2'')]"
  have h: "ah_authUseCase auth_example = auth_over wt_user_db wt_sessions ''n'' 0 NewAuthManager None"
    by (simp add: auth_example_def)
  have "map_option fst (Handler_ValidatePasswordChangeAccess auth_example auth_example_env ?q auth_world)
      = Some (Inr (PageNext (Some (''v'', ''bob''))))"
    by code_simp
  then obtain d1 where run: "Handler_ValidatePasswordChangeAccess auth_example auth_example_env ?q auth_world
      = Some (Inr (PageNext (Some (''v'', ''bob''))), d1)" by auto
  have "case bind_strings [''current_password'', ''new_password''] [''user_id'', ''username''] (cr_Body ?q') of
      Some r \<Rightarrow> r ''user_id'' = [] | None \<Rightarrow> False"
    by code_simp
  then obtain r where r: "bind_strings [''current_password'', ''new_password''] [''user_id'', ''username''] (cr_Body ?q') = Some r"
    "r ''user_id'' = []" by (cases "bind_strings [''current_password'', ''new_password''] [''user_id'', ''username''] (cr_Body ?q')") auto
  have "cr_change ?q' = cr_change ?q" by (simp add: auth_example_request_def)
  with password_page_uses_token[OF wt_account_db h auth_example_distinct(1) run r(1)] r(2) run show ?thesis by blast
qed

end
