(* ===== verification/UserHandler.thy ===== *)
theory UserHandler
  imports Http
begin

text \<open>
  The handlers of accounts: \<open>handler/user_management_handler.go\<close>, the older \<open>handler/user_handler.go\<close> (which no
  route uses) and \<open>handler/favorite_handler.go\<close>. The lemmas say whom a user may manage, what an administrator
  sees, and that changing the password of the profile leaves the other sessions alive.
\<close>

section \<open>user_management_handler.go\<close>

record 's user_management_handler =
  um_userUseCase :: "'s user_usecase"
  um_teamUseCase :: "'s team_usecase"
  um_approvalUseCase :: "'s approval_usecase"
  um_auditUseCase :: "'s audit_usecase"

text \<open>The data of the replies: a created account with its password and a warning, an updated one with its warnings.\<close>

datatype user_body =
    UserCreated user string string
  | UserList "user list"
  | UserData user
  | UserDone string
  | UserReset user string
  | UserUpdated user "string list"

definition invalid_role :: string where
  "invalid_role = ''Invalid role. Must be 'admin' or 'user'' @ [CHR 0x27]"

definition invalid_role_of_root :: string where
  "invalid_role_of_root = ''Invalid role. Must be 'admin', 'user', or 'root'' @ [CHR 0x27]"

definition shares_team :: "user \<Rightarrow> user \<Rightarrow> bool" where
  "shares_team u v \<longleftrightarrow> list_ex (\<lambda>t. te_ID t \<in> set (map te_ID (us_Teams u))) (us_Teams v)"

definition filterUsersVisibleToAdmin :: "user list \<Rightarrow> user \<Rightarrow> user list" where
  "filterUsersVisibleToAdmin users admin = filter (\<lambda>u. us_ID u = us_ID admin \<or> shares_team admin u) users"

definition canManageUser :: "user \<Rightarrow> user \<Rightarrow> bool" where
  "canManageUser currentUser target =
     (if IsRoot target \<or> us_ID target = us_ID currentUser then False
      else if IsRoot currentUser then True
      else if \<not> IsAdmin currentUser then False
      else shares_team currentUser target)"

text \<open>The body of a creation; \<open>is_approver\<close> is a boolean.\<close>

definition create_user_member ::
    "(string \<Rightarrow> string) \<times> bool \<Rightarrow> string \<Rightarrow> json \<Rightarrow> ((string \<Rightarrow> string) \<times> bool) option" where
  "create_user_member r k v =
     (if field_matches ''is_approver'' k then map_option (\<lambda>b. (fst r, b)) (decode_bool (snd r) v)
      else map_option (\<lambda>s. (s, snd r)) (strings_member [''name'', ''username'', ''role'', ''team_id''] (fst r) k v))"

definition create_user_request :: "body \<Rightarrow> ((string \<Rightarrow> string) \<times> bool) option" where
  "create_user_request b =
     (case bind_json create_user_member (\<lambda>_. [], False) b of
        None \<Rightarrow> None
      | Some r \<Rightarrow> if list_all (\<lambda>n. fst r n \<noteq> []) [''name'', ''username'', ''role'', ''team_id''] then Some r else None)"

definition role_of_text :: "string \<Rightarrow> user_role option" where
  "role_of_text s = (if s = ''admin'' then Some UserRoleAdmin else if s = ''user'' then Some UserRoleUser else None)"

text \<open>The membership of a new account, and its warning.\<close>

definition join_team ::
    "'s user_management_handler \<Rightarrow> (go_error \<Rightarrow> string) \<Rightarrow> string \<Rightarrow> string \<Rightarrow> bool \<Rightarrow> string \<Rightarrow> ('s, unit, string) io" where
  "join_team h lib teamID userID makeApprover currentID =
     attempt (AddUserToTeam (um_teamUseCase h) teamID userID)
       (\<lambda>e. ok (''User created, but failed to add to the team: '' @ err_text lib e)) (\<lambda>_.
     if makeApprover then
       attempt (SetTeamApprover (um_approvalUseCase h) teamID userID True currentID)
         (\<lambda>e. ok (''User created and added to the team, but failed to set as approver: '' @ err_text lib e))
         (\<lambda>_. ok [])
     else ok [])"

definition Manage_CreateUser ::
    "'s user_management_handler \<Rightarrow> auth_env \<Rightarrow> (go_error \<Rightarrow> string) \<Rightarrow> string \<Rightarrow> context_value \<Rightarrow> body
     \<Rightarrow> ('s, unit, user_body reply) io" where
  "Manage_CreateUser h env lib newID ctxUser b =
     (case create_user_request b of
        None \<Rightarrow> ok (Refused 400 ''Invalid request format'')
      | Some (r, isApprover) \<Rightarrow>
          with_user ctxUser (\<lambda>currentUser.
          if r ''role'' = ''root'' then ok (Refused 400 ''Cannot create additional root users'')
          else
            (case role_of_text (r ''role'') of
               None \<Rightarrow> ok (Refused 400 invalid_role)
             | Some userRole \<Rightarrow>
                 attempt (GetTeamByID (um_teamUseCase h) (r ''team_id'')) (\<lambda>_. ok (Refused 400 ''Team not found'')) (\<lambda>team.
                 if \<not> IsRoot currentUser \<and> \<not> IsMemberOfTeam currentUser (r ''team_id'')
                 then ok (Refused 403 ''Admins can only create users in teams they belong to'')
                 else
                   let makeApprover = isApprover \<and> IsRoot currentUser \<and> userRole = UserRoleAdmin in
                   (case GenerateRandomPassword (he_index env) of
                      None \<Rightarrow> ok (Refused 500 ''Failed to generate password'')
                    | Some randomPassword \<Rightarrow>
                        (case SetPassword (he_bcrypt env) randomPassword
                            \<lparr> us_ID = newID, us_Name = r ''name'', us_Username = r ''username'', us_Password = [],
                              us_Role = userRole, us_MustChangePassword = True, us_Active = True,
                              us_Status = StatusDisabled, us_Teams = [] \<rparr> of
                           Inl err \<Rightarrow> ok (Refused 500 ''Failed to set password'')
                         | Inr user \<Rightarrow>
                             (case User_Validate user of
                                Some err \<Rightarrow> ok (Refused 400 (err_text lib (ErrUser err)))
                              | None \<Rightarrow>
                                  attempt (CreateUser (um_userUseCase h) user)
                                    (\<lambda>e. ok (Refused (case e of ErrApp a \<Rightarrow> if ae_Code a = ErrCodeAlreadyExists then 409 else 500
                                                             | _ \<Rightarrow> 500)
                                                (''Failed to create user: '' @ err_text lib e))) (\<lambda>_.
                                  let user = RefreshStatus user in
                                  attempt (join_team h lib (r ''team_id'') (us_ID user) makeApprover (us_ID currentUser))
                                    fail (\<lambda>warning.
                                  attempt (Record (um_auditUseCase h) AuditEventUserCreated
                                      (''Created user '' @ bold (us_Name user) @ '' (@'' @ us_Username user @ '')'')
                                      (te_Name team @ '' team'') (Some (r ''team_id'')) (Some currentUser)) fail (\<lambda>_.
                                  ok (Reply 201 (UserCreated user randomPassword warning))))))))))))"

definition ListUsers ::
    "'s user_management_handler \<Rightarrow> (go_error \<Rightarrow> string) \<Rightarrow> context_value \<Rightarrow> ('s, unit, user_body reply) io" where
  "ListUsers h lib ctxUser =
     attempt (GetAllUsers (um_userUseCase h)) (\<lambda>e. ok (Refused 500 (''Failed to retrieve users: '' @ err_text lib e))) (\<lambda>users.
     with_user ctxUser (\<lambda>currentUser.
     ok (Reply 200 (UserList (if \<not> IsRoot currentUser then filterUsersVisibleToAdmin users currentUser else users)))))"

definition Manage_GetUser :: "'s user_management_handler \<Rightarrow> string \<Rightarrow> ('s, unit, user_body reply) io" where
  "Manage_GetUser h userID =
     (if userID = [] then ok (Refused 400 ''User ID is required'')
      else attempt (GetUserByID (um_userUseCase h) userID) (\<lambda>_. ok (Refused 404 ''User not found''))
             (\<lambda>user. ok (Reply 200 (UserData user))))"

definition Manage_DeleteUser ::
    "'s user_management_handler \<Rightarrow> (go_error \<Rightarrow> string) \<Rightarrow> context_value \<Rightarrow> string \<Rightarrow> ('s, unit, user_body reply) io" where
  "Manage_DeleteUser h lib ctxUser userID =
     (if userID = [] then ok (Refused 400 ''User ID is required'')
      else
        attempt (GetUserByID (um_userUseCase h) userID) (\<lambda>_. ok (Refused 404 ''User not found'')) (\<lambda>userToDelete.
        if IsRoot userToDelete then ok (Refused 403 ''Cannot delete root user'')
        else
          with_user ctxUser (\<lambda>currentUser.
          if us_ID currentUser = userID then ok (Refused 403 ''Cannot delete your own user account'')
          else
            attempt (DeleteUser (um_userUseCase h) userID)
              (\<lambda>e. ok (Refused 500 (''Failed to delete user: '' @ err_text lib e))) (\<lambda>_.
            attempt (Record (um_auditUseCase h) AuditEventUserDeleted (''Deleted user '' @ bold (us_Name userToDelete))
                (''@'' @ us_Username userToDelete)
                (case us_Teams userToDelete of [] \<Rightarrow> None | t # _ \<Rightarrow> Some (te_ID t)) (Some currentUser)) fail (\<lambda>_.
            ok (Reply 200 (UserDone ''User deleted successfully'')))))))"

text \<open>The checks that \<open>ResetUserPassword\<close> and \<open>SetUserStatus\<close> share.\<close>

definition managed ::
    "'s user_management_handler \<Rightarrow> context_value \<Rightarrow> string \<Rightarrow> (user \<Rightarrow> user \<Rightarrow> ('s, unit, user_body reply) io)
     \<Rightarrow> ('s, unit, user_body reply) io" where
  "managed h ctxUser userID k =
     attempt (GetUserByID (um_userUseCase h) userID) (\<lambda>_. ok (Refused 404 ''User not found'')) (\<lambda>user.
     with_user ctxUser (\<lambda>currentUser.
     if \<not> canManageUser currentUser user then ok (Refused 403 ''You cannot manage this user'') else k currentUser user))"

definition ResetUserPassword ::
    "'s user_management_handler \<Rightarrow> auth_env \<Rightarrow> (go_error \<Rightarrow> string) \<Rightarrow> context_value \<Rightarrow> string
     \<Rightarrow> ('s, unit, user_body reply) io" where
  "ResetUserPassword h env lib ctxUser userID =
     (if userID = [] then ok (Refused 400 ''User ID is required'')
      else
        managed h ctxUser userID (\<lambda>currentUser user.
        case GenerateRandomPassword (he_index env) of
          None \<Rightarrow> ok (Refused 500 ''Failed to generate password'')
        | Some randomPassword \<Rightarrow>
            (case SetPassword (he_bcrypt env) randomPassword user of
               Inl err \<Rightarrow> ok (Refused 500 ''Failed to set password'')
             | Inr user \<Rightarrow>
                 let user = user\<lparr> us_MustChangePassword := True \<rparr> in
                 attempt (UpdateUser (um_userUseCase h) user)
                   (\<lambda>e. ok (Refused 500 (''Failed to update user: '' @ err_text lib e))) (\<lambda>_.
                 attempt (attempt (InvalidateSessions (um_userUseCase h) userID) (\<lambda>_. ok ()) ok) fail (\<lambda>_.
                 let user = RefreshStatus user in
                 attempt (RecordForUser (um_auditUseCase h) AuditEventUserPasswordReset
                     (''Reset password for '' @ bold (us_Name user)) (''@'' @ us_Username user) (us_ID user) (Some currentUser))
                   fail (\<lambda>_. ok (Reply 200 (UserReset user randomPassword))))))))"

definition SetUserStatus ::
    "'s user_management_handler \<Rightarrow> (go_error \<Rightarrow> string) \<Rightarrow> context_value \<Rightarrow> string \<Rightarrow> body
     \<Rightarrow> ('s, unit, user_body reply) io" where
  "SetUserStatus h lib ctxUser userID b =
     (if userID = [] then ok (Refused 400 ''User ID is required'')
      else
        (case bind_json (bool_member ''active'') False b of
           None \<Rightarrow> ok (Refused 400 ''Invalid request format'')
         | Some active \<Rightarrow>
             managed h ctxUser userID (\<lambda>currentUser user.
             let user = user\<lparr> us_Active := active \<rparr> in
             attempt (UpdateUser (um_userUseCase h) user)
               (\<lambda>e. ok (Refused 500 (''Failed to update user: '' @ err_text lib e))) (\<lambda>_.
             let user = RefreshStatus user in
             attempt (RecordForUser (um_auditUseCase h) AuditEventUserStatusChanged
                 ((if active then ''Reactivated '' else ''Deactivated '') @ bold (us_Name user)) (''@'' @ us_Username user)
                 (us_ID user) (Some currentUser)) fail (\<lambda>_.
             ok (Reply 200 (UserData user)))))))"

text \<open>The password of the profile: the user of the context is written back.\<close>

definition Profile_ChangePassword ::
    "'s user_management_handler \<Rightarrow> bcrypt \<Rightarrow> (go_error \<Rightarrow> string) \<Rightarrow> context_value \<Rightarrow> body
     \<Rightarrow> ('s, unit, user_body reply) io" where
  "Profile_ChangePassword h bc lib ctxUser b =
     (case bind_strings [''current_password'', ''new_password''] [] b of
        None \<Rightarrow> ok (Refused 400 ''Invalid request format'')
      | Some r \<Rightarrow>
          with_user ctxUser (\<lambda>user.
          if \<not> CheckPassword bc user (r ''current_password'') then ok (Refused 401 ''Current password is incorrect'')
          else
            (case SetPassword bc (r ''new_password'') user of
               Inl err \<Rightarrow> ok (Refused 400 (err_text lib (ErrPassword err)))
             | Inr user \<Rightarrow>
                 attempt (UpdateUser (um_userUseCase h) (user\<lparr> us_MustChangePassword := False \<rparr>))
                   (\<lambda>e. ok (Refused 500 (''Failed to update password: '' @ err_text lib e)))
                   (\<lambda>_. ok (Reply 200 (UserDone ''Password changed successfully''))))))"

definition update_user_member ::
    "string \<times> string list \<times> string list \<Rightarrow> string \<Rightarrow> json \<Rightarrow> (string \<times> string list \<times> string list) option" where
  "update_user_member r k v =
     (case r of (role, add, remove) \<Rightarrow>
        if field_matches ''role'' k then map_option (\<lambda>s. (s, add, remove)) (decode_string role v)
        else if field_matches ''teams_to_add'' k then map_option (\<lambda>xs. (role, xs, remove)) (decode_strings add v)
        else if field_matches ''teams_to_remove'' k then map_option (\<lambda>xs. (role, add, xs)) (decode_strings remove v)
        else Some r)"

text \<open>The loops over the teams; an error becomes a warning, unless it says that the user is a member already.\<close>

fun remove_teams ::
    "'s user_management_handler \<Rightarrow> (go_error \<Rightarrow> string) \<Rightarrow> string \<Rightarrow> string list \<Rightarrow> ('s, unit, string list) io" where
  "remove_teams h lib userID [] = ok []"
| "remove_teams h lib userID (teamID # ts) =
     attempt (attempt (RemoveUserFromTeam (um_teamUseCase h) teamID userID)
         (\<lambda>e. ok [''Failed to remove from team '' @ teamID @ '': '' @ err_text lib e]) (\<lambda>_. ok [])) fail (\<lambda>w.
     attempt (remove_teams h lib userID ts) fail (\<lambda>ws. ok (w @ ws)))"

fun add_teams ::
    "'s user_management_handler \<Rightarrow> (go_error \<Rightarrow> string) \<Rightarrow> string \<Rightarrow> string list \<Rightarrow> ('s, unit, string list) io" where
  "add_teams h lib userID [] = ok []"
| "add_teams h lib userID (teamID # ts) =
     attempt (attempt (AddUserToTeam (um_teamUseCase h) teamID userID)
         (\<lambda>e. ok (if Contains (err_text lib e) ''already a member'' then []
                  else [''Failed to add to team '' @ teamID @ '': '' @ err_text lib e])) (\<lambda>_. ok [])) fail (\<lambda>w.
     attempt (add_teams h lib userID ts) fail (\<lambda>ws. ok (w @ ws)))"

definition Manage_UpdateUser ::
    "'s user_management_handler \<Rightarrow> (go_error \<Rightarrow> string) \<Rightarrow> context_value \<Rightarrow> string \<Rightarrow> body
     \<Rightarrow> ('s, unit, user_body reply) io" where
  "Manage_UpdateUser h lib ctxUser userID b =
     (if userID = [] then ok (Refused 400 ''User ID is required'')
      else
        (case bind_json update_user_member ([], [], []) b of
           None \<Rightarrow> ok (Refused 400 ''Invalid request format'')
         | Some (role, add, remove) \<Rightarrow>
             attempt (GetUserByID (um_userUseCase h) userID) (\<lambda>_. ok (Refused 404 ''User not found'')) (\<lambda>userToUpdate.
             with_user ctxUser (\<lambda>currentUser.
             if role = ''root'' \<and> (\<not> IsRoot currentUser \<or> us_ID currentUser \<noteq> userID)
             then ok (Refused 403 ''Only the root user can maintain root role for themselves'')
             else if role \<noteq> ''root'' \<and> IsRoot userToUpdate \<and> \<not> (IsRoot currentUser \<and> us_ID currentUser = userID)
             then ok (Refused 403 ''Cannot modify root user role'')
             else
               (case (if role = ''root'' then Some UserRoleRoot else role_of_text role) of
                  None \<Rightarrow> ok (Refused 400 invalid_role_of_root)
                | Some userRole \<Rightarrow>
                    let userToUpdate = userToUpdate\<lparr> us_Role := userRole \<rparr> in
                    attempt (UpdateUser (um_userUseCase h) userToUpdate)
                      (\<lambda>e. ok (Refused 500 (''Failed to update user: '' @ err_text lib e))) (\<lambda>_.
                    attempt (remove_teams h lib userID remove) fail (\<lambda>w1.
                    attempt (add_teams h lib userID add) fail (\<lambda>w2.
                    attempt (GetUserByID (um_userUseCase h) userID)
                      (\<lambda>_. ok (Reply 200 (UserUpdated userToUpdate (w1 @ w2))))
                      (\<lambda>updatedUser. ok (Reply 200 (UserUpdated updatedUser (w1 @ w2))))))))))))"

definition GetCurrentUser :: "context_value \<Rightarrow> ('s, unit, user_body reply) io" where
  "GetCurrentUser ctxUser = with_user ctxUser (\<lambda>user. ok (Reply 200 (UserData user)))"

section \<open>user_handler.go\<close>

definition Old_CreateUser ::
    "'s user_usecase \<Rightarrow> bcrypt \<Rightarrow> (go_error \<Rightarrow> string) \<Rightarrow> string \<Rightarrow> body \<Rightarrow> ('s, unit, user_body reply) io" where
  "Old_CreateUser uc bc lib newID b =
     (case bind_strings [''username'', ''password'', ''role''] [] b of
        None \<Rightarrow> ok (Refused 400 ''Invalid request format'')
      | Some r \<Rightarrow>
          (case role_of_text (r ''role'') of
             None \<Rightarrow> ok (Refused 400 invalid_role)
           | Some role \<Rightarrow>
               (case SetPassword bc (r ''password'')
                   \<lparr> us_ID = newID, us_Name = [], us_Username = r ''username'', us_Password = [], us_Role = role,
                     us_MustChangePassword = False, us_Active = False, us_Status = StatusDisabled, us_Teams = [] \<rparr> of
                  Inl err \<Rightarrow> ok (Refused 400 (err_text lib (ErrPassword err)))
                | Inr user \<Rightarrow>
                    attempt (CreateUser uc user) (\<lambda>e. ok (Refused 400 (err_text lib e)))
                      (\<lambda>_. ok (Reply 201 (UserData user))))))"

definition Old_GetAllUsers :: "'s user_usecase \<Rightarrow> ('s, unit, user_body reply) io" where
  "Old_GetAllUsers uc =
     attempt (GetAllUsers uc) (\<lambda>_. ok (Refused 500 ''Failed to retrieve users'')) (\<lambda>us. ok (Reply 200 (UserList us)))"

definition Old_GetUser :: "'s user_usecase \<Rightarrow> string \<Rightarrow> ('s, unit, user_body reply) io" where
  "Old_GetUser uc i =
     attempt (GetUserByID uc i) (\<lambda>_. ok (Refused 404 ''User not found'')) (\<lambda>u. ok (Reply 200 (UserData u)))"

definition Old_UpdateUser ::
    "'s user_usecase \<Rightarrow> (go_error \<Rightarrow> string) \<Rightarrow> string \<Rightarrow> body \<Rightarrow> ('s, unit, user_body reply) io" where
  "Old_UpdateUser uc lib i b =
     (case bind_strings [''username'', ''role''] [] b of
        None \<Rightarrow> ok (Refused 400 ''Invalid request format'')
      | Some r \<Rightarrow>
          (case role_of_text (r ''role'') of
             None \<Rightarrow> ok (Refused 400 invalid_role)
           | Some role \<Rightarrow>
               attempt (GetUserByID uc i) (\<lambda>_. ok (Refused 404 ''User not found'')) (\<lambda>user.
               let user = user\<lparr> us_Username := r ''username'', us_Role := role \<rparr> in
               attempt (UpdateUser uc user) (\<lambda>e. ok (Refused 400 (err_text lib e)))
                 (\<lambda>_. ok (Reply 200 (UserData user))))))"

definition Old_ChangePassword ::
    "'s user_usecase \<Rightarrow> bcrypt \<Rightarrow> (go_error \<Rightarrow> string) \<Rightarrow> string \<Rightarrow> body \<Rightarrow> ('s, unit, user_body reply) io" where
  "Old_ChangePassword uc bc lib i b =
     (case bind_strings [''old_password'', ''new_password''] [] b of
        None \<Rightarrow> ok (Refused 400 ''Invalid request format'')
      | Some r \<Rightarrow>
          attempt (ChangePassword uc bc i (r ''old_password'') (r ''new_password''))
            (\<lambda>e. ok (Refused 400 (err_text lib e))) (\<lambda>_. ok (Reply 200 (UserDone ''Password changed successfully''))))"

definition Old_DeleteUser :: "'s user_usecase \<Rightarrow> (go_error \<Rightarrow> string) \<Rightarrow> string \<Rightarrow> ('s, unit, user_body reply) io" where
  "Old_DeleteUser uc lib i =
     attempt (DeleteUser uc i) (\<lambda>e. ok (Refused 400 (err_text lib e)))
       (\<lambda>_. ok (Reply 200 (UserDone ''User deleted successfully'')))"

section \<open>favorite_handler.go\<close>

definition currentUserID :: "context_value \<Rightarrow> string" where
  "currentUserID ctxUser = (case ctxUser of ContextUser u \<Rightarrow> us_ID u | _ \<Rightarrow> [])"

definition writeFavoriteError :: "go_error \<Rightarrow> string list reply" where
  "writeFavoriteError e =
     (case e of ErrApp a \<Rightarrow> RefusedApp 400 a | _ \<Rightarrow> refused_app 500 ErrCodeInternal ''internal server error'')"

definition ListFavorites :: "'s favorite_repo \<Rightarrow> context_value \<Rightarrow> ('s, unit, string list reply) io" where
  "ListFavorites uc ctxUser =
     attempt (Favorites_List uc (currentUserID ctxUser))
       (\<lambda>_. ok (refused_app 500 ErrCodeInternal ''failed to load favorites'')) (\<lambda>ks. ok (Reply 200 ks))"

definition AddFavorite :: "'s favorite_repo \<Rightarrow> context_value \<Rightarrow> body \<Rightarrow> ('s, unit, string list reply) io" where
  "AddFavorite uc ctxUser b =
     (case bind_strings [''key''] [] b of
        None \<Rightarrow> ok (refused_app 400 ErrCodeValidation ''key is required'')
      | Some r \<Rightarrow> attempt (Favorites_Add uc (currentUserID ctxUser) (r ''key'')) (\<lambda>e. ok (writeFavoriteError e))
                    (\<lambda>_. ok (Reply 200 [])))"

definition RemoveFavorite :: "'s favorite_repo \<Rightarrow> context_value \<Rightarrow> body \<Rightarrow> ('s, unit, string list reply) io" where
  "RemoveFavorite uc ctxUser b =
     (case bind_strings [''key''] [] b of
        None \<Rightarrow> ok (refused_app 400 ErrCodeValidation ''key is required'')
      | Some r \<Rightarrow> attempt (Favorites_Remove uc (currentUserID ctxUser) (r ''key'')) (\<lambda>e. ok (writeFavoriteError e))
                    (\<lambda>_. ok (Reply 200 [])))"

section \<open>lemmas\<close>

text \<open>Nobody manages root or themselves, and an administrator only members of an own team.\<close>

lemma shares_team_iff:
  "shares_team u v \<longleftrightarrow> (\<exists>x\<in>set (us_Teams u). \<exists>y\<in>set (us_Teams v). te_ID x = te_ID y)"
proof -
  have "te_ID y \<in> te_ID ` set (us_Teams u) \<longleftrightarrow> (\<exists>x\<in>set (us_Teams u). te_ID x = te_ID y)" for y
    by (auto simp: image_iff eq_commute)
  then show ?thesis by (auto simp: shares_team_def list_ex_iff)
qed

lemma canManageUser_iff:
  "canManageUser u t \<longleftrightarrow> \<not> IsRoot t \<and> us_ID t \<noteq> us_ID u
     \<and> (IsRoot u \<or> IsAdmin u \<and> (\<exists>x\<in>set (us_Teams u). \<exists>y\<in>set (us_Teams t). te_ID x = te_ID y))"
  by (simp add: canManageUser_def shares_team_iff)

text \<open>Replies that are no refusal.\<close>

definition replied :: "'a reply \<Rightarrow> bool" where
  "replied r \<longleftrightarrow> (\<exists>c x. r = Reply c x)"

lemma replied_simps [simp]:
  "replied (Reply c x)" "\<not> replied (Refused c t)" "\<not> replied (RefusedApp c e)" "\<not> replied Panicked"
  by (simp_all add: replied_def)

context account_db
begin

lemma GetByUsername:
  assumes "distinct (map us_Username (urows d))" "v \<in> set (urows d)"
  shows "User_GetByUsername db (us_Username v) d = Some (Inr (RefreshStatus v), d)"
proof -
  from users.first[of False "\<lambda>u. us_Username u = us_Username v" d] obtain r where
    r: "g_First (uz_users db) False (\<lambda>u. us_Username u = us_Username v) d = Some (r, d)"
      "found (\<lambda>u. us_Username u = us_Username v) (urows d) r"
    by auto
  with assms have "r = Inr v" by (cases r) (auto simp: found_def distinct_map inj_on_def)
  with r(1) show ?thesis by (simp add: User_GetByUsername_def ok_def)
qed

text \<open>Writing a loaded account back, under its own name: the row is replaced, or nothing changes.\<close>

lemma UpdateUser_row:
  assumes "distinct (map us_ID (urows d))" "distinct (map us_Username (urows d))" "v \<in> set (urows d)"
    and "us_ID w = us_ID v" "us_Username w = us_Username v"
  shows "\<exists>r d'. UpdateUser (users_over db sg newID now) w d = Some (r, d') \<and> srows d' = srows d
    \<and> urows d' = (if r = Inr () then map (\<lambda>x. if us_ID x = us_ID w then user_columns w else x) (urows d) else urows d)"
proof -
  obtain t where t: "User_GetByID db (us_ID w) d = Some (Inr t, d)"
    using GetByID[of d "us_ID w"] assms(3,4) by auto
  have n: "User_GetByUsername db (us_Username w) d = Some (Inr (RefreshStatus v), d)"
    using GetByUsername[OF assms(2,3)] assms(5) by auto
  have other: "\<forall>x\<in>set (urows d). us_ID x \<noteq> us_ID w \<longrightarrow> \<not> (us_ID x = us_ID w \<or> us_Username x = us_Username w)"
    using assms by (auto simp: distinct_map dest: inj_onD)
  obtain d' where s: "g_Save (uz_users db) w d = Some (Inr (), d')"
    "urows d' = map (\<lambda>x. if True \<and> us_ID x = us_ID w then user_columns w else x) (urows d)"
    using users.save[of d w] other assms(3,4) by force
  have "srows d' = srows d" by (rule keepsD(2)[OF apart(1) s(1)])
  with t n s assms(4) show ?thesis
    by (cases "User_Validate w")
      (auto simp: UpdateUser_def users_over_def NewUserRepository_def User_Update_def RefreshStatus_def fail_def ok_def)
qed

text \<open>Past the checks, the account in hand is the loaded one and the caller may manage it.\<close>

lemma managed_cases:
  assumes "um_userUseCase h = users_over db sg newID now" "managed h ctxUser i k d = Some (Inr r, d')"
  obtains "\<not> replied r" "d' = d"
  | u v ts where "ctxUser = ContextUser u" "v \<in> set (urows d)" "us_ID v = i"
      "User_GetByID db i d = Some (Inr ((RefreshStatus v)\<lparr> us_Teams := ts \<rparr>), d)"
      "canManageUser u ((RefreshStatus v)\<lparr> us_Teams := ts \<rparr>)"
      "k u ((RefreshStatus v)\<lparr> us_Teams := ts \<rparr>) d = Some (Inr r, d')"
  using GetByID[of d i] assms
  by (cases ctxUser) (auto simp: managed_def GetUserByID_def users_over_def NewUserRepository_def with_user_def ok_def
      split: if_splits)

text \<open>The account is written back and the rest of the request keeps the accounts.\<close>

lemma update_then:
  assumes "distinct (map us_ID (urows d))" "distinct (map us_Username (urows d))" "v \<in> set (urows d)"
    and "us_ID w = us_ID v" "us_Username w = us_Username v"
    and "attempt (UpdateUser (users_over db sg newID now) w) (\<lambda>e. ok (h e)) k d = Some (Inr r, d')"
  obtains e where "r = h e" "urows d' = urows d" "srows d' = srows d"
  | d1 where "urows d1 = map (\<lambda>x. if us_ID x = us_ID w then user_columns w else x) (urows d)" "srows d1 = srows d"
      "k () d1 = Some (Inr r, d')"
proof -
  obtain q d1 where q: "UpdateUser (users_over db sg newID now) w d = Some (q, d1)" "srows d1 = srows d"
    "urows d1 = (if q = Inr () then map (\<lambda>x. if us_ID x = us_ID w then user_columns w else x) (urows d) else urows d)"
    using UpdateUser_row[OF assms(1-5), of newID now] by blast
  from assms(6) q show thesis
    by (cases q) (auto simp: ok_def intro: that)
qed

end

section \<open>properties\<close>

text \<open>What a request may change: the row of one account, and the sessions of that account.\<close>

definition only_account :: "string \<Rightarrow> user list \<Rightarrow> session list \<Rightarrow> user list \<Rightarrow> session list \<Rightarrow> bool" where
  "only_account i us ss us' ss' \<longleftrightarrow>
     filter (\<lambda>x. us_ID x \<noteq> i) us' = filter (\<lambda>x. us_ID x \<noteq> i) us \<and> map us_ID us' = map us_ID us
     \<and> filter (\<lambda>x. se_UserID x \<noteq> i) ss' = filter (\<lambda>x. se_UserID x \<noteq> i) ss"

text \<open>No token is let in as the account.\<close>

definition locked_out :: "'d user_db \<Rightarrow> (session, 'd) table \<Rightarrow> auth_env \<Rightarrow> string \<Rightarrow> 'd \<Rightarrow> bool" where
  "locked_out db sg env i d \<longleftrightarrow> (\<forall>newID now am pf token u d2.
     ValidateToken (auth_over db sg newID now am pf) env token d = Some (Inr u, d2) \<longrightarrow> us_ID u \<noteq> i)"

lemma record_then:
  assumes "attempt (RecordForUser uc ev txt target j actor :: ('d, unit, unit) io) fail (\<lambda>_. ok x) d = Some (r, d')"
    and "call_keeps (RecordForUser uc ev txt target j actor :: ('d, unit, unit) io) v"
  shows "v d' = v d"
  using assms(1) by (rule attempt_Some) (auto simp: fail_def ok_def dest: call_keepsD[OF assms(2)])

lemma only_account_row:
  "(\<And>x. us_ID x = i \<Longrightarrow> us_ID (f x) = i) \<Longrightarrow>
   only_account i us ss (map (\<lambda>x. if us_ID x = i then f x else x) us) (filter (\<lambda>s. se_UserID s \<noteq> i) ss)"
  "(\<And>x. us_ID x = i \<Longrightarrow> us_ID (f x) = i) \<Longrightarrow>
   only_account i us ss (map (\<lambda>x. if us_ID x = i then f x else x) us) ss"
proof -
  assume f: "\<And>x. us_ID x = i \<Longrightarrow> us_ID (f x) = i"
  have "filter (\<lambda>x. us_ID x \<noteq> i) (map (\<lambda>x. if us_ID x = i then f x else x) us) = filter (\<lambda>x. us_ID x \<noteq> i) us"
    by (induction us) (simp_all add: f)
  moreover have "map us_ID (map (\<lambda>x. if us_ID x = i then f x else x) us) = map us_ID us" by (simp add: f)
  ultimately show "only_account i us ss (map (\<lambda>x. if us_ID x = i then f x else x) us) (filter (\<lambda>s. se_UserID s \<noteq> i) ss)"
    "only_account i us ss (map (\<lambda>x. if us_ID x = i then f x else x) us) ss"
    by (simp_all add: only_account_def)
qed

context account_db
begin

lemma invalidate_then:
  assumes "attempt (attempt (InvalidateSessions (users_over db sg newID now) i) (\<lambda>_. ok ()) ok) fail k d = Some (Inr r, d')"
    and "call_keeps (k ()) (\<lambda>d. (urows d, srows d))"
  shows "urows d' = urows d \<and> srows d' = filter (\<lambda>s. se_UserID s \<noteq> i) (srows d)"
proof -
  obtain d2 where d2: "Session_DeleteByUserID sg i d = Some (Inr (), d2)" "urows d2 = urows d"
    "srows d2 = filter (\<lambda>s. se_UserID s \<noteq> i) (srows d)"
    using DeleteByUserID by blast
  with assms(1) have "k () d2 = Some (Inr r, d')"
    by (simp add: InvalidateSessions_def users_over_def NewSessionRepository_def ok_def)
  from call_keepsD[OF assms(2) this] d2 show ?thesis by simp
qed

text \<open>A reset: what it takes, the row it writes, and the sessions it ends.\<close>

lemma ResetUserPassword_effect:
  assumes uc: "um_userUseCase h = users_over db sg newID now"
    and audit: "\<And>txt target j actor. call_keeps (RecordForUser (um_auditUseCase h) AuditEventUserPasswordReset txt target j actor
        :: ('d, unit, unit) io) (\<lambda>d. (urows d, srows d))"
    and ids: "distinct (map us_ID (urows d))" "distinct (map us_Username (urows d))"
    and run: "ResetUserPassword h env lib ctxUser i d = Some (Inr r, d')"
  shows "\<not> replied r \<and> urows d' = urows d \<and> srows d' = srows d
    \<or> (\<exists>u v ts w. ctxUser = ContextUser u \<and> v \<in> set (urows d) \<and> us_ID v = i
        \<and> User_GetByID db i d = Some (Inr ((RefreshStatus v)\<lparr> us_Teams := ts \<rparr>), d)
        \<and> canManageUser u ((RefreshStatus v)\<lparr> us_Teams := ts \<rparr>)
        \<and> us_ID w = i \<and> us_MustChangePassword w
        \<and> urows d' = map (\<lambda>x. if us_ID x = i then w else x) (urows d)
        \<and> srows d' = filter (\<lambda>s. se_UserID s \<noteq> i) (srows d))"
proof (cases "i = []")
  case True
  with run show ?thesis by (auto simp: ResetUserPassword_def ok_def)
next
  case False
  from run[unfolded ResetUserPassword_def if_not_P[OF False]] show ?thesis
  proof (elim managed_cases[OF uc], goal_cases)
    case 1
    then show ?thesis by simp
  next
    case (2 u v ts)
    let ?t = "(RefreshStatus v)\<lparr> us_Teams := ts \<rparr>"
    note k = 2(6) and v = 2(1-5)
    show ?thesis
    proof (cases "\<exists>p h. GenerateRandomPassword (he_index env) = Some p
        \<and> SetPassword (he_bcrypt env) p ?t = Inr (?t\<lparr> us_Password := h \<rparr>)")
      case False
      with k show ?thesis by (auto simp: ok_def SetPassword_def split: option.splits if_splits)
    next
      case True
      then obtain p hash where p: "GenerateRandomPassword (he_index env) = Some p"
        "SetPassword (he_bcrypt env) p ?t = Inr (?t\<lparr> us_Password := hash \<rparr>)" by blast
      let ?w = "?t\<lparr> us_Password := hash, us_MustChangePassword := True \<rparr>"
      have w: "us_ID ?w = us_ID v" "us_Username ?w = us_Username v" by (simp_all add: RefreshStatus_def)
      show ?thesis
      proof (rule update_then[OF ids 2(2) w k[unfolded p option.case sum.case Let_def uc]], goal_cases)
        case 1
        then show ?thesis by simp
      next
        case (2 d1)
        have "urows d' = urows d1 \<and> srows d' = filter (\<lambda>s. se_UserID s \<noteq> i) (srows d1)"
          by (rule invalidate_then[OF 2(3)]) (intro keep_intros audit)
        with 2(1,2) v w show ?thesis
          by (intro disjI2 exI[of _ u] exI[of _ v] exI[of _ ts] exI[of _ "user_columns ?w"])
            (simp add: user_columns_def)
      qed
    qed
  qed
qed

lemma SetUserStatus_effect:
  assumes uc: "um_userUseCase h = users_over db sg newID now"
    and audit: "\<And>txt target j actor. call_keeps (RecordForUser (um_auditUseCase h) AuditEventUserStatusChanged txt target j actor
        :: ('d, unit, unit) io) (\<lambda>d. (urows d, srows d))"
    and ids: "distinct (map us_ID (urows d))" "distinct (map us_Username (urows d))"
    and run: "SetUserStatus h lib ctxUser i b d = Some (Inr r, d')"
  shows "\<not> replied r \<and> urows d' = urows d \<and> srows d' = srows d
    \<or> (\<exists>u v ts w a. ctxUser = ContextUser u \<and> v \<in> set (urows d) \<and> us_ID v = i
        \<and> User_GetByID db i d = Some (Inr ((RefreshStatus v)\<lparr> us_Teams := ts \<rparr>), d)
        \<and> canManageUser u ((RefreshStatus v)\<lparr> us_Teams := ts \<rparr>)
        \<and> bind_json (bool_member ''active'') False b = Some a \<and> us_ID w = i \<and> us_Active w = a
        \<and> urows d' = map (\<lambda>x. if us_ID x = i then w else x) (urows d) \<and> srows d' = srows d)"
proof (cases "i = [] \<or> bind_json (bool_member ''active'') False b = None")
  case True
  with run show ?thesis by (auto simp: SetUserStatus_def ok_def split: if_splits)
next
  case False
  then obtain a where a: "i \<noteq> []" "bind_json (bool_member ''active'') False b = Some a" by auto
  from run[unfolded SetUserStatus_def if_not_P[OF a(1)] a(2) option.case] show ?thesis
  proof (elim managed_cases[OF uc], goal_cases)
    case 1
    then show ?thesis by simp
  next
    case (2 u v ts)
    let ?w = "(RefreshStatus v)\<lparr> us_Teams := ts, us_Active := a \<rparr>"
    note v = 2(1-5)
    have w: "us_ID ?w = us_ID v" "us_Username ?w = us_Username v" by (simp_all add: RefreshStatus_def)
    show ?thesis
    proof (rule update_then[OF ids 2(2) w 2(6)[unfolded Let_def uc]], goal_cases)
      case 1
      then show ?thesis by simp
    next
      case (2 d1)
      have "(urows d', srows d') = (urows d1, srows d1)"
        by (rule record_then[OF 2(3) audit])
      with 2(1,2) v w a(2) show ?thesis
        by (intro disjI2 exI[of _ u] exI[of _ v] exI[of _ ts] exI[of _ "user_columns ?w"] exI[of _ a])
          (simp add: user_columns_def)
    qed
  qed
qed

text \<open>Without sessions, or inactive, it is locked out.\<close>

lemma locked_outI:
  assumes "(\<forall>s\<in>set (srows d). se_UserID s \<noteq> i) \<or> (\<forall>v\<in>set (urows d). us_ID v = i \<longrightarrow> \<not> us_Active v)"
  shows "locked_out db sg env i d"
  unfolding locked_out_def using ValidateToken_sound assms by (fastforce simp: live_session_def)

text \<open>The password of the profile: the user of the session is written back, the sessions stay.\<close>

lemma Profile_ChangePassword_effect:
  assumes uc: "um_userUseCase h = users_over db sg newID now"
    and ids: "distinct (map us_ID (urows d))" "distinct (map us_Username (urows d))"
    and v: "v \<in> set (urows d)"
    and run: "Profile_ChangePassword h bc lib (ContextUser ((RefreshStatus v)\<lparr> us_Teams := ts \<rparr>)) b d
      = Some (Inr (Reply c x), d')"
  obtains q hash where "bind_strings [''current_password'', ''new_password''] [] b = Some q"
    "bc_check bc (us_Password v) (q ''current_password'')" "bc_hash bc (q ''new_password'') = Some hash"
    "urows d' = map (\<lambda>y. if us_ID y = us_ID v
       then (RefreshStatus v)\<lparr> us_Password := hash, us_MustChangePassword := False, us_Teams := [] \<rparr> else y) (urows d)"
    "srows d' = srows d"
proof -
  let ?u = "(RefreshStatus v)\<lparr> us_Teams := ts \<rparr>"
  from run obtain q where q: "bind_strings [''current_password'', ''new_password''] [] b = Some q"
    by (cases "bind_strings [''current_password'', ''new_password''] [] b") (auto simp: Profile_ChangePassword_def ok_def)
  from run q have c: "bc_check bc (us_Password v) (q ''current_password'')"
    by (auto simp: Profile_ChangePassword_def with_user_def CheckPassword_def RefreshStatus_def ok_def split: if_splits)
  from run q c obtain hash where hash: "SetPassword bc (q ''new_password'') ?u = Inr (?u\<lparr> us_Password := hash \<rparr>)"
    "bc_hash bc (q ''new_password'') = Some hash"
    by (auto simp: Profile_ChangePassword_def with_user_def CheckPassword_def RefreshStatus_def SetPassword_def ok_def
        split: if_splits option.splits)
  let ?w = "?u\<lparr> us_Password := hash, us_MustChangePassword := False \<rparr>"
  have w: "us_ID ?w = us_ID v" "us_Username ?w = us_Username v" by (simp_all add: RefreshStatus_def)
  have chk: "CheckPassword bc ?u (q ''current_password'')" using c by (simp add: CheckPassword_def RefreshStatus_def)
  from run q chk hash(1) have "attempt (UpdateUser (users_over db sg newID now) ?w)
      (\<lambda>e. ok (Refused 500 (''Failed to update password: '' @ err_text lib e)))
      (\<lambda>_. ok (Reply 200 (UserDone ''Password changed successfully''))) d = Some (Inr (Reply c x) :: unit + user_body reply, d')"
    by (simp add: Profile_ChangePassword_def with_user_def uc)
  then show thesis
  proof (rule update_then[OF ids v w], goal_cases)
    case 1
    then show ?thesis by simp
  next
    case (2 d1)
    then have "d' = d1" by (simp add: ok_def)
    with 2(1,2) q c hash(2) w show ?thesis by (intro that[of q hash]) (simp_all add: user_columns_def)
  qed
qed

end

text \<open>C9. Resetting a password and (de)activating an account are reserved to those who manage it: when one of these
  requests does not come back refused, the caller is root, or an administrator who shares a team with the account,
  and the account is neither root's nor the caller's own. Then only the row of the account and its sessions have
  changed, and after a reset or a deactivation no token is let in as the account. A refused request changes neither
  accounts nor sessions. This is what routes.go:125-126 and canManageUser (user_management_handler.go:352) say;
  docs/rest-flow.md section 3, and the comment at routes.go:117, reserve both requests to root.\<close>

theorem managed_accounts_only:
  assumes "account_db db urows sg srows" "um_userUseCase h = users_over db sg newID now"
    and audit: "\<And>ev txt target j actor. call_keeps (RecordForUser (um_auditUseCase h) ev txt target j actor
        :: ('d, unit, unit) io) (\<lambda>d. (urows d, srows d))"
    and "distinct (map us_ID (urows d))" "distinct (map us_Username (urows d))"
    and request: "m = ResetUserPassword h env lib ctxUser i \<or> m = SetUserStatus h lib ctxUser i b"
    and run: "m d = Some (Inr r, d')"
  shows "\<not> replied r \<and> urows d' = urows d \<and> srows d' = srows d
    \<or> (\<exists>u t. ctxUser = ContextUser u \<and> User_GetByID db i d = Some (Inr t, d) \<and> us_ID t = i
        \<and> us_ID u \<noteq> i \<and> \<not> IsRoot t
        \<and> (IsRoot u \<or> IsAdmin u \<and> (\<exists>x\<in>set (us_Teams u). \<exists>y\<in>set (us_Teams t). te_ID x = te_ID y))
        \<and> only_account i (urows d) (srows d) (urows d') (srows d')
        \<and> (m = ResetUserPassword h env lib ctxUser i \<or> bind_json (bool_member ''active'') False b = Some False
             \<longrightarrow> locked_out db sg env' i d'))"
proof -
  note effects = account_db.ResetUserPassword_effect[OF assms(1,2) audit assms(4,5)]
    account_db.SetUserStatus_effect[OF assms(1,2) audit assms(4,5)]
  have id: "us_ID ((RefreshStatus v)\<lparr> us_Teams := ts \<rparr>) = us_ID v" for v ts by (simp add: RefreshStatus_def)
  show ?thesis
  proof (cases "m = ResetUserPassword h env lib ctxUser i")
    case True
    from effects(1)[OF run[unfolded True]] show ?thesis
    proof (elim disjE exE conjE, goal_cases)
      case 1
      then show ?thesis by simp
    next
      case (2 u v ts w)
      have "locked_out db sg env' i d'" by (rule account_db.locked_outI[OF assms(1)]) (use 2 in auto)
      moreover have "only_account i (urows d) (srows d) (urows d') (srows d')"
        unfolding 2 by (rule only_account_row(1)) (rule 2)
      ultimately show ?thesis
        using 2(1-5) apply -
        apply (rule disjI2, rule exI[of _ u], rule exI[of _ "(RefreshStatus v)\<lparr> us_Teams := ts \<rparr>"])
        by (auto simp: canManageUser_iff id)
    qed
  next
    case False
    with request have m: "m = SetUserStatus h lib ctxUser i b" by blast
    from effects(2)[OF run[unfolded m]] show ?thesis
    proof (elim disjE exE conjE, goal_cases)
      case 1
      then show ?thesis by simp
    next
      case (2 u v ts w a)
      have "locked_out db sg env' i d'" if "\<not> a"
        by (rule account_db.locked_outI[OF assms(1)]) (use 2 that in auto)
      moreover have "only_account i (urows d) (srows d) (urows d') (srows d')"
        unfolding 2 by (rule only_account_row(2)) (rule 2)
      ultimately show ?thesis
        using 2(1-6) False apply -
        apply (rule disjI2, rule exI[of _ u], rule exI[of _ "(RefreshStatus v)\<lparr> us_Teams := ts \<rparr>"])
        by (auto simp: canManageUser_iff id)
    qed
  qed
qed

text \<open>C31. Changing the password on the profile page keeps every session: a session token that let its bearer in as
  some user before the change still does, with the same session, although the password is a new one. (The use case
  \<open>ChangePassword\<close>, which no route reaches, ends them.)\<close>

theorem profile_password_keeps_sessions:
  assumes "account_db db urows sg srows" "um_userUseCase h = users_over db sg newID now"
    and "distinct (map us_ID (urows d))" "distinct (map us_Username (urows d))"
    and "distinct (map se_TokenHash (srows d))" "v \<in> set (urows d)"
    and run: "Profile_ChangePassword h bc lib (ContextUser ((RefreshStatus v)\<lparr> us_Teams := ts \<rparr>)) b d
      = Some (Inr (Reply c x), d')"
    and before: "ValidateToken (auth_over db sg newID' now' am pf) env token d = Some (Inr u, d)" "token \<noteq> []"
  shows "(\<exists>q hash. bind_strings [''current_password'', ''new_password''] [] b = Some q
      \<and> bc_check bc (us_Password v) (q ''current_password'') \<and> bc_hash bc (q ''new_password'') = Some hash
      \<and> (\<forall>y\<in>set (urows d'). us_ID y = us_ID v \<longrightarrow> us_Password y = hash))
    \<and> srows d' = srows d
    \<and> (\<exists>u'. ValidateToken (auth_over db sg newID' now' am pf) env token d' = Some (Inr u', d') \<and> us_ID u' = us_ID u)"
proof -
  from account_db.Profile_ChangePassword_effect[OF assms(1-4,6) run] obtain q hash where
    q: "bind_strings [''current_password'', ''new_password''] [] b = Some q"
      "bc_check bc (us_Password v) (q ''current_password'')" "bc_hash bc (q ''new_password'') = Some hash"
    and rows: "urows d' = map (\<lambda>y. if us_ID y = us_ID v
       then (RefreshStatus v)\<lparr> us_Password := hash, us_MustChangePassword := False, us_Teams := [] \<rparr> else y) (urows d)"
    and same: "srows d' = srows d" .
  from account_db.ValidateToken_sound[OF assms(1) before(1)] obtain s w where
    s: "live_session (srows d) env token s" "w \<in> set (urows d)" "us_ID w = se_UserID s" "us_Active w" "us_ID u = us_ID w"
    by blast
  have one: "y = z" if "y \<in> set (urows d)" "z \<in> set (urows d)" "us_ID y = us_ID z" for y z
    using assms(3) that by (auto simp: distinct_map inj_on_def)
  have "map us_ID (urows d') = map us_ID (urows d)" unfolding rows by (simp add: RefreshStatus_def)
  then have "us_ID w \<in> us_ID ` set (urows d')" using s(2) by (metis imageI list.set_map)
  then have there: "\<exists>y\<in>set (urows d'). us_ID y = se_UserID s" using s(3) by auto
  have active: "\<forall>y\<in>set (urows d'). us_ID y = se_UserID s \<longrightarrow> us_Active y"
    using one[OF _ s(2)] s(3,4) assms(6) unfolding rows by (auto simp: RefreshStatus_def)
  from account_db.ValidateToken_complete[OF assms(1) before(2), of d' env s newID' now' am pf] s(1,3,5) there active
    assms(5) same
  have "\<exists>u'. ValidateToken (auth_over db sg newID' now' am pf) env token d' = Some (Inr u', d') \<and> us_ID u' = us_ID u"
    by simp
  with q rows same show ?thesis by auto
qed

text \<open>The witnesses: root, and Bob with a session.\<close>

lemma RecordForUser_keeps:
  assumes "\<And>a. call_keeps (lr_Create (ag_repo uc) a) v" "\<And>j. call_keeps (ag_GetTeamsByUserID uc j) v"
  shows "call_keeps (RecordForUser uc ev txt target i actor) v"
  unfolding RecordForUser_def Record_def audit_record_def firstTeamIDFor_def Let_def
  by (intro keep_intros assms)

lemma RecordForUser_total:
  assumes "\<And>a d. lr_Create (ag_repo uc) a d \<noteq> None" "\<And>d. ag_GetTeamsByUserID uc j d \<noteq> None"
  shows "\<exists>d'. RecordForUser uc ev txt target j actor d = Some (Inr (), d')"
proof -
  obtain t d1 where t: "ag_GetTeamsByUserID uc j d = Some (t, d1)" using assms(2)[of d] by auto
  have rec: "\<exists>d'. Record uc ev txt target teamID actor d1 = Some (Inr (), d')" for teamID
  proof (cases actor)
    case None
    then show ?thesis by (simp add: Record_def audit_record_def ok_def)
  next
    case (Some u)
    let ?e = "(NewAuditLog ev txt target teamID (us_ID u) (us_Name u))\<lparr> al_ApplicationID := None, al_Before := None, al_After := None \<rparr>"
    obtain r d2 where "lr_Create (ag_repo uc) ?e d1 = Some (r, d2)" using assms(1)[of ?e d1] by auto
    with Some show ?thesis by (cases r) (simp_all add: Record_def audit_record_def Let_def ok_def)
  qed
  with t show ?thesis by (cases t) (simp_all add: RecordForUser_def firstTeamIDFor_def ok_def)
qed

definition users_world :: mem where
  "users_world = (empty_world\<lparr>
     w_users := [\<lparr> us_ID = ''r'', us_Name = ''Root'', us_Username = ''root'', us_Password = ''old1'',
         us_Role = UserRoleRoot, us_MustChangePassword = False, us_Active = True, us_Status = StatusActive, us_Teams = [] \<rparr>,
       \<lparr> us_ID = ''v'', us_Name = ''Bob'', us_Username = ''bob'', us_Password = ''old2'',
         us_Role = UserRoleUser, us_MustChangePassword = False, us_Active = True, us_Status = StatusActive, us_Teams = [] \<rparr>],
     w_sessions := [\<lparr> se_ID = ''s'', se_TokenHash = EncodeToString ''x'', se_UserID = ''v'', se_Purpose = SessionPurposeAuth,
         se_ExpiresAt = 9 \<rparr>] \<rparr>, None)"

definition users_env :: db_env where
  "users_env = \<lparr> de_now = 0, de_auditID = ''l'', de_settingsID = [], de_request_created = (\<lambda>_. 0), de_team_created = (\<lambda>_. 0),
     de_app_created = (\<lambda>_. 0) \<rparr>"

definition users_example :: "mem user_management_handler" where
  "users_example = \<lparr> um_userUseCase = users_over wt_user_db wt_sessions ''n'' 0,
     um_teamUseCase = ax_teamUseCase (NewApprovalUseCase (wt_server_db 0) users_env),
     um_approvalUseCase = NewApprovalUseCase (wt_server_db 0) users_env,
     um_auditUseCase = NewAuditUseCase (NewAuditLogRepository wt_audit 0 ''l'') (NewTeamRepository (team_db_of (wt_server_db 0) users_env)) \<rparr>"

definition users_body :: "(string \<times> json) list \<Rightarrow> body" where
  "users_body kvs = \<lparr> bd_first = RawJSON (JObj kvs), bd_more = False \<rparr>"

definition users_auth :: auth_env where
  "users_auth = \<lparr> he_now = 0, he_sha256 = (\<lambda>s. s), he_random = None, he_bcrypt = plain_bcrypt, he_index = (\<lambda>_. None) \<rparr>"

lemma users_example_over: "um_userUseCase users_example = users_over wt_user_db wt_sessions ''n'' 0"
  by (simp add: users_example_def)

lemma users_example_audit:
  "call_keeps (RecordForUser (um_auditUseCase users_example) ev txt target j actor :: (mem, unit, unit) io)
     (\<lambda>d. (w_users (fst d), w_sessions (fst d)))"
proof (rule RecordForUser_keeps)
  let ?v = "\<lambda>d :: mem. (w_users (fst d), w_sessions (fst d))"
  have "keeps wt_audit ?v" by (rule keeps_part[OF wt_keeps(8)]) simp
  with wt_audit.gorm_table_axioms have "quiet wt_audit ?v" by (rule quietI)
  then show "call_keeps (lr_Create (ag_repo (um_auditUseCase users_example)) a) ?v" for a
    by (simp add: users_example_def NewAuditUseCase_def NewAuditLogRepository_def audit_repo_keeps)
  have reads: "call_keeps (g_First wt_users u P) ?v" "call_keeps (g_Find wt_team_users u Q k) ?v"
    "call_keeps (g_Find wt_teams u R k') ?v" for u P Q R k k'
    by (auto simp: wt_defs mem_table_def call_keeps_def ok_def fail_def split: option.splits)
  show "call_keeps (ag_GetTeamsByUserID (um_auditUseCase users_example) j) ?v" for j
    by (simp add: users_example_def NewAuditUseCase_def NewTeamRepository_def Team_GetTeamsByUserID_def team_db_of_def
        wt_server_db_def)
      (intro keep_intros reads)
qed

lemma users_world_distinct:
  "distinct (map us_ID (w_users (fst users_world)))" "distinct (map us_Username (w_users (fst users_world)))"
  "distinct (map se_TokenHash (w_sessions (fst users_world)))"
  by code_simp+

text \<open>The steps of the two requests, evaluated.\<close>

definition users_bob :: user where
  "users_bob = RefreshStatus (w_users (fst users_world) ! 1)"

lemma users_over_fields:
  "ur_GetByID (nu_userRepo (users_over db sg n now)) = User_GetByID db"
  "ur_GetByUsername (nu_userRepo (users_over db sg n now)) = User_GetByUsername db"
  "ur_Update (nu_userRepo (users_over db sg n now)) = g_Save (uz_users db)"
  by (auto simp: users_over_def NewUserRepository_def User_Update_def)

lemma users_example_find:
  "User_GetByID wt_user_db ''v'' users_world = Some (Inr users_bob, users_world)"
  by (simp add: User_GetByID_def with_teams_def wt_user_db_def wt_users_def wt_teams_def wt_team_users_def mem_table_def
      users_world_def users_bob_def empty_world_def attempt_def ok_def fail_def RefreshStatus_def
      del: attempt_simps attempt_bool)

lemma users_example_update:
  assumes "us_ID w = ''v''" "us_Username w = ''bob''" "us_Name w = ''Bob''" "us_Role w = UserRoleUser"
  shows "\<exists>d'. UpdateUser (users_over wt_user_db wt_sessions ''n'' 0) w users_world = Some (Inr (), d')"
proof -
  have "User_Validate w = None" using assms by (simp add: User_Validate_def)
  moreover have "User_GetByUsername wt_user_db ''bob'' users_world = Some (Inr users_bob, users_world)"
    by (simp add: User_GetByUsername_def wt_user_db_def wt_users_def mem_table_def users_world_def users_bob_def attempt_def
        ok_def fail_def RefreshStatus_def del: attempt_simps attempt_bool)
  moreover have "us_ID users_bob = ''v''" by (simp add: users_bob_def users_world_def RefreshStatus_def)
  moreover have "\<exists>d'. g_Save wt_users w users_world = Some (Inr (), d')"
    using assms by (simp add: wt_users_def mem_table_def users_world_def ok_def)
  ultimately show ?thesis using assms(1,2) users_example_find
    by (auto simp: UpdateUser_def users_over_fields ok_def wt_user_db_def)
qed

lemma users_example_get:
  "GetUserByID (users_over wt_user_db wt_sessions ''n'' 0) ''v'' users_world = Some (Inr users_bob, users_world)"
  using users_example_find by (simp add: GetUserByID_def users_over_fields)

lemma users_example_record:
  "\<exists>d'. RecordForUser (um_auditUseCase users_example) ev txt target j actor d = Some (Inr () :: unit + unit, d')"
proof (rule RecordForUser_total)
  show "lr_Create (ag_repo (um_auditUseCase users_example)) a d \<noteq> None" for a d
    by (simp add: users_example_def NewAuditUseCase_def NewAuditLogRepository_def Audit_Create_def wt_audit_def
        mem_table_def ok_def fail_def attempt_def del: attempt_simps attempt_bool)
  show "ag_GetTeamsByUserID (um_auditUseCase users_example) j d \<noteq> None" for d
    by (simp add: users_example_def NewAuditUseCase_def NewTeamRepository_def Team_GetTeamsByUserID_def team_db_of_def
        wt_server_db_def wt_users_def wt_team_users_def wt_teams_def mem_table_def ok_def fail_def attempt_def
        del: attempt_simps attempt_bool split: option.split)
qed

theorem managed_accounts_only_witness:
  "\<exists>r d'. SetUserStatus users_example (\<lambda>_. []) (ContextUser (hd (w_users (fst users_world)))) ''v''
      (users_body [(''active'', JBool False)]) users_world = Some (Inr (Reply 200 r), d')
    \<and> locked_out wt_user_db wt_sessions users_auth ''v'' d'"
proof -
  let ?root = "hd (w_users (fst users_world))" and ?b = "users_body [(''active'', JBool False)]"
  let ?w = "users_bob\<lparr> us_Active := False \<rparr>"
  have b: "bind_json (bool_member ''active'') False ?b = Some False" by code_simp
  have "canManageUser ?root users_bob"
    by (simp add: canManageUser_iff users_world_def users_bob_def RefreshStatus_def IsRoot_def)
  moreover obtain d1 where "UpdateUser (users_over wt_user_db wt_sessions ''n'' 0) ?w users_world = Some (Inr (), d1)"
    using users_example_update[of ?w] by (auto simp: users_bob_def users_world_def RefreshStatus_def)
  ultimately obtain x d' where run: "SetUserStatus users_example (\<lambda>_. []) (ContextUser ?root) ''v'' ?b users_world
      = Some (Inr (Reply 200 x), d')"
    using b users_example_get users_example_record[of AuditEventUserStatusChanged
      "''Deactivated '' @ bold (us_Name (RefreshStatus ?w))" "''@'' @ us_Username (RefreshStatus ?w)"
      "us_ID (RefreshStatus ?w)" "Some ?root" d1]
    by (auto simp: SetUserStatus_def managed_def users_example_over with_user_def ok_def Let_def)
  from managed_accounts_only[OF wt_account_db users_example_over users_example_audit users_world_distinct(1,2) disjI2[OF refl] run] b
  have "locked_out wt_user_db wt_sessions users_auth ''v'' d'" by auto
  with run show ?thesis by blast
qed

theorem profile_password_keeps_sessions_witness:
  "\<exists>d' u. Profile_ChangePassword users_example plain_bcrypt (\<lambda>_. []) (ContextUser (users_bob\<lparr> us_Teams := [] \<rparr>))
        (users_body [(''current_password'', JStr ''old2''), (''new_password'', JStr ''new2'')]) users_world
        = Some (Inr (Reply 200 (UserDone ''Password changed successfully'')), d')
    \<and> ValidateToken (auth_over wt_user_db wt_sessions ''n'' 0 NewAuthManager None) users_auth ''x'' d' = Some (Inr u, d')
    \<and> us_ID u = ''v''"
proof -
  let ?b = "users_body [(''current_password'', JStr ''old2''), (''new_password'', JStr ''new2'')]"
  let ?h = "Profile_ChangePassword users_example plain_bcrypt (\<lambda>_. []) (ContextUser (users_bob\<lparr> us_Teams := [] \<rparr>)) ?b"
  let ?V = "ValidateToken (auth_over wt_user_db wt_sessions ''n'' 0 NewAuthManager None) users_auth ''x''"
  have "map_option (\<lambda>r. (r ''current_password'', r ''new_password'')) (bind_strings [''current_password'', ''new_password''] [] ?b)
      = Some (''old2'', ''new2'')" by code_simp
  then obtain q where q: "bind_strings [''current_password'', ''new_password''] [] ?b = Some q"
    "q ''current_password'' = ''old2''" "q ''new_password'' = ''new2''" by auto
  let ?w = "users_bob\<lparr> us_Teams := [], us_Password := ''new2'', us_MustChangePassword := False \<rparr>"
  have bob: "us_Password users_bob = ''old2''" by (simp add: users_bob_def users_world_def RefreshStatus_def)
  obtain d' where "UpdateUser (users_over wt_user_db wt_sessions ''n'' 0) ?w users_world = Some (Inr (), d')"
    using users_example_update[of ?w] by (auto simp: users_bob_def users_world_def RefreshStatus_def)
  with q bob have run: "?h users_world = Some (Inr (Reply 200 (UserDone ''Password changed successfully'')), d')"
    by (simp add: Profile_ChangePassword_def with_user_def CheckPassword_def SetPassword_def plain_bcrypt_def
        users_example_over ok_def)
  have "Session_GetByTokenHash wt_sessions (EncodeToString ''x'') users_world
      = Some (Inr (hd (w_sessions (fst users_world))), users_world)"
    by (simp add: Session_GetByTokenHash_def wt_sessions_def mem_table_def users_world_def ok_def)
  then have u: "?V users_world = Some (Inr users_bob, users_world)" using users_example_find
    by (simp add: ValidateToken_def auth_over_def NewSessionRepository_def NewUserRepository_def HashSessionToken_def
        users_auth_def Session_IsExpired_def ok_def)
      (simp add: users_world_def users_bob_def RefreshStatus_def ok_def)
  have bobs: "w_users (fst users_world) ! 1 \<in> set (w_users (fst users_world))" by (simp add: users_world_def)
  have "us_ID users_bob = ''v''" by (simp add: users_bob_def users_world_def RefreshStatus_def)
  with profile_password_keeps_sessions[OF wt_account_db users_example_over users_world_distinct bobs run[unfolded users_bob_def] u]
  obtain u' where "?V d' = Some (Inr u', d')" "us_ID u' = ''v''" by auto
  with run show ?thesis by (intro exI[of _ d'] exI[of _ u']) simp
qed

end
