(* ===== verification/TeamHandler.thy ===== *)
theory TeamHandler
  imports Http
begin

text \<open>
  The handlers of teams and applications: \<open>handler/team_handler.go\<close> and \<open>handler/application_handler.go\<close>. Whether
  a user may call them is up to the gates in front of the routes. The lemmas say which applications
  a user sees.
\<close>

section \<open>team_handler.go\<close>

record 's team_handler =
  mh_teamUseCase :: "'s team_usecase"
  mh_userUseCase :: "'s user_usecase"
  mh_auditUseCase :: "'s audit_usecase"

datatype team_body =
    TeamData team
  | TeamList "team list"
  | TeamCounts "team_counts list"
  | TeamMembers "user list"
  | TeamApps "application list"
  | TeamDone string

definition Handler_CreateTeam ::
    "'s team_handler \<Rightarrow> (go_error \<Rightarrow> string) \<Rightarrow> string \<Rightarrow> context_value \<Rightarrow> body \<Rightarrow> ('s, unit, team_body reply) io" where
  "Handler_CreateTeam h lib newID ctxUser b =
     (case bind_strings [''name''] [''description''] b of
        None \<Rightarrow> ok (Refused 400 ''Invalid request format'')
      | Some r \<Rightarrow>
          let team = \<lparr> te_ID = newID, te_Name = r ''name'', te_Description = r ''description'' \<rparr> in
          attempt (CreateTeam (mh_teamUseCase h) team) (\<lambda>e. ok (Refused 400 (err_text lib e))) (\<lambda>_.
          attempt (Record (mh_auditUseCase h) AuditEventTeamCreated (''Created team '' @ bold (te_Name team)) []
              (Some (te_ID team)) (auditActor ctxUser)) fail (\<lambda>_.
          ok (Reply 201 (TeamData team)))))"

definition Handler_GetAllTeams :: "'s team_handler \<Rightarrow> (go_error \<Rightarrow> string) \<Rightarrow> ('s, unit, team_body reply) io" where
  "Handler_GetAllTeams h lib =
     attempt (GetAllTeamsWithCounts (mh_teamUseCase h))
       (\<lambda>e. ok (Refused 500 (''Failed to retrieve teams: '' @ err_text lib e)))
       (\<lambda>teams. ok (Reply 200 (TeamCounts teams)))"

definition Handler_GetTeam :: "'s team_handler \<Rightarrow> string \<Rightarrow> ('s, unit, team_body reply) io" where
  "Handler_GetTeam h teamID =
     (if teamID = [] then ok (Refused 400 ''Team ID is required'')
      else attempt (GetTeamByID (mh_teamUseCase h) teamID) (\<lambda>_. ok (Refused 404 ''Team not found''))
             (\<lambda>team. ok (Reply 200 (TeamData team))))"

definition Handler_UpdateTeam ::
    "'s team_handler \<Rightarrow> (go_error \<Rightarrow> string) \<Rightarrow> string \<Rightarrow> body \<Rightarrow> ('s, unit, team_body reply) io" where
  "Handler_UpdateTeam h lib teamID b =
     (if teamID = [] then ok (Refused 400 ''Team ID is required'')
      else
        (case bind_strings [''name''] [''description''] b of
           None \<Rightarrow> ok (Refused 400 ''Invalid request format'')
         | Some r \<Rightarrow>
             attempt (GetTeamByID (mh_teamUseCase h) teamID) (\<lambda>_. ok (Refused 404 ''Team not found'')) (\<lambda>team.
             let team = team\<lparr> te_Name := r ''name'', te_Description := r ''description'' \<rparr> in
             attempt (UpdateTeam (mh_teamUseCase h) team) (\<lambda>e. ok (Refused 400 (err_text lib e)))
               (\<lambda>_. ok (Reply 200 (TeamData team))))))"

definition Handler_DeleteTeam ::
    "'s team_handler \<Rightarrow> (go_error \<Rightarrow> string) \<Rightarrow> string \<Rightarrow> ('s, unit, team_body reply) io" where
  "Handler_DeleteTeam h lib teamID =
     (if teamID = [] then ok (Refused 400 ''Team ID is required'')
      else attempt (DeleteTeam (mh_teamUseCase h) teamID)
             (\<lambda>e. ok (Refused 500 (''Failed to delete team: '' @ err_text lib e)))
             (\<lambda>_. ok (Reply 200 (TeamDone ''Team deleted successfully''))))"

text \<open>The look-ups for the audit line ignore their errors.\<close>

definition Handler_AddUserToTeam ::
    "'s team_handler \<Rightarrow> (go_error \<Rightarrow> string) \<Rightarrow> context_value \<Rightarrow> string \<Rightarrow> body \<Rightarrow> ('s, unit, team_body reply) io" where
  "Handler_AddUserToTeam h lib ctxUser teamID b =
     (if teamID = [] then ok (Refused 400 ''Team ID is required'')
      else
        (case bind_strings [''user_id''] [] b of
           None \<Rightarrow> ok (Refused 400 ''Invalid request format'')
         | Some r \<Rightarrow>
             attempt (AddUserToTeam (mh_teamUseCase h) teamID (r ''user_id''))
               (\<lambda>e. ok (Refused 400 (err_text lib e))) (\<lambda>_.
             attempt (attempt (GetUserByID (mh_userUseCase h) (r ''user_id'')) (\<lambda>_. ok ''Added member'')
                 (\<lambda>u. ok (''Added '' @ bold (us_Name u)))) fail (\<lambda>addedText.
             attempt (attempt (GetTeamByID (mh_teamUseCase h) teamID) (\<lambda>_. ok [])
                 (\<lambda>team. ok (te_Name team @ '' team''))) fail (\<lambda>target.
             attempt (Record (mh_auditUseCase h) AuditEventMemberAdded addedText target (Some teamID) (auditActor ctxUser))
               fail (\<lambda>_. ok (Reply 200 (TeamDone ''User added to team successfully''))))))))"

definition Handler_RemoveUserFromTeam ::
    "'s team_handler \<Rightarrow> (go_error \<Rightarrow> string) \<Rightarrow> context_value \<Rightarrow> string \<Rightarrow> string \<Rightarrow> ('s, unit, team_body reply) io" where
  "Handler_RemoveUserFromTeam h lib ctxUser teamID userID =
     (if teamID = [] \<or> userID = [] then ok (Refused 400 ''Team ID and User ID are required'')
      else
        attempt (RemoveUserFromTeam (mh_teamUseCase h) teamID userID) (\<lambda>e. ok (Refused 400 (err_text lib e))) (\<lambda>_.
        attempt (Record (mh_auditUseCase h) AuditEventMemberRemoved ''Removed member'' [] (Some teamID)
            (auditActor ctxUser)) fail (\<lambda>_.
        ok (Reply 200 (TeamDone ''User removed from team successfully'')))))"

definition Handler_GetTeamUsers ::
    "'s team_handler \<Rightarrow> (go_error \<Rightarrow> string) \<Rightarrow> string \<Rightarrow> ('s, unit, team_body reply) io" where
  "Handler_GetTeamUsers h lib teamID =
     (if teamID = [] then ok (Refused 400 ''Team ID is required'')
      else attempt (GetTeamUsers (mh_teamUseCase h) teamID)
             (\<lambda>e. ok (Refused 500 (''Failed to retrieve team users: '' @ err_text lib e)))
             (\<lambda>us. ok (Reply 200 (TeamMembers us))))"

definition permission_of_text :: "string \<Rightarrow> permission option" where
  "permission_of_text s =
     (if s = ''read'' then Some PermissionRead else if s = ''write'' then Some PermissionWrite
      else if s = ''admin'' then Some PermissionAdmin else None)"

definition bad_permission :: "team_body reply" where
  "bad_permission = Refused 400 (''Invalid permission. Must be 'read', 'write', or 'admin'' @ [CHR 0x27])"

definition Handler_AddApplicationToTeam ::
    "'s team_handler \<Rightarrow> (go_error \<Rightarrow> string) \<Rightarrow> string \<Rightarrow> body \<Rightarrow> ('s, unit, team_body reply) io" where
  "Handler_AddApplicationToTeam h lib teamID b =
     (if teamID = [] then ok (Refused 400 ''Team ID is required'')
      else
        (case bind_strings [''application_id'', ''permission''] [] b of
           None \<Rightarrow> ok (Refused 400 ''Invalid request format'')
         | Some r \<Rightarrow>
             (case permission_of_text (r ''permission'') of
                None \<Rightarrow> ok bad_permission
              | Some p \<Rightarrow>
                  attempt (AddApplicationToTeam (mh_teamUseCase h) teamID (r ''application_id'') p)
                    (\<lambda>e. ok (Refused 400 (err_text lib e)))
                    (\<lambda>_. ok (Reply 200 (TeamDone ''Application added to team successfully''))))))"

definition Handler_RemoveApplicationFromTeam ::
    "'s team_handler \<Rightarrow> (go_error \<Rightarrow> string) \<Rightarrow> string \<Rightarrow> string \<Rightarrow> ('s, unit, team_body reply) io" where
  "Handler_RemoveApplicationFromTeam h lib teamID applicationID =
     (if teamID = [] \<or> applicationID = [] then ok (Refused 400 ''Team ID and Application ID are required'')
      else attempt (RemoveApplicationFromTeam (mh_teamUseCase h) teamID applicationID)
             (\<lambda>e. ok (Refused 400 (err_text lib e)))
             (\<lambda>_. ok (Reply 200 (TeamDone ''Application removed from team successfully''))))"

definition Handler_UpdateApplicationPermission ::
    "'s team_handler \<Rightarrow> (go_error \<Rightarrow> string) \<Rightarrow> string \<Rightarrow> string \<Rightarrow> body \<Rightarrow> ('s, unit, team_body reply) io" where
  "Handler_UpdateApplicationPermission h lib teamID applicationID b =
     (if teamID = [] \<or> applicationID = [] then ok (Refused 400 ''Team ID and Application ID are required'')
      else
        (case bind_strings [''permission''] [] b of
           None \<Rightarrow> ok (Refused 400 ''Invalid request format'')
         | Some r \<Rightarrow>
             (case permission_of_text (r ''permission'') of
                None \<Rightarrow> ok bad_permission
              | Some p \<Rightarrow>
                  attempt (UpdateApplicationPermission (mh_teamUseCase h) teamID applicationID p)
                    (\<lambda>e. ok (Refused 400 (err_text lib e)))
                    (\<lambda>_. ok (Reply 200 (TeamDone ''Application permission updated successfully''))))))"

definition Handler_GetTeamApplications ::
    "'s team_handler \<Rightarrow> (go_error \<Rightarrow> string) \<Rightarrow> string \<Rightarrow> ('s, unit, team_body reply) io" where
  "Handler_GetTeamApplications h lib teamID =
     (if teamID = [] then ok (Refused 400 ''Team ID is required'')
      else attempt (GetTeamApplications (mh_teamUseCase h) teamID)
             (\<lambda>e. ok (Refused 500 (''Failed to retrieve team applications: '' @ err_text lib e)))
             (\<lambda>apps. ok (Reply 200 (TeamApps apps))))"

definition Handler_GetUserTeams ::
    "'s team_handler \<Rightarrow> (go_error \<Rightarrow> string) \<Rightarrow> context_value \<Rightarrow> ('s, unit, team_body reply) io" where
  "Handler_GetUserTeams h lib ctxUser =
     with_user ctxUser (\<lambda>user.
     attempt (GetUserTeams (mh_teamUseCase h) (us_ID user))
       (\<lambda>e. ok (Refused 500 (''Failed to retrieve user teams: '' @ err_text lib e)))
       (\<lambda>teams. ok (Reply 200 (TeamList teams))))"

section \<open>application_handler.go\<close>

record 's application_handler =
  ah_appUseCase :: "'s app_usecase"
  ah_teamUseCase :: "'s team_usecase"
  ah_auditUseCase :: "'s audit_usecase"

datatype app_body =
    AppData application
  | AppTeams application "team list"
  | AppCounts "app_counts list"
  | AppDone string

definition app_id_missing :: "app_body reply" where
  "app_id_missing = RefusedApp 400 (AddDetail ''id'' (Msg ''Application ID is required'') validation_failed)"

definition app_body_invalid :: "app_body reply" where
  "app_body_invalid = RefusedApp 400 (AddDetail ''request'' (Msg ''Invalid request body'') validation_failed)"

text \<open>The replies to the errors of the use case, all of them application errors.\<close>

definition app_error_reply :: "app_error \<Rightarrow> app_body reply" where
  "app_error_reply e = RefusedApp (if ae_Code e = ErrCodeNotFound then 404 else 400) e"

definition Handler_CreateApplication ::
    "'s application_handler \<Rightarrow> string \<Rightarrow> context_value \<Rightarrow> body \<Rightarrow> ('s, unit, app_body reply) io" where
  "Handler_CreateApplication h newID ctxUser b =
     (case bind_strings [''name'', ''team_id''] [] b of
        None \<Rightarrow> ok app_body_invalid
      | Some r \<Rightarrow>
          (case ToAppError (ValidateApplicationName (r ''name'')) of
             Some e \<Rightarrow> ok (RefusedApp 400 e)
           | None \<Rightarrow>
               attempt (CreateApplication (ah_appUseCase h) newID (r ''name''))
                 (\<lambda>e. ok (RefusedApp (if ae_Code e = ErrCodeAlreadyExists then 409 else 400) e)) (\<lambda>app.
               attempt (attempt (AddApplicationToTeam (ah_teamUseCase h) (r ''team_id'') (ap_ID app) PermissionAdmin)
                   (\<lambda>_. attempt (DeleteApplication (ah_appUseCase h) (ap_ID app))
                          (\<lambda>_. ok (Some (refused_app 500 ErrCodeInternal ''failed to roll back application creation'')))
                          (\<lambda>_. ok (Some (refused_app 400 ErrCodeValidation ''failed to associate application with team''))))
                   (\<lambda>_. ok None)) fail (\<lambda>refusal.
               (case refusal of
                  Some reply \<Rightarrow> ok reply
                | None \<Rightarrow>
                    attempt (attempt (GetTeamByID (ah_teamUseCase h) (r ''team_id'')) (\<lambda>_. ok [])
                        (\<lambda>team. ok (te_Name team @ '' team''))) fail (\<lambda>teamTarget.
                    attempt (RecordForApplication (ah_auditUseCase h) AuditEventApplicationCreated
                        (''Created application '' @ bold (ap_Name app)) teamTarget (ap_ID app) (auditActor ctxUser)) fail (\<lambda>_.
                    ok (Reply 201 (AppData app)))))))))"

definition Handler_GetApplication :: "'s application_handler \<Rightarrow> string \<Rightarrow> ('s, unit, app_body reply) io" where
  "Handler_GetApplication h i =
     (if i = [] then ok app_id_missing
      else
        (case ToAppError (ValidateApplicationID i) of
           Some e \<Rightarrow> ok (RefusedApp 400 e)
         | None \<Rightarrow>
             attempt (GetApplicationByID (ah_appUseCase h) i) (\<lambda>e. ok (app_error_reply e)) (\<lambda>app.
             attempt (attempt (GetApplicationTeams (ah_teamUseCase h) i) (\<lambda>_. ok []) ok) fail (\<lambda>teams.
             ok (Reply 200 (AppTeams app teams))))))"

text \<open>The set of identifiers over the teams of the user; a team that fails is skipped.\<close>

fun team_app_ids :: "'s team_usecase \<Rightarrow> team list \<Rightarrow> ('s, unit, string list) io" where
  "team_app_ids uc [] = ok []"
| "team_app_ids uc (team # teams) =
     attempt (attempt (GetTeamApplications uc (te_ID team)) (\<lambda>_. ok []) (\<lambda>apps. ok (map ap_ID apps))) fail (\<lambda>ids.
     attempt (team_app_ids uc teams) fail (\<lambda>more_ids. ok (remdups (ids @ more_ids))))"

definition Handler_GetAllApplications :: "'s application_handler \<Rightarrow> context_value \<Rightarrow> ('s, unit, app_body reply) io" where
  "Handler_GetAllApplications h ctxUser =
     (case ctxUser of
        ContextNil \<Rightarrow> ok (refused_app 401 ErrCodeValidation ''user not authenticated'')
      | ContextOther \<Rightarrow> ok (refused_app 500 ErrCodeInternal ''invalid user context'')
      | ContextUser user \<Rightarrow>
          if us_Role user = UserRoleRoot
          then attempt (GetAllApplicationsWithCounts (ah_appUseCase h)) (\<lambda>e. ok (RefusedApp 400 e))
                 (\<lambda>apps. ok (Reply 200 (AppCounts apps)))
          else
            attempt (GetUserTeams (ah_teamUseCase h) (us_ID user))
              (\<lambda>_. ok (refused_app 500 ErrCodeInternal ''error getting user teams'')) (\<lambda>userTeams.
            attempt (team_app_ids (ah_teamUseCase h) userTeams) fail (\<lambda>ids.
            attempt (GetApplicationsWithCountsByIDs (ah_appUseCase h) ids) (\<lambda>e. ok (RefusedApp 400 e))
              (\<lambda>apps. ok (Reply 200 (AppCounts apps))))))"

text \<open>A new team replaces the old ones: the links go first, then the new one is made.\<close>

definition move_to_team ::
    "'s application_handler \<Rightarrow> string \<Rightarrow> string \<Rightarrow> ('s, unit, app_body reply option) io" where
  "move_to_team h teamID appID =
     (if teamID = [] then ok None
      else
        attempt (RemoveApplicationFromAllTeams (ah_teamUseCase h) appID)
          (\<lambda>_. ok (Some (refused_app 400 ErrCodeDatabase ''failed to remove application from current teams''))) (\<lambda>_.
        attempt (AddApplicationToTeam (ah_teamUseCase h) teamID appID PermissionAdmin)
          (\<lambda>_. ok (Some (refused_app 400 ErrCodeValidation ''failed to associate application with new team'')))
          (\<lambda>_. ok None)))"

definition Handler_UpdateApplication ::
    "'s application_handler \<Rightarrow> context_value \<Rightarrow> string \<Rightarrow> body \<Rightarrow> ('s, unit, app_body reply) io" where
  "Handler_UpdateApplication h ctxUser i b =
     (if i = [] then ok app_id_missing
      else
        (case bind_strings [''name''] [''team_id''] b of
           None \<Rightarrow> ok app_body_invalid
         | Some r \<Rightarrow>
             attempt (UpdateApplication (ah_appUseCase h) i (r ''name'')) (\<lambda>e. ok (app_error_reply e)) (\<lambda>app.
             attempt (move_to_team h (r ''team_id'') (ap_ID app)) fail (\<lambda>refusal.
             (case refusal of
                Some reply \<Rightarrow> ok reply
              | None \<Rightarrow>
                  attempt (RecordForApplication (ah_auditUseCase h) AuditEventApplicationUpdated
                      (''Updated application '' @ bold (ap_Name app)) [] (ap_ID app) (auditActor ctxUser)) fail (\<lambda>_.
                  ok (Reply 200 (AppData app))))))))"

definition Handler_DeleteApplication ::
    "'s application_handler \<Rightarrow> context_value \<Rightarrow> string \<Rightarrow> ('s, unit, app_body reply) io" where
  "Handler_DeleteApplication h ctxUser i =
     (if i = [] then ok app_id_missing
      else
        attempt (attempt (GetApplicationByID (ah_appUseCase h) i) (\<lambda>_. ok i) (\<lambda>app. ok (ap_Name app))) fail (\<lambda>name.
        attempt (attempt (GetApplicationTeams (ah_teamUseCase h) i) (\<lambda>_. ok []) ok) fail (\<lambda>teams.
        attempt (DeleteApplication (ah_appUseCase h) i) (\<lambda>e. ok (app_error_reply e)) (\<lambda>_.
        attempt (Record (ah_auditUseCase h) AuditEventApplicationDeleted (''Deleted application '' @ bold name)
            (case teams of [] \<Rightarrow> [] | t # _ \<Rightarrow> te_Name t @ '' team'')
            (case teams of [] \<Rightarrow> None | t # _ \<Rightarrow> Some (te_ID t)) (auditActor ctxUser)) fail (\<lambda>_.
        ok (Reply 200 (AppDone ''application deleted successfully'')))))))"

text \<open>The handler over one database, as \<open>handler/init.go\<close> puts it together.\<close>

definition NewApplicationHandler :: "'d server_db \<Rightarrow> db_env \<Rightarrow> 'd application_handler" where
  "NewApplicationHandler db e =
     (let appRepo = NewApplicationRepository (app_db_of db e); teamRepo = NewTeamRepository (team_db_of db e) in
      \<lparr> ah_appUseCase = NewApplicationUseCase appRepo (toggle_repo_impl (sd_toggles db) (sd_users db)),
        ah_teamUseCase = \<lparr> te_teamRepo = teamRepo, te_userRepo = NewUserRepository (user_db_of db), te_appRepo = appRepo \<rparr>,
        ah_auditUseCase = NewAuditUseCase (NewAuditLogRepository (sd_audit db) (de_now e) (de_auditID e)) teamRepo \<rparr>)"

section \<open>what a user sees\<close>

text \<open>A table that answers reads from its rows.\<close>

definition reads :: "('r, 'd) table \<Rightarrow> ('d \<Rightarrow> 'r list) \<Rightarrow> bool" where
  "reads g rows \<longleftrightarrow>
     (\<forall>u P d. \<exists>res. g_First g u P d = Some (res, d) \<and> found P (rows d) res)
     \<and> (\<forall>u P order d. \<exists>xs. g_Find g u P order d = Some (Inr xs, d) \<and> set xs = {r \<in> set (rows d). P r})"

lemma gorm_reads:
  assumes "gorm_table g rows (\<lambda>_. True) columns defaults key clash erase"
  shows "reads g rows"
  unfolding reads_def
proof (intro conjI allI)
  fix u P d order
  show "\<exists>res. g_First g u P d = Some (res, d) \<and> found P (rows d) res"
    using gorm_table.first[OF assms, of u P d] by simp
  show "\<exists>xs. g_Find g u P order d = Some (Inr xs, d) \<and> set xs = {r \<in> set (rows d). P r}"
    using gorm_table.find_set[OF assms, of u P order d] by auto
qed

lemma reads_First:
  assumes "reads g rows" "\<exists>r\<in>set (rows d). P r"
  obtains r where "g_First g u P d = Some (Inr r, d)" "r \<in> set (rows d)" "P r"
proof -
  obtain res where "g_First g u P d = Some (res, d)" "found P (rows d) res"
    using assms(1) unfolding reads_def by blast
  with assms(2) that show thesis by (cases res) (auto simp: found_def)
qed

lemma reads_Find:
  assumes "reads g rows"
  obtains xs where "g_Find g u P order d = Some (Inr xs, d)" "set xs = {r \<in> set (rows d). P r}"
  using assms unfolding reads_def by blast

text \<open>What the listing needs of the database: the directory of users, teams and applications answers from its rows.\<close>

locale directory_db =
  fixes db :: "'d server_db" and us :: "'d \<Rightarrow> user list" and ts :: "'d \<Rightarrow> team list" and ps :: "'d \<Rightarrow> application list"
    and ms :: "'d \<Rightarrow> team_user list" and ls :: "'d \<Rightarrow> team_app list"
  assumes users: "reads (sd_users db) us" and teams: "reads (sd_teams db) ts" and apps: "reads (sd_apps db) ps"
    and members: "reads (sd_team_users db) ms" and links: "reads (sd_team_apps db) ls"
    and toggles: "\<exists>xs. g_Find (sd_toggles db) u P order d = Some (Inr xs, d)"
    and keys: "\<exists>xs. g_Find (sd_keys db) u Q order' d = Some (Inr xs, d)"
begin

lemma GetUserTeams_set:
  assumes "i \<noteq> []" "\<exists>u\<in>set (us d). us_ID u = i"
  shows "\<exists>xs. GetUserTeams (ah_teamUseCase (NewApplicationHandler db e)) i d = Some (Inr xs, d)
    \<and> set xs = {t \<in> set (ts d). \<exists>m\<in>set (ms d). mb_UserID m = i \<and> mb_TeamID m = te_ID t}"
proof -
  obtain u where u: "g_First (sd_users db) False (\<lambda>u. us_ID u = i) d = Some (Inr u, d)" "us_ID u = i"
    by (rule reads_First[OF users assms(2)])
  obtain m where m: "g_Find (sd_team_users db) False (\<lambda>m. mb_UserID m = i) unordered d = Some (Inr m, d)"
    "set m = {r \<in> set (ms d). mb_UserID r = i}"
    by (rule reads_Find[OF members])
  obtain t where t: "g_Find (sd_teams db) False (\<lambda>t. te_ID t \<in> set (map mb_TeamID m)) unordered d = Some (Inr t, d)"
    "set t = {r \<in> set (ts d). te_ID r \<in> set (map mb_TeamID m)}"
    by (rule reads_Find[OF teams])
  have "GetUserTeams (ah_teamUseCase (NewApplicationHandler db e)) i d = Some (Inr t, d)"
    using assms(1) u m(1) t(1)
    by (simp add: GetUserTeams_def NewApplicationHandler_def NewUserRepository_def NewTeamRepository_def User_GetByID_def
        with_teams_def user_db_of_def team_db_of_def Team_GetTeamsByUserID_def RefreshStatus_def Let_def ok_def)
  moreover have "set t = {t \<in> set (ts d). \<exists>m\<in>set (ms d). mb_UserID m = i \<and> mb_TeamID m = te_ID t}"
    using t(2) m(2) by force
  ultimately show ?thesis by blast
qed

lemma GetTeamApplications_set:
  assumes "i \<noteq> []" "\<exists>t\<in>set (ts d). te_ID t = i"
  shows "\<exists>xs. GetTeamApplications (ah_teamUseCase (NewApplicationHandler db e)) i d = Some (Inr xs, d)
    \<and> set xs = {a \<in> set (ps d). \<exists>l\<in>set (ls d). ta_TeamID l = i \<and> ta_AppID l = ap_ID a}"
proof -
  obtain t where t: "g_First (sd_teams db) False (\<lambda>t. te_ID t = i) d = Some (Inr t, d)" "te_ID t = i"
    by (rule reads_First[OF teams assms(2)])
  obtain l where l: "g_Find (sd_team_apps db) False (\<lambda>l. ta_TeamID l = i) unordered d = Some (Inr l, d)"
    "set l = {r \<in> set (ls d). ta_TeamID r = i}"
    by (rule reads_Find[OF links])
  obtain a where a: "g_Find (sd_apps db) False (\<lambda>a. ap_ID a \<in> set (map ta_AppID l)) unordered d = Some (Inr a, d)"
    "set a = {r \<in> set (ps d). ap_ID r \<in> set (map ta_AppID l)}"
    by (rule reads_Find[OF apps])
  have "GetTeamApplications (ah_teamUseCase (NewApplicationHandler db e)) i d = Some (Inr a, d)"
    using assms(1) t l(1) a(1)
    by (simp add: GetTeamApplications_def NewApplicationHandler_def NewTeamRepository_def team_db_of_def Team_GetByID_def
        Team_GetApplicationsByTeamID_def Let_def)
  moreover have "set a = {a \<in> set (ps d). \<exists>l\<in>set (ls d). ta_TeamID l = i \<and> ta_AppID l = ap_ID a}"
    using a(2) l(2) by force
  ultimately show ?thesis by blast
qed

lemma team_app_ids_set:
  assumes "\<forall>t\<in>set xs. t \<in> set (ts d) \<and> te_ID t \<noteq> []"
  shows "\<exists>ids. team_app_ids (ah_teamUseCase (NewApplicationHandler db e)) xs d = Some (Inr ids, d)
    \<and> set ids = ap_ID ` {a \<in> set (ps d). \<exists>t\<in>set xs. \<exists>l\<in>set (ls d). ta_TeamID l = te_ID t \<and> ta_AppID l = ap_ID a}"
  using assms
proof (induction xs)
  case Nil
  then show ?case by (simp add: ok_def)
next
  case (Cons t xs)
  then obtain ids where ids: "team_app_ids (ah_teamUseCase (NewApplicationHandler db e)) xs d = Some (Inr ids, d)"
    "set ids = ap_ID ` {a \<in> set (ps d). \<exists>t\<in>set xs. \<exists>l\<in>set (ls d). ta_TeamID l = te_ID t \<and> ta_AppID l = ap_ID a}"
    by auto
  from Cons.prems GetTeamApplications_set[of "te_ID t" d e] obtain as where
    as: "GetTeamApplications (ah_teamUseCase (NewApplicationHandler db e)) (te_ID t) d = Some (Inr as, d)"
    "set as = {a \<in> set (ps d). \<exists>l\<in>set (ls d). ta_TeamID l = te_ID t \<and> ta_AppID l = ap_ID a}" by auto
  have "set (remdups (map ap_ID as @ ids)) = ap_ID ` set as \<union> set ids" by simp
  also have "\<dots> = ap_ID ` {a \<in> set (ps d). \<exists>t\<in>set (t # xs). \<exists>l\<in>set (ls d). ta_TeamID l = te_ID t \<and> ta_AppID l = ap_ID a}"
    unfolding as(2) ids(2) image_Un[symmetric] by (rule arg_cong[where f = "image ap_ID"]) auto
  finally show ?case using as(1) ids(1) by (simp add: ok_def)
qed

lemma counts_set:
  "\<exists>cs. GetAllApplicationsWithCounts (ah_appUseCase (NewApplicationHandler db e)) d = Some (Inr cs, d)
    \<and> ac_ID ` set cs = ap_ID ` set (ps d)
    \<and> GetApplicationsWithCountsByIDs (ah_appUseCase (NewApplicationHandler db e)) ids d
      = Some (Inr (if ids = [] then [] else filter (\<lambda>c. ac_ID c \<in> set ids) cs), d)"
proof -
  obtain as where as: "g_Find (sd_apps db) True (\<lambda>_. True) (\<lambda>a. [- de_app_created e a]) d = Some (Inr as, d)"
    "set as = {r \<in> set (ps d). True}"
    by (rule reads_Find[OF apps])
  obtain tg where tg: "g_Find (sd_toggles db) True (\<lambda>_. True) unordered d = Some (Inr tg, d)" using toggles by blast
  obtain ks where ks: "g_Find (sd_keys db) True (\<lambda>_. True) unordered d = Some (Inr ks, d)" using keys by blast
  have run: "App_GetAllWithToggleCounts (app_db_of db e) d = Some (Inr (map (App_counted tg ks) as), d)"
    using as(1) tg ks by (simp add: App_GetAllWithToggleCounts_def app_db_of_def ok_def)
  have id: "ac_ID (App_counted tg ks a) = ap_ID a" for a by (simp add: App_counted_def Let_def)
  show ?thesis
    using run as(2) by (intro exI[of _ "map (App_counted tg ks) as"])
      (auto simp: GetAllApplicationsWithCounts_def GetApplicationsWithCountsByIDs_def NewApplicationHandler_def
        NewApplicationUseCase_def NewApplicationRepository_def Let_def ok_def id image_image)
qed

end

lemma wt_directory_db:
  "directory_db (wt_server_db now) (\<lambda>d. w_users (fst d)) (\<lambda>d. w_teams (fst d)) (\<lambda>d. w_apps (fst d))
     (\<lambda>d. w_team_users (fst d)) (\<lambda>d. w_team_apps (fst d))"
proof
  show "reads (sd_users (wt_server_db now)) (\<lambda>d. w_users (fst d))"
    unfolding wt_server_db_def server_db.simps by (rule gorm_reads[OF wt_users.gorm_table_axioms])
  show "reads (sd_teams (wt_server_db now)) (\<lambda>d. w_teams (fst d))"
    unfolding wt_server_db_def server_db.simps by (rule gorm_reads[OF wt_teams.gorm_table_axioms])
  show "reads (sd_apps (wt_server_db now)) (\<lambda>d. w_apps (fst d))"
    unfolding wt_server_db_def server_db.simps by (rule gorm_reads[OF wt_apps.gorm_table_axioms])
  show "reads (sd_team_users (wt_server_db now)) (\<lambda>d. w_team_users (fst d))"
    unfolding wt_server_db_def server_db.simps by (rule gorm_reads[OF wt_team_users.gorm_table_axioms])
  show "reads (sd_team_apps (wt_server_db now)) (\<lambda>d. w_team_apps (fst d))"
    unfolding wt_server_db_def server_db.simps by (rule gorm_reads[OF wt_team_apps.gorm_table_axioms])
  show "\<exists>xs. g_Find (sd_toggles (wt_server_db now)) u P order d = Some (Inr xs, d)" for u P order d
    by (simp add: wt_server_db_def wt_toggles_def mem_table_def ok_def)
  show "\<exists>xs. g_Find (sd_keys (wt_server_db now)) u Q order' d = Some (Inr xs, d)" for u Q order' d
    by (simp add: wt_server_db_def wt_keys_def mem_table_def ok_def)
qed

interpretation wt_directory: directory_db "wt_server_db now" "\<lambda>d. w_users (fst d)" "\<lambda>d. w_teams (fst d)"
  "\<lambda>d. w_apps (fst d)" "\<lambda>d. w_team_users (fst d)" "\<lambda>d. w_team_apps (fst d)" for now
  by (rule wt_directory_db)

section \<open>properties\<close>

text \<open>C12. The listing of applications always answers a logged-in user: root with every application, anybody else with
  exactly the applications that are linked to a team the user is a member of. Nothing changes.\<close>

theorem listed_applications:
  assumes "directory_db db us ts ps ms ls" "us_ID u \<noteq> []" "\<exists>v\<in>set (us d). us_ID v = us_ID u"
    and "\<forall>t\<in>set (ts d). te_ID t \<noteq> []"
  shows "\<exists>cs. Handler_GetAllApplications (NewApplicationHandler db e) (ContextUser u) d = Some (Inr (Reply 200 (AppCounts cs)), d)
    \<and> ac_ID ` set cs = ap_ID ` {a \<in> set (ps d). us_Role u = UserRoleRoot
        \<or> (\<exists>t\<in>set (ts d). (\<exists>m\<in>set (ms d). mb_UserID m = us_ID u \<and> mb_TeamID m = te_ID t)
              \<and> (\<exists>l\<in>set (ls d). ta_TeamID l = te_ID t \<and> ta_AppID l = ap_ID a))}"
proof (cases "us_Role u = UserRoleRoot")
  case True
  obtain cs where "GetAllApplicationsWithCounts (ah_appUseCase (NewApplicationHandler db e)) d = Some (Inr cs, d)"
    "ac_ID ` set cs = ap_ID ` set (ps d)"
    using directory_db.counts_set[OF assms(1), of e d] by blast
  with True show ?thesis by (simp add: Handler_GetAllApplications_def ok_def)
next
  case False
  obtain teams where t: "GetUserTeams (ah_teamUseCase (NewApplicationHandler db e)) (us_ID u) d = Some (Inr teams, d)"
    "set teams = {t \<in> set (ts d). \<exists>m\<in>set (ms d). mb_UserID m = us_ID u \<and> mb_TeamID m = te_ID t}"
    using directory_db.GetUserTeams_set[OF assms(1-3)] by blast
  have "\<forall>t\<in>set teams. t \<in> set (ts d) \<and> te_ID t \<noteq> []" using t(2) assms(4) by auto
  from directory_db.team_app_ids_set[OF assms(1) this] obtain ids where
    i: "team_app_ids (ah_teamUseCase (NewApplicationHandler db e)) teams d = Some (Inr ids, d)"
    "set ids = ap_ID ` {a \<in> set (ps d). \<exists>t\<in>set teams. \<exists>l\<in>set (ls d). ta_TeamID l = te_ID t \<and> ta_AppID l = ap_ID a}"
    by blast
  obtain cs where c: "ac_ID ` set cs = ap_ID ` set (ps d)"
    "GetApplicationsWithCountsByIDs (ah_appUseCase (NewApplicationHandler db e)) ids d
      = Some (Inr (if ids = [] then [] else filter (\<lambda>c. ac_ID c \<in> set ids) cs), d)"
    using directory_db.counts_set[OF assms(1), of e d ids] by blast
  let ?shown = "if ids = [] then [] else filter (\<lambda>c. ac_ID c \<in> set ids) cs"
  have "set ids \<subseteq> ac_ID ` set cs" using i(2) c(1) by auto
  then have "ac_ID ` set ?shown = set ids" by auto
  also have "\<dots> = ap_ID ` {a \<in> set (ps d). us_Role u = UserRoleRoot
        \<or> (\<exists>t\<in>set (ts d). (\<exists>m\<in>set (ms d). mb_UserID m = us_ID u \<and> mb_TeamID m = te_ID t)
              \<and> (\<exists>l\<in>set (ls d). ta_TeamID l = te_ID t \<and> ta_AppID l = ap_ID a))}"
    unfolding i(2) t(2) using False by (intro arg_cong[where f = "image ap_ID"]) auto
  finally show ?thesis
    using False t(1) i(1) c(2) by (intro exI[of _ ?shown]) (simp add: Handler_GetAllApplications_def ok_def)
qed

text \<open>The witness: Bob is in one of two teams, each with an application.\<close>

definition directory_world :: mem where
  "directory_world = (empty_world\<lparr>
     w_users := [\<lparr> us_ID = ''v'', us_Name = ''Bob'', us_Username = ''bob'', us_Password = [], us_Role = UserRoleUser,
       us_MustChangePassword = False, us_Active = True, us_Status = StatusActive, us_Teams = [] \<rparr>],
     w_teams := [\<lparr> te_ID = ''t'', te_Name = ''one'', te_Description = [] \<rparr>, \<lparr> te_ID = ''s'', te_Name = ''two'', te_Description = [] \<rparr>],
     w_apps := [\<lparr> ap_ID = ''a'', ap_Name = ''first'' \<rparr>, \<lparr> ap_ID = ''b'', ap_Name = ''second'' \<rparr>],
     w_team_users := [\<lparr> mb_TeamID = ''t'', mb_UserID = ''v'', mb_IsApprover = False \<rparr>],
     w_team_apps := [\<lparr> ta_TeamID = ''t'', ta_AppID = ''a'', ta_Permission = PermissionRead \<rparr>,
       \<lparr> ta_TeamID = ''s'', ta_AppID = ''b'', ta_Permission = PermissionRead \<rparr>] \<rparr>, None)"

theorem listed_applications_witness:
  "\<exists>cs. Handler_GetAllApplications (NewApplicationHandler (wt_server_db 0)
      \<lparr> de_now = 0, de_auditID = [], de_settingsID = [], de_request_created = (\<lambda>_. 0), de_team_created = (\<lambda>_. 0),
        de_app_created = (\<lambda>_. 0) \<rparr>) (ContextUser (hd (w_users (fst directory_world)))) directory_world
      = Some (Inr (Reply 200 (AppCounts cs)), directory_world)
    \<and> ac_ID ` set cs = {''a''}"
proof -
  let ?u = "hd (w_users (fst directory_world))"
  have "us_ID ?u \<noteq> []" "\<exists>v\<in>set (w_users (fst directory_world)). us_ID v = us_ID ?u"
    "\<forall>t\<in>set (w_teams (fst directory_world)). te_ID t \<noteq> []"
    by (simp_all add: directory_world_def)
  note seen = listed_applications[OF wt_directory_db[of 0] this]
  have "ap_ID ` {a \<in> set (w_apps (fst directory_world)). us_Role ?u = UserRoleRoot
        \<or> (\<exists>t\<in>set (w_teams (fst directory_world)).
              (\<exists>m\<in>set (w_team_users (fst directory_world)). mb_UserID m = us_ID ?u \<and> mb_TeamID m = te_ID t)
              \<and> (\<exists>l\<in>set (w_team_apps (fst directory_world)). ta_TeamID l = te_ID t \<and> ta_AppID l = ap_ID a))} = {''a''}"
    by (auto simp: directory_world_def image_iff intro!: exI[of _ "\<lparr> ap_ID = ''a'', ap_Name = ''first'' \<rparr>"])
  with seen show ?thesis by simp
qed

end
