(* ===== verification/ApprovalHandler.thy ===== *)
theory ApprovalHandler
  imports Http
begin

text \<open>
  \<open>handler/approval_handler.go\<close>: settings, requests, decisions, approvers, statistics and suggestions over HTTP.
  \<open>bad\<close> gives the text of the error of a body that does not bind, \<open>lib\<close> the library's error texts (\<open>Http\<close>). The
  lemmas lead every reply of success back to a call of the use case by the user of the session, and say which
  refusals come back as 403.
\<close>

section \<open>replies\<close>

datatype approval_body =
    ApSettings approval_settings
  | ApRequest approval_request
  | ApDetails request_details
  | ApList "request_details list"
  | ApApprovers "team_user_with_approver list"
  | ApTeamIDs "string list"
  | ApTeams "team list"
  | ApStats request_stats
  | ApRequired action_type bool
  | ApEnabled bool
  | ApDone string

definition not_authenticated :: "approval_body reply" where
  "not_authenticated = refused_app 401 ErrCodeValidation ''user not authenticated''"

definition with_session ::
    "context_value \<Rightarrow> (user \<Rightarrow> ('s, unit, approval_body reply) io) \<Rightarrow> ('s, unit, approval_body reply) io" where
  "with_session ctxUser k = (case getUserFromSession ctxUser of None \<Rightarrow> ok not_authenticated | Some u \<Rightarrow> k u)"

text \<open>\<open>userID == ""\<close> refuses, too, a user without identifier.\<close>

definition with_session_id ::
    "context_value \<Rightarrow> (string \<Rightarrow> ('s, unit, approval_body reply) io) \<Rightarrow> ('s, unit, approval_body reply) io" where
  "with_session_id ctxUser k =
     (if getUserIDFromSession ctxUser = [] then ok not_authenticated else k (getUserIDFromSession ctxUser))"

text \<open>The context read by hand, in two handlers.\<close>

definition with_context_user ::
    "context_value \<Rightarrow> (user \<Rightarrow> ('s, unit, approval_body reply) io) \<Rightarrow> ('s, unit, approval_body reply) io" where
  "with_context_user ctxUser k =
     (case ctxUser of
        ContextNil \<Rightarrow> ok not_authenticated
      | ContextOther \<Rightarrow> ok (refused_app 500 ErrCodeInternal ''invalid user context'')
      | ContextUser u \<Rightarrow> k u)"

definition refuse :: "int \<Rightarrow> err_code \<Rightarrow> (go_error \<Rightarrow> string) \<Rightarrow> go_error \<Rightarrow> ('s, unit, approval_body reply) io" where
  "refuse status code lib e = ok (refused_app status code (err_text lib e))"

text \<open>\<open>errors.Is(err, ErrApprovalAccessDenied)\<close>\<close>

definition is_denied :: "go_error \<Rightarrow> bool" where
  "is_denied e \<longleftrightarrow> cause e = ErrApprovalAccessDenied"

section \<open>settings\<close>

definition Handler_GetApprovalSettings ::
    "'s approval_usecase \<Rightarrow> (go_error \<Rightarrow> string) \<Rightarrow> ('s, unit, approval_body reply) io" where
  "Handler_GetApprovalSettings uc lib =
     attempt (GetApprovalSettings uc) (refuse 500 ErrCodeInternal lib) (\<lambda>s. ok (Reply 200 (ApSettings s)))"

fun decode_bool_ptr :: "bool option \<Rightarrow> json \<Rightarrow> bool option option" where
  "decode_bool_ptr old (JBool b) = Some (Some b)"
| "decode_bool_ptr old JNull = Some None"
| "decode_bool_ptr old _ = None"

fun decode_int_ptr :: "int option \<Rightarrow> json \<Rightarrow> int option option" where
  "decode_int_ptr old JNull = Some None"
| "decode_int_ptr old j = map_option Some (decode_int 0 j)"

text \<open>A pointer that is set already is decoded into.\<close>

fun decode_config_ptr :: "approval_config option \<Rightarrow> json \<Rightarrow> approval_config option option" where
  "decode_config_ptr old JNull = Some None"
| "decode_config_ptr old (JObj kvs) =
     map_option Some (decode_members config_member (case old of None \<Rightarrow> zero_config | Some c \<Rightarrow> c) kvs)"
| "decode_config_ptr old _ = None"

definition settings_member :: "settings_update \<Rightarrow> string \<Rightarrow> json \<Rightarrow> settings_update option" where
  "settings_member r k v =
     (if field_matches ''approval_enabled'' k
      then map_option (\<lambda>b. r\<lparr> up_ApprovalEnabled := b \<rparr>) (decode_bool_ptr (up_ApprovalEnabled r) v)
      else if field_matches ''required_actions'' k
      then map_option (\<lambda>c. r\<lparr> up_RequiredActions := c \<rparr>) (decode_config_ptr (up_RequiredActions r) v)
      else if field_matches ''default_expiration_days'' k
      then map_option (\<lambda>d. r\<lparr> up_DefaultExpirationDays := d \<rparr>) (decode_int_ptr (up_DefaultExpirationDays r) v)
      else Some r)"

definition settings_request :: "body \<Rightarrow> settings_update option" where
  "settings_request =
     bind_json settings_member \<lparr> up_ApprovalEnabled = None, up_RequiredActions = None, up_DefaultExpirationDays = None \<rparr>"

definition Handler_UpdateApprovalSettings ::
    "'s approval_usecase \<Rightarrow> (go_error \<Rightarrow> string) \<Rightarrow> (body \<Rightarrow> string) \<Rightarrow> context_value \<Rightarrow> body
     \<Rightarrow> ('s, unit, approval_body reply) io" where
  "Handler_UpdateApprovalSettings uc lib bad ctxUser b =
     with_session_id ctxUser (\<lambda>userID.
     case settings_request b of
       None \<Rightarrow> ok (refused_app 400 ErrCodeValidation (bad b))
     | Some req \<Rightarrow>
         attempt (UpdateApprovalSettings uc userID req)
           (\<lambda>e. if err_text lib e = ''only root users can modify approval settings''
                then refuse 403 ErrCodeValidation lib e else refuse 500 ErrCodeInternal lib e)
           (\<lambda>s. ok (Reply 200 (ApSettings s))))"

section \<open>requests\<close>

definition action_of_text :: "string \<Rightarrow> action_type" where
  "action_of_text s =
     (case map_of [(''toggle_create'', ToggleCreate), (''toggle_update'', ToggleUpdate), (''toggle_delete'', ToggleDelete),
         (''toggle_enable'', ToggleEnable), (''toggle_disable'', ToggleDisable), (''toggle_rule'', ToggleRule),
         (''application_create'', ApplicationCreate), (''application_update'', ApplicationUpdate),
         (''application_delete'', ApplicationDelete), (''secret_key_create'', SecretKeyCreate),
         (''secret_key_delete'', SecretKeyDelete)] s of
        None \<Rightarrow> OtherAction s
      | Some a \<Rightarrow> a)"

text \<open>A value of type \<open>interface{}\<close>; numbers go through \<open>float64\<close> (\<open>num\<close>).\<close>

fun interface_value :: "(json \<Rightarrow> json) \<Rightarrow> json \<Rightarrow> go_value" where
  "interface_value num (JObj kvs) = GoMap (map_members (map (\<lambda>(k, v). (k, remarshal num v)) kvs))"
| "interface_value num j = GoOther (remarshal num j)"

record filing =
  fi_texts :: "string \<Rightarrow> string"
  fi_ApplicationID :: "string option"
  fi_ToggleID :: "string option"
  fi_ActionData :: go_value

definition filing_member :: "(json \<Rightarrow> json) \<Rightarrow> filing \<Rightarrow> string \<Rightarrow> json \<Rightarrow> filing option" where
  "filing_member num r k v =
     (if field_matches ''application_id'' k
      then map_option (\<lambda>i. r\<lparr> fi_ApplicationID := i \<rparr>) (decode_string_ptr (fi_ApplicationID r) v)
      else if field_matches ''toggle_id'' k
      then map_option (\<lambda>i. r\<lparr> fi_ToggleID := i \<rparr>) (decode_string_ptr (fi_ToggleID r) v)
      else if field_matches ''action_data'' k then Some (r\<lparr> fi_ActionData := interface_value num v \<rparr>)
      else map_option (\<lambda>t. r\<lparr> fi_texts := t \<rparr>)
             (strings_member [''action_type'', ''description'', ''team_id''] (fi_texts r) k v))"

definition filing_request :: "(json \<Rightarrow> json) \<Rightarrow> body \<Rightarrow> filing option" where
  "filing_request num b =
     (case bind_json (filing_member num)
         \<lparr> fi_texts = (\<lambda>_. []), fi_ApplicationID = None, fi_ToggleID = None, fi_ActionData = GoOther JNull \<rparr> b of
        None \<Rightarrow> None
      | Some r \<Rightarrow> if list_all (\<lambda>n. fi_texts r n \<noteq> []) [''action_type'', ''description'', ''team_id''] then Some r else None)"

definition Handler_CreateApprovalRequest ::
    "'s approval_usecase \<Rightarrow> call_env \<Rightarrow> (json \<Rightarrow> json) \<Rightarrow> (go_error \<Rightarrow> string) \<Rightarrow> (body \<Rightarrow> string) \<Rightarrow> context_value \<Rightarrow> body
     \<Rightarrow> ('s, unit, approval_body reply) io" where
  "Handler_CreateApprovalRequest uc env num lib bad ctxUser b =
     with_session_id ctxUser (\<lambda>userID.
     case filing_request num b of
       None \<Rightarrow> ok (refused_app 400 ErrCodeValidation (bad b))
     | Some r \<Rightarrow>
         attempt (CreateApprovalRequest uc env (action_of_text (fi_texts r ''action_type'')) (fi_texts r ''description'')
             userID (fi_texts r ''team_id'') (fi_ApplicationID r) (fi_ToggleID r) (fi_ActionData r))
           (refuse 400 ErrCodeValidation lib) (\<lambda>request. ok (Reply 201 (ApRequest request))))"

definition with_request_id ::
    "string \<Rightarrow> ('s, unit, approval_body reply) io \<Rightarrow> ('s, unit, approval_body reply) io" where
  "with_request_id requestID k =
     (if requestID = [] then ok (refused_app 400 ErrCodeValidation ''request ID is required'') else k)"

definition with_team_id ::
    "string \<Rightarrow> ('s, unit, approval_body reply) io \<Rightarrow> ('s, unit, approval_body reply) io" where
  "with_team_id teamID k =
     (if teamID = [] then ok (refused_app 400 ErrCodeValidation ''team ID is required'') else k)"

definition Handler_GetApprovalRequest ::
    "'s approval_usecase \<Rightarrow> (go_error \<Rightarrow> string) \<Rightarrow> context_value \<Rightarrow> string \<Rightarrow> ('s, unit, approval_body reply) io" where
  "Handler_GetApprovalRequest uc lib ctxUser requestID =
     with_session ctxUser (\<lambda>user. with_request_id requestID (
     attempt (GetApprovalRequest uc requestID user) (refuse 404 ErrCodeNotFound lib)
       (\<lambda>request. ok (Reply 200 (ApDetails request)))))"

definition Handler_GetAllApprovalRequests ::
    "'s approval_usecase \<Rightarrow> (go_error \<Rightarrow> string) \<Rightarrow> context_value \<Rightarrow> ('s, unit, approval_body reply) io" where
  "Handler_GetAllApprovalRequests uc lib ctxUser =
     with_session ctxUser (\<lambda>user.
     attempt (GetAllApprovalRequests uc user) (refuse 500 ErrCodeInternal lib) (\<lambda>rs. ok (Reply 200 (ApList rs))))"

definition Handler_GetPendingApprovalRequests ::
    "'s approval_usecase \<Rightarrow> (go_error \<Rightarrow> string) \<Rightarrow> ('s, unit, approval_body reply) io" where
  "Handler_GetPendingApprovalRequests uc lib =
     attempt (GetPendingApprovalRequests uc) (refuse 500 ErrCodeInternal lib) (\<lambda>rs. ok (Reply 200 (ApList rs)))"

text \<open>\<open>ErrApprovalAccessDenied\<close> comes back as 403, any other error with the handler's status.\<close>

definition denied_or :: "int \<Rightarrow> err_code \<Rightarrow> (go_error \<Rightarrow> string) \<Rightarrow> go_error \<Rightarrow> ('s, unit, approval_body reply) io" where
  "denied_or status code lib e =
     (if is_denied e then refuse 403 ErrCodeValidation lib e else refuse status code lib e)"

definition Handler_GetApprovalRequestsByTeam ::
    "'s approval_usecase \<Rightarrow> (go_error \<Rightarrow> string) \<Rightarrow> context_value \<Rightarrow> string \<Rightarrow> ('s, unit, approval_body reply) io" where
  "Handler_GetApprovalRequestsByTeam uc lib ctxUser teamID =
     with_session ctxUser (\<lambda>user. with_team_id teamID (
     attempt (GetApprovalRequestsByTeam uc teamID user) (denied_or 500 ErrCodeInternal lib)
       (\<lambda>rs. ok (Reply 200 (ApList rs)))))"

definition Handler_GetMyApprovalRequests ::
    "'s approval_usecase \<Rightarrow> (go_error \<Rightarrow> string) \<Rightarrow> context_value \<Rightarrow> ('s, unit, approval_body reply) io" where
  "Handler_GetMyApprovalRequests uc lib ctxUser =
     with_session_id ctxUser (\<lambda>userID.
     attempt (GetMyApprovalRequests uc userID) (refuse 500 ErrCodeInternal lib) (\<lambda>rs. ok (Reply 200 (ApList rs))))"

definition Handler_GetApprovableRequests ::
    "'s approval_usecase \<Rightarrow> (go_error \<Rightarrow> string) \<Rightarrow> context_value \<Rightarrow> ('s, unit, approval_body reply) io" where
  "Handler_GetApprovableRequests uc lib ctxUser =
     with_context_user ctxUser (\<lambda>user.
     attempt (GetApprovableRequests uc (us_ID user)) (refuse 500 ErrCodeInternal lib)
       (\<lambda>rs. ok (Reply 200 (ApList rs))))"

section \<open>decisions\<close>

text \<open>The refusals of the use case that come back as 403 are told apart by their texts.\<close>

definition forbidden_if ::
    "string list \<Rightarrow> (go_error \<Rightarrow> string) \<Rightarrow> go_error \<Rightarrow> ('s, unit, approval_body reply) io" where
  "forbidden_if texts lib e =
     (if err_text lib e \<in> set texts then refuse 403 ErrCodeValidation lib e else refuse 400 ErrCodeValidation lib e)"

definition Handler_ApproveRequest ::
    "'s approval_usecase \<Rightarrow> call_env \<Rightarrow> (go_error \<Rightarrow> string) \<Rightarrow> context_value \<Rightarrow> string
     \<Rightarrow> ('s, unit, approval_body reply) io" where
  "Handler_ApproveRequest uc env lib ctxUser requestID =
     with_session ctxUser (\<lambda>user. with_request_id requestID (
     attempt (ApproveRequest uc env requestID user)
       (forbidden_if [''user cannot approve this request'', ''user is not an approver for this team''] lib)
       (\<lambda>_. ok (Reply 200 (ApDone ''request approved successfully'')))))"

definition Handler_RejectRequest ::
    "'s approval_usecase \<Rightarrow> call_env \<Rightarrow> (go_error \<Rightarrow> string) \<Rightarrow> (body \<Rightarrow> string) \<Rightarrow> context_value \<Rightarrow> string \<Rightarrow> body
     \<Rightarrow> ('s, unit, approval_body reply) io" where
  "Handler_RejectRequest uc env lib bad ctxUser requestID b =
     with_session ctxUser (\<lambda>user. with_request_id requestID (
     case bind_json (string_member ''reason'') [] b of
       None \<Rightarrow> ok (refused_app 400 ErrCodeValidation (bad b))
     | Some reason \<Rightarrow>
         attempt (RejectRequest uc env requestID user reason)
           (forbidden_if [''user cannot reject this request'', ''user is not an approver for this team''] lib)
           (\<lambda>_. ok (Reply 200 (ApDone ''request rejected successfully'')))))"

definition Handler_WithdrawRequest ::
    "'s approval_usecase \<Rightarrow> (go_error \<Rightarrow> string) \<Rightarrow> context_value \<Rightarrow> string \<Rightarrow> ('s, unit, approval_body reply) io" where
  "Handler_WithdrawRequest uc lib ctxUser requestID =
     with_session ctxUser (\<lambda>user. with_request_id requestID (
     attempt (WithdrawRequest uc requestID user)
       (forbidden_if [''only the requester can withdraw this request''] lib)
       (\<lambda>_. ok (Reply 200 (ApDone ''request withdrawn successfully'')))))"

definition Handler_ExecuteApprovedAction ::
    "'s approval_usecase \<Rightarrow> call_env \<Rightarrow> (go_error \<Rightarrow> string) \<Rightarrow> context_value \<Rightarrow> string
     \<Rightarrow> ('s, unit, approval_body reply) io" where
  "Handler_ExecuteApprovedAction uc env lib ctxUser requestID =
     with_session ctxUser (\<lambda>user. with_request_id requestID (
     attempt (ExecuteApprovedAction uc env requestID user) (denied_or 400 ErrCodeValidation lib)
       (\<lambda>_. ok (Reply 200 (ApDone ''approved action executed successfully'')))))"

section \<open>approvers\<close>

definition approver_refused :: "string \<Rightarrow> bool" where
  "approver_refused t \<longleftrightarrow> Contains t ''insufficient permissions'' \<or> Contains t ''approval system must be enabled''
     \<or> Contains t ''only root users'' \<or> Contains t ''only admin and root users can be set as approvers''"

definition Handler_SetTeamApprover ::
    "'s approval_usecase \<Rightarrow> (go_error \<Rightarrow> string) \<Rightarrow> (body \<Rightarrow> string) \<Rightarrow> context_value \<Rightarrow> string \<Rightarrow> string \<Rightarrow> body
     \<Rightarrow> ('s, unit, approval_body reply) io" where
  "Handler_SetTeamApprover uc lib bad ctxUser teamID userID b =
     with_session_id ctxUser (\<lambda>actionByUserID.
     if teamID = [] \<or> userID = [] then ok (refused_app 400 ErrCodeValidation ''team ID and user ID are required'')
     else
       (case bind_json (bool_member ''is_approver'') False b of
          None \<Rightarrow> ok (refused_app 400 ErrCodeValidation (bad b))
        | Some isApprover \<Rightarrow>
            attempt (SetTeamApprover uc teamID userID isApprover actionByUserID)
              (\<lambda>e. if approver_refused (err_text lib e) then refuse 403 ErrCodeValidation lib e
                   else refuse 400 ErrCodeValidation lib e) (\<lambda>_.
            attempt (GetTeamApprovers uc teamID) (refuse 500 ErrCodeInternal lib)
              (\<lambda>approvers. ok (Reply 200 (ApApprovers approvers))))))"

definition Handler_GetTeamApprovers ::
    "'s approval_usecase \<Rightarrow> (go_error \<Rightarrow> string) \<Rightarrow> string \<Rightarrow> ('s, unit, approval_body reply) io" where
  "Handler_GetTeamApprovers uc lib teamID =
     with_team_id teamID (
     attempt (GetTeamApprovers uc teamID) (refuse 500 ErrCodeInternal lib)
       (\<lambda>approvers. ok (Reply 200 (ApApprovers approvers))))"

definition Handler_GetMyApproverTeams ::
    "'s approval_usecase \<Rightarrow> (go_error \<Rightarrow> string) \<Rightarrow> context_value \<Rightarrow> ('s, unit, approval_body reply) io" where
  "Handler_GetMyApproverTeams uc lib ctxUser =
     with_context_user ctxUser (\<lambda>user.
     attempt (GetUserApproverTeams uc (us_ID user)) (refuse 500 ErrCodeInternal lib)
       (\<lambda>teams. ok (Reply 200 (ApTeamIDs teams))))"

definition Handler_GetTeamsWithoutApprover ::
    "'s approval_usecase \<Rightarrow> (go_error \<Rightarrow> string) \<Rightarrow> context_value \<Rightarrow> ('s, unit, approval_body reply) io" where
  "Handler_GetTeamsWithoutApprover uc lib ctxUser =
     with_session_id ctxUser (\<lambda>userID.
     attempt (GetTeamsWithoutApprover uc userID) (refuse 500 ErrCodeInternal lib)
       (\<lambda>teams. ok (Reply 200 (ApTeams teams))))"

section \<open>statistics and utilities\<close>

definition Handler_GetApprovalStats ::
    "'s approval_usecase \<Rightarrow> (go_error \<Rightarrow> string) \<Rightarrow> context_value \<Rightarrow> ('s, unit, approval_body reply) io" where
  "Handler_GetApprovalStats uc lib ctxUser =
     with_session ctxUser (\<lambda>user.
     attempt (GetApprovalStats uc user) (refuse 500 ErrCodeInternal lib) (\<lambda>st. ok (Reply 200 (ApStats st))))"

definition Handler_GetApprovalStatsByTeam ::
    "'s approval_usecase \<Rightarrow> (go_error \<Rightarrow> string) \<Rightarrow> context_value \<Rightarrow> string \<Rightarrow> ('s, unit, approval_body reply) io" where
  "Handler_GetApprovalStatsByTeam uc lib ctxUser teamID =
     with_session ctxUser (\<lambda>user. with_team_id teamID (
     attempt (GetApprovalStatsByTeam uc teamID user) (denied_or 500 ErrCodeInternal lib)
       (\<lambda>st. ok (Reply 200 (ApStats st)))))"

definition Handler_CheckApprovalRequired ::
    "'s approval_usecase \<Rightarrow> (go_error \<Rightarrow> string) \<Rightarrow> string \<Rightarrow> ('s, unit, approval_body reply) io" where
  "Handler_CheckApprovalRequired uc lib actionTypeStr =
     (if actionTypeStr = [] then ok (refused_app 400 ErrCodeValidation ''action_type query parameter is required'')
      else
        attempt (Uc_RequiresApproval uc (action_of_text actionTypeStr)) (refuse 500 ErrCodeInternal lib)
          (\<lambda>b. ok (Reply 200 (ApRequired (action_of_text actionTypeStr) b))))"

definition Handler_IsApprovalEnabled ::
    "'s approval_usecase \<Rightarrow> (go_error \<Rightarrow> string) \<Rightarrow> ('s, unit, approval_body reply) io" where
  "Handler_IsApprovalEnabled uc lib =
     attempt (Uc_IsApprovalEnabled uc) (refuse 500 ErrCodeInternal lib) (\<lambda>b. ok (Reply 200 (ApEnabled b)))"

definition Handler_MarkExpiredRequests ::
    "'s approval_usecase \<Rightarrow> (go_error \<Rightarrow> string) \<Rightarrow> ('s, unit, approval_body reply) io" where
  "Handler_MarkExpiredRequests uc lib =
     attempt (MarkExpiredRequests uc) (refuse 500 ErrCodeInternal lib)
       (\<lambda>_. ok (Reply 200 (ApDone ''expired requests marked successfully'')))"

section \<open>suggestions\<close>

definition suggest_member :: "bool \<times> string \<Rightarrow> string \<Rightarrow> json \<Rightarrow> (bool \<times> string) option" where
  "suggest_member r k v =
     (if field_matches ''enabled'' k then map_option (\<lambda>b. (b, snd r)) (decode_bool (fst r) v)
      else if field_matches ''note'' k then map_option (\<lambda>s. (fst r, s)) (decode_string (snd r) v)
      else Some r)"

text \<open>The dash before the note, in UTF-8.\<close>

definition suggestion_text :: "bool \<Rightarrow> string \<Rightarrow> string" where
  "suggestion_text enabled note =
     (if enabled then ''Suggested: enable toggle'' else ''Suggested: disable toggle'')
     @ (if note = [] then [] else '' '' @ [CHR 0xE2, CHR 0x80, CHR 0x94] @ '' '' @ note)"

definition Handler_SuggestToggleChange ::
    "'s approval_usecase \<Rightarrow> call_env \<Rightarrow> (go_error \<Rightarrow> string) \<Rightarrow> (body \<Rightarrow> string) \<Rightarrow> context_value \<Rightarrow> string \<Rightarrow> string \<Rightarrow> body
     \<Rightarrow> ('s, unit, approval_body reply) io" where
  "Handler_SuggestToggleChange uc env lib bad ctxUser appID toggleID b =
     with_session ctxUser (\<lambda>user.
     if appID = [] \<or> toggleID = []
     then ok (refused_app 400 ErrCodeValidation ''application ID and toggle ID are required'')
     else
       (case bind_json suggest_member (False, []) b of
          None \<Rightarrow> ok (refused_app 400 ErrCodeValidation (bad b))
        | Some (enabled, note) \<Rightarrow>
            attempt (GetUserTeamForApplication uc (us_ID user) appID) (refuse 403 ErrCodeValidation lib) (\<lambda>teamID.
            attempt (CreateSuggestion uc env (if enabled then ToggleEnable else ToggleDisable)
                (suggestion_text enabled note) (us_ID user) teamID (Some appID) (Some toggleID)
                (GoMap [(''enabled'', JBool enabled)]))
              (denied_or 400 ErrCodeValidation lib) (\<lambda>request. ok (Reply 201 (ApRequest request))))))"

section \<open>lemmas\<close>

text \<open>A reply of success is a successful call of the use case on behalf of the user of the session.\<close>

lemma refuse_reply: "refuse status code lib e d = Some (Inr (refused_app status code (err_text lib e)), d)"
  by (simp add: refuse_def ok_def)

lemma refused_app_Reply [simp]: "refused_app status code t \<noteq> Reply c b" "Reply c b \<noteq> refused_app status code t"
  by (simp_all add: refused_app_def)

lemma refusals_no_Reply [simp]:
  "refuse status code lib e d \<noteq> Some (Inr (Reply c b), d')"
  "denied_or status code lib e d \<noteq> Some (Inr (Reply c b), d')"
  "forbidden_if texts lib e d \<noteq> Some (Inr (Reply c b), d')"
  by (simp_all add: refuse_reply denied_or_def forbidden_if_def)

lemma with_session_Reply:
  assumes "with_session ctxUser k d = Some (Inr (Reply c b), d')"
  obtains u where "ctxUser = ContextUser u" "k u d = Some (Inr (Reply c b), d')"
  using assms by (cases ctxUser) (auto simp: with_session_def getUserFromSession_def not_authenticated_def ok_def)

lemma attempt_Reply:
  assumes "attempt m h k d = Some (Inr (Reply c b), d')" "\<And>e d1. h e d1 \<noteq> Some (Inr (Reply c b), d')"
  obtains a d1 where "m d = Some (Inr a, d1)" "k a d1 = Some (Inr (Reply c b), d')"
  using assms(1) by (rule attempt_Some) (use assms(2) that in auto)

lemma decisions_by_the_session:
  "Handler_ApproveRequest uc env lib ctxUser i d = Some (Inr (Reply c b), d') \<Longrightarrow>
     \<exists>u. ctxUser = ContextUser u \<and> ApproveRequest uc env i u d = Some (Inr (), d')"
  "Handler_RejectRequest uc env lib bad ctxUser i body d = Some (Inr (Reply c b), d') \<Longrightarrow>
     \<exists>u reason. ctxUser = ContextUser u \<and> RejectRequest uc env i u reason d = Some (Inr (), d')"
  "Handler_WithdrawRequest uc lib ctxUser i d = Some (Inr (Reply c b), d') \<Longrightarrow>
     \<exists>u. ctxUser = ContextUser u \<and> WithdrawRequest uc i u d = Some (Inr (), d')"
  "Handler_ExecuteApprovedAction uc env lib ctxUser i d = Some (Inr (Reply c b), d') \<Longrightarrow>
     \<exists>u. ctxUser = ContextUser u \<and> ExecuteApprovedAction uc env i u d = Some (Inr (), d')"
  unfolding Handler_ApproveRequest_def Handler_RejectRequest_def Handler_WithdrawRequest_def
    Handler_ExecuteApprovedAction_def with_request_id_def
  by (auto elim!: with_session_Reply attempt_Reply simp: ok_def split: if_splits option.splits) blast

text \<open>The refusals that come back as 403; the text of a wrapped error is another one.\<close>

lemma decision_forbidden:
  assumes "ApproveRequest uc env i u d = Some (Inl (ErrText t), d')" "i \<noteq> []"
  shows "Handler_ApproveRequest uc env lib (ContextUser u) i d = Some (Inr (refused_app
      (if t = ''user cannot approve this request'' \<or> t = ''user is not an approver for this team'' then 403 else 400)
      ErrCodeValidation t), d')"
  using assms by (simp add: Handler_ApproveRequest_def with_session_def getUserFromSession_def with_request_id_def
      forbidden_if_def refuse_def ok_def)

lemma execution_denied:
  assumes "ExecuteApprovedAction uc env i u d = Some (Inl e, d')" "i \<noteq> []"
  shows "Handler_ExecuteApprovedAction uc env lib (ContextUser u) i d
    = Some (Inr (refused_app (if cause e = ErrApprovalAccessDenied then 403 else 400) ErrCodeValidation (err_text lib e)), d')"
  using assms by (simp add: Handler_ExecuteApprovedAction_def with_session_def getUserFromSession_def with_request_id_def
      denied_or_def is_denied_def refuse_def ok_def)

end
