(* ===== verification/Gate.thy ===== *)
theory Gate
  imports ToggleHandler ApprovalProps CatalogueSdk
begin

text \<open>
  The gate and the handlers behind it. The locale \<open>gate_db\<close> states what the gate needs of the database:
  GORM's laws for the settings, and a view that only the tables the gate writes may not touch. Inside it: when
  the gate lets a handler run, and that it otherwise leaves the view alone. After it: where the action the
  gate checks is the one the handler performs, and where it is not.
\<close>

definition reads_keep :: "('r, 'd) table \<Rightarrow> ('d \<Rightarrow> 'v) \<Rightarrow> bool" where
  "reads_keep g v \<longleftrightarrow> (\<forall>u P. call_keeps (g_First g u P) v) \<and> (\<forall>u P k. call_keeps (g_Find g u P k) v)
     \<and> (\<forall>u P. call_keeps (g_Count g u P) v)"

lemma reads_keepD [keep_intros]:
  assumes "reads_keep g v"
  shows "call_keeps (g_First g u P) v" "call_keeps (g_Find g u P k) v" "call_keeps (g_Count g u P) v"
  using assms by (simp_all add: reads_keep_def)

text \<open>A table under GORM's laws is not written by a read.\<close>

lemma gorm_reads_keep:
  assumes "gorm_table g rows live columns defaults key clash erase"
  shows "reads_keep g v"
proof -
  note laws = gorm_table.first[OF assms] gorm_table.find[OF assms] gorm_table.count[OF assms]
  show ?thesis
    unfolding reads_keep_def
  proof (intro conjI allI)
    fix u P k
    show "call_keeps (g_First g u P) v" using laws(1)[of u P] by (auto simp: call_keeps_def) (metis option.inject prod.inject)
    show "call_keeps (g_Find g u P k) v" using laws(2)[of u P k] by (auto simp: call_keeps_def) (metis option.inject prod.inject)
    show "call_keeps (g_Count g u P) v" using laws(3)[of u P] by (simp add: call_keeps_def)
  qed
qed

text \<open>Whom the gate lets through, under the settings \<open>s\<close>.\<close>

definition passes :: "approval_settings \<Rightarrow> context_value \<Rightarrow> user_role \<Rightarrow> api_request \<Rightarrow> bool" where
  "passes s ctxUser requiredRole c =
     (case ctxUser of
        ContextUser u \<Rightarrow> us_Role u = UserRoleRoot
          \<or> hasRequiredRole (us_Role u) requiredRole \<and> \<not> RequiresApproval s (getActionType c)
      | _ \<Rightarrow> False)"

locale gate_db =
  settings: gorm_table "sd_settings db" sets "\<lambda>_. True" "\<lambda>s. s" "\<lambda>s. s" as_ID "\<lambda>x s. as_ID x = as_ID s" "\<lambda>_. None"
  for db :: "'d server_db" and sets :: "'d \<Rightarrow> approval_settings list" +
  fixes v :: "'d \<Rightarrow> 'v"
  assumes written: "quiet (sd_settings db) v" "quiet (sd_requests db) v" "quiet (sd_audit db) v" "quiet (sd_keys db) v"
    and only_read: "reads_keep (sd_toggles db) v" "reads_keep (sd_users db) v" "reads_keep (sd_apps db) v"
      "reads_keep (sd_teams db) v" "reads_keep (sd_team_users db) v" "reads_keep (sd_team_apps db) v"
begin

lemma one_settings:
  assumes "sets d = [s]"
  shows "Uc_IsApprovalEnabled (NewApprovalUseCase db e) d = Some (Inr (as_ApprovalEnabled s), d)"
    "gs_RequiresApproval (ax_settingsRepo (NewApprovalUseCase db e)) a d = Some (Inr (RequiresApproval s a), d)"
    "Uc_RequiresApproval (NewApprovalUseCase db e) a d = Some (Inr (RequiresApproval s a), d)"
proof -
  from settings.first[of False "\<lambda>_. True" d] obtain res where
    res: "g_First (sd_settings db) False (\<lambda>_. True) d = Some (res, d)" "found (\<lambda>_. True) (sets d) res" by auto
  with assms have "g_First (sd_settings db) False (\<lambda>_. True) d = Some (Inr s, d)"
    by (cases res) (auto simp: found_def)
  then have "Settings_Get (sd_settings db) i d = Some (Inr s, d)" for i by (simp add: Settings_Get_def ok_def)
  then show "Uc_IsApprovalEnabled (NewApprovalUseCase db e) d = Some (Inr (as_ApprovalEnabled s), d)"
    and "gs_RequiresApproval (ax_settingsRepo (NewApprovalUseCase db e)) a d = Some (Inr (RequiresApproval s a), d)"
    and "Uc_RequiresApproval (NewApprovalUseCase db e) a d = Some (Inr (RequiresApproval s a), d)"
    by (simp_all add: Uc_IsApprovalEnabled_def Uc_RequiresApproval_def uc_parts NewApprovalSettingsRepository_def
        Settings_IsApprovalEnabled_def Settings_RequiresApproval_def ok_def)
qed

text \<open>Filing a request reads and writes only what the gate may.\<close>

lemma lookups_keep [keep_intros]:
  "call_keeps (User_GetByID (user_db_of db) i) v" "call_keeps (Team_GetTeamsByUserID (team_db_of db e) i) v"
  "call_keeps (Team_GetByID (team_db_of db e) i) v" "call_keeps (App_GetByID (app_db_of db e) i) v"
  "call_keeps (Toggle_GetByID (sd_toggles db) i) v" "call_keeps (Team_GetApplicationsByTeamID (team_db_of db e) i) v"
  unfolding User_GetByID_def with_teams_def Team_GetTeamsByUserID_def Team_GetByID_def App_GetByID_def
    Toggle_GetByID_def Team_GetApplicationsByTeamID_def
  by (simp_all add: user_db_of_def team_db_of_def app_db_of_def) (intro keep_intros only_read)+

lemma record_keeps: "call_keeps (record_decision (NewApprovalUseCase db e) ev msg request actor) v"
proof -
  have names: "call_keeps (toggle_path_of (NewApprovalUseCase db e) request) v"
    "call_keeps (app_name_of (NewApprovalUseCase db e) request) v"
    unfolding toggle_path_of_def app_name_of_def by (intro keep_intros | simp only: uc_parts repo_calls)+
  have target: "call_keeps (approvalRequestTarget (NewApprovalUseCase db e) request) v"
    unfolding approvalRequestTarget_def Let_def
    by (cases "rq_ActionType request"; simp only: action_type.simps) (intro names keep_intros)+
  have audit: "call_keeps (recordAuditWithApplication (NewApprovalUseCase db e) ev msg target t a actor) v" for target t a
    unfolding recordAuditWithApplication_def uc_parts option.case
    by (intro audit_keeps) (simp only: repo_calls, intro keep_intros written)
  show ?thesis unfolding record_decision_def by (intro keep_intros target audit)
qed

lemma CreateApprovalRequest_keeps:
  "call_keeps (CreateApprovalRequest (NewApprovalUseCase db e) env a descr who team app toggle data) v"
proof -
  let ?U = "NewApprovalUseCase db e"
  have requires: "call_keeps (gs_RequiresApproval (ax_settingsRepo ?U) a) v"
    by (simp add: uc_parts NewApprovalSettingsRepository_def settings_repo_keeps[OF written(1)])
  have create: "call_keeps (qr_Create (ax_requestRepo ?U) r) v" for r
    by (simp add: uc_parts NewApprovalRequestRepository_def Request_Create_def request_db_of_def)
      (intro keep_intros quietD written)
  have open_req: "call_keeps (open_request ?U env a descr u t who ao app toggle keyed) v" for u t ao keyed
    unfolding open_request_def Let_def by (cases keyed; simp only: prod.case) (intro keep_intros create record_keeps)
  have access: "call_keeps (Access_CanRead ?U u i) v" for u i
    unfolding Access_CanRead_def by (intro keep_intros | simp only: uc_parts repo_calls)+
  have pending: "call_keeps (CreatePendingSecretKey (ax_keyRepo ?U) src name i who) v" for src name i
    by (intro keep_intros key_repo_keeps[OF written(4)] | simp only: uc_parts repo_calls)+
  have read: "call_keeps (ur_GetByID (ax_userRepo ?U) i) v" "call_keeps (tm_GetByID (ax_teamRepo ?U) i) v"
    "call_keeps (pr_GetByID (ax_appRepo ?U) i) v" "call_keeps (tr_GetByID (ax_toggleRepo ?U) i) v" for i
    by (simp_all only: uc_parts repo_calls lookups_keep)
  show ?thesis
    unfolding CreateApprovalRequest_def createApprovalRequestUnchecked_def
    by (intro keep_intros requires open_req access pending read)
qed

lemma team_with_app_keeps: "call_keeps (team_with_app (NewApprovalUseCase db e) i ts) v"
  by (induction ts) (simp_all only: team_with_app.simps uc_parts repo_calls, (intro keep_intros; assumption)+)

lemma filing_keeps: "call_keeps (createApprovalRequest (NewApprovalUseCase db e) env num c user a) v"
proof -
  let ?U = "NewApprovalUseCase db e"
  have "call_keeps (GetApplicationIDForSecretKey ?U i) v" for i
    unfolding GetApplicationIDForSecretKey_def GetSecretKeyByID_def uc_parts repo_calls
    by (intro keep_intros key_repo_keeps[OF written(4)])
  then have scope: "call_keeps (action_scope ?U c a) v"
    unfolding action_scope_def by (cases a; simp only: action_type.simps) (intro keep_intros; assumption)+
  have "call_keeps (case ts of [] \<Rightarrow> text_fail msg | first # rest \<Rightarrow>
      attempt (if j \<noteq> [] then team_with_app ?U j ts else ok None) fail
        (\<lambda>found. ok (case found of Some t \<Rightarrow> t | None \<Rightarrow> te_ID first))) v" for ts msg j
    by (cases ts; simp only: list.case) (intro keep_intros team_with_app_keeps)+
  then have "call_keeps (GetUserTeamForApplication ?U i j) v" for i j
    unfolding GetUserTeamForApplication_def uc_parts repo_calls
    by (intro call_keeps_attempt call_keeps_calls lookups_keep keep_intros)
  then have "call_keeps (team_of_app ?U i app msg) v" for i app msg
    unfolding team_of_app_def by (intro keep_intros)
  then have team: "call_keeps (determineTeamID ?U c a app i) v" for app i
    unfolding determineTeamID_def
    by (cases a; simp only: action_type.simps) (auto split: option.split json.split intro: keep_intros)
  show ?thesis unfolding createApprovalRequest_def by (intro keep_intros scope team CreateApprovalRequest_keeps)
qed

text \<open>The gate lets a handler run on the state as it was, or answers itself and leaves the view alone.\<close>

lemma gate_cases:
  assumes "sets d = [s]"
  shows "passes s ctxUser role c \<Longrightarrow>
      ApprovalAware (NewApprovalUseCase db e) env num ctxUser role c d = Some (Inr GateNext, d)"
    and "\<not> passes s ctxUser role c \<Longrightarrow>
      ApprovalAware (NewApprovalUseCase db e) env num ctxUser role c d = Some (r, d') \<Longrightarrow>
      \<exists>g. r = Inr g \<and> g \<noteq> GateNext \<and> v d' = v d
        \<and> (\<forall>a k. g = GateFiled a k \<longrightarrow> a = getActionType c \<and> RequiresApproval s a)"
proof -
  let ?U = "NewApprovalUseCase db e"
  note run = ApprovalAware_def one_settings[OF assms] attempt_def ok_def fail_def role_gate_def passes_def Let_def
  have off: "\<not> as_ApprovalEnabled s \<Longrightarrow> \<not> RequiresApproval s a" for a by (simp add: RequiresApproval_def)
  show "ApprovalAware ?U env num ctxUser role c d = Some (Inr GateNext, d)" if "passes s ctxUser role c"
    using that off by (auto simp: run split: context_value.splits)
  assume stop: "\<not> passes s ctxUser role c" and r: "ApprovalAware ?U env num ctxUser role c d = Some (r, d')"
  show "\<exists>g. r = Inr g \<and> g \<noteq> GateNext \<and> v d' = v d
        \<and> (\<forall>a k. g = GateFiled a k \<longrightarrow> a = getActionType c \<and> RequiresApproval s a)"
  proof (cases ctxUser)
    case (ContextUser user)
    with stop have nonroot: "us_Role user \<noteq> UserRoleRoot" by (auto simp: passes_def)
    show ?thesis
    proof (cases "RequiresApproval s (getActionType c)")
      case False
      with r stop nonroot ContextUser show ?thesis by (auto simp: run split: if_splits)
    next
      case True
      with off have "as_ApprovalEnabled s" by blast
      with True r nonroot ContextUser obtain r1 d1 where
        "createApprovalRequest ?U env num c user (getActionType c) d = Some (r1, d1)" "d' = d1"
        "r = Inr (case r1 of Inl err \<Rightarrow> GateFailed 500 ''failed to create approval request: '' err
                  | Inr request \<Rightarrow> GateFiled (getActionType c) (rq_PlainSecretKey request))"
        by (auto simp: run split: option.splits sum.splits)
      with call_keepsD[OF filing_keeps] True show ?thesis by (auto split: sum.splits)
    qed
  qed (use r in \<open>auto simp: run\<close>)
qed

end


text \<open>The instance: every table the gate only reads, as the view.\<close>

abbreviation stock :: "mem \<Rightarrow> toggle list \<times> application list \<times> team list \<times> team_app list \<times> team_user list \<times> user list" where
  "stock d \<equiv> (w_toggles (fst d), w_apps (fst d), w_teams (fst d), w_team_apps (fst d), w_team_users (fst d), w_users (fst d))"

lemma wt_gate_db: "gate_db (wt_server_db now) (\<lambda>d. w_settings (fst d)) stock"
proof (intro gate_db.intro gate_db_axioms.intro)
  show "gorm_table (sd_settings (wt_server_db now)) (\<lambda>d. w_settings (fst d)) (\<lambda>_. True) (\<lambda>s. s) (\<lambda>s. s) as_ID
      (\<lambda>x s. as_ID x = as_ID s) (\<lambda>_. None)"
    using wt_settings.gorm_table_axioms by (simp add: wt_server_db_def)
  show "quiet (sd_settings (wt_server_db now)) stock"
    by (simp add: wt_server_db_def) (rule quietI[OF wt_settings.gorm_table_axioms keeps_part[OF wt_keeps(7)]], simp)
  show "quiet (sd_requests (wt_server_db now)) stock"
    by (simp add: wt_server_db_def) (rule quietI[OF wt_requests.gorm_table_axioms keeps_part[OF wt_keeps(6)]], simp)
  show "quiet (sd_audit (wt_server_db now)) stock"
    by (simp add: wt_server_db_def) (rule quietI[OF wt_audit.gorm_table_axioms keeps_part[OF wt_keeps(8)]], simp)
  show "quiet (sd_keys (wt_server_db now)) stock"
    by (simp add: wt_server_db_def) (rule quietI[OF wt_keys.gorm_table_axioms keeps_part[OF wt_keeps(3)]], simp)
  show "reads_keep (sd_toggles (wt_server_db now)) stock"
    by (simp add: wt_server_db_def) (rule gorm_reads_keep[OF wt_toggles.gorm_table_axioms])
  show "reads_keep (sd_users (wt_server_db now)) stock"
    by (simp add: wt_server_db_def) (rule gorm_reads_keep[OF wt_users.gorm_table_axioms])
  show "reads_keep (sd_apps (wt_server_db now)) stock"
    by (simp add: wt_server_db_def) (rule gorm_reads_keep[OF wt_apps.gorm_table_axioms])
  show "reads_keep (sd_teams (wt_server_db now)) stock"
    by (simp add: wt_server_db_def) (rule gorm_reads_keep[OF wt_teams.gorm_table_axioms])
  show "reads_keep (sd_team_users (wt_server_db now)) stock"
    by (simp add: wt_server_db_def) (rule gorm_reads_keep[OF wt_team_users.gorm_table_axioms])
  show "reads_keep (sd_team_apps (wt_server_db now)) stock"
    by (simp add: wt_server_db_def) (rule gorm_reads_keep[OF wt_team_apps.gorm_table_axioms])
qed

interpretation wt_gate: gate_db "wt_server_db now" "\<lambda>d. w_settings (fst d)" stock for now
  by (rule wt_gate_db)

section \<open>the action the gate checks and the action the handler performs\<close>

text \<open>
  They agree on a body that is one object whose members have different names, the one in question spelled as
  the struct tag spells it.
\<close>

lemma bind_bool_member:
  assumes "distinct (map fst kvs)" "\<forall>(k, j)\<in>set kvs. field_matches n k \<longrightarrow> k = n" "(n, JBool b) \<in> set kvs"
  shows "decode_members (bool_member n) old kvs = Some b"
proof -
  have other: "decode_members (bool_member n) old kvs = Some old" if "\<forall>(k, j)\<in>set kvs. \<not> field_matches n k" for kvs old
    using that by (induction kvs arbitrary: old) (auto simp: bool_member_def)
  from assms show ?thesis
  proof (induction kvs arbitrary: old)
    case (Cons kv kvs)
    obtain k j where kv: "kv = (k, j)" by (cases kv)
    show ?case
    proof (cases "k = n")
      case True
      with Cons.prems kv have "j = JBool b" by (auto simp: rev_image_eqI)
      moreover have "\<forall>(k, j)\<in>set kvs. \<not> field_matches n k" using Cons.prems kv True by (auto simp: rev_image_eqI)
      moreover have "bool_member n old n (JBool b) = Some b" by (simp add: bool_member_def field_matches_def)
      ultimately show ?thesis using other kv True by simp
    next
      case False
      with Cons.prems kv have "\<not> field_matches n k" "(n, JBool b) \<in> set kvs" by auto
      with Cons kv show ?thesis by (simp add: bool_member_def)
    qed
  qed simp
qed

lemma peek_member:
  assumes "hr_Body c = \<lparr> bd_first = RawJSON (JObj kvs), bd_more = False \<rparr>" "distinct (map fst kvs)" "(n, v) \<in> set kvs"
  shows "peekJSONBody c n = Some v"
  using assms by (simp add: peekJSONBody_def whole_def rev_map[symmetric])

lemma HasSuffix_Contains: "HasSuffix s p \<Longrightarrow> p = q @ r \<Longrightarrow> Contains s q"
proof -
  assume "HasSuffix s p" "p = q @ r"
  then obtain a where "rev s = rev r @ rev q @ a" by (auto simp: HasSuffix_def HasPrefix_iff)
  then have "s = rev a @ q @ r" by (metis append.assoc rev_append rev_rev_ident)
  then show ?thesis unfolding Contains_iff by blast
qed

lemma enabled_classified:
  assumes "hr_Method c = ''PUT''" "hr_Path c = ''/applications/'' @ i @ ''/toggle/'' @ t" "\<not> Contains (hr_Path c) ''/toggles''"
    and body: "hr_Body c = \<lparr> bd_first = RawJSON (JObj kvs), bd_more = False \<rparr>" "distinct (map fst kvs)"
    and "\<forall>(k, j)\<in>set kvs. field_matches ''enabled'' k \<longrightarrow> k = ''enabled''" "(''enabled'', JBool b) \<in> set kvs"
  shows "getActionType c = (if b then ToggleEnable else ToggleDisable)" "enabled_request (hr_Body c) = Some b"
proof -
  have "hr_Path c = (''/applications/'' @ i) @ ''/toggle'' @ (CHR ''/'' # t)"
    "hr_Path c = (''/applications/'' @ i) @ ''/toggle/'' @ t" using assms(2) by simp_all
  then have "Contains (hr_Path c) ''/toggle''" "Contains (hr_Path c) ''/toggle/''" unfolding Contains_iff by blast+
  moreover have "\<not> HasSuffix (hr_Path c) ''/toggles/bulk''"
    using assms(3) HasSuffix_Contains[of "hr_Path c" _ "''/toggles''" "''/bulk''"] by auto
  ultimately show "getActionType c = (if b then ToggleEnable else ToggleDisable)"
    using assms(1,3) peek_member[OF body assms(7)] by (simp add: getActionType_def)
  show "enabled_request (hr_Body c) = Some b"
    using bind_bool_member[OF body(2) assms(6,7)] body(1) by (simp add: enabled_request_def bind_json_def)
qed

text \<open>
  In general they do not. The gate looks a member up by its exact name and wants the body to be a single value;
  the handler matches names without regard to case and reads the first value only. Each request below is
  classified as one action and performed as another; with settings that want an approval for the second only,
  the gate lets it through to any user of the required role.
\<close>

definition put_request :: "string \<Rightarrow> (string \<times> json) list \<Rightarrow> bool \<Rightarrow> api_request" where
  "put_request path kvs trailing =
     \<lparr> hr_Method = ''PUT'', hr_Path = path, hr_id = ''a'', hr_toggleId = ''t'',
       hr_Body = \<lparr> bd_first = RawJSON (JObj kvs), bd_more = trailing \<rparr> \<rparr>"

definition spelled_enable :: api_request where
  "spelled_enable = put_request ''/applications/a/toggle/t'' [(''Enabled'', JBool True)] False"

definition empty_disable :: api_request where
  "empty_disable = put_request ''/applications/a/toggle/t'' [] False"

definition bulk_enable :: api_request where
  "bulk_enable = put_request ''/applications/a/toggles/bulk''
     [(''toggle_ids'', JArr [JStr ''t'']), (''enabled'', JBool True)] True"

definition spelled_rule :: api_request where
  "spelled_rule = put_request ''/applications/a/toggles/t''
     [(''enabled'', JBool True), (''Has_Activation_Rule'', JBool True),
      (''Activation_Rule'', JObj [(''type'', JStr ''percentage''), (''value'', JStr ''100'')])] False"

lemma spelled_enable_passes: "getActionType spelled_enable = ToggleUpdate" "enabled_request (hr_Body spelled_enable) = Some True"
  by code_simp+

lemma empty_disable_passes: "getActionType empty_disable = ToggleUpdate" "enabled_request (hr_Body empty_disable) = Some False"
  by code_simp+

lemma bulk_enable_passes: "getActionType bulk_enable = ToggleDisable" "bulk_request (hr_Body bulk_enable) = Some ([''t''], True)"
  by code_simp+

lemma spelled_rule_passes:
  "getActionType spelled_rule = ToggleUpdate"
  "case update_request (hr_Body spelled_rule) of
     Some r \<Rightarrow> ud_Enabled r \<and> ud_HasActivationRule r \<and> map_option ar_Value (ud_ActivationRule r) = Some ''100''
   | None \<Rightarrow> False"
  by code_simp+

text \<open>Under the default configuration, which wants an approval for a rule, any administrator sets one without it.\<close>

lemma rule_without_approval:
  assumes "us_Role u = UserRoleAdmin"
  shows "passes ((NewApprovalSettings i)\<lparr> as_ApprovalEnabled := True \<rparr>) (ContextUser u) UserRoleAdmin spelled_rule"
    and "RequiresApproval ((NewApprovalSettings i)\<lparr> as_ApprovalEnabled := True \<rparr>) ToggleRule"
  using assms by (simp_all add: passes_def hasRequiredRole_def spelled_rule_passes(1) RequiresApproval_def
      GetRequiredActions_def NewApprovalSettings_def config_roundtrip default_config_def zero_config_def)

section \<open>properties\<close>

text \<open>C3. The approval gate. With one row of settings, the middleware passes a request on exactly when its user
  is root, or has the role the route wants and the classified action needs no approval; then the handler runs
  on the state as it was, and nothing else happens. Any other request never reaches the handler: the answer
  is the middleware's, no toggle, application, team, membership or user has changed, and a 202 names the
  classified action, one for which the settings want an approval.\<close>

theorem gate_stops_unapproved:
  assumes "gate_db db sets v" "sets d = [s]"
  shows "(passes s ctxUser role c \<longrightarrow>
      gated (NewApprovalUseCase db e) env num ctxUser role c handler d = attempt handler fail (\<lambda>a. ok (Inr a)) d)
    \<and> (\<forall>x d'. \<not> passes s ctxUser role c \<longrightarrow>
      gated (NewApprovalUseCase db e) env num ctxUser role c handler d = Some (x, d') \<longrightarrow>
      (\<exists>g. x = Inr (Inl g) \<and> v d' = v d
        \<and> (\<forall>a k. g = GateFiled a k \<longrightarrow> a = getActionType c \<and> RequiresApproval s a)))"
proof (intro conjI impI allI)
  note cases = gate_db.gate_cases[OF assms, of ctxUser role c e env num]
  show "gated (NewApprovalUseCase db e) env num ctxUser role c handler d = attempt handler fail (\<lambda>a. ok (Inr a)) d"
    if "passes s ctxUser role c"
    using cases(1)[OF that] by (simp add: gated_def)
  fix x d' assume stop: "\<not> passes s ctxUser role c"
    and "gated (NewApprovalUseCase db e) env num ctxUser role c handler d = Some (x, d')"
  then show "\<exists>g. x = Inr (Inl g) \<and> v d' = v d
      \<and> (\<forall>a k. g = GateFiled a k \<longrightarrow> a = getActionType c \<and> RequiresApproval s a)"
    unfolding gated_def
    by (elim attempt_Some) (use cases(2)[OF stop] in \<open>fastforce simp: ok_def\<close>)+
qed

definition enable_settings :: approval_settings where
  "enable_settings = \<lparr> as_ID = ''s'', as_ApprovalEnabled = True,
     as_RequiredActions = RawJSON (JObj [(''toggle_enable'', JBool True)]), as_DefaultExpirationDays = 7 \<rparr>"

definition gate_mem :: mem where
  "gate_mem = (demo_world\<lparr> w_toggles := [row_p\<lparr> tg_ID := ''t'', tg_Enabled := False \<rparr>], w_apps := [demo_app],
     w_settings := [enable_settings] \<rparr>, None)"

definition plain_enable :: api_request where
  "plain_enable = put_request ''/applications/a/toggle/t'' [(''enabled'', JBool True)] False"

text \<open>Ann's request to the handler behind the gate.\<close>

definition anns :: "api_request \<Rightarrow> (mem, unit, toggle_reply) io" where
  "anns c = Handler_UpdateEnabled (NewToggleHandler demo_db demo_db_env) (ContextUser (demo_user ''ann'')) c"

definition anns_gated :: "api_request \<Rightarrow> (mem, unit, gate + toggle_reply) io" where
  "anns_gated c = gated demo_uc demo_env (\<lambda>j. j) (ContextUser (demo_user ''ann'')) UserRoleUser c (anns c)"

text \<open>A plain spelling is filed, the other one runs the handler.\<close>

lemma plain_filed:
  "case anns_gated plain_enable gate_mem of
     Some (Inr (Inl (GateFiled ToggleEnable _)), d') \<Rightarrow> length (w_requests (fst d')) = 1 | _ \<Rightarrow> False"
  unfolding anns_gated_def gated_def ApprovalAware_def context_value.case
  by code_simp

theorem gate_stops_unapproved_witness:
  "(\<exists>g d'. anns_gated plain_enable gate_mem = Some (Inr (Inl g), d') \<and> w_toggles (fst d') = w_toggles (fst gate_mem))
    \<and> anns_gated spelled_enable gate_mem = attempt (anns spelled_enable) fail (\<lambda>a. ok (Inr a)) gate_mem"
proof -
  have s: "w_settings (fst gate_mem) = [enable_settings]" by (simp add: gate_mem_def)
  have "getActionType plain_enable = ToggleEnable" "RequiresApproval enable_settings ToggleEnable"
    "\<not> RequiresApproval enable_settings ToggleUpdate" by code_simp+
  then have stop: "\<not> passes enable_settings (ContextUser (demo_user ''ann'')) UserRoleUser plain_enable"
    and pass: "passes enable_settings (ContextUser (demo_user ''ann'')) UserRoleUser spelled_enable"
    by (simp_all add: passes_def hasRequiredRole_def spelled_enable_passes(1) demo_user_def)
  note gate = gate_stops_unapproved[OF wt_gate_db[of 0] s, where e = demo_db_env and env = demo_env and num = "\<lambda>j. j"
      and role = UserRoleUser and ctxUser = "ContextUser (demo_user ''ann'')"]
  have "anns_gated spelled_enable gate_mem = attempt (anns spelled_enable) fail (\<lambda>a. ok (Inr a)) gate_mem"
    unfolding anns_gated_def using gate[THEN conjunct1] pass by blast
  moreover obtain x d' where run: "anns_gated plain_enable gate_mem = Some (x, d')"
    using plain_filed by (cases "anns_gated plain_enable gate_mem") auto
  moreover from gate[THEN conjunct2, rule_format, OF stop run[unfolded anns_gated_def]]
  obtain g where "x = Inr (Inl g)" "w_toggles (fst d') = w_toggles (fst gate_mem)" by blast
  ultimately show ?thesis by blast
qed

end
