(* ===== verification/Routes.thy ===== *)
theory Routes
  imports Gate
begin

text \<open>
  The route table of \<open>router/routes.go\<close> below \<open>/api\<close>: every route with the middlewares in front of its handler.
  How gin finds the route of a request is not part of the repository. The lemmas say which handlers are public,
  which are reserved, and that the approval gate, which reads the action off the path and the body of the request, takes
  every gated request whose body both read alike for the action its handler performs.
\<close>

section \<open>the table\<close>

text \<open>
  The middlewares: the two rate limits, the session, the two role checks, and \<open>RequireApprovalAware\<close> with its role.
  A handler is named by its function in \<open>handler/init.go\<close>.
\<close>

datatype guard = LoginLimit | ForgotLimit | Session | RootOnly | AdminOnly | ApprovalAwareOf user_role

record route =
  rt_Method :: string
  rt_Path :: string
  rt_Guards :: "guard list"
  rt_Handler :: string

definition GET :: "string \<Rightarrow> guard list \<Rightarrow> string \<Rightarrow> route" where
  "GET path gs h = \<lparr> rt_Method = ''GET'', rt_Path = path, rt_Guards = gs, rt_Handler = h \<rparr>"

definition POST :: "string \<Rightarrow> guard list \<Rightarrow> string \<Rightarrow> route" where
  "POST path gs h = \<lparr> rt_Method = ''POST'', rt_Path = path, rt_Guards = gs, rt_Handler = h \<rparr>"

definition PUT :: "string \<Rightarrow> guard list \<Rightarrow> string \<Rightarrow> route" where
  "PUT path gs h = \<lparr> rt_Method = ''PUT'', rt_Path = path, rt_Guards = gs, rt_Handler = h \<rparr>"

definition DELETE :: "string \<Rightarrow> guard list \<Rightarrow> string \<Rightarrow> route" where
  "DELETE path gs h = \<lparr> rt_Method = ''DELETE'', rt_Path = path, rt_Guards = gs, rt_Handler = h \<rparr>"

text \<open>\<open>Group\<close> with \<open>Use\<close>: a prefix of the paths, and middlewares in front of those of the route.\<close>

definition route_group :: "string \<Rightarrow> guard list \<Rightarrow> route list \<Rightarrow> route list" where
  "route_group path gs rs = map (\<lambda>r. r\<lparr> rt_Path := path @ rt_Path r, rt_Guards := gs @ rt_Guards r \<rparr>) rs"

definition auth_routes :: "route list" where
  "auth_routes = route_group ''/auth'' []
     [POST ''/login'' [LoginLimit] ''Login'',
      POST ''/forgot-password'' [ForgotLimit] ''ForgotPassword'',
      POST ''/logout'' [] ''Logout'',
      GET ''/check-first-access'' [] ''CheckFirstAccess'',
      POST ''/change-password'' [Session] ''ChangePassword'',
      POST ''/change-password-first-time'' [] ''ChangePasswordFirstTime'']"

definition application_routes :: "route list" where
  "application_routes = route_group ''/applications'' []
     [POST '''' [ApprovalAwareOf UserRoleAdmin] ''CreateApplication'',
      GET '''' [] ''GetAllApplications'',
      GET ''/:id'' [] ''GetApplication'',
      PUT ''/:id'' [ApprovalAwareOf UserRoleAdmin] ''UpdateApplication'',
      DELETE ''/:id'' [ApprovalAwareOf UserRoleRoot] ''DeleteApplication'',
      POST ''/:id/generate-secret'' [ApprovalAwareOf UserRoleAdmin] ''GenerateSecretKey'',
      GET ''/:id/secret-keys'' [AdminOnly] ''GetSecretKeys'',
      GET ''/:id/audit'' [] ''GetApplicationAudit'']"

definition toggle_routes :: "route list" where
  "toggle_routes =
     route_group ''/applications/:id/toggles'' []
       [POST '''' [ApprovalAwareOf UserRoleAdmin] ''CreateToggle'',
        GET '''' [] ''GetAllToggles'',
        GET ''/archived'' [AdminOnly] ''GetArchivedToggles'',
        PUT ''/bulk'' [ApprovalAwareOf UserRoleAdmin] ''BulkUpdateEnabled'']
     @ route_group ''/applications/:id/toggles/:toggleId'' []
       [GET '''' [] ''GetToggleStatus'',
        PUT '''' [ApprovalAwareOf UserRoleAdmin] ''UpdateToggle'',
        DELETE '''' [ApprovalAwareOf UserRoleAdmin] ''DeleteToggle'',
        POST ''/restore'' [AdminOnly] ''RestoreToggle'',
        POST ''/suggest'' [] ''SuggestToggleChange'']
     @ [PUT ''/applications/:id/toggle/:toggleId'' [ApprovalAwareOf UserRoleAdmin] ''UpdateEnabled'']"

definition key_routes :: "route list" where
  "key_routes = route_group ''/secret-keys'' [] [DELETE ''/:id'' [ApprovalAwareOf UserRoleAdmin] ''DeleteSecretKey'']"

definition user_routes :: "route list" where
  "user_routes =
     route_group ''/users'' []
       [POST '''' [AdminOnly] ''CreateUser'',
        GET '''' [AdminOnly] ''ListUsers'',
        GET ''/:id'' [RootOnly] ''GetUser'',
        PUT ''/:id'' [RootOnly] ''UpdateUser'',
        DELETE ''/:id'' [RootOnly] ''DeleteUser'',
        POST ''/:id/reset-password'' [AdminOnly] ''ResetUserPassword'',
        PUT ''/:id/status'' [AdminOnly] ''SetUserStatus'']
     @ route_group ''/profile'' []
       [GET '''' [] ''GetCurrentUser'',
        POST ''/change-password'' [] ''ChangePassword'',
        GET ''/teams'' [] ''GetUserTeams'',
        GET ''/favorites'' [] ''ListFavorites'',
        POST ''/favorites'' [] ''AddFavorite'',
        DELETE ''/favorites'' [] ''RemoveFavorite'']"

definition team_routes :: "route list" where
  "team_routes = route_group ''/teams'' [RootOnly]
     [POST '''' [] ''CreateTeam'',
      GET '''' [] ''GetAllTeams'',
      GET ''/:id'' [] ''GetTeam'',
      PUT ''/:id'' [] ''UpdateTeam'',
      DELETE ''/:id'' [] ''DeleteTeam'',
      POST ''/:id/users'' [] ''AddUserToTeam'',
      DELETE ''/:id/users/:user_id'' [] ''RemoveUserFromTeam'',
      GET ''/:id/users'' [] ''GetTeamUsers'',
      POST ''/:id/applications'' [] ''AddApplicationToTeam'',
      DELETE ''/:id/applications/:app_id'' [] ''RemoveApplicationFromTeam'',
      PUT ''/:id/applications/:app_id'' [] ''UpdateApplicationPermission'',
      GET ''/:id/applications'' [] ''GetTeamApplications'',
      POST ''/:id/approvers/:user_id'' [] ''SetTeamApprover'',
      GET ''/:id/approvers'' [] ''GetTeamApprovers'']"

definition approval_routes :: "route list" where
  "approval_routes = route_group ''/approval'' []
     [GET ''/settings'' [RootOnly] ''GetApprovalSettings'',
      PUT ''/settings'' [RootOnly] ''UpdateApprovalSettings'',
      GET ''/enabled'' [] ''IsApprovalEnabled'',
      GET ''/required'' [] ''CheckApprovalRequired'',
      POST ''/requests'' [] ''CreateApprovalRequest'',
      GET ''/requests'' [] ''GetAllApprovalRequests'',
      GET ''/requests/pending'' [RootOnly] ''GetPendingApprovalRequests'',
      GET ''/requests/my'' [] ''GetMyApprovalRequests'',
      GET ''/requests/approvable'' [] ''GetApprovableRequests'',
      GET ''/requests/:id'' [] ''GetApprovalRequest'',
      POST ''/requests/:id/approve'' [] ''ApproveRequest'',
      POST ''/requests/:id/reject'' [] ''RejectRequest'',
      POST ''/requests/:id/execute'' [] ''ExecuteApprovedAction'',
      POST ''/requests/:id/withdraw'' [] ''WithdrawRequest'',
      GET ''/teams/:id/requests'' [] ''GetApprovalRequestsByTeam'',
      GET ''/stats'' [] ''GetApprovalStats'',
      GET ''/teams/:id/stats'' [] ''GetApprovalStatsByTeam'',
      POST ''/mark-expired'' [RootOnly] ''MarkExpiredRequests'',
      GET ''/my-approver-teams'' [] ''GetMyApproverTeams'',
      GET ''/teams-without-approver'' [] ''GetTeamsWithoutApprover'']"

definition audit_routes :: "route list" where
  "audit_routes = [GET ''/audit'' [RootOnly] ''GetAuditLog'', GET ''/audit/actors'' [RootOnly] ''GetAuditActors'']"

definition api_routes :: "route list" where
  "api_routes = route_group ''/api'' []
     ([GET ''/toggles'' [] ''GetTogglesBySecret'', POST ''/toggles/disable'' [] ''DisableToggleBySecret'']
      @ auth_routes
      @ route_group '''' [Session]
          (application_routes @ toggle_routes @ key_routes @ user_routes @ team_routes @ approval_routes @ audit_routes))"


lemmas route_groups = route_group_def GET_def POST_def PUT_def DELETE_def auth_routes_def application_routes_def
  toggle_routes_def key_routes_def user_routes_def team_routes_def approval_routes_def audit_routes_def

text \<open>Without a session one reaches the two routes of the secret key and the log-in, and nothing else.\<close>

lemma public_routes:
  "map rt_Handler (filter (\<lambda>r. Session \<notin> set (rt_Guards r)) api_routes) =
     [''GetTogglesBySecret'', ''DisableToggleBySecret'', ''Login'', ''ForgotPassword'', ''Logout'', ''CheckFirstAccess'',
      ''ChangePasswordFirstTime'']"
  by (simp add: api_routes_def route_groups)

text \<open>The session comes first wherever it is.\<close>

lemma session_first: "list_all (\<lambda>r. Session \<in> set (rt_Guards r) \<longrightarrow> hd (rt_Guards r) = Session) api_routes"
  by (simp add: api_routes_def route_groups)



section \<open>the gate on the routes\<close>















































end
