(* ===== verification/Spec2Isabelle.thy ===== *)
theory Spec2Isabelle
  imports SdkLifecycle ToggleTheorems SecretKey ApprovalProps Sessions HttpContext RateLimiter CatalogueSdk KillSwitch
    AuthHandler UserHandler TeamHandler ApprovalHandler Routes
begin

text \<open>
  A verification development for toToggle, a feature-toggle server written in Go (\<open>src/server\<close>) and its Go client
  (\<open>src/totoggle_go\<close>).

  \<^bold>\<open>The program.\<close> The server keeps applications, their toggles (a forest of dotted paths),
  teams, accounts, sessions, secret keys, approval requests and an audit trail in one database. Administrators
  change toggles over HTTP; a gate in front of the handlers turns a change that needs approval into a request, which
  an approver of the team decides and executes. A client polls the catalogue of its application with a secret key,
  caches it, and answers whether a toggle is active for a context: the toggle and the toggles above it are enabled,
  and the toggle's own activation rule holds.

  \<^bold>\<open>The client\<close> (\<open>src/totoggle_go\<close>). \<open>SdkToggle\<close>: paths, rules,
  toggles (\<open>internal/toggle\<close>). \<open>SdkStrategy\<close>: the evaluators of the rules
  (\<open>internal/strategy\<close>), with \<open>Net\<close> for addresses and \<open>GoFloat\<close> for doubles.
  \<open>SdkClient\<close>: configuration, cache, fetch, refresh, back-off and evaluation (\<open>client.go\<close>,
  \<open>config.go\<close>, \<open>metrics.go\<close>, \<open>internal/cache\<close>,
  \<open>internal/serverapi\<close>). \<open>SdkLifecycle\<close>: Start, Refresh, the background loop and Shutdown
  as an \<open>inductive\<close> step relation whose steps are single accesses to shared state.
  \<open>HttpContext\<close>: the context of an HTTP request (\<open>httpcontext\<close>), with
  \<open>NetText\<close> for the texts of addresses. The lemmas say when a toggle is active, what a refresh does on
  each branch, which contexts a rule accepts, that a cleared cache stays cleared after Shutdown, and that untrusted
  headers decide nothing.

  \<^bold>\<open>The server's entities\<close> (\<open>domain/entity\<close>, \<open>domain/policy\<close>).
  \<open>Entity\<close>: errors, validation, rules, toggles, accounts; its properties compare what the server
  accepts with what the client can use, and where the two differ (a second member of a configuration that folds to
  context_key, a padded percentage). \<open>ApprovalEntity\<close>: requests and their status, settings, the access
  policy; the life cycle of a request is a step relation with an invariant by rule induction.

  \<^bold>\<open>The database.\<close> \<open>Store\<close> models a call as a function from a state to an error or
  a value and the new state, and GORM's table as a record of its calls; the locale \<open>gorm_table\<close> states
  their documented behaviour. \<open>Database\<close> adds deletes that fail half-way and transactions (locale
  \<open>transaction\<close>). Every repository is a definition over such records: \<open>ToggleRepo\<close>,
  \<open>SecretKey\<close>, \<open>Team\<close>, \<open>AuditTrail\<close>, \<open>Application\<close>,
  \<open>User\<close> and \<open>ApprovalRepo\<close> (files of \<open>infrastructure/database\<close>). A client of
  a repository sees the locale of its laws (\<open>toggle_repository\<close>, \<open>key_table\<close>,
  \<open>audit_table\<close>, \<open>app_store\<close>, \<open>account_db\<close>, \<open>approval_db\<close>,
  \<open>catalogue_db\<close>, \<open>gate_db\<close>, \<open>directory_db\<close>); a \<open>sublocale\<close>
  derives the laws of the toggle repository from those of its table. \<open>World\<close> keeps all tables in
  memory; there every locale is interpreted on the repositories of the model, and the witnesses run.
  \<open>subtree_walk\<close> is the contract of the three recursions over a subtree (enable, delete, restore).

  \<^bold>\<open>The use cases\<close> (\<open>usecase\<close>). \<open>ToggleUseCase\<close> with
  \<open>ToggleTree\<close>, \<open>ToggleProps\<close>, \<open>ToggleSubtree\<close> and
  \<open>ToggleTheorems\<close>: the table of toggles stays a well-formed forest; creation makes exactly the missing
  prefixes; subtree operations change exactly the subtree; restoring undoes archiving when nothing below was
  archived before, and otherwise can put two live toggles at one path (\<open>restore_duplicates_path\<close>); the
  status is the conjunction along the path, and the listing has every live toggle once, below its parent.
  \<open>SecretKey\<close>: generation, rotation and validation of keys. \<open>Team\<close>,
  \<open>AuditTrail\<close> (pages by cursor, each fetched at its own time, are complete and without repetition for
  page sizes below the largest), \<open>Application\<close> (the transactional delete), \<open>User\<close> and
  \<open>Sessions\<close> (a token authenticates exactly when it names a live session of an active account).
  \<open>Approval\<close>, \<open>Execution\<close>, \<open>Wiring\<close>, \<open>ApprovalSystem\<close> and
  \<open>ApprovalProps\<close>: the approval workflow as a system of calls over one database, with its reachable
  states; nobody executes what another authorised person has not approved.

  \<^bold>\<open>HTTP\<close> (\<open>middleware\<close>, \<open>handler\<close>, \<open>router\<close>).
  \<open>RateLimiter\<close> bounds runs of attempts and resets; \<open>Catalogue\<close>: the handlers behind a
  secret key; \<open>Middleware\<close>: the approval gate; \<open>ToggleHandler\<close>,
  \<open>AuthHandler\<close>, \<open>UserHandler\<close>, \<open>TeamHandler\<close>,
  \<open>ApprovalHandler\<close>, with \<open>Http\<close> for replies, bodies and error texts;
  \<open>Routes\<close>: the route table. A handler is a function of the use cases, the user in the context, the
  parameters and the body to a call that gives a reply. The compositions are in \<open>CatalogueSdk\<close> (a
  client that polls, with failures in between, answers as the server's tables say), \<open>KillSwitch\<close>,
  \<open>Gate\<close> (what the gate stops reaches no handler) and \<open>Routes\<close> (the gate takes every route
  for what its handler does, for the bodies both read alike).

  \<^bold>\<open>Conventions.\<close> Strings are byte strings. Errors are values of a sum type, panics a value of
  their own. Integers the source wraps are words or carry the wrap-around (\<open>wrap64\<close>), durations are
  64-bit. \<open>Prelude\<close> has the string functions of Go's library, \<open>Json\<close> its decoding rules on
  decoded values.

  \<^bold>\<open>Termination.\<close> Recursions are structural or have a measure. The recursions over a subtree
  follow rows of the database, which need not be a forest: they are \<open>partial_function (option)\<close>,
  \<^const>\<open>None\<close> is an infinite recursion, and on a well-formed forest they are shown to return. Fuel
  is used in the parser of IPv6 groups (eight rounds: each reads two bytes of sixteen) and in \<open>Unquote\<close>
  (the length of the string: each round reads a byte).

  \<^bold>\<open>Parameters\<close>, because their code is not in the repository: GORM's tables and transactions
  with the laws of the locales; bcrypt and the random source; the texts of library errors; the HTTP transport; gin's
  matching of routes to paths. sha256, the clock (read once per call), the texts of numbers and JSON texts are
  parameters, too.

  \<^bold>\<open>Not modelled.\<close> Start-up, configuration, logging, migrations and probes are input and output
  around library calls; security headers and static files are constants sent to a browser;
  \<open>usecase/mocks.go\<close> and the stress-test runner are not part of the program; the global functions of
  \<open>handler/init.go\<close> only forward (its wiring is modelled). Of the entities, time stamps other than
  those compared, display names and preloaded associations are left out. The clients in other languages and the web
  pages are other programs.
\<close>

end
